(* ===== verification/Program_Values.thy ===== *)
theory Program_Values
  imports Prelude
begin

text \<open>
  The value nodes of \<^verbatim>\<open>core/vnext/program_types.py\<close> (project format 6): their
  constructors, the traversals over them, the type a node carries and the field
  validators (identifier syntax, bounds, selector bindings).

  A pydantic model class is a constructor with the class's fields in order. A Python
  \<^verbatim>\<open>str\<close> is a \<^typ>\<open>string\<close>, one \<^typ>\<open>char\<close> per character; a finite float is the
  rational number it denotes (the models refuse NaN and infinities); a
  \<^verbatim>\<open>dict\<close> field is an association list in insertion order; dates and times
  are their ISO texts.
\<close>

type_synonym stable_id = string
type_synonym type_id = string

section \<open>JSON payloads and numbers\<close>

datatype json =
    JNull
  | JBool bool
  | JInt int
  | JFloat rat
  | JString string
  | JList "json list"
  | JObject "(string \<times> json) list"

datatype number = IntNumber int | FloatNumber rat

fun number_value :: "number \<Rightarrow> rat" where
  "number_value (IntNumber i) = of_int i"
| "number_value (FloatNumber q) = q"

record point_literal =
  pl_x :: number
  pl_y :: number

section \<open>Value nodes\<close>

datatype binding_role = RoleItem | RoleIndex | RoleKey | RoleValue

record selector_binding =
  sb_symbol_id :: stable_id
  sb_role :: binding_role
  sb_display_name :: string
  sb_value_type :: type_id

datatype compare_operator = OpEq | OpNe | OpLt | OpLte | OpGt | OpGte

datatype group_operator = GroupAll | GroupAny

datatype value_node =
    UnsetValue (value_id: stable_id) type_id
  | NullValue (value_id: stable_id)
  | StringValue (value_id: stable_id) string
  | IntValue (value_id: stable_id) int
  | FloatValue (value_id: stable_id) rat
  | BoolValue (value_id: stable_id) bool
  | DateValue (value_id: stable_id) string
  | DateTimeValue (value_id: stable_id) string
  | TimeValue (value_id: stable_id) string
  | DurationValue (value_id: stable_id) int
  | PointValue (value_id: stable_id) number number
  | RectValue (value_id: stable_id) number number number number
  | PathValue (value_id: stable_id) "point_literal list"
  | SymbolReferenceValue (value_id: stable_id) stable_id type_id
  | ProjectVariableReferenceValue (value_id: stable_id) stable_id type_id
  | AssetReferenceValue (value_id: stable_id) stable_id type_id
  | TargetReferenceValue (value_id: stable_id) stable_id
  | EntityReferenceValue (value_id: stable_id) stable_id type_id
  | MemberAccessValue (value_id: stable_id) value_node stable_id type_id
  | ListValue (value_id: stable_id) type_id "value_node list"
  | MapValue (value_id: stable_id) type_id type_id "(value_node \<times> value_node) list"
  | RecordValue (value_id: stable_id) type_id "(stable_id \<times> value_node) list"
  | JsonValue (value_id: stable_id) json
  | PureOperationValue (value_id: stable_id) stable_id type_id "(stable_id \<times> value_node) list"
  | SelectorValue (value_id: stable_id) "selector_binding list" type_id value_node
  | ComparisonValue (value_id: stable_id) compare_operator value_node value_node
  | ConditionGroupValue (value_id: stable_id) group_operator "value_node list"
  | NotValue (value_id: stable_id) value_node

fun iter_value_children :: "value_node \<Rightarrow> value_node list" where
  "iter_value_children (MemberAccessValue _ source _ _) = [source]"
| "iter_value_children (ListValue _ _ items) = items"
| "iter_value_children (MapValue _ _ _ entries) = concat (map (\<lambda>(k, v). [k, v]) entries)"
| "iter_value_children (RecordValue _ _ flds) = map snd flds"
| "iter_value_children (PureOperationValue _ _ _ inputs) = map snd inputs"
| "iter_value_children (SelectorValue _ _ _ expression) = [expression]"
| "iter_value_children (ComparisonValue _ _ left right) = [left, right]"
| "iter_value_children (ConditionGroupValue _ _ conditions) = conditions"
| "iter_value_children (NotValue _ condition) = [condition]"
| "iter_value_children _ = []"

lemma value_child_size: "c \<in> set (iter_value_children v) \<Longrightarrow> size c < size v"
proof (induction v rule: iter_value_children.induct)
  case (2 i t items)
  then show ?case by (auto dest: size_list_estimation' [where f = size, OF _ order_refl])
next
  case (3 i t u entries)
  then obtain k w where e: "(k, w) \<in> set entries" "c = k \<or> c = w" by auto
  have "size_prod size size (k, w) \<le> size_list (size_prod size size) entries"
    using e(1) by (rule size_list_estimation') simp
  then show ?case using e(2) by auto
next
  case (4 i t flds)
  then obtain k where "(k, c) \<in> set flds" by auto
  then have "size_prod (\<lambda>_. 0) size (k, c) \<le> size_list (size_prod (\<lambda>_. 0) size) flds"
    by (rule size_list_estimation') simp
  then show ?case by simp
next
  case (5 i op t inputs)
  then obtain k where "(k, c) \<in> set inputs" by auto
  then have "size_prod (\<lambda>_. 0) size (k, c) \<le> size_list (size_prod (\<lambda>_. 0) size) inputs"
    by (rule size_list_estimation') simp
  then show ?case by simp
next
  case (8 i op conditions)
  then show ?case by (auto dest: size_list_estimation' [where f = size, OF _ order_refl])
qed auto

text \<open>A value node and everything below it, parents first.\<close>

function iter_value_tree :: "value_node \<Rightarrow> value_node list" where
  "iter_value_tree v = v # concat (map iter_value_tree (iter_value_children v))"
  by pat_completeness auto
termination
  by (relation "measure size") (auto simp: value_child_size)

declare iter_value_tree.simps [simp del]

section \<open>Validators of value nodes\<close>

definition is_letter :: "char \<Rightarrow> bool" where
  "is_letter c \<longleftrightarrow> (let n = of_char c :: nat in (65 \<le> n \<and> n \<le> 90) \<or> (97 \<le> n \<and> n \<le> 122))"

definition is_digit :: "char \<Rightarrow> bool" where
  "is_digit c \<longleftrightarrow> (let n = of_char c :: nat in 48 \<le> n \<and> n \<le> 57)"

text \<open>\<^verbatim>\<open>StableId\<close>: 1 to 160 characters, a letter, then letters, digits, \<open>_\<close>, \<open>.\<close> or \<open>-\<close>.\<close>

definition stable_id_ok :: "stable_id \<Rightarrow> bool" where
  "stable_id_ok s \<longleftrightarrow> length s \<le> 160 \<and>
     (case s of [] \<Rightarrow> False
      | c # cs \<Rightarrow> is_letter c \<and> list_all (\<lambda>d. is_letter d \<or> is_digit d \<or> d \<in> {CHR ''_'', CHR ''.'', CHR ''-''}) cs)"

definition display_name_ok :: "string \<Rightarrow> bool" where
  "display_name_ok s \<longleftrightarrow> 1 \<le> length s \<and> length s \<le> 160"

definition type_id_ok :: "type_id \<Rightarrow> bool" where
  "type_id_ok s \<longleftrightarrow> 1 \<le> length s \<and> length s \<le> 240"

definition role_type :: "binding_role \<Rightarrow> selector_binding list \<Rightarrow> type_id option" where
  "role_type r bs = map_option sb_value_type (List.find (\<lambda>b. sb_role b = r) (rev bs))"

text \<open>\<^verbatim>\<open>SelectorValue.validate_binding_roles\<close> and the bounds on the tuple.\<close>

definition selector_bindings_ok :: "selector_binding list \<Rightarrow> bool" where
  "selector_bindings_ok bs \<longleftrightarrow>
     1 \<le> length bs \<and> length bs \<le> 2 \<and>
     list_all (\<lambda>b. stable_id_ok (sb_symbol_id b) \<and> display_name_ok (sb_display_name b) \<and> type_id_ok (sb_value_type b)) bs \<and>
     distinct (map sb_role bs) \<and>
     (set (map sb_role bs) = {RoleItem, RoleIndex} \<or> set (map sb_role bs) = {RoleKey, RoleValue}) \<and>
     (case role_type RoleIndex bs of None \<Rightarrow> True | Some t \<Rightarrow> t = ''int64'')"

text \<open>The constraints a model class puts on its own fields, children aside.\<close>

fun value_fields_ok :: "value_node \<Rightarrow> bool" where
  "value_fields_ok (UnsetValue _ t) \<longleftrightarrow> type_id_ok t"
| "value_fields_ok (DurationValue _ ms) \<longleftrightarrow> 0 \<le> ms"
| "value_fields_ok (RectValue _ _ _ w h) \<longleftrightarrow> 0 \<le> number_value w \<and> 0 \<le> number_value h"
| "value_fields_ok (PathValue _ points) \<longleftrightarrow> points \<noteq> []"
| "value_fields_ok (SymbolReferenceValue _ s t) \<longleftrightarrow> stable_id_ok s \<and> type_id_ok t"
| "value_fields_ok (ProjectVariableReferenceValue _ s t) \<longleftrightarrow> stable_id_ok s \<and> type_id_ok t"
| "value_fields_ok (AssetReferenceValue _ s t) \<longleftrightarrow> stable_id_ok s \<and> type_id_ok t"
| "value_fields_ok (TargetReferenceValue _ s) \<longleftrightarrow> stable_id_ok s"
| "value_fields_ok (EntityReferenceValue _ s t) \<longleftrightarrow> stable_id_ok s \<and> type_id_ok t"
| "value_fields_ok (MemberAccessValue _ _ f t) \<longleftrightarrow> stable_id_ok f \<and> type_id_ok t"
| "value_fields_ok (ListValue _ t _) \<longleftrightarrow> type_id_ok t"
| "value_fields_ok (MapValue _ k v _) \<longleftrightarrow> type_id_ok k \<and> type_id_ok v"
| "value_fields_ok (RecordValue _ t flds) \<longleftrightarrow>
     type_id_ok t \<and> list_all stable_id_ok (map fst flds) \<and> distinct (map fst flds)"
| "value_fields_ok (PureOperationValue _ op t inputs) \<longleftrightarrow>
     stable_id_ok op \<and> type_id_ok t \<and> list_all stable_id_ok (map fst inputs) \<and> distinct (map fst inputs)"
| "value_fields_ok (SelectorValue _ bs t _) \<longleftrightarrow> selector_bindings_ok bs \<and> type_id_ok t"
| "value_fields_ok (ConditionGroupValue _ _ conditions) \<longleftrightarrow> conditions \<noteq> []"
| "value_fields_ok _ \<longleftrightarrow> True"

definition value_ok :: "value_node \<Rightarrow> bool" where
  "value_ok v \<longleftrightarrow> list_all (\<lambda>n. stable_id_ok (value_id n) \<and> value_fields_ok n) (iter_value_tree v)"

section \<open>The type of a value node\<close>

definition angle :: "string \<Rightarrow> string \<Rightarrow> type_id" where
  "angle name inner = name @ ''<'' @ inner @ ''>''"

text \<open>
  A selector that passed its validator binds either item and index or key and value, so
  the two lookups below hit; \<^verbatim>\<open>by_role[...]\<close> would raise otherwise.
\<close>

definition selector_type :: "selector_binding list \<Rightarrow> type_id \<Rightarrow> type_id" where
  "selector_type bs result =
     (let ty = (\<lambda>r. case role_type r bs of None \<Rightarrow> [] | Some t \<Rightarrow> t)
      in if set (map sb_role bs) = {RoleItem, RoleIndex}
         then angle ''list_selector'' (ty RoleItem @ '','' @ result)
         else angle ''map_selector'' (ty RoleKey @ '','' @ ty RoleValue @ '','' @ result))"

fun value_type :: "value_node \<Rightarrow> type_id" where
  "value_type (UnsetValue _ t) = t"
| "value_type (NullValue _) = ''null''"
| "value_type (StringValue _ _) = ''string''"
| "value_type (IntValue _ _) = ''int64''"
| "value_type (FloatValue _ _) = ''float64''"
| "value_type (BoolValue _ _) = ''bool''"
| "value_type (DateValue _ _) = ''date''"
| "value_type (DateTimeValue _ _) = ''datetime''"
| "value_type (TimeValue _ _) = ''time''"
| "value_type (DurationValue _ _) = ''duration''"
| "value_type (PointValue _ _ _) = ''point''"
| "value_type (RectValue _ _ _ _ _) = ''rect''"
| "value_type (PathValue _ _) = ''path''"
| "value_type (SymbolReferenceValue _ _ t) = t"
| "value_type (ProjectVariableReferenceValue _ _ t) = t"
| "value_type (AssetReferenceValue _ _ k) = angle ''asset_ref'' k"
| "value_type (TargetReferenceValue _ _) = ''target_ref''"
| "value_type (EntityReferenceValue _ _ t) = t"
| "value_type (MemberAccessValue _ _ _ t) = t"
| "value_type (PureOperationValue _ _ t _) = t"
| "value_type (SelectorValue _ bs t _) = selector_type bs t"
| "value_type (ListValue _ t _) = angle ''list'' t"
| "value_type (MapValue _ k v _) = angle ''map'' (k @ '','' @ v)"
| "value_type (RecordValue _ t _) = t"
| "value_type (JsonValue _ _) = ''json_value''"
| "value_type (ComparisonValue _ _ _ _) = ''bool''"
| "value_type (ConditionGroupValue _ _ _) = ''bool''"
| "value_type (NotValue _ _) = ''bool''"

section \<open>Traversal facts\<close>

lemma iter_value_tree_self [simp, intro]: "v \<in> set (iter_value_tree v)"
  by (subst iter_value_tree.simps) simp

lemma set_iter_value_tree:
  "set (iter_value_tree v) = insert v (\<Union>c \<in> set (iter_value_children v). set (iter_value_tree c))"
  by (subst iter_value_tree.simps) simp

lemma value_tree_induct [case_names node]:
  assumes "\<And>v. (\<And>c. c \<in> set (iter_value_children v) \<Longrightarrow> P c) \<Longrightarrow> P v"
  shows "P v"
  by (induction v rule: iter_value_tree.induct) (rule assms)

lemma iter_value_tree_trans:
  "w \<in> set (iter_value_tree v) \<Longrightarrow> x \<in> set (iter_value_tree w) \<Longrightarrow> x \<in> set (iter_value_tree v)"
proof (induction v rule: value_tree_induct)
  case (node v)
  show ?case
  proof (cases "w = v")
    case True
    with node.prems show ?thesis by simp
  next
    case False
    with node.prems(1) obtain c where "c \<in> set (iter_value_children v)" "w \<in> set (iter_value_tree c)"
      by (auto simp: set_iter_value_tree [of v])
    with node.IH node.prems(2) show ?thesis by (auto simp: set_iter_value_tree [of v])
  qed
qed

lemma value_ok_child:
  "value_ok v \<Longrightarrow> c \<in> set (iter_value_children v) \<Longrightarrow> value_ok c"
  by (auto simp: value_ok_def list_all_iff set_iter_value_tree [of v])

end
