(* ===== verification/Program_Types.thy ===== *)
theory Program_Types
  imports Program_Values
begin

text \<open>
  Statements, functions and documents of \<^verbatim>\<open>core/vnext/program_types.py\<close>: the
  eleven statement kinds, the child blocks of a statement, the preorder walk
  over a block, the model validators of a document and the uniqueness of its stable
  identifiers (\<^verbatim>\<open>ProgramDocument.validate_stable_id_uniqueness\<close>).
\<close>

section \<open>Bindings, targets and statements\<close>

record loop_binding =
  lb_symbol_id :: stable_id
  lb_display_name :: string
  lb_value_type :: type_id

record result_binding =
  rb_symbol_id :: stable_id
  rb_display_name :: string
  rb_value_type :: type_id
  rb_declare :: bool

datatype assignment_target =
    LocalAssignmentTarget stable_id string type_id bool
  | ProjectVariableAssignmentTarget stable_id type_id

record message_event_source =
  es_name :: value_node
  es_sender :: "value_node option"

text \<open>\<^verbatim>\<open>transient_only\<close> is the literal \<^verbatim>\<open>True\<close>.\<close>

record retry_policy =
  rp_max_retries :: value_node
  rp_interval :: value_node
  rp_author_review_fingerprint :: "string option"

datatype loop_mode = ModeRepeat | ModeWhile | ModeForEach | ModeForEachMap

text \<open>The fields \<^verbatim>\<open>step_label\<close> come last in every constructor.\<close>

datatype statement =
    CallStatement (statement_id: stable_id) stable_id "(stable_id \<times> value_node) list"
      "result_binding option" "string option" (step_label: "string option")
  | AssignmentStatement (statement_id: stable_id) assignment_target value_node
      (step_label: "string option")
  | IfStatement (statement_id: stable_id) value_node "statement list" "conditional_branch list"
      "statement list" (step_label: "string option")
  | LoopStatement (statement_id: stable_id) loop_mode value_node "statement list"
      "loop_binding option" "loop_binding option" "loop_binding option" "loop_binding option"
      (step_label: "string option")
  | BreakStatement (statement_id: stable_id) (step_label: "string option")
  | ContinueStatement (statement_id: stable_id) (step_label: "string option")
  | ReturnStatement (statement_id: stable_id) "value_node option" (step_label: "string option")
  | FailStatement (statement_id: stable_id) stable_id value_node "value_node option"
      (step_label: "string option")
  | TryStatement (statement_id: stable_id) "statement list" "retry_policy option"
      "catch_clause list" "statement list" (step_label: "string option")
  | TargetScopeStatement (statement_id: stable_id) value_node "statement list"
      (step_label: "string option")
  | ListenStatement (statement_id: stable_id) message_event_source loop_binding
      "value_node option" stable_id "(stable_id \<times> value_node) list"
      (step_label: "string option")
and conditional_branch =
    ConditionalBranch (branch_id: stable_id) (branch_condition: value_node)
      (branch_statements: "statement list")
and catch_clause =
    CatchClause (catch_id: stable_id) (catch_error_ids: "stable_id list")
      (catch_error_binding: "loop_binding option") (catch_statements: "statement list")

record program_parameter =
  pp_parameter_id :: stable_id
  pp_symbol_id :: stable_id
  pp_display_name :: string
  pp_value_type :: type_id
  pp_required :: bool
  pp_default_value :: "value_node option"

record program_function =
  fn_function_id :: stable_id
  fn_display_name :: string
  fn_parameters :: "program_parameter list"
  fn_return_type :: type_id
  fn_statements :: "statement list"

record program_document =
  doc_document_id :: stable_id
  doc_function :: program_function

abbreviation doc_statements :: "program_document \<Rightarrow> statement list" where
  "doc_statements d \<equiv> fn_statements (doc_function d)"

abbreviation doc_set_statements :: "statement list \<Rightarrow> program_document \<Rightarrow> program_document" where
  "doc_set_statements ss d \<equiv> d\<lparr>doc_function := (doc_function d)\<lparr>fn_statements := ss\<rparr>\<rparr>"

section \<open>Child blocks and the preorder walk\<close>

fun statement_child_blocks :: "statement \<Rightarrow> statement list list" where
  "statement_child_blocks (IfStatement _ _ then_statements branches otherwise _) =
     then_statements # map branch_statements branches @ [otherwise]"
| "statement_child_blocks (LoopStatement _ _ _ body _ _ _ _ _) = [body]"
| "statement_child_blocks (TryStatement _ body _ catches finally_statements _) =
     body # map catch_statements catches @ [finally_statements]"
| "statement_child_blocks (TargetScopeStatement _ _ body _) = [body]"
| "statement_child_blocks _ = []"

lemma child_block_size:
  "b \<in> set (statement_child_blocks s) \<Longrightarrow> size_list size b < size s"
proof (induction s rule: statement_child_blocks.induct)
  case (1 i c th branches oth l)
  have "size_list size (branch_statements br) < size br" for br by (cases br) simp
  then have "size_list size (branch_statements br) \<le> size_list size branches"
    if "br \<in> set branches" for br
    using that by (meson less_imp_le_nat order_trans size_list_estimation')
  with 1 show ?case by fastforce
next
  case (3 i body rp catches fin l)
  have "size_list size (catch_statements c) < size c" for c by (cases c) simp
  then have "size_list size (catch_statements c) \<le> size_list size catches"
    if "c \<in> set catches" for c
    using that by (meson less_imp_le_nat order_trans size_list_estimation')
  with 3 show ?case by fastforce
qed auto

function iter_statement_tree :: "statement list \<Rightarrow> statement list" where
  "iter_statement_tree [] = []"
| "iter_statement_tree (s # ss) =
     s # concat (map iter_statement_tree (statement_child_blocks s)) @ iter_statement_tree ss"
  by pat_completeness auto
termination
  by (relation "measure (size_list size)") (auto dest: child_block_size)

text \<open>Every proof about a block and everything below it goes by this induction.\<close>

lemma forest_induct [case_names Nil Cons]:
  assumes "P []"
    and "\<And>s ss. (\<And>b. b \<in> set (statement_child_blocks s) \<Longrightarrow> P b) \<Longrightarrow> P ss \<Longrightarrow> P (s # ss)"
  shows "P ss"
  by (induction ss rule: iter_statement_tree.induct) (auto intro: assms)

lemma iter_statement_tree_append [simp]:
  "iter_statement_tree (xs @ ys) = iter_statement_tree xs @ iter_statement_tree ys"
  by (induction xs) simp_all

lemma set_iter_statement_tree:
  "set (iter_statement_tree ss) =
     (\<Union>s \<in> set ss. insert s (\<Union>b \<in> set (statement_child_blocks s). set (iter_statement_tree b)))"
  by (induction ss) simp_all

lemma iter_statement_tree_top [intro]: "s \<in> set ss \<Longrightarrow> s \<in> set (iter_statement_tree ss)"
  by (induction ss) auto

lemma iter_statement_tree_child:
  assumes "s \<in> set (iter_statement_tree ss)" "b \<in> set (statement_child_blocks s)"
    "t \<in> set (iter_statement_tree b)"
  shows "t \<in> set (iter_statement_tree ss)"
  using assms
proof (induction ss rule: forest_induct)
  case Nil
  then show ?case by simp
next
  case (Cons s' ss)
  consider "s = s'" | c where "c \<in> set (statement_child_blocks s')" "s \<in> set (iter_statement_tree c)"
    | "s \<in> set (iter_statement_tree ss)"
    using Cons.prems(1) by auto
  then show ?case
  proof cases
    case 1
    with Cons.prems show ?thesis by auto
  next
    case 2
    with Cons.IH(1) Cons.prems have "t \<in> set (iter_statement_tree c)" by blast
    with 2 show ?thesis by auto
  next
    case 3
    with Cons.IH(2) Cons.prems show ?thesis by simp
  qed
qed

section \<open>The value roots of a statement\<close>

definition opt_list :: "'a option \<Rightarrow> 'a list" where
  "opt_list x = (case x of None \<Rightarrow> [] | Some v \<Rightarrow> [v])"

lemma opt_list_simps [simp]: "opt_list None = []" "opt_list (Some v) = [v]"
  by (simp_all add: opt_list_def)

lemma set_opt_list [simp]: "set (opt_list x) = set_option x"
  by (cases x) simp_all

fun statement_value_roots :: "statement \<Rightarrow> value_node list" where
  "statement_value_roots (CallStatement _ _ args _ _ _) = map snd args"
| "statement_value_roots (AssignmentStatement _ _ v _) = [v]"
| "statement_value_roots (IfStatement _ c _ branches _ _) = c # map branch_condition branches"
| "statement_value_roots (LoopStatement _ _ source _ _ _ _ _ _) = [source]"
| "statement_value_roots (ReturnStatement _ v _) = opt_list v"
| "statement_value_roots (FailStatement _ _ msg details _) = msg # opt_list details"
| "statement_value_roots (TryStatement _ _ rp _ _ _) =
     (case rp of None \<Rightarrow> [] | Some r \<Rightarrow> [rp_max_retries r, rp_interval r])"
| "statement_value_roots (TargetScopeStatement _ target _ _) = [target]"
| "statement_value_roots (ListenStatement _ src _ cond _ args _) =
     es_name src # opt_list (es_sender src) @ opt_list cond @ map snd args"
| "statement_value_roots _ = []"

section \<open>Stable identifiers of a document\<close>

fun node_ids :: "value_node \<Rightarrow> stable_id list" where
  "node_ids (SelectorValue i bs _ _) = i # map sb_symbol_id bs"
| "node_ids v = [value_id v]"

definition value_ids :: "value_node \<Rightarrow> stable_id list" where
  "value_ids v = concat (map node_ids (iter_value_tree v))"

definition result_binding_ids :: "result_binding option \<Rightarrow> stable_id list" where
  "result_binding_ids b = (case b of None \<Rightarrow> [] | Some r \<Rightarrow> if rb_declare r then [rb_symbol_id r] else [])"

fun target_ids :: "assignment_target \<Rightarrow> stable_id list" where
  "target_ids (LocalAssignmentTarget s _ _ d) = (if d then [s] else [])"
| "target_ids (ProjectVariableAssignmentTarget _ _) = []"

text \<open>What \<^verbatim>\<open>visit_statement\<close> remembers for one statement, its child blocks aside.\<close>

fun statement_declared_ids :: "statement \<Rightarrow> stable_id list" where
  "statement_declared_ids (CallStatement _ _ _ rb _ _) = result_binding_ids rb"
| "statement_declared_ids (AssignmentStatement _ t _ _) = target_ids t"
| "statement_declared_ids (IfStatement _ _ _ branches _ _) = map branch_id branches"
| "statement_declared_ids (LoopStatement _ _ _ _ item idx key val _) =
     map lb_symbol_id (opt_list item @ opt_list idx @ opt_list key @ opt_list val)"
| "statement_declared_ids (TryStatement _ _ _ catches _ _) =
     concat (map (\<lambda>c. catch_id c # map lb_symbol_id (opt_list (catch_error_binding c))) catches)"
| "statement_declared_ids (ListenStatement _ _ rb _ _ _ _) = [lb_symbol_id rb]"
| "statement_declared_ids _ = []"

definition statement_ids :: "statement \<Rightarrow> stable_id list" where
  "statement_ids s =
     statement_id s # concat (map value_ids (statement_value_roots s)) @ statement_declared_ids s"

definition block_ids :: "statement list \<Rightarrow> stable_id list" where
  "block_ids ss = concat (map statement_ids (iter_statement_tree ss))"

definition parameter_ids :: "program_parameter \<Rightarrow> stable_id list" where
  "parameter_ids p = pp_parameter_id p # pp_symbol_id p #
     concat (map value_ids (opt_list (pp_default_value p)))"

definition document_ids :: "program_document \<Rightarrow> stable_id list" where
  "document_ids d =
     doc_document_id d # fn_function_id (doc_function d) #
     concat (map parameter_ids (fn_parameters (doc_function d))) @ block_ids (doc_statements d)"

text \<open>
  \<^verbatim>\<open>remember\<close> raises on the first identifier seen twice, so the validator
  passes exactly when all remembered identifiers differ.
\<close>

definition stable_ids_unique :: "program_document \<Rightarrow> bool" where
  "stable_ids_unique d \<longleftrightarrow> distinct (document_ids d)"

section \<open>Model validators\<close>

definition loop_binding_ok :: "loop_binding \<Rightarrow> bool" where
  "loop_binding_ok b \<longleftrightarrow>
     stable_id_ok (lb_symbol_id b) \<and> display_name_ok (lb_display_name b) \<and> type_id_ok (lb_value_type b)"

definition result_binding_ok :: "result_binding \<Rightarrow> bool" where
  "result_binding_ok b \<longleftrightarrow>
     stable_id_ok (rb_symbol_id b) \<and> display_name_ok (rb_display_name b) \<and> type_id_ok (rb_value_type b)"

fun target_ok :: "assignment_target \<Rightarrow> bool" where
  "target_ok (LocalAssignmentTarget s n t _) \<longleftrightarrow> stable_id_ok s \<and> display_name_ok n \<and> type_id_ok t"
| "target_ok (ProjectVariableAssignmentTarget s t) \<longleftrightarrow> stable_id_ok s \<and> type_id_ok t"

definition arguments_ok :: "(stable_id \<times> value_node) list \<Rightarrow> bool" where
  "arguments_ok args \<longleftrightarrow> list_all stable_id_ok (map fst args) \<and> distinct (map fst args)"

text \<open>\<^verbatim>\<open>LoopStatement.validate_bindings\<close>.\<close>

definition loop_bindings_ok ::
  "loop_mode \<Rightarrow> loop_binding option \<Rightarrow> loop_binding option \<Rightarrow> loop_binding option \<Rightarrow> loop_binding option \<Rightarrow> bool" where
  "loop_bindings_ok m item idx key val \<longleftrightarrow>
     (m = ModeForEach \<longrightarrow> item \<noteq> None) \<and>
     (m = ModeForEachMap \<longrightarrow> key \<noteq> None \<and> val \<noteq> None) \<and>
     (m \<in> {ModeRepeat, ModeWhile} \<longrightarrow> item = None \<and> idx = None \<and> key = None \<and> val = None)"

fun statement_fields_ok :: "statement \<Rightarrow> bool" where
  "statement_fields_ok (CallStatement _ f args rb _ _) \<longleftrightarrow>
     stable_id_ok f \<and> arguments_ok args \<and> list_all result_binding_ok (opt_list rb)"
| "statement_fields_ok (AssignmentStatement _ t _ _) \<longleftrightarrow> target_ok t"
| "statement_fields_ok (IfStatement _ _ _ branches _ _) \<longleftrightarrow>
     list_all (\<lambda>b. stable_id_ok (branch_id b)) branches"
| "statement_fields_ok (LoopStatement _ m _ _ item idx key val _) \<longleftrightarrow>
     list_all loop_binding_ok (opt_list item @ opt_list idx @ opt_list key @ opt_list val) \<and>
     loop_bindings_ok m item idx key val"
| "statement_fields_ok (FailStatement _ e _ _ _) \<longleftrightarrow> stable_id_ok e"
| "statement_fields_ok (TryStatement _ _ _ catches _ _) \<longleftrightarrow>
     list_all (\<lambda>c. stable_id_ok (catch_id c) \<and> list_all stable_id_ok (catch_error_ids c) \<and>
       list_all loop_binding_ok (opt_list (catch_error_binding c))) catches"
| "statement_fields_ok (ListenStatement _ _ rb _ h args _) \<longleftrightarrow>
     loop_binding_ok rb \<and> stable_id_ok h \<and> arguments_ok args"
| "statement_fields_ok _ \<longleftrightarrow> True"

definition statement_ok :: "statement \<Rightarrow> bool" where
  "statement_ok s \<longleftrightarrow>
     stable_id_ok (statement_id s) \<and> statement_fields_ok s \<and> list_all value_ok (statement_value_roots s)"

definition parameter_ok :: "program_parameter \<Rightarrow> bool" where
  "parameter_ok p \<longleftrightarrow>
     stable_id_ok (pp_parameter_id p) \<and> stable_id_ok (pp_symbol_id p) \<and>
     display_name_ok (pp_display_name p) \<and> type_id_ok (pp_value_type p) \<and>
     list_all value_ok (opt_list (pp_default_value p))"

definition function_ok :: "program_function \<Rightarrow> bool" where
  "function_ok f \<longleftrightarrow>
     stable_id_ok (fn_function_id f) \<and> display_name_ok (fn_display_name f) \<and>
     type_id_ok (fn_return_type f) \<and> list_all parameter_ok (fn_parameters f) \<and>
     list_all statement_ok (iter_statement_tree (fn_statements f))"

text \<open>\<^verbatim>\<open>ProgramDocument.model_validate\<close> accepts a document.\<close>

definition model_validate :: "program_document \<Rightarrow> bool" where
  "model_validate d \<longleftrightarrow>
     stable_id_ok (doc_document_id d) \<and> function_ok (doc_function d) \<and> stable_ids_unique d"

definition create_program_document ::
  "string \<Rightarrow> stable_id \<Rightarrow> stable_id \<Rightarrow> program_document" where
  "create_program_document display_name function_id document_id =
     \<lparr>doc_document_id = document_id,
      doc_function = \<lparr>fn_function_id = function_id, fn_display_name = display_name,
        fn_parameters = [], fn_return_type = ''null'', fn_statements = []\<rparr>\<rparr>"

end
