(* ===== verification/Statement_Edit.thy ===== *)
theory Statement_Edit
  imports Program_Types
begin

text \<open>
  Where the structural commands of \<^verbatim>\<open>core/vnext/program_commands.py\<close> work: the
  forest of statements, searched in preorder and edited inside one block. The code keeps
  a cursor, a reference to the list that holds the statement; here a cursor holds the
  path to that list, the pairs of a statement's index and the index of its child block.
\<close>

section \<open>Replacing the child blocks of a statement\<close>

fun set_branch_statements :: "conditional_branch \<Rightarrow> statement list \<Rightarrow> conditional_branch" where
  "set_branch_statements (ConditionalBranch i c _) ss = ConditionalBranch i c ss"

fun set_catch_statements :: "catch_clause \<Rightarrow> statement list \<Rightarrow> catch_clause" where
  "set_catch_statements (CatchClause i es b _) ss = CatchClause i es b ss"

fun set_child_blocks :: "statement list list \<Rightarrow> statement \<Rightarrow> statement" where
  "set_child_blocks bs (IfStatement i c _ branches _ l) =
     IfStatement i c (hd bs) (map2 set_branch_statements branches (butlast (tl bs))) (last bs) l"
| "set_child_blocks bs (LoopStatement i m src _ item idx key val l) =
     LoopStatement i m src (hd bs) item idx key val l"
| "set_child_blocks bs (TryStatement i _ rp catches _ l) =
     TryStatement i (hd bs) rp (map2 set_catch_statements catches (butlast (tl bs))) (last bs) l"
| "set_child_blocks bs (TargetScopeStatement i t _ l) = TargetScopeStatement i t (hd bs) l"
| "set_child_blocks bs s = s"

lemma branch_accessors [simp]:
  "branch_statements (set_branch_statements b ss) = ss"
  "branch_id (set_branch_statements b ss) = branch_id b"
  "branch_condition (set_branch_statements b ss) = branch_condition b"
  "set_branch_statements (set_branch_statements b ss) ss' = set_branch_statements b ss'"
  "set_branch_statements b (branch_statements b) = b"
  by (cases b; simp)+

lemma catch_accessors [simp]:
  "catch_statements (set_catch_statements c ss) = ss"
  "catch_id (set_catch_statements c ss) = catch_id c"
  "catch_error_ids (set_catch_statements c ss) = catch_error_ids c"
  "catch_error_binding (set_catch_statements c ss) = catch_error_binding c"
  "set_catch_statements (set_catch_statements c ss) ss' = set_catch_statements c ss'"
  "set_catch_statements c (catch_statements c) = c"
  by (cases c; simp)+

lemma map2_accessor:
  "length xs = length ys \<Longrightarrow> (\<And>x y. f (g x y) = h x) \<Longrightarrow> map f (map2 g xs ys) = map h xs"
  by (induction xs ys rule: list_induct2) simp_all

lemma map2_second:
  "length xs = length ys \<Longrightarrow> (\<And>x y. f (g x y) = y) \<Longrightarrow> map f (map2 g xs ys) = ys"
  by (induction xs ys rule: list_induct2) simp_all

lemma map2_twice:
  "length xs = length ys \<Longrightarrow> length ys = length zs \<Longrightarrow> (\<And>x y z. g (g x y) z = g x z) \<Longrightarrow>
     map2 g (map2 g xs ys) zs = map2 g xs zs"
  by (induction xs ys zs rule: list_induct3) simp_all

lemma map2_self: "(\<And>x. g x (f x) = x) \<Longrightarrow> map2 g xs (map f xs) = xs"
  by (induction xs) simp_all

text \<open>Three-part lists: the shape of the blocks of an \<open>if\<close> and of a \<open>try\<close>.\<close>

lemma three_parts:
  assumes "length bs = Suc (Suc n)"
  obtains a ms z where "bs = a # ms @ [z]" "length ms = n"
proof -
  from assms obtain a r where r: "bs = a # r" "length r = Suc n" by (cases bs) auto
  then have "r = butlast r @ [last r]" by (metis append_butlast_last_id list.size(3) nat.distinct(1))
  with r that [of a "butlast r" "last r"] show thesis by simp
qed

lemma child_blocks_set [simp]:
  assumes "length bs = length (statement_child_blocks s)"
  shows "statement_child_blocks (set_child_blocks bs s) = bs"
proof (cases s)
  case (IfStatement i c th branches oth l)
  then obtain a ms z where bs: "bs = a # ms @ [z]" "length ms = length branches"
    using assms three_parts [of bs "length branches"] by auto
  then show ?thesis using IfStatement by (simp add: butlast_append map2_second del: map_map)
next
  case (TryStatement i body rp catches fin l)
  then obtain a ms z where bs: "bs = a # ms @ [z]" "length ms = length catches"
    using assms three_parts [of bs "length catches"] by auto
  then show ?thesis using TryStatement by (simp add: butlast_append map2_second del: map_map)
qed (use assms in \<open>auto simp: length_Suc_conv\<close>)

lemma set_child_blocks_self [simp]: "set_child_blocks (statement_child_blocks s) s = s"
  by (cases s) (simp_all add: butlast_append map2_self)

lemma set_child_blocks_twice [simp]:
  assumes "length bs = length (statement_child_blocks s)" "length cs = length (statement_child_blocks s)"
  shows "set_child_blocks cs (set_child_blocks bs s) = set_child_blocks cs s"
proof (cases s)
  case (IfStatement i c th branches oth l)
  with assms obtain a ms z where "bs = a # ms @ [z]" "length ms = length branches"
    using three_parts [of bs "length branches"] by auto
  moreover obtain b ns y where "cs = b # ns @ [y]" "length ns = length branches"
    using assms IfStatement three_parts [of cs "length branches"] by auto
  ultimately show ?thesis using IfStatement by (simp add: butlast_append map2_twice)
next
  case (TryStatement i body rp catches fin l)
  with assms obtain a ms z where "bs = a # ms @ [z]" "length ms = length catches"
    using three_parts [of bs "length catches"] by auto
  moreover obtain b ns y where "cs = b # ns @ [y]" "length ns = length catches"
    using assms TryStatement three_parts [of cs "length catches"] by auto
  ultimately show ?thesis using TryStatement by (simp add: butlast_append map2_twice)
qed simp_all

section \<open>A statement without its blocks\<close>

text \<open>
  An edit of a block changes every statement around it, but only their blocks. The shell
  of a statement is what stays: its kind, identifier, values, bindings and clauses.
\<close>

definition shell :: "statement \<Rightarrow> statement" where
  "shell s = set_child_blocks (map (\<lambda>_. []) (statement_child_blocks s)) s"

definition shells :: "statement list \<Rightarrow> statement multiset" where
  "shells ss = mset (map shell (iter_statement_tree ss))"

lemma shell_set_child_blocks [simp]:
  "length bs = length (statement_child_blocks s) \<Longrightarrow> shell (set_child_blocks bs s) = shell s"
  by (simp add: shell_def map_replicate_const)

lemma image_mset_sum_list: "image_mset f (sum_list xs) = sum_list (map (image_mset f) xs)"
  by (induction xs) simp_all

lemma shells_simps [simp]:
  "shells [] = {#}"
  "shells (s # ss) = add_mset (shell s) (sum_list (map shells (statement_child_blocks s)) + shells ss)"
  by (simp_all add: shells_def [abs_def] mset_concat image_mset_sum_list comp_def)

lemma shells_append [simp]: "shells (xs @ ys) = shells xs + shells ys"
  by (induction xs) simp_all

section \<open>Cursors\<close>

type_synonym block_path = "(nat \<times> nat) list"

record cursor =
  cu_path :: block_path
  cu_index :: nat
  cu_statement :: statement

definition enter_block :: "nat \<Rightarrow> nat \<Rightarrow> cursor \<Rightarrow> cursor" where
  "enter_block i k c = c\<lparr>cu_path := (i, k) # cu_path c\<rparr>"

lemma enter_block_sel [simp]:
  "cu_path (enter_block i k c) = (i, k) # cu_path c"
  "cu_index (enter_block i k c) = cu_index c"
  "cu_statement (enter_block i k c) = cu_statement c"
  by (simp_all add: enter_block_def)

text \<open>\<^verbatim>\<open>_find_statement\<close>, on the statements from index \<open>i\<close> on.\<close>

function find_from :: "nat \<Rightarrow> statement list \<Rightarrow> stable_id \<Rightarrow> cursor option" where
  "find_from i [] sid = None"
| "find_from i (s # rest) sid =
     (if statement_id s = sid then Some \<lparr>cu_path = [], cu_index = i, cu_statement = s\<rparr>
      else case first_some (map (\<lambda>(k, b). map_option (enter_block i k) (find_from 0 b sid))
             (enumerate 0 (statement_child_blocks s))) of
          Some c \<Rightarrow> Some c
        | None \<Rightarrow> find_from (Suc i) rest sid)"
  by pat_completeness auto
termination
  by (relation "measure (\<lambda>(i, b, sid). size_list size b)")
    (auto dest!: child_block_size [OF nth_mem] simp: in_set_enumerate_eq)

definition find_statement :: "statement list \<Rightarrow> stable_id \<Rightarrow> cursor option" where
  "find_statement ss sid = find_from 0 ss sid"

fun block_at :: "block_path \<Rightarrow> statement list \<Rightarrow> statement list option" where
  "block_at [] ss = Some ss"
| "block_at ((i, k) # p) ss =
     (if i < length ss \<and> k < length (statement_child_blocks (ss ! i))
      then block_at p (statement_child_blocks (ss ! i) ! k) else None)"

text \<open>Mutating the list a cursor refers to.\<close>

fun update_block :: "block_path \<Rightarrow> (statement list \<Rightarrow> statement list) \<Rightarrow> statement list \<Rightarrow> statement list" where
  "update_block [] f ss = f ss"
| "update_block ((i, k) # p) f ss =
     (let s = ss ! i; bs = statement_child_blocks s
      in ss[i := set_child_blocks (bs[k := update_block p f (bs ! k)]) s])"

lemma find_from_cases:
  assumes "find_from i ss sid = Some c"
  shows "\<exists>j s. j < length ss \<and> s = ss ! j \<and>
    (c = \<lparr>cu_path = [], cu_index = i + j, cu_statement = s\<rparr> \<and> statement_id s = sid \<or>
     (\<exists>k c'. k < length (statement_child_blocks s) \<and>
       find_from 0 (statement_child_blocks s ! k) sid = Some c' \<and> c = enter_block (i + j) k c'))"
  using assms
proof (induction ss arbitrary: i)
  case Nil
  then show ?case by simp
next
  case (Cons s rest)
  define hits where "hits = map (\<lambda>(k, b). map_option (enter_block i k) (find_from 0 b sid))
    (enumerate 0 (statement_child_blocks s))"
  have unfolded: "(if statement_id s = sid then Some \<lparr>cu_path = [], cu_index = i, cu_statement = s\<rparr>
      else case first_some hits of Some c \<Rightarrow> Some c | None \<Rightarrow> find_from (Suc i) rest sid) = Some c"
    using Cons.prems unfolding hits_def by (simp only: find_from.simps)
  consider "statement_id s = sid" "c = \<lparr>cu_path = [], cu_index = i, cu_statement = s\<rparr>"
    | "Some c \<in> set hits"
    | "find_from (Suc i) rest sid = Some c"
    using unfolded first_some_in_set [of hits]
    by (cases "statement_id s = sid"; cases "first_some hits") simp_all
  then show ?case
  proof cases
    case 1
    then show ?thesis by (intro exI [of _ 0] exI [of _ s]) simp
  next
    case 2
    then obtain kb where kb: "kb \<in> set (enumerate 0 (statement_child_blocks s))"
      "Some c = (case kb of (k, b) \<Rightarrow> map_option (enter_block i k) (find_from 0 b sid))"
      unfolding hits_def set_map image_iff by blast
    obtain k b where "kb = (k, b)" by (cases kb)
    with kb have "(k, b) \<in> set (enumerate 0 (statement_child_blocks s))"
      "map_option (enter_block i k) (find_from 0 b sid) = Some c" by simp_all
    then obtain c' where "k < length (statement_child_blocks s)"
      "find_from 0 (statement_child_blocks s ! k) sid = Some c'" "c = enter_block i k c'"
      by (auto simp: in_set_enumerate_eq)
    then show ?thesis by (intro exI [of _ 0] exI [of _ s]) auto
  next
    case 3
    from Cons.IH [OF this] obtain j where "j < length rest"
      "c = \<lparr>cu_path = [], cu_index = Suc i + j, cu_statement = rest ! j\<rparr> \<and> statement_id (rest ! j) = sid \<or>
       (\<exists>k c'. k < length (statement_child_blocks (rest ! j)) \<and>
         find_from 0 (statement_child_blocks (rest ! j) ! k) sid = Some c' \<and> c = enter_block (Suc i + j) k c')"
      by blast
    then show ?thesis by (intro exI [of _ "Suc j"] exI [of _ "rest ! j"]) simp
  qed
qed

definition cursor_in :: "cursor \<Rightarrow> statement list \<Rightarrow> bool" where
  "cursor_in c ss \<longleftrightarrow> (\<exists>b. block_at (cu_path c) ss = Some b \<and> cu_index c < length b \<and>
     b ! cu_index c = cu_statement c)"

lemma find_statement_sound:
  assumes "find_statement ss sid = Some c"
  shows "cursor_in c ss \<and> statement_id (cu_statement c) = sid"
  using assms unfolding find_statement_def
proof (induction "cu_path c" arbitrary: c ss)
  case Nil
  from find_from_cases [OF Nil(2)] Nil(1) show ?case by (auto simp: cursor_in_def)
next
  case (Cons ik p)
  from find_from_cases [OF Cons(3)] Cons(2) [symmetric]
  obtain j k c' where j: "j < length ss" "k < length (statement_child_blocks (ss ! j))"
    and c': "find_from 0 (statement_child_blocks (ss ! j) ! k) sid = Some c'" "c = enter_block j k c'"
    by auto
  with Cons(2) have "p = cu_path c'" by simp
  from Cons(1) [OF this c'(1)] show ?case using j c'(2) by (auto simp: cursor_in_def)
qed

lemma first_some_enumerate_None:
  "first_some (map (\<lambda>(k, b). map_option (g k) (h b)) (enumerate n bs)) = None \<longleftrightarrow>
     (\<forall>b \<in> set bs. h b = None)"
  by (induction bs arbitrary: n) (auto simp: first_some_None_iff)

lemma find_from_None:
  "find_from i ss sid = None \<longleftrightarrow> sid \<notin> statement_id ` set (iter_statement_tree ss)"
proof (induction ss arbitrary: i rule: forest_induct)
  case Nil
  then show ?case by simp
next
  case (Cons s ss)
  note hits = first_some_enumerate_None [of "enter_block i" "\<lambda>b. find_from 0 b sid" 0 "statement_child_blocks s"]
  show ?case
  proof (cases "statement_id s = sid")
    case False
    then show ?thesis using hits Cons.IH(1) [of _ 0] Cons.IH(2) [of "Suc i"]
      by (auto split: option.splits simp del: enumerate_Suc_eq)
  qed simp
qed

lemma find_statement_None_iff:
  "find_statement ss sid = None \<longleftrightarrow> sid \<notin> statement_id ` set (iter_statement_tree ss)"
  by (simp add: find_statement_def find_from_None)

lemma length_child_blocks_update [simp]:
  "length (bs[k := b]) = length (statement_child_blocks s) \<longleftrightarrow> length bs = length (statement_child_blocks s)"
  by simp

lemma block_at_update [simp]:
  "block_at p ss = Some b \<Longrightarrow> block_at p (update_block p f ss) = Some (f b)"
  by (induction p ss rule: block_at.induct) (auto simp: Let_def split: if_splits)

lemma sum_list_update_add:
  fixes xs :: "'a::comm_monoid_add list"
  shows "k < length xs \<Longrightarrow> sum_list (xs[k := x]) + xs ! k = sum_list xs + x"
  by (induction xs arbitrary: k) (auto simp: ac_simps nth_Cons' split: nat.splits)

lemma shells_sum: "shells ss = (\<Sum>s\<leftarrow>ss. shells [s])"
  by (induction ss) simp_all

lemma shells_list_update:
  assumes "i < length ss"
  shows "shells (ss[i := s]) + shells [ss ! i] = shells ss + shells [s]"
  using sum_list_update_add [of i "map (\<lambda>s. shells [s]) ss" "shells [s]"] assms
  by (subst shells_sum [of ss], subst shells_sum [of "ss[i := s]"]) (simp add: map_update)

lemma shells_update_block:
  "block_at p ss = Some b \<Longrightarrow> shells (update_block p f ss) + shells b = shells ss + shells (f b)"
proof (induction p ss rule: block_at.induct)
  case (1 ss)
  then show ?case by (simp add: add.commute)
next
  case (2 i k p ss)
  let ?s = "ss ! i" let ?bs = "statement_child_blocks (ss ! i)"
  let ?b = "update_block p f (?bs ! k)" let ?s' = "set_child_blocks (?bs[k := ?b]) ?s"
  from 2(2) have ik: "i < length ss" "k < length ?bs" and b: "block_at p (?bs ! k) = Some b"
    by (auto split: if_splits)
  have IH: "shells ?b + shells b = shells (?bs ! k) + shells (f b)"
    using 2(1) ik b by blast
  let ?S = "sum_list (map shells ?bs)" let ?S' = "sum_list (map shells (?bs[k := ?b]))"
  have up: "shells (ss[i := ?s']) + ?S = shells ss + ?S'"
    using shells_list_update [OF ik(1), of ?s'] by simp
  have down: "?S' + shells (?bs ! k) = ?S + shells ?b"
    using sum_list_update_add [of k "map shells ?bs" "shells ?b"] ik(2) by (simp add: map_update)
  have "count (shells (ss[i := ?s']) + shells b) x = count (shells ss + shells (f b)) x" for x
    using arg_cong [OF IH, of "\<lambda>m. count m x"] arg_cong [OF up, of "\<lambda>m. count m x"]
      arg_cong [OF down, of "\<lambda>m. count m x"]
    unfolding count_union by linarith
  then show ?case by (simp add: Let_def multiset_eq_iff)
qed

section \<open>One identifier, one cursor\<close>

abbreviation forest_ids :: "statement list \<Rightarrow> stable_id list" where
  "forest_ids ss \<equiv> map statement_id (iter_statement_tree ss)"

lemma statement_id_shell [simp]: "statement_id (shell s) = statement_id s"
  by (cases s) (simp_all add: shell_def)

lemma forest_ids_shells: "mset (forest_ids ss) = image_mset statement_id (shells ss)"
  by (simp add: shells_def multiset.map_comp comp_def)

lemma block_at_tree: "block_at p ss = Some b \<Longrightarrow> set (iter_statement_tree b) \<subseteq> set (iter_statement_tree ss)"
proof (induction p ss rule: block_at.induct)
  case (2 i k p ss)
  then have ik: "i < length ss" "k < length (statement_child_blocks (ss ! i))"
    by (auto split: if_splits)
  have "set (iter_statement_tree b) \<subseteq> set (iter_statement_tree (statement_child_blocks (ss ! i) ! k))"
    using 2 ik by simp
  moreover have "ss ! i \<in> set (iter_statement_tree ss)" using ik by auto
  ultimately show ?case using ik by (meson iter_statement_tree_child nth_mem subset_iff)
qed simp

lemma cursor_in_tree: "cursor_in c ss \<Longrightarrow> cu_statement c \<in> set (iter_statement_tree ss)"
  using block_at_tree iter_statement_tree_top nth_mem unfolding cursor_in_def by (metis subset_iff)

lemma find_from_skip:
  "sid \<notin> set (forest_ids xs) \<Longrightarrow> find_from i (xs @ ys) sid = find_from (i + length xs) ys sid"
proof (induction xs arbitrary: i)
  case (Cons x xs)
  have "first_some (map (\<lambda>(k, b). map_option (enter_block i k) (find_from 0 b sid))
      (enumerate 0 (statement_child_blocks x))) = None"
    using Cons.prems by (subst first_some_enumerate_None) (auto simp: find_from_None)
  moreover have "statement_id x \<noteq> sid" using Cons.prems by auto
  ultimately show ?case using Cons by simp
qed simp

lemma first_some_enumerate_hit:
  assumes "k < length bs" "\<And>j. j < k \<Longrightarrow> h (bs ! j) = None" "h (bs ! k) = Some c"
  shows "first_some (map (\<lambda>(k, b). map_option (g k) (h b)) (enumerate n bs)) = Some (g (n + k) c)"
  using assms
proof (induction bs arbitrary: n k)
  case (Cons b bs)
  show ?case
  proof (cases k)
    case 0
    then show ?thesis using Cons.prems by simp
  next
    case (Suc k')
    then have "h b = None" using Cons.prems(2) [of 0] by simp
    moreover have "first_some (map (\<lambda>(k, b). map_option (g k) (h b)) (enumerate (Suc n) bs)) = Some (g (Suc n + k') c)"
      using Suc Cons.prems(2) [of "Suc _"] Cons.prems by (intro Cons.IH) auto
    ultimately show ?thesis using Suc by simp
  qed
qed simp

lemma distinct_ids_later_block:
  assumes "distinct (concat xss)" "j < k" "k < length xss" "x \<in> set (xss ! k)"
  shows "x \<notin> set (xss ! j)"
  using assms
proof (induction xss arbitrary: j k)
  case (Cons xs xss)
  then obtain k' where k: "k = Suc k'" by (cases k) auto
  with Cons.prems have x: "x \<in> set (concat xss)" by auto
  show ?case
  proof (cases j)
    case 0
    with Cons.prems(1) x show ?thesis by auto
  next
    case (Suc j')
    with Cons k show ?thesis by simp
  qed
qed simp

lemma forest_ids_split:
  assumes "i < length ss"
  shows "forest_ids ss = forest_ids (take i ss) @ statement_id (ss ! i) #
    concat (map forest_ids (statement_child_blocks (ss ! i))) @ forest_ids (drop (Suc i) ss)"
proof -
  have "ss = take i ss @ ss ! i # drop (Suc i) ss" using assms by (rule id_take_nth_drop)
  then have "forest_ids ss = forest_ids (take i ss @ ss ! i # drop (Suc i) ss)" by simp
  then show ?thesis by (simp add: map_concat comp_def)
qed

lemma distinct_third_part:
  "distinct (xs @ y # zs @ us) \<Longrightarrow> x \<in> set zs \<Longrightarrow> x \<notin> set xs \<and> x \<noteq> y"
  by auto

lemma find_from_at:
  "i < length ss \<Longrightarrow> sid \<notin> set (forest_ids (take i ss)) \<Longrightarrow>
     find_from 0 ss sid = find_from i (ss ! i # drop (Suc i) ss) sid"
  using find_from_skip [of sid "take i ss" 0 "drop i ss"] by (simp add: Cons_nth_drop_Suc)

lemma find_statement_unique:
  assumes "distinct (forest_ids ss)" "block_at p ss = Some b" "i < length b"
  shows "find_statement ss (statement_id (b ! i)) = Some \<lparr>cu_path = p, cu_index = i, cu_statement = b ! i\<rparr>"
  using assms unfolding find_statement_def
proof (induction p ss rule: block_at.induct)
  case (1 ss)
  then have "i < length ss" "b = ss" by simp_all
  note parts = forest_ids_split [OF this(1)]
  show ?case using 1(1) \<open>i < length ss\<close> \<open>b = ss\<close> by (subst find_from_at [of i]) (simp_all add: parts)
next
  case (2 j k p ss)
  let ?s = "ss ! j" let ?bs = "statement_child_blocks (ss ! j)" let ?id = "statement_id (b ! i)"
  from 2(3) have jk: "j < length ss" "k < length ?bs" and b: "block_at p (?bs ! k) = Some b"
    by (auto split: if_splits)
  note parts = forest_ids_split [OF jk(1)]
  have dist: "distinct (concat (map forest_ids ?bs))" using 2(2) by (simp add: parts)
  then have "distinct (forest_ids (?bs ! k))" using jk(2) by (simp add: distinct_concat_iff)
  with 2 jk b have IH: "find_from 0 (?bs ! k) ?id = Some \<lparr>cu_path = p, cu_index = i, cu_statement = b ! i\<rparr>"
    by simp
  have "b ! i \<in> set (iter_statement_tree (?bs ! k))"
    using block_at_tree [OF b] iter_statement_tree_top [OF nth_mem [OF 2(4)]] by (rule subsetD)
  then have inside: "?id \<in> set (forest_ids (?bs ! k))" by simp
  then have inside': "?id \<in> set (concat (map forest_ids ?bs))" using jk(2) by auto
  have "find_from 0 (?bs ! m) ?id = None" if "m < k" for m
    using distinct_ids_later_block [OF dist that, of ?id] inside jk(2) that by (simp add: find_from_None)
  with IH jk(2) have hit: "first_some (map (\<lambda>(k, b). map_option (enter_block j k) (find_from 0 b ?id)) (enumerate 0 ?bs)) =
      Some (enter_block j k \<lparr>cu_path = p, cu_index = i, cu_statement = b ! i\<rparr>)"
    using first_some_enumerate_hit [of k ?bs "\<lambda>b. find_from 0 b ?id" _ "enter_block j" 0] by simp
  have outside: "?id \<notin> set (forest_ids (take j ss)) \<and> ?id \<noteq> statement_id ?s"
    using 2(2) inside' unfolding parts by (rule distinct_third_part)
  have "find_from 0 ss ?id = find_from j (?s # drop (Suc j) ss) ?id"
    using jk(1) outside by (intro find_from_at) simp_all
  also have "\<dots> = Some (enter_block j k \<lparr>cu_path = p, cu_index = i, cu_statement = b ! i\<rparr>)"
    using hit not_sym [OF conjunct2 [OF outside]] by simp
  finally show ?case by (simp add: enter_block_def)
qed

section \<open>Edits that undo each other\<close>

lemma update_block_twice:
  "block_at p ss \<noteq> None \<Longrightarrow> update_block p g (update_block p f ss) = update_block p (g \<circ> f) ss"
  by (induction p ss rule: block_at.induct) (auto simp: Let_def split: if_splits)

lemma update_block_same:
  "block_at p ss = Some b \<Longrightarrow> f b = b \<Longrightarrow> update_block p f ss = ss"
  by (induction p ss rule: block_at.induct) (auto simp: Let_def split: if_splits)

section \<open>What the shells determine\<close>

lemma statement_ids_shell [simp]: "statement_ids (shell s) = statement_ids s"
proof (cases s)
  case (IfStatement i c th branches oth l)
  have "map branch_id (map2 set_branch_statements branches (map (\<lambda>_. []) branches)) = map branch_id branches"
    "map branch_condition (map2 set_branch_statements branches (map (\<lambda>_. []) branches)) = map branch_condition branches"
    by (induction branches) simp_all
  with IfStatement show ?thesis
    by (simp add: shell_def statement_ids_def butlast_append comp_def map_replicate_const [symmetric])
next
  case (TryStatement i body rp catches fin l)
  have "map (\<lambda>c. catch_id c # map lb_symbol_id (opt_list (catch_error_binding c)))
      (map2 set_catch_statements catches (map (\<lambda>_. []) catches)) =
    map (\<lambda>c. catch_id c # map lb_symbol_id (opt_list (catch_error_binding c))) catches"
    by (induction catches) simp_all
  with TryStatement show ?thesis
    by (simp add: shell_def statement_ids_def butlast_append comp_def map_replicate_const [symmetric])
qed (simp_all add: shell_def statement_ids_def)

lemma mset_block_ids: "mset (block_ids ss) = (\<Sum>s \<in># shells ss. mset (statement_ids s))"
  by (induction ss rule: forest_induct)
    (simp_all add: block_ids_def shells_def mset_concat multiset.map_comp comp_def sum_mset_sum_list flip: mset_map)

end
