(* ===== verification/Program_Json.thy ===== *)
theory Program_Json
  imports Statement_Edit
begin

text \<open>
  \<^verbatim>\<open>model_dump(mode='json')\<close> of the classes of \<^verbatim>\<open>core/vnext/program_types.py\<close>, fields in
  the order the classes declare them, and the functions of
  \<^verbatim>\<open>core/vnext/program_commands.py\<close> that walk the dumped dictionaries.
\<close>

section \<open>Values\<close>

fun encode_number :: "number \<Rightarrow> json" where
  "encode_number (IntNumber i) = JInt i"
| "encode_number (FloatNumber q) = JFloat q"

definition encode_opt :: "('a \<Rightarrow> json) \<Rightarrow> 'a option \<Rightarrow> json" where
  "encode_opt f x = (case x of None \<Rightarrow> JNull | Some v \<Rightarrow> f v)"

lemma encode_opt_simps [simp]: "encode_opt f None = JNull" "encode_opt f (Some v) = f v"
  by (simp_all add: encode_opt_def)

fun encode_role :: "binding_role \<Rightarrow> string" where
  "encode_role RoleItem = ''item''"
| "encode_role RoleIndex = ''index''"
| "encode_role RoleKey = ''key''"
| "encode_role RoleValue = ''value''"

fun encode_compare :: "compare_operator \<Rightarrow> string" where
  "encode_compare OpEq = ''eq''"
| "encode_compare OpNe = ''ne''"
| "encode_compare OpLt = ''lt''"
| "encode_compare OpLte = ''lte''"
| "encode_compare OpGt = ''gt''"
| "encode_compare OpGte = ''gte''"

fun encode_group :: "group_operator \<Rightarrow> string" where
  "encode_group GroupAll = ''all''"
| "encode_group GroupAny = ''any''"

definition encode_selector_binding :: "selector_binding \<Rightarrow> json" where
  "encode_selector_binding b = JObject
     [(''symbol_id'', JString (sb_symbol_id b)), (''role'', JString (encode_role (sb_role b))),
      (''display_name'', JString (sb_display_name b)), (''value_type'', JString (sb_value_type b))]"

definition encode_point_literal :: "point_literal \<Rightarrow> json" where
  "encode_point_literal p = JObject [(''x'', encode_number (pl_x p)), (''y'', encode_number (pl_y p))]"

fun value_kind :: "value_node \<Rightarrow> string" where
  "value_kind (UnsetValue _ _) = ''unset''"
| "value_kind (NullValue _) = ''null''"
| "value_kind (StringValue _ _) = ''string''"
| "value_kind (IntValue _ _) = ''int64''"
| "value_kind (FloatValue _ _) = ''float64''"
| "value_kind (BoolValue _ _) = ''bool''"
| "value_kind (DateValue _ _) = ''date''"
| "value_kind (DateTimeValue _ _) = ''datetime''"
| "value_kind (TimeValue _ _) = ''time''"
| "value_kind (DurationValue _ _) = ''duration''"
| "value_kind (PointValue _ _ _) = ''point''"
| "value_kind (RectValue _ _ _ _ _) = ''rect''"
| "value_kind (PathValue _ _) = ''path''"
| "value_kind (SymbolReferenceValue _ _ _) = ''symbol_ref''"
| "value_kind (ProjectVariableReferenceValue _ _ _) = ''project_variable_ref''"
| "value_kind (AssetReferenceValue _ _ _) = ''asset_ref''"
| "value_kind (TargetReferenceValue _ _) = ''target_ref''"
| "value_kind (EntityReferenceValue _ _ _) = ''entity_ref''"
| "value_kind (MemberAccessValue _ _ _ _) = ''member_access''"
| "value_kind (ListValue _ _ _) = ''list''"
| "value_kind (MapValue _ _ _ _) = ''map''"
| "value_kind (RecordValue _ _ _) = ''record''"
| "value_kind (JsonValue _ _) = ''json''"
| "value_kind (PureOperationValue _ _ _ _) = ''operation''"
| "value_kind (SelectorValue _ _ _ _) = ''selector''"
| "value_kind (ComparisonValue _ _ _ _) = ''compare''"
| "value_kind (ConditionGroupValue _ _ _) = ''condition_group''"
| "value_kind (NotValue _ _) = ''not''"

definition value_object :: "value_node \<Rightarrow> (string \<times> json) list \<Rightarrow> json" where
  "value_object v fs = JObject
     ((''value_id'', JString (value_id v)) # (''kind'', JString (value_kind v)) # fs)"

function encode_value :: "value_node \<Rightarrow> json" where
  "encode_value v = value_object v
     (case v of
        UnsetValue _ t \<Rightarrow> [(''expected_type'', JString t)]
      | NullValue _ \<Rightarrow> []
      | StringValue _ x \<Rightarrow> [(''value'', JString x)]
      | IntValue _ x \<Rightarrow> [(''value'', JInt x)]
      | FloatValue _ x \<Rightarrow> [(''value'', JFloat x)]
      | BoolValue _ x \<Rightarrow> [(''value'', JBool x)]
      | DateValue _ x \<Rightarrow> [(''value'', JString x)]
      | DateTimeValue _ x \<Rightarrow> [(''value'', JString x)]
      | TimeValue _ x \<Rightarrow> [(''value'', JString x)]
      | DurationValue _ ms \<Rightarrow> [(''milliseconds'', JInt ms)]
      | PointValue _ x y \<Rightarrow> [(''x'', encode_number x), (''y'', encode_number y)]
      | RectValue _ x y w h \<Rightarrow> [(''x'', encode_number x), (''y'', encode_number y),
          (''width'', encode_number w), (''height'', encode_number h)]
      | PathValue _ ps \<Rightarrow> [(''points'', JList (map encode_point_literal ps))]
      | SymbolReferenceValue _ s t \<Rightarrow> [(''symbol_id'', JString s), (''value_type'', JString t)]
      | ProjectVariableReferenceValue _ s t \<Rightarrow> [(''variable_id'', JString s), (''value_type'', JString t)]
      | AssetReferenceValue _ a k \<Rightarrow> [(''asset_id'', JString a), (''asset_kind'', JString k)]
      | TargetReferenceValue _ t \<Rightarrow> [(''target_id'', JString t)]
      | EntityReferenceValue _ r t \<Rightarrow> [(''reference_id'', JString r), (''reference_type'', JString t)]
      | MemberAccessValue _ source f t \<Rightarrow>
          [(''source'', encode_value source), (''field_id'', JString f), (''result_type'', JString t)]
      | ListValue _ t items \<Rightarrow> [(''item_type'', JString t), (''items'', JList (map encode_value items))]
      | MapValue _ k t entries \<Rightarrow>
          [(''key_type'', JString k), (''entry_value_type'', JString t),
           (''entries'', JList (map (\<lambda>(x, y). JObject [(''key'', encode_value x), (''value'', encode_value y)]) entries)),
           (''duplicate_policy'', JString ''error'')]
      | RecordValue _ t flds \<Rightarrow> [(''record_type'', JString t),
          (''fields'', JObject (map (\<lambda>(f, x). (f, encode_value x)) flds))]
      | JsonValue _ payload \<Rightarrow> [(''payload'', payload)]
      | PureOperationValue _ op t inputs \<Rightarrow>
          [(''operation_id'', JString op), (''result_type'', JString t),
           (''inputs'', JObject (map (\<lambda>(f, x). (f, encode_value x)) inputs))]
      | SelectorValue _ bs t e \<Rightarrow>
          [(''bindings'', JList (map encode_selector_binding bs)), (''result_type'', JString t),
           (''expression'', encode_value e)]
      | ComparisonValue _ op l r \<Rightarrow>
          [(''operator'', JString (encode_compare op)), (''left'', encode_value l), (''right'', encode_value r)]
      | ConditionGroupValue _ op cs \<Rightarrow>
          [(''operator'', JString (encode_group op)), (''conditions'', JList (map encode_value cs))]
      | NotValue _ c \<Rightarrow> [(''condition'', encode_value c)])"
  by pat_completeness auto
termination
  by (relation "measure size"; (simp only: in_measure wf_measure)?)
    (rule value_child_size, force)+

declare encode_value.simps [simp del]

section \<open>Statements\<close>

definition encode_arguments :: "(stable_id \<times> value_node) list \<Rightarrow> json" where
  "encode_arguments args = JObject (map (\<lambda>(p, v). (p, encode_value v)) args)"

definition encode_result_binding :: "result_binding \<Rightarrow> json" where
  "encode_result_binding b = JObject
     [(''symbol_id'', JString (rb_symbol_id b)), (''display_name'', JString (rb_display_name b)),
      (''value_type'', JString (rb_value_type b)), (''declare'', JBool (rb_declare b))]"

definition encode_loop_binding :: "loop_binding \<Rightarrow> json" where
  "encode_loop_binding b = JObject
     [(''symbol_id'', JString (lb_symbol_id b)), (''display_name'', JString (lb_display_name b)),
      (''value_type'', JString (lb_value_type b))]"

fun encode_target :: "assignment_target \<Rightarrow> json" where
  "encode_target (LocalAssignmentTarget s n t d) = JObject
     [(''kind'', JString ''local''), (''symbol_id'', JString s), (''display_name'', JString n),
      (''value_type'', JString t), (''declare'', JBool d)]"
| "encode_target (ProjectVariableAssignmentTarget s t) = JObject
     [(''kind'', JString ''project_variable''), (''variable_id'', JString s), (''value_type'', JString t)]"

definition encode_retry_policy :: "retry_policy \<Rightarrow> json" where
  "encode_retry_policy r = JObject
     [(''max_retries'', encode_value (rp_max_retries r)), (''interval'', encode_value (rp_interval r)),
      (''transient_only'', JBool True),
      (''author_review_fingerprint'', encode_opt JString (rp_author_review_fingerprint r))]"

definition encode_event_source :: "message_event_source \<Rightarrow> json" where
  "encode_event_source e = JObject
     [(''kind'', JString ''message''), (''name'', encode_value (es_name e)),
      (''sender'', encode_opt encode_value (es_sender e))]"

fun encode_mode :: "loop_mode \<Rightarrow> string" where
  "encode_mode ModeRepeat = ''repeat''"
| "encode_mode ModeWhile = ''while''"
| "encode_mode ModeForEach = ''for_each''"
| "encode_mode ModeForEachMap = ''for_each_map''"

fun statement_kind :: "statement \<Rightarrow> string" where
  "statement_kind (CallStatement _ _ _ _ _ _) = ''call''"
| "statement_kind (AssignmentStatement _ _ _ _) = ''assignment''"
| "statement_kind (IfStatement _ _ _ _ _ _) = ''if''"
| "statement_kind (LoopStatement _ _ _ _ _ _ _ _ _) = ''loop''"
| "statement_kind (BreakStatement _ _) = ''break''"
| "statement_kind (ContinueStatement _ _) = ''continue''"
| "statement_kind (ReturnStatement _ _ _) = ''return''"
| "statement_kind (FailStatement _ _ _ _ _) = ''fail''"
| "statement_kind (TryStatement _ _ _ _ _ _) = ''try''"
| "statement_kind (TargetScopeStatement _ _ _ _) = ''target_scope''"
| "statement_kind (ListenStatement _ _ _ _ _ _ _) = ''listen''"

definition statement_object :: "statement \<Rightarrow> (string \<times> json) list \<Rightarrow> json" where
  "statement_object s fs = JObject
     ((''statement_id'', JString (statement_id s)) # (''kind'', JString (statement_kind s)) # fs)"

abbreviation label_field :: "string option \<Rightarrow> string \<times> json" where
  "label_field l \<equiv> (''step_label'', encode_opt JString l)"

lemma child_statement_size:
  assumes "x \<in> set (concat (statement_child_blocks s))"
  shows "size x < size s"
proof -
  from assms obtain b where b: "b \<in> set (statement_child_blocks s)" "x \<in> set b" by auto
  then have "size x \<le> size_list size b" by (simp add: size_list_estimation')
  with child_block_size [OF b(1)] show ?thesis by simp
qed

function encode_statement :: "statement \<Rightarrow> json" where
  "encode_statement s = statement_object s
     (case s of
        CallStatement _ f args rb review l \<Rightarrow>
          [(''function_id'', JString f), (''arguments'', encode_arguments args),
           (''result_binding'', encode_opt encode_result_binding rb), label_field l,
           (''author_review_fingerprint'', encode_opt JString review)]
      | AssignmentStatement _ t v l \<Rightarrow>
          [(''target'', encode_target t), (''value'', encode_value v), label_field l]
      | IfStatement _ c th branches oth l \<Rightarrow>
          [(''condition'', encode_value c), (''then_statements'', JList (map encode_statement th)),
           (''additional_branches'', JList (map (\<lambda>b. JObject
              [(''branch_id'', JString (branch_id b)), (''condition'', encode_value (branch_condition b)),
               (''statements'', JList (map encode_statement (branch_statements b)))]) branches)),
           (''otherwise_statements'', JList (map encode_statement oth)), label_field l]
      | LoopStatement _ m source body item idx key val l \<Rightarrow>
          [(''mode'', JString (encode_mode m)), (''source'', encode_value source),
           (''body'', JList (map encode_statement body)),
           (''item_binding'', encode_opt encode_loop_binding item),
           (''index_binding'', encode_opt encode_loop_binding idx),
           (''key_binding'', encode_opt encode_loop_binding key),
           (''value_binding'', encode_opt encode_loop_binding val), label_field l]
      | BreakStatement _ l \<Rightarrow> [label_field l]
      | ContinueStatement _ l \<Rightarrow> [label_field l]
      | ReturnStatement _ v l \<Rightarrow> [(''value'', encode_opt encode_value v), label_field l]
      | FailStatement _ e msg details l \<Rightarrow>
          [(''error_id'', JString e), (''message'', encode_value msg),
           (''details'', encode_opt encode_value details), label_field l]
      | TryStatement _ body policy catches fin l \<Rightarrow>
          [(''body'', JList (map encode_statement body)),
           (''retry_policy'', encode_opt encode_retry_policy policy),
           (''catches'', JList (map (\<lambda>c. JObject
              [(''catch_id'', JString (catch_id c)), (''error_ids'', JList (map JString (catch_error_ids c))),
               (''error_binding'', encode_opt encode_loop_binding (catch_error_binding c)),
               (''statements'', JList (map encode_statement (catch_statements c)))]) catches)),
           (''finally_statements'', JList (map encode_statement fin)), label_field l]
      | TargetScopeStatement _ t body l \<Rightarrow>
          [(''target'', encode_value t), (''body'', JList (map encode_statement body)), label_field l]
      | ListenStatement _ src rb c h args l \<Rightarrow>
          [(''event_source'', encode_event_source src), (''receive_binding'', encode_loop_binding rb),
           (''condition'', encode_opt encode_value c), (''handler_function_id'', JString h),
           (''handler_arguments'', encode_arguments args), label_field l])"
  by pat_completeness auto
termination
  by (relation "measure size"; (simp only: in_measure wf_measure)?)
    (rule child_statement_size, force)+

declare encode_statement.simps [simp del]

section \<open>Identifiers owned by a dumped payload\<close>

definition json_get :: "string \<Rightarrow> (string \<times> json) list \<Rightarrow> json option" where
  "json_get k fs = map_of fs k"

text \<open>Python truth of a JSON value.\<close>

fun json_truthy :: "json \<Rightarrow> bool" where
  "json_truthy JNull = False"
| "json_truthy (JBool b) = b"
| "json_truthy (JInt i) = (i \<noteq> 0)"
| "json_truthy (JFloat q) = (q \<noteq> 0)"
| "json_truthy (JString s) = (s \<noteq> [])"
| "json_truthy (JList xs) = (xs \<noteq> [])"
| "json_truthy (JObject fs) = (fs \<noteq> [])"

definition owned_keys :: "string set" where
  "owned_keys = {''statement_id'', ''value_id'', ''branch_id'', ''catch_id''}"

definition owns_key :: "(string \<times> json) list \<Rightarrow> string \<Rightarrow> bool" where
  "owns_key object k \<longleftrightarrow> k \<in> owned_keys \<or>
     (k = ''symbol_id'' \<and> json_get ''display_name'' object \<noteq> None \<and>
      json_get ''value_type'' object \<noteq> None \<and> json_get ''kind'' object \<noteq> Some (JString ''symbol_ref'') \<and>
      (case json_get ''declare'' object of None \<Rightarrow> True | Some d \<Rightarrow> json_truthy d))"

text \<open>
  \<^verbatim>\<open>_owned_ids\<close>, with the items themselves; the code applies \<^verbatim>\<open>str\<close>, the identity
  on the strings every model identifier is.
\<close>

function owned_ids :: "json \<Rightarrow> json list" where
  "owned_ids (JObject fs) =
     concat (map (\<lambda>(k, item). if owns_key fs k then [item] else owned_ids item) fs)"
| "owned_ids (JList xs) = concat (map owned_ids xs)"
| "owned_ids JNull = []"
| "owned_ids (JBool _) = []"
| "owned_ids (JInt _) = []"
| "owned_ids (JFloat _) = []"
| "owned_ids (JString _) = []"
  by pat_completeness auto
termination
proof (relation "measure size", goal_cases)
  case (2 fs x k item)
  then have "(k, item) \<in> set fs" by simp
  then have "size_prod (\<lambda>_. 0) size (k, item) \<le> size_list (size_prod (\<lambda>_. 0) size) fs"
    by (rule size_list_estimation') simp
  then show ?case by simp
next
  case (3 xs x)
  then show ?case by (auto dest: size_list_estimation' [where f = size, OF _ order_refl])
qed simp

section \<open>Copies with fresh identifiers\<close>

text \<open>
  How a command can fail: its own two exception classes, the model's validation error and
  the Python errors the code does not catch.
\<close>

datatype command_error =
    ProgramCommandError
  | ProgramReferenceError
  | ModelValidationError
  | PythonKeyError
  | PythonTypeError
  | PythonValueError
  | PythonAttributeError

text \<open>\<^verbatim>\<open>new_stable_id\<close> draws from the sequence \<open>uuid\<close>; a run of it starts at an index.\<close>

definition new_stable_id :: "(nat \<Rightarrow> string) \<Rightarrow> string \<Rightarrow> nat \<Rightarrow> stable_id" where
  "new_stable_id uuid prefix n = prefix @ ''_'' @ uuid n"

definition owned_prefix :: "string \<Rightarrow> string" where
  "owned_prefix k =
     (if k = ''statement_id'' then ''stmt'' else if k = ''value_id'' then ''value''
      else if k = ''branch_id'' then ''branch'' else ''catch'')"

type_synonym symbol_map = "(stable_id \<times> stable_id) list"

text \<open>A copy under way: the next index of \<open>uuid\<close> and the identifiers created.\<close>

type_synonym clone_state = "nat \<times> stable_id list"

fun unhashable :: "json \<Rightarrow> bool" where
  "unhashable (JList _) = True"
| "unhashable (JObject _) = True"
| "unhashable _ = False"

definition renamed_symbol :: "symbol_map \<Rightarrow> json \<Rightarrow> stable_id option" where
  "renamed_symbol m item = (case item of JString s \<Rightarrow> map_of m s | _ \<Rightarrow> None)"

function (sequential) clone :: "(nat \<Rightarrow> string) \<Rightarrow> symbol_map \<Rightarrow> json \<Rightarrow> clone_state \<Rightarrow> command_error + json \<times> clone_state"
and clone_list :: "(nat \<Rightarrow> string) \<Rightarrow> symbol_map \<Rightarrow> json list \<Rightarrow> clone_state \<Rightarrow> command_error + json list \<times> clone_state"
and clone_fields :: "(nat \<Rightarrow> string) \<Rightarrow> symbol_map \<Rightarrow> (string \<times> json) list \<Rightarrow> clone_state \<Rightarrow>
  command_error + (string \<times> json) list \<times> clone_state" where
  "clone uuid m (JList xs) st = rbind (clone_list uuid m xs st) (\<lambda>(ys, st'). Inr (JList ys, st'))"
| "clone uuid m (JObject fs) st = rbind (clone_fields uuid m fs st) (\<lambda>(gs, st'). Inr (JObject gs, st'))"
| "clone uuid m j st = Inr (j, st)"
| "clone_list uuid m [] st = Inr ([], st)"
| "clone_list uuid m (x # xs) st =
     rbind (clone uuid m x st) (\<lambda>(y, st'). rbind (clone_list uuid m xs st') (\<lambda>(ys, st''). Inr (y # ys, st'')))"
| "clone_fields uuid m [] st = Inr ([], st)"
| "clone_fields uuid m ((k, item) # fs) (n, created) =
     rbind
       (if k \<in> owned_keys then
          (let i = new_stable_id uuid (owned_prefix k) n in Inr (JString i, Suc n, created @ [i]))
        else if k = ''symbol_id'' \<and> unhashable item then Inl PythonTypeError
        else if k = ''symbol_id'' \<and> renamed_symbol m item \<noteq> None then
          Inr (JString (the (renamed_symbol m item)), n, created)
        else clone uuid m item (n, created))
       (\<lambda>(item', st'). rbind (clone_fields uuid m fs st') (\<lambda>(gs, st''). Inr ((k, item') # gs, st'')))"
  by pat_completeness auto
termination
  by (relation "measure (\<lambda>x. case x of Inl (_, _, j, _) \<Rightarrow> size j | Inr (Inl (_, _, js, _)) \<Rightarrow> size_list size js
    | Inr (Inr (_, _, fs, _)) \<Rightarrow> size_list (size_prod (\<lambda>_. 0) size) fs)") auto

text \<open>
  \<^verbatim>\<open>result_symbols[s] = new_stable_id('symbol')\<close>, with the next index beside the dictionary.
\<close>

type_synonym symbol_state = "nat \<times> symbol_map"

definition rename_symbol :: "(nat \<Rightarrow> string) \<Rightarrow> stable_id \<Rightarrow> symbol_state \<Rightarrow> symbol_state" where
  "rename_symbol uuid s st = (Suc (fst st), dict_set s (new_stable_id uuid ''symbol'' (fst st)) (snd st))"

text \<open>What \<^verbatim>\<open>for x in value or []\<close> runs over.\<close>

definition iterate_json :: "json option \<Rightarrow> command_error + json list" where
  "iterate_json j =
     (case j of
        None \<Rightarrow> Inr []
      | Some v \<Rightarrow> if \<not> json_truthy v then Inr []
          else (case v of
              JList xs \<Rightarrow> Inr xs
            | JObject fs \<Rightarrow> Inr (map (JString \<circ> fst) fs)
            | JString s \<Rightarrow> Inr (map (\<lambda>c. JString [c]) s)
            | _ \<Rightarrow> Inl PythonTypeError))"

text \<open>
  One binding of a dictionary whose kind is \<^verbatim>\<open>selector\<close>. A symbol that is not a string
  occurs only inside a JSON payload and renames nothing a model can declare.
\<close>

definition collect_binding :: "(nat \<Rightarrow> string) \<Rightarrow> json \<Rightarrow> symbol_state \<Rightarrow> symbol_state" where
  "collect_binding uuid b st =
     (case b of
        JObject fs \<Rightarrow> (case json_get ''symbol_id'' fs of
            Some (JString s) \<Rightarrow> if s \<noteq> [] then rename_symbol uuid s st else st
          | _ \<Rightarrow> st)
      | _ \<Rightarrow> st)"

function (sequential) collect_selector_symbols ::
  "(nat \<Rightarrow> string) \<Rightarrow> json \<Rightarrow> symbol_state \<Rightarrow> command_error + symbol_state"
and collect_selector_list ::
  "(nat \<Rightarrow> string) \<Rightarrow> json list \<Rightarrow> symbol_state \<Rightarrow> command_error + symbol_state"
and collect_selector_fields ::
  "(nat \<Rightarrow> string) \<Rightarrow> (string \<times> json) list \<Rightarrow> symbol_state \<Rightarrow> command_error + symbol_state" where
  "collect_selector_symbols uuid (JList xs) st = collect_selector_list uuid xs st"
| "collect_selector_symbols uuid (JObject fs) st =
     rbind
       (if json_get ''kind'' fs = Some (JString ''selector'')
        then rbind (iterate_json (json_get ''bindings'' fs)) (\<lambda>bs. Inr (fold (collect_binding uuid) bs st))
        else Inr st)
       (collect_selector_fields uuid fs)"
| "collect_selector_symbols uuid j st = Inr st"
| "collect_selector_list uuid [] st = Inr st"
| "collect_selector_list uuid (x # xs) st =
     rbind (collect_selector_symbols uuid x st) (collect_selector_list uuid xs)"
| "collect_selector_fields uuid [] st = Inr st"
| "collect_selector_fields uuid ((k, x) # fs) st =
     rbind (collect_selector_symbols uuid x st) (collect_selector_fields uuid fs)"
  by pat_completeness auto
termination
  by (relation "measure (\<lambda>x. case x of Inl (_, j, _) \<Rightarrow> size j | Inr (Inl (_, js, _)) \<Rightarrow> size_list size js
    | Inr (Inr (_, fs, _)) \<Rightarrow> size_list (size_prod (\<lambda>_. 0) size) fs)") auto

end
