(* ===== verification/Type_Compat.thy ===== *)
theory Type_Compat
  imports Program_Types
begin

text \<open>
  Type identifiers are texts such as \<^verbatim>\<open>list<int64>\<close>. This theory models the
  functions of \<^verbatim>\<open>core/vnext/program_validation.py\<close> that read them: generic
  arguments, the single assignability rule \<^verbatim>\<open>types_compatible\<close> and the narrowing of
  optional symbols by a condition. The lemmas show that assignability is a preorder.
\<close>

section \<open>Texts\<close>

definition starts_with :: "string \<Rightarrow> string \<Rightarrow> bool" where
  "starts_with p s \<longleftrightarrow> take (length p) s = p"

definition ends_with :: "string \<Rightarrow> string \<Rightarrow> bool" where
  "ends_with p s \<longleftrightarrow> length p \<le> length s \<and> drop (length s - length p) s = p"

text \<open>\<^verbatim>\<open>s[n:-1]\<close> for a natural \<open>n\<close>.\<close>

definition slice_to_last :: "nat \<Rightarrow> string \<Rightarrow> string" where
  "slice_to_last n s = drop n (butlast s)"

lemma starts_with_iff: "starts_with p s \<longleftrightarrow> (\<exists>r. s = p @ r)"
  by (metis append_eq_conv_conj append_take_drop_id starts_with_def)

lemma starts_with_self_append [simp]: "starts_with p (p @ r)"
  by (simp add: starts_with_def)

lemma slice_to_last_length:
  "starts_with (c # p) s \<Longrightarrow> length (slice_to_last (Suc n) s) < length s"
  by (cases s) (auto simp: starts_with_def slice_to_last_def less_Suc_eq_le)

text \<open>\<^verbatim>\<open>str.split(',', 1)\<close>, \<^term>\<open>None\<close> when there is no comma.\<close>

fun split_comma :: "string \<Rightarrow> (string \<times> string) option" where
  "split_comma [] = None"
| "split_comma (c # s) =
     (if c = CHR '','' then Some ([], s) else map_option (\<lambda>(l, r). (c # l, r)) (split_comma s))"

lemma split_comma_length: "split_comma s = Some (l, r) \<Longrightarrow> length l + length r < length s"
  by (induction s arbitrary: l r) (auto split: if_splits)

lemma split_comma_append: "CHR '','' \<notin> set l \<Longrightarrow> split_comma (l @ CHR '','' # r) = Some (l, r)"
  by (induction l) auto

section \<open>Generic arguments\<close>

definition generic_inner :: "type_id \<Rightarrow> string \<Rightarrow> type_id option" where
  "generic_inner type_id prefix =
     (let marker = prefix @ ''<''
      in if starts_with marker type_id \<and> ends_with ''>'' type_id
         then Some (slice_to_last (length marker) type_id) else None)"

definition map_types :: "type_id \<Rightarrow> (type_id \<times> type_id) option" where
  "map_types type_id =
     (case generic_inner type_id ''map'' of None \<Rightarrow> None | Some inner \<Rightarrow> split_comma inner)"

definition record_contract_type_id :: "type_id \<Rightarrow> type_id" where
  "record_contract_type_id t =
     (if starts_with ''record<'' t \<and> ends_with ''>'' t then slice_to_last 7 t
      else if starts_with ''record.'' t then drop 7 t
      else t)"

lemma generic_inner_angle [simp]: "generic_inner (angle p t) p = Some t"
  by (simp add: generic_inner_def angle_def starts_with_def ends_with_def slice_to_last_def
      butlast_append)

lemma generic_inner_Some_length: "generic_inner t p = Some u \<Longrightarrow> length u < length t"
  by (auto simp: generic_inner_def Let_def starts_with_iff slice_to_last_def split: if_splits)

lemma map_types_Some_length:
  "map_types t = Some (k, v) \<Longrightarrow> length k < length t \<and> length v < length t"
  by (auto simp: map_types_def dest!: generic_inner_Some_length split_comma_length
      split: option.splits)

section \<open>Assignability\<close>

definition message_atoms :: "type_id list" where
  "message_atoms = [''null'', ''bool'', ''int64'', ''float64'', ''string'',
     ''json'', ''json_value'', ''message_value'']"

function types_compatible :: "type_id \<Rightarrow> type_id \<Rightarrow> bool" where
  "types_compatible actual expected =
    (if expected = ''any'' \<or> actual = expected then True
     else if expected = ''message_value'' then
       (if actual \<in> set message_atoms then True
        else case generic_inner actual ''list'' of
          Some list_item \<Rightarrow> types_compatible list_item ''message_value''
        | None \<Rightarrow> (case map_types actual of
            Some (key_type, item_type) \<Rightarrow>
              key_type = ''string'' \<and> types_compatible item_type ''message_value''
          | None \<Rightarrow> False))
     else if starts_with ''enum<'' expected \<and> actual = ''string'' then True
     else if expected = ''gesture_path'' \<and> actual = ''path'' then True
     else if expected = ''percentage'' \<and> actual \<in> {''int64'', ''float64''} then True
     else if expected \<in> {''relative_path'', ''url'', ''timezone''} \<and> actual = ''string'' then True
     else if starts_with ''optional<'' expected then
       actual = ''null'' \<or> types_compatible actual (slice_to_last 9 expected)
     else if expected = ''asset_ref'' \<and> starts_with ''asset_ref<'' actual then True
     else expected = ''float64'' \<and> actual = ''int64'')"
  by pat_completeness auto
termination
proof (relation "measure (\<lambda>(a, e). length a + length e)", goal_cases)
  case 1
  show ?case by simp
next
  case 2
  then show ?case by (auto dest: map_types_Some_length)
next
  case 3
  then show ?case by (auto dest: generic_inner_Some_length)
next
  case (4 actual expected)
  then have "length (slice_to_last 9 expected) < length expected" using slice_to_last_length [of _ _ expected 8] by simp
  then show ?case by simp
qed

declare types_compatible.simps [simp del]

lemma types_compatible_refl [simp]: "types_compatible t t"
  by (simp add: types_compatible.simps [of t t])

lemma types_compatible_any [simp]: "types_compatible t ''any''"
  by (simp add: types_compatible.simps [of t "''any''"])

text \<open>The expected types that accept more than themselves.\<close>

definition flexible_type :: "type_id \<Rightarrow> bool" where
  "flexible_type t \<longleftrightarrow>
     t \<in> {''any'', ''message_value'', ''gesture_path'', ''percentage'', ''relative_path'', ''url'',
          ''timezone'', ''asset_ref'', ''float64''} \<or>
     starts_with ''enum<'' t \<or> starts_with ''optional<'' t"

lemma types_compatible_rigid: "\<not> flexible_type t \<Longrightarrow> types_compatible a t \<longleftrightarrow> a = t"
  by (subst types_compatible.simps) (auto simp: flexible_type_def)

lemma starts_with_clash:
  "starts_with (c # p) s \<Longrightarrow> c \<noteq> d \<Longrightarrow> \<not> starts_with (d # q) s"
  by (cases s) (auto simp: starts_with_def)

lemma types_compatible_optional:
  assumes "starts_with ''optional<'' t"
  shows "types_compatible a t \<longleftrightarrow> a = t \<or> a = ''null'' \<or> types_compatible a (slice_to_last 9 t)"
proof -
  from assms obtain r where t: "t = ''optional<'' @ r" by (auto simp: starts_with_iff)
  show ?thesis
    unfolding t by (subst types_compatible.simps) (simp add: starts_with_def)
qed

lemma types_compatible_message:
  "types_compatible a ''message_value'' \<longleftrightarrow>
     a \<in> set message_atoms \<or>
     (case generic_inner a ''list'' of
        Some t \<Rightarrow> types_compatible t ''message_value''
      | None \<Rightarrow> (case map_types a of
          Some (k, v) \<Rightarrow> k = ''string'' \<and> types_compatible v ''message_value'' | None \<Rightarrow> False))"
  by (subst types_compatible.simps) (auto simp: message_atoms_def)

lemma types_compatible_float64: "types_compatible a ''float64'' \<longleftrightarrow> a \<in> {''float64'', ''int64''}"
  by (subst types_compatible.simps) (auto simp: starts_with_def)

lemma rigid_examples [simp]:
  "\<not> flexible_type ''null''" "\<not> flexible_type ''string''" "\<not> flexible_type ''int64''"
  "\<not> flexible_type ''path''" "\<not> flexible_type ''bool''" "\<not> flexible_type ''json''"
  "\<not> flexible_type ''json_value''"
  by (simp_all add: flexible_type_def starts_with_def)

lemma rigid_prefixed:
  "starts_with ''list<'' t \<Longrightarrow> \<not> flexible_type t" "starts_with ''map<'' t \<Longrightarrow> \<not> flexible_type t"
  "starts_with ''asset_ref<'' t \<Longrightarrow> \<not> flexible_type t"
  by (auto simp: flexible_type_def starts_with_iff)

lemma generic_inner_prefix: "generic_inner t p = Some u \<Longrightarrow> starts_with (p @ ''<'') t"
  by (auto simp: generic_inner_def Let_def split: if_splits)

lemma message_step_rigid:
  assumes "types_compatible b ''message_value''" "types_compatible a b"
  shows "types_compatible a ''message_value''"
proof (cases "flexible_type b")
  case False
  with assms show ?thesis by (simp add: types_compatible_rigid)
next
  case True
  have "\<not> starts_with ''list<'' b" "\<not> starts_with ''map<'' b"
    using True rigid_prefixed by blast+
  then have "generic_inner b ''list'' = None" "generic_inner b ''map'' = None"
    by (simp_all add: generic_inner_def)
  then have "b \<in> set message_atoms"
    using assms(1) by (simp add: types_compatible_message [of b] map_types_def)
  then have "b = ''float64'' \<or> b = ''message_value''"
    using True rigid_examples unfolding message_atoms_def set_simps insert_iff empty_iff by blast
  moreover have "types_compatible ''int64'' ''message_value''" "types_compatible ''float64'' ''message_value''"
    by (subst types_compatible_message, simp add: message_atoms_def)+
  ultimately show ?thesis
    using assms(2) by (auto simp: types_compatible_float64)
qed

lemma types_compatible_transitive:
  "types_compatible a b \<Longrightarrow> types_compatible b c \<Longrightarrow> types_compatible a c"
proof (induction c rule: length_induct)
  case (1 c)
  show ?case
  proof (cases "b = c \<or> c = ''any''")
    case True
    with "1.prems" show ?thesis by auto
  next
    case neq: False
    show ?thesis
    proof (cases "starts_with ''optional<'' c")
      case True
      then have "length (slice_to_last 9 c) < length c"
        using slice_to_last_length [of "CHR ''o''" "''ptional<''" c 8] by simp
      with 1 neq True show ?thesis
        by (auto simp: types_compatible_optional [of c] types_compatible_rigid [of "''null''"])
    next
      case False
      show ?thesis
      proof (cases "c = ''message_value''")
        case True
        with "1.prems" show ?thesis by (auto intro: message_step_rigid)
      next
        case ncm: False
        have "b = ''string'' \<or> b = ''path'' \<or> b = ''int64'' \<or> (b = ''float64'' \<and> c = ''percentage'')
          \<or> starts_with ''asset_ref<'' b"
        proof (rule ccontr)
          assume "\<not> ?thesis"
          with neq False ncm have "\<not> types_compatible b c"
            by (subst types_compatible.simps) (simp, blast)
          with "1.prems"(2) show False by simp
        qed
        then consider "b = ''string''" | "b = ''path''" | "b = ''int64''"
          | "b = ''float64''" "c = ''percentage''" | "starts_with ''asset_ref<'' b" by blast
        then show ?thesis
        proof cases
          case 4
          then show ?thesis using "1.prems"(1)
            by (auto simp: types_compatible_float64 types_compatible.simps [of _ "''percentage''"]
                starts_with_def)
        qed (use "1.prems" in \<open>auto simp: types_compatible_rigid rigid_prefixed\<close>)
      qed
    qed
  qed
qed

definition ordered_comparable :: "type_id \<Rightarrow> bool" where
  "ordered_comparable t \<longleftrightarrow>
     t \<in> {''int64'', ''float64'', ''string'', ''date'', ''datetime'', ''time'', ''duration''}"

end
