(* ===== verification/Program_Validation.thy ===== *)
theory Program_Validation
  imports Type_Compat
begin

text \<open>
  \<^verbatim>\<open>core/vnext/program_validation.py\<close>: types, lexical scope, references and compile
  boundaries of a document, as the list of diagnostics the validator returns, in its
  order. A diagnostic keeps its code, statement and value; the severity is always
  \<^verbatim>\<open>error\<close>, the message and the display path are presentation and left out. The
  validator also computes symbols narrowed by a condition, but no diagnostic reads
  them, so they do not occur here.

  A statement contributes segments: diagnostics, then a child block to validate at a
  loop depth and under a symbol table. The table a statement leaves behind is the one
  the next statement of its block sees.
\<close>

section \<open>Contracts and the environment of a validation\<close>

text \<open>The default of a parameter: plain data, or the node a project function declares.\<close>

datatype contract_default = PlainDefault json | NodeDefault value_node

record parameter_contract =
  pc_parameter_id :: stable_id
  pc_value_type :: type_id
  pc_required :: bool
  pc_has_default :: "bool option"
  pc_default :: contract_default
  pc_choices :: "json list"

record function_contract =
  fc_function_id :: stable_id
  fc_name :: string
  fc_opcode :: string
  fc_parameters :: "parameter_contract list"
  fc_return_type :: type_id
  fc_dangerous :: bool
  fc_side_effects :: "string list"
  fc_fingerprint :: string
  fc_permissions :: "string list"

type_synonym contract_registry = "stable_id \<Rightarrow> function_contract option"

record record_field =
  rf_field_id :: stable_id
  rf_value_type :: type_id

record record_contract =
  rc_fields :: "record_field list"
  rc_required_any :: "stable_id list"
  rc_non_negative :: "stable_id list"

datatype operation_state = OperationUnknown | OperationPlanned | OperationVerified

text \<open>
  What an author review is bound to: the subject of \<^verbatim>\<open>content_revision\<close>. The
  canonical serialisation sorts keys, so the two dictionaries count as maps.
\<close>

datatype review_subject =
    RetryReview stable_id "statement list" "stable_id \<Rightarrow> string option"
  | DangerReview stable_id stable_id "stable_id \<Rightarrow> value_node option" string "string list"

text \<open>
  The static tables and the digest a validation consults: the linked contract registry
  (or none), the record contracts, the pure-operation registry with its type rules, and
  the SHA-256 revision of a review subject; then the two parameters of the call.
\<close>

record validation_env =
  ve_registry :: "contract_registry option"
  ve_record_contract :: "type_id \<Rightarrow> record_contract option"
  ve_operation_state :: "stable_id \<Rightarrow> operation_state"
  ve_operation_inputs :: "stable_id \<Rightarrow> string list"
  ve_operation_issues :: "stable_id \<Rightarrow> type_id \<Rightarrow> (stable_id \<times> type_id) list \<Rightarrow> nat"
  ve_revision :: "review_subject \<Rightarrow> string"
  ve_require_configured :: bool

definition get_contract :: "validation_env \<Rightarrow> stable_id \<Rightarrow> function_contract option" where
  "get_contract E f = (case ve_registry E of None \<Rightarrow> None | Some r \<Rightarrow> r f)"

definition contract_parameter :: "function_contract \<Rightarrow> stable_id \<Rightarrow> parameter_contract option" where
  "contract_parameter c p = List.find (\<lambda>q. pc_parameter_id q = p) (fc_parameters c)"

type_synonym symbols = "stable_id \<Rightarrow> type_id option"

record diagnostic =
  dg_code :: string
  dg_statement_id :: stable_id
  dg_value_id :: stable_id

definition emit :: "bool \<Rightarrow> string \<Rightarrow> stable_id \<Rightarrow> stable_id \<Rightarrow> diagnostic list" where
  "emit b code sid vid =
     (if b then [\<lparr>dg_code = code, dg_statement_id = sid, dg_value_id = vid\<rparr>] else [])"

lemma emit_Nil_iff [simp]: "emit b code sid vid = [] \<longleftrightarrow> \<not> b"
  by (simp add: emit_def)

section \<open>Review fingerprints\<close>

fun call_function_id :: "statement \<Rightarrow> stable_id option" where
  "call_function_id (CallStatement _ f _ _ _ _) = Some f"
| "call_function_id _ = None"

definition called_functions :: "statement list \<Rightarrow> stable_id list" where
  "called_functions body = List.map_filter call_function_id (iter_statement_tree body)"

definition contract_fingerprint :: "validation_env \<Rightarrow> stable_id \<Rightarrow> string" where
  "contract_fingerprint E f =
     (case get_contract E f of None \<Rightarrow> ''unresolved'' | Some c \<Rightarrow> fc_fingerprint c)"

definition retry_review_fingerprint :: "validation_env \<Rightarrow> stable_id \<Rightarrow> statement list \<Rightarrow> string" where
  "retry_review_fingerprint E sid body =
     ve_revision E (RetryReview sid body
       (\<lambda>f. if f \<in> set (called_functions body) then Some (contract_fingerprint E f) else None))"

definition dangerous_call_review_fingerprint ::
  "validation_env \<Rightarrow> stable_id \<Rightarrow> stable_id \<Rightarrow> (stable_id \<times> value_node) list \<Rightarrow> function_contract \<Rightarrow> string" where
  "dangerous_call_review_fingerprint E sid f args c =
     ve_revision E (DangerReview sid f (map_of args) (fc_fingerprint c) (fc_permissions c))"

definition retry_body_has_side_effects :: "validation_env \<Rightarrow> statement list \<Rightarrow> bool" where
  "retry_body_has_side_effects E body \<longleftrightarrow>
     (case ve_registry E of None \<Rightarrow> False
      | Some r \<Rightarrow> list_ex (\<lambda>f. case r f of None \<Rightarrow> False | Some c \<Rightarrow> fc_side_effects c \<noteq> [])
          (called_functions body))"

section \<open>Values\<close>

text \<open>Lines before the recursion into a selector's expression.\<close>

fun reference_diagnostics ::
  "stable_id \<Rightarrow> bool \<Rightarrow> symbols \<Rightarrow> value_node \<Rightarrow> diagnostic list" where
  "reference_diagnostics sid selector_allowed syms (SymbolReferenceValue i s t) =
     (case syms s of
        None \<Rightarrow> emit True ''PGM-REF-001'' sid i
      | Some st \<Rightarrow> emit (\<not> types_compatible st t) ''PGM-REF-002'' sid i)"
| "reference_diagnostics sid selector_allowed syms (SelectorValue i bs t e) =
     emit (\<not> selector_allowed) ''PGM-SELECTOR-001'' sid i @
     emit (\<not> types_compatible (value_type e) t) ''PGM-SELECTOR-002'' sid (value_id e)"
| "reference_diagnostics _ _ _ _ = []"

definition selector_symbols :: "symbols \<Rightarrow> selector_binding list \<Rightarrow> symbols" where
  "selector_symbols syms bs = fold (\<lambda>b m. m(sb_symbol_id b \<mapsto> sb_value_type b)) bs syms"

definition member_record_type :: "type_id \<Rightarrow> type_id" where
  "member_record_type source_type = record_contract_type_id
     (if starts_with ''optional<'' source_type \<and> ends_with ''>'' source_type
      then slice_to_last 9 source_type else source_type)"

definition member_diagnostics ::
  "validation_env \<Rightarrow> stable_id \<Rightarrow> stable_id \<Rightarrow> value_node \<Rightarrow> stable_id \<Rightarrow> type_id \<Rightarrow> diagnostic list" where
  "member_diagnostics E sid i source field_id result_type =
     (let st = value_type source in
      emit (starts_with ''map<'' st \<or> starts_with ''list<'' st \<or> st = ''json_value'') ''PGM-MEMBER-001'' sid i @
      (case ve_record_contract E (member_record_type st) of
         None \<Rightarrow> emit True ''PGM-MEMBER-002'' sid i
       | Some c \<Rightarrow> (case List.find (\<lambda>f. rf_field_id f = field_id) (rc_fields c) of
           None \<Rightarrow> emit True ''PGM-MEMBER-003'' sid i
         | Some f \<Rightarrow> emit (\<not> types_compatible (rf_value_type f) result_type) ''PGM-MEMBER-004'' sid i)))"

text \<open>\<^verbatim>\<open>configured\<close>: the field is present, neither unset nor null, and not a blank text.\<close>

definition is_space :: "char \<Rightarrow> bool" where
  "is_space c \<longleftrightarrow> (let n = of_char c :: nat in n \<in> {9, 10, 11, 12, 13, 28, 29, 30, 31, 32, 133, 160})"

fun configured_value :: "value_node option \<Rightarrow> bool" where
  "configured_value None = False"
| "configured_value (Some (UnsetValue _ _)) = False"
| "configured_value (Some (NullValue _)) = False"
| "configured_value (Some (StringValue _ t)) = (\<not> list_all is_space t)"
| "configured_value (Some _) = True"

fun negative_int :: "value_node \<Rightarrow> bool" where
  "negative_int (IntValue _ n) = (n < 0)"
| "negative_int _ = False"

definition record_diagnostics ::
  "validation_env \<Rightarrow> stable_id \<Rightarrow> stable_id \<Rightarrow> type_id \<Rightarrow> (stable_id \<times> value_node) list \<Rightarrow> diagnostic list" where
  "record_diagnostics E sid i record_type flds =
     (case ve_record_contract E (record_contract_type_id record_type) of
        None \<Rightarrow> []
      | Some c \<Rightarrow>
          concat (map (\<lambda>(fid, child).
             case List.find (\<lambda>f. rf_field_id f = fid) (rc_fields c) of
               None \<Rightarrow> emit True ''PGM-RECORD-001'' sid (value_id child)
             | Some f \<Rightarrow> emit (\<not> types_compatible (value_type child) (rf_value_type f)) ''PGM-RECORD-002'' sid (value_id child)) flds) @
          concat (map (\<lambda>f. emit (map_of flds (rf_field_id f) = None \<and> \<not> starts_with ''optional<'' (rf_value_type f))
             ''PGM-RECORD-003'' sid i) (rc_fields c)) @
          emit (rc_required_any c \<noteq> [] \<and> \<not> list_ex (\<lambda>f. configured_value (map_of flds f)) (rc_required_any c))
             ''PGM-RECORD-004'' sid i @
          concat (map (\<lambda>f. case map_of flds f of None \<Rightarrow> []
             | Some child \<Rightarrow> emit (negative_int child) ''PGM-RECORD-005'' sid (value_id child)) (rc_non_negative c)))"

definition list_diagnostics :: "stable_id \<Rightarrow> type_id \<Rightarrow> value_node list \<Rightarrow> diagnostic list" where
  "list_diagnostics sid item_type items =
     concat (map (\<lambda>v. emit (\<not> types_compatible (value_type v) item_type) ''PGM-COLLECTION-001'' sid (value_id v)) items)"

definition map_diagnostics ::
  "stable_id \<Rightarrow> stable_id \<Rightarrow> type_id \<Rightarrow> type_id \<Rightarrow> (value_node \<times> value_node) list \<Rightarrow> diagnostic list" where
  "map_diagnostics sid i key_type item_type entries =
     emit (key_type \<notin> {''string'', ''int64''} \<and> \<not> starts_with ''enum<'' key_type \<and> \<not> starts_with ''ref<'' key_type)
       ''PGM-COLLECTION-002'' sid i @
     concat (map (\<lambda>(k, v).
       emit (\<not> types_compatible (value_type k) key_type) ''PGM-COLLECTION-003'' sid (value_id k) @
       emit (\<not> types_compatible (value_type v) item_type) ''PGM-COLLECTION-004'' sid (value_id v)) entries)"

fun selector_roles :: "value_node \<Rightarrow> binding_role set option" where
  "selector_roles (SelectorValue _ bs _ _) = Some (set (map sb_role bs))"
| "selector_roles _ = None"

definition expected_roles :: "stable_id \<Rightarrow> binding_role set" where
  "expected_roles op =
     (if starts_with ''core.list_'' op then {RoleItem, RoleIndex}
      else if starts_with ''core.map_'' op then {RoleKey, RoleValue} else {})"

definition operation_diagnostics ::
  "validation_env \<Rightarrow> stable_id \<Rightarrow> stable_id \<Rightarrow> stable_id \<Rightarrow> type_id \<Rightarrow> (stable_id \<times> value_node) list \<Rightarrow> diagnostic list" where
  "operation_diagnostics E sid i op result_type inputs =
     (case ve_operation_state E op of
        OperationUnknown \<Rightarrow> emit True ''PGM-OP-001'' sid i
      | OperationPlanned \<Rightarrow> emit (ve_require_configured E) ''PGM-OP-002'' sid i
      | OperationVerified \<Rightarrow>
          emit (set (map fst inputs) \<noteq> set (map (\<lambda>n. op @ ''.input.'' @ n) (ve_operation_inputs E op)))
            ''PGM-OP-003'' sid i @
          concat (replicate (ve_operation_issues E op result_type (map (\<lambda>(k, v). (k, value_type v)) inputs))
            (emit True ''PGM-OP-004'' sid i)) @
          concat (map (\<lambda>(k, child). case selector_roles child of
              None \<Rightarrow> []
            | Some roles \<Rightarrow> emit (roles \<noteq> expected_roles op) ''PGM-SELECTOR-003'' sid (value_id child)) inputs))"

definition comparison_diagnostics ::
  "stable_id \<Rightarrow> stable_id \<Rightarrow> compare_operator \<Rightarrow> value_node \<Rightarrow> value_node \<Rightarrow> diagnostic list" where
  "comparison_diagnostics sid i operator left right =
     (let lt = value_type left; rt = value_type right;
          compatible = types_compatible lt rt \<or> types_compatible rt lt \<or>
            ((lt = ''null'' \<or> rt = ''null'') \<and> (starts_with ''optional<'' lt \<or> starts_with ''optional<'' rt))
      in emit (\<not> compatible \<or> (operator \<noteq> OpEq \<and> operator \<noteq> OpNe \<and> \<not> ordered_comparable lt))
           ''PGM-CONDITION-002'' sid i)"

definition condition_diagnostics :: "stable_id \<Rightarrow> value_node list \<Rightarrow> diagnostic list" where
  "condition_diagnostics sid children =
     concat (map (\<lambda>c. emit (value_type c \<noteq> ''bool'') ''PGM-CONDITION-003'' sid (value_id c)) children)"

text \<open>The checks of one node between the selector recursion and its children.\<close>

fun node_diagnostics :: "validation_env \<Rightarrow> stable_id \<Rightarrow> value_node \<Rightarrow> diagnostic list" where
  "node_diagnostics E sid (UnsetValue i _) = emit (ve_require_configured E) ''PGM-VALUE-001'' sid i"
| "node_diagnostics E sid (MemberAccessValue i source f t) = member_diagnostics E sid i source f t"
| "node_diagnostics E sid (RecordValue i t flds) = record_diagnostics E sid i t flds"
| "node_diagnostics E sid (ListValue i t items) = list_diagnostics sid t items"
| "node_diagnostics E sid (MapValue i k v entries) = map_diagnostics sid i k v entries"
| "node_diagnostics E sid (PureOperationValue i op t inputs) = operation_diagnostics E sid i op t inputs"
| "node_diagnostics E sid (ComparisonValue i op l r) = comparison_diagnostics sid i op l r"
| "node_diagnostics E sid (ConditionGroupValue i op cs) = condition_diagnostics sid cs"
| "node_diagnostics E sid (NotValue i c) = condition_diagnostics sid [c]"
| "node_diagnostics _ _ _ = []"

definition selector_input :: "stable_id \<Rightarrow> bool" where
  "selector_input k \<longleftrightarrow>
     ends_with ''.input.predicate'' k \<or> ends_with ''.input.transform'' k \<or> ends_with ''.input.key_selector'' k"

text \<open>
  What a node hands to the validator below it: whether a selector may stand there, the
  expected type, the symbols in scope, and the child.
\<close>

fun child_contexts :: "symbols \<Rightarrow> value_node \<Rightarrow> (bool \<times> type_id option \<times> symbols \<times> value_node) list" where
  "child_contexts syms (SelectorValue _ bs t e) = [(False, Some t, selector_symbols syms bs, e)]"
| "child_contexts syms (PureOperationValue _ _ _ inputs) =
     map (\<lambda>(k, c). (selector_input k, None, syms, c)) inputs"
| "child_contexts syms v = map (\<lambda>c. (False, None, syms, c)) (iter_value_children v)"

lemma child_contexts_children:
  "map (\<lambda>(a, e, y, c). c) (child_contexts syms v) = iter_value_children v"
  by (cases v) (simp_all add: comp_def case_prod_unfold)

lemma child_contexts_child:
  assumes "(a, e, y, c) \<in> set (child_contexts syms v)"
  shows "c \<in> set (iter_value_children v)"
  using imageI [OF assms, of "\<lambda>(a, e, y, c). c"]
  by (simp flip: child_contexts_children [of syms])

lemma child_contexts_cover:
  assumes "c \<in> set (iter_value_children v)"
  obtains a e y where "(a, e, y, c) \<in> set (child_contexts syms v)"
  using assms by (auto simp flip: child_contexts_children [of syms])

function validate_value ::
  "validation_env \<Rightarrow> stable_id \<Rightarrow> bool \<Rightarrow> type_id option \<Rightarrow> symbols \<Rightarrow> value_node \<Rightarrow> diagnostic list" where
  "validate_value E sid selector_allowed expected syms v =
     reference_diagnostics sid selector_allowed syms v @
     node_diagnostics E sid v @
     concat (map (\<lambda>(a, e, y, c). validate_value E sid a e y c) (child_contexts syms v)) @
     (case expected of None \<Rightarrow> []
      | Some t \<Rightarrow> emit (\<not> types_compatible (value_type v) t) ''PGM-TYPE-001'' sid (value_id v))"
  by pat_completeness auto
termination
  by (relation "measure (\<lambda>(E, sid, a, e, y, v). size v)")
    (auto dest!: child_contexts_child value_child_size)

declare validate_value.simps [simp del]

abbreviation validate_root ::
  "validation_env \<Rightarrow> stable_id \<Rightarrow> type_id option \<Rightarrow> symbols \<Rightarrow> value_node \<Rightarrow> diagnostic list" where
  "validate_root E sid expected syms v \<equiv> validate_value E sid False expected syms v"

section \<open>Symbols\<close>

definition declare_symbol ::
  "stable_id \<Rightarrow> stable_id \<Rightarrow> type_id \<Rightarrow> symbols \<Rightarrow> diagnostic list \<times> symbols" where
  "declare_symbol sid s t syms =
     (case syms s of
        Some _ \<Rightarrow> (emit True ''PGM-SYMBOL-001'' sid [], syms)
      | None \<Rightarrow> ([], syms(s \<mapsto> t)))"

definition require_assignment_target ::
  "stable_id \<Rightarrow> stable_id \<Rightarrow> type_id \<Rightarrow> bool \<Rightarrow> symbols \<Rightarrow> diagnostic list \<times> symbols" where
  "require_assignment_target sid s t decl syms =
     (if decl then declare_symbol sid s t syms
      else (case syms s of
          None \<Rightarrow> emit True ''PGM-REF-003'' sid []
        | Some existing \<Rightarrow> emit (\<not> types_compatible t existing) ''PGM-TYPE-002'' sid [], syms))"

definition declare_binding ::
  "stable_id \<Rightarrow> loop_binding \<Rightarrow> symbols \<Rightarrow> diagnostic list \<times> symbols" where
  "declare_binding sid b syms = declare_symbol sid (lb_symbol_id b) (lb_value_type b) syms"

section \<open>Statements\<close>

text \<open>A segment: diagnostics, then a block to validate at a loop depth under a table.\<close>

type_synonym segment = "diagnostic list \<times> nat \<times> symbols \<times> statement list"

abbreviation leaf :: "diagnostic list \<Rightarrow> segment list" where
  "leaf ds \<equiv> [(ds, 0, Map.empty, [])]"

fun choice_diagnostics ::
  "stable_id \<Rightarrow> parameter_contract option \<Rightarrow> value_node \<Rightarrow> diagnostic list" where
  "choice_diagnostics sid (Some p) (StringValue i text) =
     emit (pc_choices p \<noteq> [] \<and> JString text \<notin> set (pc_choices p)) ''PGM-CALL-007'' sid i"
| "choice_diagnostics _ _ _ = []"

definition signature_diagnostics ::
  "string \<Rightarrow> string \<Rightarrow> stable_id \<Rightarrow> function_contract \<Rightarrow> (stable_id \<times> value_node) list \<Rightarrow> diagnostic list" where
  "signature_diagnostics unknown_code missing_code sid c args =
     concat (map (\<lambda>(p, _). emit (contract_parameter c p = None) unknown_code sid []) args) @
     concat (map (\<lambda>q. emit (pc_required q \<and> map_of args (pc_parameter_id q) = None) missing_code sid [])
       (fc_parameters c))"

definition argument_parameter ::
  "function_contract option \<Rightarrow> stable_id \<Rightarrow> parameter_contract option" where
  "argument_parameter contract p = (case contract of None \<Rightarrow> None | Some c \<Rightarrow> contract_parameter c p)"

definition result_binding_diagnostics ::
  "stable_id \<Rightarrow> function_contract option \<Rightarrow> result_binding \<Rightarrow> diagnostic list" where
  "result_binding_diagnostics sid contract b =
     (case contract of
        None \<Rightarrow> []
      | Some c \<Rightarrow>
          if fc_return_type c \<in> {''null'', ''unit''} then emit True ''PGM-CALL-004'' sid []
          else emit (\<not> types_compatible (fc_return_type c) (rb_value_type b)) ''PGM-CALL-005'' sid [])"

definition call_plan ::
  "validation_env \<Rightarrow> symbols \<Rightarrow> stable_id \<Rightarrow> stable_id \<Rightarrow> (stable_id \<times> value_node) list \<Rightarrow>
   result_binding option \<Rightarrow> string option \<Rightarrow> segment list \<times> symbols" where
  "call_plan E syms sid f args rb review =
     (let contract = get_contract E f;
          known = emit (ve_registry E \<noteq> None \<and> contract = None) ''PGM-CALL-001'' sid [] @
            (case contract of
               None \<Rightarrow> []
             | Some c \<Rightarrow>
                 signature_diagnostics ''PGM-CALL-002'' ''PGM-CALL-003'' sid c args @
                 emit (fc_dangerous c \<and> review \<noteq> Some (dangerous_call_review_fingerprint E sid f args c))
                   ''PGM-DANGER-001'' sid []);
          values = concat (map (\<lambda>(p, v).
            validate_root E sid (map_option pc_value_type (argument_parameter contract p)) syms v @
            choice_diagnostics sid (argument_parameter contract p) v) args)
      in case rb of
           None \<Rightarrow> (leaf (known @ values), syms)
         | Some b \<Rightarrow>
             (let (ds, syms') = require_assignment_target sid (rb_symbol_id b) (rb_value_type b) (rb_declare b) syms
              in (leaf (known @ values @ result_binding_diagnostics sid contract b @ ds), syms')))"

fun assignment_plan ::
  "validation_env \<Rightarrow> symbols \<Rightarrow> stable_id \<Rightarrow> assignment_target \<Rightarrow> value_node \<Rightarrow> segment list \<times> symbols" where
  "assignment_plan E syms sid (LocalAssignmentTarget s _ t decl) v =
     (let ds = validate_root E sid (Some t) syms v;
          (ds', syms') = require_assignment_target sid s t decl syms
      in (leaf (ds @ ds'), syms'))"
| "assignment_plan E syms sid (ProjectVariableAssignmentTarget _ t) v =
     (leaf (validate_root E sid (Some t) syms v), syms)"

definition if_plan ::
  "validation_env \<Rightarrow> nat \<Rightarrow> symbols \<Rightarrow> stable_id \<Rightarrow> value_node \<Rightarrow> statement list \<Rightarrow>
   conditional_branch list \<Rightarrow> statement list \<Rightarrow> segment list" where
  "if_plan E depth syms sid condition then_statements branches otherwise =
     (validate_root E sid (Some ''bool'') syms condition, depth, syms, then_statements) #
     map (\<lambda>b. (validate_root E sid (Some ''bool'') syms (branch_condition b), depth, syms, branch_statements b)) branches @
     [([], depth, syms, otherwise)]"

definition checked_binding ::
  "string \<Rightarrow> bool \<Rightarrow> stable_id \<Rightarrow> loop_binding \<Rightarrow> symbols \<Rightarrow> diagnostic list \<times> symbols" where
  "checked_binding code wrong sid b syms =
     (let (ds, syms') = declare_binding sid b syms in (emit wrong code sid [] @ ds, syms'))"

definition for_each_symbols ::
  "stable_id \<Rightarrow> value_node \<Rightarrow> loop_binding option \<Rightarrow> loop_binding option \<Rightarrow> symbols \<Rightarrow> diagnostic list \<times> symbols" where
  "for_each_symbols sid source item idx syms =
     (let (d1, s1) = (case generic_inner (value_type source) ''list'' of
            None \<Rightarrow> (emit True ''PGM-LOOP-001'' sid (value_id source), syms)
          | Some t \<Rightarrow> (case item of None \<Rightarrow> ([], syms)
              | Some b \<Rightarrow> checked_binding ''PGM-LOOP-002'' (\<not> types_compatible t (lb_value_type b)) sid b syms));
          (d2, s2) = (case idx of None \<Rightarrow> ([], s1)
              | Some b \<Rightarrow> checked_binding ''PGM-LOOP-003'' (lb_value_type b \<noteq> ''int64'') sid b s1)
      in (d1 @ d2, s2))"

definition for_each_map_symbols ::
  "stable_id \<Rightarrow> value_node \<Rightarrow> loop_binding option \<Rightarrow> loop_binding option \<Rightarrow> symbols \<Rightarrow> diagnostic list \<times> symbols" where
  "for_each_map_symbols sid source key val syms =
     (case map_types (value_type source) of
        None \<Rightarrow> (emit True ''PGM-LOOP-004'' sid (value_id source), syms)
      | Some (kt, vt) \<Rightarrow>
          (let (d1, s1) = (case key of None \<Rightarrow> ([], syms)
                 | Some b \<Rightarrow> checked_binding ''PGM-LOOP-005'' (\<not> types_compatible kt (lb_value_type b)) sid b syms);
               (d2, s2) = (case val of None \<Rightarrow> ([], s1)
                 | Some b \<Rightarrow> checked_binding ''PGM-LOOP-005'' (\<not> types_compatible vt (lb_value_type b)) sid b s1)
           in (d1 @ d2, s2)))"

fun loop_source_type :: "loop_mode \<Rightarrow> type_id option" where
  "loop_source_type ModeRepeat = Some ''int64''"
| "loop_source_type ModeWhile = Some ''bool''"
| "loop_source_type _ = None"

definition loop_symbols ::
  "loop_mode \<Rightarrow> stable_id \<Rightarrow> value_node \<Rightarrow> loop_binding option \<Rightarrow> loop_binding option \<Rightarrow>
   loop_binding option \<Rightarrow> loop_binding option \<Rightarrow> symbols \<Rightarrow> diagnostic list \<times> symbols" where
  "loop_symbols m sid source item idx key val syms =
     (case m of ModeForEach \<Rightarrow> for_each_symbols sid source item idx syms
      | ModeForEachMap \<Rightarrow> for_each_map_symbols sid source key val syms
      | _ \<Rightarrow> ([], syms))"

definition loop_plan ::
  "validation_env \<Rightarrow> nat \<Rightarrow> symbols \<Rightarrow> stable_id \<Rightarrow> loop_mode \<Rightarrow> value_node \<Rightarrow> statement list \<Rightarrow>
   loop_binding option \<Rightarrow> loop_binding option \<Rightarrow> loop_binding option \<Rightarrow> loop_binding option \<Rightarrow> segment list" where
  "loop_plan E depth syms sid m source body item idx key val =
     (let (ds, syms') = loop_symbols m sid source item idx key val syms
      in [(validate_root E sid (loop_source_type m) syms source @
           emit (m = ModeRepeat \<and> negative_int source) ''PGM-LOOP-006'' sid (value_id source) @ ds,
           Suc depth, syms', body)])"

definition return_plan ::
  "validation_env \<Rightarrow> type_id \<Rightarrow> symbols \<Rightarrow> stable_id \<Rightarrow> value_node option \<Rightarrow> segment list" where
  "return_plan E return_type syms sid value = leaf
     (case value of
        None \<Rightarrow> emit (return_type \<notin> {''unit'', ''null''}) ''PGM-RETURN-001'' sid []
      | Some v \<Rightarrow> if return_type \<in> {''unit'', ''null''} then emit True ''PGM-RETURN-002'' sid (value_id v)
          else validate_root E sid (Some return_type) syms v)"

definition fail_plan ::
  "validation_env \<Rightarrow> symbols \<Rightarrow> stable_id \<Rightarrow> value_node \<Rightarrow> value_node option \<Rightarrow> segment list" where
  "fail_plan E syms sid msg details = leaf
     (validate_root E sid (Some ''string'') syms msg @
      (case details of None \<Rightarrow> [] | Some v \<Rightarrow> validate_root E sid (Some ''json_value'') syms v))"

definition retry_diagnostics ::
  "validation_env \<Rightarrow> symbols \<Rightarrow> stable_id \<Rightarrow> statement list \<Rightarrow> retry_policy option \<Rightarrow> diagnostic list" where
  "retry_diagnostics E syms sid body policy =
     (case policy of None \<Rightarrow> []
      | Some r \<Rightarrow>
          validate_root E sid (Some ''int64'') syms (rp_max_retries r) @
          validate_root E sid (Some ''duration'') syms (rp_interval r) @
          emit (negative_int (rp_max_retries r)) ''PGM-TRY-002'' sid (value_id (rp_max_retries r)) @
          emit (retry_body_has_side_effects E body \<and>
                rp_author_review_fingerprint r \<noteq> Some (retry_review_fingerprint E sid body))
            ''PGM-TRY-003'' sid [])"

definition catch_symbols :: "stable_id \<Rightarrow> catch_clause \<Rightarrow> symbols \<Rightarrow> diagnostic list \<times> symbols" where
  "catch_symbols sid c syms =
     (case catch_error_binding c of None \<Rightarrow> ([], syms)
      | Some b \<Rightarrow> checked_binding ''PGM-TRY-001'' (lb_value_type b \<noteq> ''error'') sid b syms)"

definition try_plan ::
  "validation_env \<Rightarrow> nat \<Rightarrow> symbols \<Rightarrow> stable_id \<Rightarrow> statement list \<Rightarrow> retry_policy option \<Rightarrow>
   catch_clause list \<Rightarrow> statement list \<Rightarrow> segment list" where
  "try_plan E depth syms sid body policy catches finally_statements =
     (retry_diagnostics E syms sid body policy, depth, syms, body) #
     map (\<lambda>c. let (ds, syms') = catch_symbols sid c syms in (ds, depth, syms', catch_statements c)) catches @
     [([], depth, syms, finally_statements)]"

definition scope_plan ::
  "validation_env \<Rightarrow> nat \<Rightarrow> symbols \<Rightarrow> stable_id \<Rightarrow> value_node \<Rightarrow> statement list \<Rightarrow> segment list" where
  "scope_plan E depth syms sid target body =
     [(validate_root E sid (Some ''target_ref'') syms target, depth, syms, body)]"

definition listen_plan ::
  "validation_env \<Rightarrow> symbols \<Rightarrow> stable_id \<Rightarrow> message_event_source \<Rightarrow> loop_binding \<Rightarrow> value_node option \<Rightarrow>
   stable_id \<Rightarrow> (stable_id \<times> value_node) list \<Rightarrow> segment list" where
  "listen_plan E syms sid src rb condition handler args =
     (let contract = get_contract E handler;
          handler_symbols = syms(lb_symbol_id rb \<mapsto> lb_value_type rb)
      in leaf
       (validate_root E sid (Some ''string'') syms (es_name src) @
        (case es_sender src of None \<Rightarrow> [] | Some v \<Rightarrow> validate_root E sid (Some ''instance_ref'') syms v) @
        (case condition of None \<Rightarrow> [] | Some v \<Rightarrow> validate_root E sid (Some ''bool'') syms v) @
        emit (lb_value_type rb \<noteq> ''received_message'') ''PGM-LISTEN-001'' sid [] @
        (case contract of
           None \<Rightarrow> emit (ve_registry E \<noteq> None) ''PGM-LISTEN-002'' sid []
         | Some c \<Rightarrow> emit (fc_opcode c \<noteq> ''call.project'') ''PGM-LISTEN-003'' sid [] @
             signature_diagnostics ''PGM-LISTEN-004'' ''PGM-LISTEN-005'' sid c args) @
        concat (map (\<lambda>(p, v).
          validate_root E sid (map_option pc_value_type (argument_parameter contract p)) handler_symbols v) args)))"

definition flow_plan :: "nat \<Rightarrow> stable_id \<Rightarrow> segment list" where
  "flow_plan depth sid = leaf (emit (depth = 0) ''PGM-FLOW-001'' sid [])"

text \<open>The segments of a statement and the table it leaves to its successor.\<close>

fun statement_plan ::
  "validation_env \<Rightarrow> type_id \<Rightarrow> nat \<Rightarrow> symbols \<Rightarrow> statement \<Rightarrow> segment list \<times> symbols" where
  "statement_plan E R depth syms (CallStatement sid f args rb review _) = call_plan E syms sid f args rb review"
| "statement_plan E R depth syms (AssignmentStatement sid t v _) = assignment_plan E syms sid t v"
| "statement_plan E R depth syms (IfStatement sid c th brs oth _) = (if_plan E depth syms sid c th brs oth, syms)"
| "statement_plan E R depth syms (LoopStatement sid m source body item idx key val _) =
     (loop_plan E depth syms sid m source body item idx key val, syms)"
| "statement_plan E R depth syms (BreakStatement sid _) = (flow_plan depth sid, syms)"
| "statement_plan E R depth syms (ContinueStatement sid _) = (flow_plan depth sid, syms)"
| "statement_plan E R depth syms (ReturnStatement sid v _) = (return_plan E R syms sid v, syms)"
| "statement_plan E R depth syms (FailStatement sid _ msg details _) = (fail_plan E syms sid msg details, syms)"
| "statement_plan E R depth syms (TryStatement sid body policy catches fin _) =
     (try_plan E depth syms sid body policy catches fin, syms)"
| "statement_plan E R depth syms (TargetScopeStatement sid t body _) = (scope_plan E depth syms sid t body, syms)"
| "statement_plan E R depth syms (ListenStatement sid src rb c h args _) =
     (listen_plan E syms sid src rb c h args, syms)"

text \<open>Every segment's block is a child block (or empty), so the walk terminates.\<close>

lemma assignment_plan_blocks:
  "(ds, d, y, b) \<in> set (fst (assignment_plan E syms sid t v)) \<Longrightarrow> b = []"
  by (cases t) (auto simp: Let_def case_prod_unfold)

lemma statement_plan_blocks:
  "(ds, d, y, b) \<in> set (fst (statement_plan E R depth syms s)) \<Longrightarrow>
     b = [] \<or> b \<in> set (statement_child_blocks s)"
  by (cases s)
    (auto simp: call_plan_def if_plan_def loop_plan_def flow_plan_def return_plan_def fail_plan_def
      try_plan_def scope_plan_def listen_plan_def Let_def case_prod_unfold split: option.splits
      dest: assignment_plan_blocks)

function validate_block ::
  "validation_env \<Rightarrow> type_id \<Rightarrow> nat \<Rightarrow> symbols \<Rightarrow> statement list \<Rightarrow> diagnostic list \<times> symbols" where
  "validate_block E R depth syms [] = ([], syms)"
| "validate_block E R depth syms (s # rest) =
     (let (segments, syms') = statement_plan E R depth syms s;
          ds = concat (map (\<lambda>(ds, d, y, b). ds @ fst (validate_block E R d y b)) segments);
          (ds', out) = validate_block E R depth syms' rest
      in (ds @ ds', out))"
  by pat_completeness auto
termination
proof (relation "measure (\<lambda>(E, R, d, y, b). size_list size b)", goal_cases)
  case (2 E R depth syms s rest x segs syms' seg ds q d r y b)
  then have "b = [] \<or> b \<in> set (statement_child_blocks s)"
    by (intro statement_plan_blocks [of ds d y b E R depth syms]) (metis fst_conv)
  then show ?case using child_block_size [of b s] by auto
qed auto

declare validate_block.simps [simp del]

abbreviation block_diagnostics ::
  "validation_env \<Rightarrow> type_id \<Rightarrow> nat \<Rightarrow> symbols \<Rightarrow> statement list \<Rightarrow> diagnostic list" where
  "block_diagnostics E R depth syms b \<equiv> fst (validate_block E R depth syms b)"

lemma block_diagnostics_Nil [simp]: "block_diagnostics E R depth syms [] = []"
  by (simp add: validate_block.simps)

lemma block_diagnostics_Cons:
  "block_diagnostics E R depth syms (s # rest) = [] \<longleftrightarrow>
     (\<forall>(ds, d, y, b) \<in> set (fst (statement_plan E R depth syms s)). ds = [] \<and> block_diagnostics E R d y b = []) \<and>
     block_diagnostics E R depth (snd (statement_plan E R depth syms s)) rest = []"
  by (auto simp: validate_block.simps Let_def case_prod_unfold)

section \<open>A document\<close>

definition initial_symbols :: "program_document \<Rightarrow> symbols" where
  "initial_symbols d =
     map_of (rev (map (\<lambda>p. (pp_symbol_id p, pp_value_type p)) (fn_parameters (doc_function d))))"

definition default_diagnostics :: "validation_env \<Rightarrow> symbols \<Rightarrow> program_parameter \<Rightarrow> diagnostic list" where
  "default_diagnostics E syms p =
     (case pp_default_value p of None \<Rightarrow> []
      | Some v \<Rightarrow> validate_root E [] (Some (pp_value_type p)) syms v)"

definition validate_program_document :: "validation_env \<Rightarrow> program_document \<Rightarrow> diagnostic list" where
  "validate_program_document E d =
     concat (map (default_diagnostics E (initial_symbols d)) (fn_parameters (doc_function d))) @
     block_diagnostics E (fn_return_type (doc_function d)) 0 (initial_symbols d) (doc_statements d)"

end
