(* ===== verification/Program_Commands.thy ===== *)
theory Program_Commands
  imports Program_Json Program_Validation
begin

text \<open>
  \<^verbatim>\<open>core/vnext/program_commands.py\<close>: the structural commands of the editor. Each takes a
  document and returns the edited one with the selection and the created identifiers, or
  fails; the code edits a dump of the document and validates the result, here the typed
  document is edited and the same validation follows. Commands without a registry
  argument validate against none.
\<close>

section \<open>Locations, results and the final validation\<close>

datatype block_name =
  BlockRoot | BlockThen | BlockOtherwise | BlockAdditionalBranch | BlockBody | BlockCatch | BlockFinally

record statement_location =
  loc_parent :: "stable_id option"
  loc_block :: block_name
  loc_clause :: "stable_id option"
  loc_before :: "stable_id option"

text \<open>\<^verbatim>\<open>StatementLocation.__post_init__\<close> accepts the location.\<close>

definition location_ok :: "statement_location \<Rightarrow> bool" where
  "location_ok loc \<longleftrightarrow>
     (loc_parent loc = None \<longleftrightarrow> loc_block loc = BlockRoot) \<and>
     (loc_block loc \<in> {BlockAdditionalBranch, BlockCatch} \<longrightarrow> loc_clause loc \<notin> {None, Some []})"

record edit_result =
  er_document :: program_document
  er_selected :: stable_id
  er_created :: "json list"

text \<open>
  A command validates a draft: nothing need be configured, and a missing author review is
  no obstacle.
\<close>

definition draft_codes :: "string set" where
  "draft_codes = {''PGM-TRY-003'', ''PGM-DANGER-001''}"

definition draft_diagnostics :: "validation_env \<Rightarrow> program_document \<Rightarrow> diagnostic list" where
  "draft_diagnostics E d =
     filter (\<lambda>x. dg_code x \<notin> draft_codes) (validate_program_document (E\<lparr>ve_require_configured := False\<rparr>) d)"

definition validate_command_result ::
  "validation_env \<Rightarrow> program_document \<Rightarrow> command_error + program_document" where
  "validate_command_result E d =
     (if \<not> model_validate d then Inl ModelValidationError
      else let ds = draft_diagnostics E d in
        if ds = [] then Inr d
        else if list_ex (\<lambda>x. starts_with ''PGM-REF-'' (dg_code x)) ds then Inl ProgramReferenceError
        else Inl ProgramCommandError)"

abbreviation unlinked :: "validation_env \<Rightarrow> validation_env" where
  "unlinked E \<equiv> E\<lparr>ve_registry := None\<rparr>"

definition finish_edit ::
  "validation_env \<Rightarrow> program_document \<Rightarrow> statement list \<Rightarrow> stable_id \<Rightarrow> json list \<Rightarrow> command_error + edit_result" where
  "finish_edit E d ss selected created =
     rbind (validate_command_result E (doc_set_statements ss d))
       (\<lambda>d'. Inr \<lparr>er_document = d', er_selected = selected, er_created = created\<rparr>)"

section \<open>Finding the place of an edit\<close>

definition require_statement :: "statement list \<Rightarrow> stable_id \<Rightarrow> command_error + cursor" where
  "require_statement ss sid = of_option ProgramCommandError (find_statement ss sid)"

definition statement_for_update :: "statement list \<Rightarrow> stable_id \<Rightarrow> string \<Rightarrow> command_error + cursor" where
  "statement_for_update ss sid kind =
     rbind (require_statement ss sid) (\<lambda>c.
       if statement_kind (cu_statement c) = kind then Inr c else Inl ProgramCommandError)"

text \<open>The child block of a statement a location names, by its index.\<close>

fun named_block :: "statement \<Rightarrow> block_name \<Rightarrow> stable_id option \<Rightarrow> nat option" where
  "named_block (IfStatement _ _ _ branches _ _) block clause =
     (case block of
        BlockThen \<Rightarrow> Some 0
      | BlockOtherwise \<Rightarrow> Some (Suc (length branches))
      | BlockAdditionalBranch \<Rightarrow> map_option Suc (index_of (\<lambda>b. Some (branch_id b) = clause) branches)
      | _ \<Rightarrow> None)"
| "named_block (LoopStatement _ _ _ _ _ _ _ _ _) block clause = (if block = BlockBody then Some 0 else None)"
| "named_block (TargetScopeStatement _ _ _ _) block clause = (if block = BlockBody then Some 0 else None)"
| "named_block (TryStatement _ _ _ catches _ _) block clause =
     (case block of
        BlockBody \<Rightarrow> Some 0
      | BlockFinally \<Rightarrow> Some (Suc (length catches))
      | BlockCatch \<Rightarrow> map_option Suc (index_of (\<lambda>c. Some (catch_id c) = clause) catches)
      | _ \<Rightarrow> None)"
| "named_block _ _ _ = None"

definition target_block :: "statement list \<Rightarrow> statement_location \<Rightarrow> command_error + block_path" where
  "target_block ss loc =
     (case loc_parent loc of
        None \<Rightarrow> Inr []
      | Some p \<Rightarrow> rbind (require_statement ss p) (\<lambda>c.
          case named_block (cu_statement c) (loc_block loc) (loc_clause loc) of
            None \<Rightarrow> Inl ProgramCommandError
          | Some k \<Rightarrow> Inr (cu_path c @ [(cu_index c, k)])))"

definition insertion_index :: "statement list \<Rightarrow> stable_id option \<Rightarrow> command_error + nat" where
  "insertion_index block before =
     (case before of
        None \<Rightarrow> Inr (length block)
      | Some b \<Rightarrow> of_option ProgramCommandError (index_of (\<lambda>s. statement_id s = b) block))"

definition splice :: "nat \<Rightarrow> statement list \<Rightarrow> statement list \<Rightarrow> statement list" where
  "splice i new block = take i block @ new @ drop i block"

text \<open>\<^verbatim>\<open>_insert_into(_target_block(...))\<close>, for one statement or a row of them.\<close>

definition insert_statements ::
  "statement list \<Rightarrow> statement list \<Rightarrow> statement_location \<Rightarrow> command_error + statement list" where
  "insert_statements ss new loc =
     rbind (target_block ss loc) (\<lambda>p.
       case block_at p ss of
         None \<Rightarrow> Inl ProgramCommandError
       | Some block \<Rightarrow> rbind (insertion_index block (loc_before loc)) (\<lambda>i.
           Inr (update_block p (splice i new) ss)))"

section \<open>Default values\<close>

definition parameter_has_default :: "parameter_contract \<Rightarrow> bool" where
  "parameter_has_default p =
     (case pc_has_default p of
        Some b \<Rightarrow> b
      | None \<Rightarrow> \<not> (pc_required p \<and> pc_default p = PlainDefault JNull))"

definition fresh_value_id :: "(nat \<Rightarrow> string) \<Rightarrow> nat \<Rightarrow> stable_id" where
  "fresh_value_id uuid n = new_stable_id uuid ''value'' n"

fun value_from_python :: "(nat \<Rightarrow> string) \<Rightarrow> nat \<Rightarrow> json \<Rightarrow> command_error + value_node" where
  "value_from_python uuid n JNull = Inr (NullValue (fresh_value_id uuid n))"
| "value_from_python uuid n (JBool b) = Inr (BoolValue (fresh_value_id uuid n) b)"
| "value_from_python uuid n (JInt i) = Inr (IntValue (fresh_value_id uuid n) i)"
| "value_from_python uuid n (JFloat q) = Inr (FloatValue (fresh_value_id uuid n) q)"
| "value_from_python uuid n (JString s) = Inr (StringValue (fresh_value_id uuid n) s)"
| "value_from_python uuid n _ = Inl PythonTypeError"

text \<open>A row of literals, one identifier each.\<close>

fun values_from_python :: "(nat \<Rightarrow> string) \<Rightarrow> nat \<Rightarrow> json list \<Rightarrow> command_error + value_node list" where
  "values_from_python uuid n [] = Inr []"
| "values_from_python uuid n (x # xs) =
     rbind (value_from_python uuid n x) (\<lambda>v. rbind (values_from_python uuid (Suc n) xs) (\<lambda>vs. Inr (v # vs)))"

fun entry_pairs :: "'a list \<Rightarrow> ('a \<times> 'a) list" where
  "entry_pairs (k # v # xs) = (k, v) # entry_pairs xs"
| "entry_pairs _ = []"

text \<open>
  \<^verbatim>\<open>int(...)\<close> of the default of a duration. A text is parsed as an optional sign and digits.
\<close>

fun digits_value :: "string \<Rightarrow> int option" where
  "digits_value s = (if s \<noteq> [] \<and> list_all is_digit s
     then Some (foldl (\<lambda>n c. 10 * n + (int (of_char c) - 48)) 0 s) else None)"

definition strip :: "string \<Rightarrow> string" where
  "strip s = rev (dropWhile is_space (rev (dropWhile is_space s)))"

definition parse_int :: "string \<Rightarrow> int option" where
  "parse_int s = (case strip s of
     [] \<Rightarrow> None
   | c # r \<Rightarrow> if c = CHR ''-'' then map_option uminus (digits_value r)
       else if c = CHR ''+'' then digits_value r else digits_value (c # r))"

fun python_int :: "json \<Rightarrow> command_error + int" where
  "python_int (JInt i) = Inr i"
| "python_int (JBool b) = Inr (of_bool b)"
| "python_int (JFloat q) = Inr (if 0 \<le> q then \<lfloor>q\<rfloor> else \<lceil>q\<rceil>)"
| "python_int (JString s) = of_option PythonValueError (parse_int s)"
| "python_int _ = Inl PythonTypeError"

definition duration_default :: "(nat \<Rightarrow> string) \<Rightarrow> nat \<Rightarrow> json \<Rightarrow> command_error + value_node" where
  "duration_default uuid n raw =
     rbind (python_int (case raw of
         JObject fs \<Rightarrow> (case json_get ''milliseconds'' fs of None \<Rightarrow> JNull | Some ms \<Rightarrow> ms)
       | _ \<Rightarrow> raw))
       (\<lambda>ms. Inr (DurationValue (fresh_value_id uuid n) ms))"

definition plain_default ::
  "(nat \<Rightarrow> string) \<Rightarrow> nat \<Rightarrow> type_id \<Rightarrow> json \<Rightarrow> command_error + value_node" where
  "plain_default uuid n t raw =
     (if t = ''duration'' then duration_default uuid n raw
      else let i = fresh_value_id uuid n in
       case raw of
         JNull \<Rightarrow> Inr (NullValue i)
       | JList xs \<Rightarrow>
           if starts_with ''list<'' t then
             rbind (values_from_python uuid (Suc n) xs) (\<lambda>vs. Inr (ListValue i (slice_to_last 5 t) vs))
           else if t = ''json_value'' then Inr (JsonValue i raw)
           else Inl PythonTypeError
       | JObject fs \<Rightarrow>
           if starts_with ''map<'' t then
             (case split_comma (slice_to_last 4 t) of
                None \<Rightarrow> Inl PythonValueError
              | Some (kt, vt) \<Rightarrow>
                  rbind (values_from_python uuid (Suc n) (concat (map (\<lambda>(k, x). [JString k, x]) fs)))
                    (\<lambda>vs. Inr (MapValue i kt vt (entry_pairs vs))))
           else if t = ''json_value'' then Inr (JsonValue i raw)
           else rbind (values_from_python uuid (Suc n) (map snd fs))
             (\<lambda>vs. Inr (RecordValue i t (zip (map fst fs) vs)))
       | _ \<Rightarrow> if t = ''json_value'' then Inr (JsonValue i raw) else value_from_python uuid n raw)"

text \<open>
  \<^verbatim>\<open>_default_value\<close>. A project function's contract carries the declared value node itself,
  which none of the branches expects.
\<close>

definition default_value :: "(nat \<Rightarrow> string) \<Rightarrow> nat \<Rightarrow> parameter_contract \<Rightarrow> command_error + value_node" where
  "default_value uuid n p =
     rbind
       (if \<not> parameter_has_default p then Inr (UnsetValue (fresh_value_id uuid n) (pc_value_type p))
        else case pc_default p of
          PlainDefault raw \<Rightarrow> plain_default uuid n (pc_value_type p) raw
        | NodeDefault v \<Rightarrow>
            Inl (if pc_value_type p = ''json_value'' then ModelValidationError else PythonTypeError))
       (\<lambda>v. if value_ok v then Inr v else Inl ModelValidationError)"

text \<open>How many identifiers a default draws: its node and the literals inside.\<close>

definition ids_drawn :: "value_node \<Rightarrow> nat" where
  "ids_drawn v = length (iter_value_tree v)"

section \<open>Insertion\<close>

definition insert_structured_statement ::
  "validation_env \<Rightarrow> program_document \<Rightarrow> statement \<Rightarrow> statement_location \<Rightarrow> command_error + edit_result" where
  "insert_structured_statement E d s loc =
     rbind (require ModelValidationError (list_all statement_ok (iter_statement_tree [s]))) (\<lambda>_.
     rbind (insert_statements (doc_statements d) [s] loc) (\<lambda>ss.
       finish_edit E d ss (statement_id s) (owned_ids (encode_statement s))))"

text \<open>
  The arguments of an inserted call: the provided value or the contract's default, in
  contract order, drawing identifiers from index \<open>n\<close> on.
\<close>

fun call_arguments ::
  "(nat \<Rightarrow> string) \<Rightarrow> nat \<Rightarrow> (stable_id \<times> value_node) list \<Rightarrow> parameter_contract list \<Rightarrow>
   command_error + (stable_id \<times> value_node) list" where
  "call_arguments uuid n provided [] = Inr []"
| "call_arguments uuid n provided (p # ps) =
     (case map_of provided (pc_parameter_id p) of
        Some v \<Rightarrow> rbind (call_arguments uuid n provided ps) (\<lambda>r. Inr ((pc_parameter_id p, v) # r))
      | None \<Rightarrow> rbind (default_value uuid n p) (\<lambda>v.
          rbind (call_arguments uuid (n + ids_drawn v) provided ps) (\<lambda>r. Inr ((pc_parameter_id p, v) # r))))"

definition insert_call ::
  "(nat \<Rightarrow> string) \<Rightarrow> validation_env \<Rightarrow> program_document \<Rightarrow> stable_id \<Rightarrow> statement_location \<Rightarrow>
   (stable_id \<times> value_node) list \<Rightarrow> command_error + edit_result" where
  "insert_call uuid E d f loc provided =
     rbind (of_option ProgramCommandError (get_contract E f)) (\<lambda>c.
     rbind (require ProgramCommandError (set (map fst provided) \<subseteq> set (map pc_parameter_id (fc_parameters c)))) (\<lambda>_.
     rbind (call_arguments uuid 1 provided (fc_parameters c)) (\<lambda>args.
       let sid = new_stable_id uuid ''stmt'' 0 in
       rbind (insert_statements (doc_statements d) [CallStatement sid f args None None None] loc) (\<lambda>ss.
         finish_edit E d ss sid (JString sid # map (\<lambda>(p, v). JString (value_id v)) args)))))"

definition insert_assignment ::
  "(nat \<Rightarrow> string) \<Rightarrow> validation_env \<Rightarrow> program_document \<Rightarrow> assignment_target \<Rightarrow> value_node \<Rightarrow>
   statement_location \<Rightarrow> command_error + edit_result" where
  "insert_assignment uuid E d target v loc = insert_structured_statement (unlinked E) d
     (AssignmentStatement (new_stable_id uuid ''stmt'' 0) target v None) loc"

definition insert_if ::
  "(nat \<Rightarrow> string) \<Rightarrow> validation_env \<Rightarrow> program_document \<Rightarrow> value_node \<Rightarrow> statement_location \<Rightarrow>
   command_error + edit_result" where
  "insert_if uuid E d condition loc = insert_structured_statement (unlinked E) d
     (IfStatement (new_stable_id uuid ''stmt'' 0) condition [] [] [] None) loc"

definition insert_loop ::
  "(nat \<Rightarrow> string) \<Rightarrow> validation_env \<Rightarrow> program_document \<Rightarrow> loop_mode \<Rightarrow> value_node \<Rightarrow>
   loop_binding option \<Rightarrow> loop_binding option \<Rightarrow> loop_binding option \<Rightarrow> loop_binding option \<Rightarrow>
   statement_location \<Rightarrow> command_error + edit_result" where
  "insert_loop uuid E d m source item idx key val loc = insert_structured_statement (unlinked E) d
     (LoopStatement (new_stable_id uuid ''stmt'' 0) m source [] item idx key val None) loc"

definition insert_break ::
  "(nat \<Rightarrow> string) \<Rightarrow> validation_env \<Rightarrow> program_document \<Rightarrow> statement_location \<Rightarrow> command_error + edit_result" where
  "insert_break uuid E d loc = insert_structured_statement (unlinked E) d
     (BreakStatement (new_stable_id uuid ''stmt'' 0) None) loc"

definition insert_continue ::
  "(nat \<Rightarrow> string) \<Rightarrow> validation_env \<Rightarrow> program_document \<Rightarrow> statement_location \<Rightarrow> command_error + edit_result" where
  "insert_continue uuid E d loc = insert_structured_statement (unlinked E) d
     (ContinueStatement (new_stable_id uuid ''stmt'' 0) None) loc"

definition insert_return ::
  "(nat \<Rightarrow> string) \<Rightarrow> validation_env \<Rightarrow> program_document \<Rightarrow> value_node option \<Rightarrow> statement_location \<Rightarrow>
   command_error + edit_result" where
  "insert_return uuid E d v loc = insert_structured_statement (unlinked E) d
     (ReturnStatement (new_stable_id uuid ''stmt'' 0) v None) loc"

definition insert_fail ::
  "(nat \<Rightarrow> string) \<Rightarrow> validation_env \<Rightarrow> program_document \<Rightarrow> stable_id \<Rightarrow> value_node \<Rightarrow> value_node option \<Rightarrow>
   statement_location \<Rightarrow> command_error + edit_result" where
  "insert_fail uuid E d error_id msg details loc = insert_structured_statement (unlinked E) d
     (FailStatement (new_stable_id uuid ''stmt'' 0) error_id msg details None) loc"

definition insert_try ::
  "(nat \<Rightarrow> string) \<Rightarrow> validation_env \<Rightarrow> program_document \<Rightarrow> retry_policy option \<Rightarrow> catch_clause list \<Rightarrow>
   statement_location \<Rightarrow> command_error + edit_result" where
  "insert_try uuid E d policy catches loc = insert_structured_statement (unlinked E) d
     (TryStatement (new_stable_id uuid ''stmt'' 0) []
       (map_option (\<lambda>r. r\<lparr>rp_author_review_fingerprint := None\<rparr>) policy) catches [] None) loc"

definition insert_target_scope ::
  "(nat \<Rightarrow> string) \<Rightarrow> validation_env \<Rightarrow> program_document \<Rightarrow> value_node \<Rightarrow> statement_location \<Rightarrow>
   command_error + edit_result" where
  "insert_target_scope uuid E d target loc = insert_structured_statement (unlinked E) d
     (TargetScopeStatement (new_stable_id uuid ''stmt'' 0) target [] None) loc"

definition insert_listen ::
  "(nat \<Rightarrow> string) \<Rightarrow> validation_env \<Rightarrow> program_document \<Rightarrow> message_event_source \<Rightarrow> loop_binding \<Rightarrow> stable_id \<Rightarrow>
   value_node option \<Rightarrow> (stable_id \<times> value_node) list \<Rightarrow> statement_location \<Rightarrow> command_error + edit_result" where
  "insert_listen uuid E d src rb handler condition args loc = insert_structured_statement (unlinked E) d
     (ListenStatement (new_stable_id uuid ''stmt'' 0) src rb condition handler args None) loc"

section \<open>Edits of one statement\<close>

definition replace_statement :: "cursor \<Rightarrow> statement \<Rightarrow> statement list \<Rightarrow> statement list" where
  "replace_statement c s ss = update_block (cu_path c) (\<lambda>b. b[cu_index c := s]) ss"

text \<open>A command that rewrites the statement it finds; \<open>f\<close> gives the new one or fails.\<close>

definition update_statement ::
  "validation_env \<Rightarrow> program_document \<Rightarrow> stable_id \<Rightarrow> string \<Rightarrow>
   (statement \<Rightarrow> command_error + statement \<times> json list) \<Rightarrow> command_error + edit_result" where
  "update_statement E d sid kind f =
     rbind (statement_for_update (doc_statements d) sid kind) (\<lambda>c.
     rbind (f (cu_statement c)) (\<lambda>(s, created).
       finish_edit E d (replace_statement c s (doc_statements d)) sid created))"

text \<open>A text with the suffix of the default name: the UTF-8 bytes of the literal.\<close>

definition result_suffix :: string where
  "result_suffix = [CHR 0xE7, CHR 0xBB, CHR 0x93, CHR 0xE6, CHR 0x9E, CHR 0x9C]"

definition last_dotted :: "string \<Rightarrow> string" where
  "last_dotted s = rev (takeWhile (\<lambda>c. c \<noteq> CHR ''.'') (rev s))"

definition bound_result ::
  "(nat \<Rightarrow> string) \<Rightarrow> nat \<Rightarrow> string option \<Rightarrow> function_contract \<Rightarrow> result_binding option \<Rightarrow>
   command_error + result_binding \<times> stable_id list" where
  "bound_result uuid n name c rb =
     (case rb of
        None \<Rightarrow>
          (let s = new_stable_id uuid ''symbol'' n;
               label = (case name of None \<Rightarrow> [] | Some x \<Rightarrow> x);
               shown = strip (if label \<noteq> [] then label else last_dotted (fc_name c) @ result_suffix)
           in Inr (\<lparr>rb_symbol_id = s, rb_display_name = shown, rb_value_type = fc_return_type c,
                    rb_declare = True\<rparr>, [s]))
      | Some b \<Rightarrow> if rb_value_type b = fc_return_type c then Inr (b, []) else Inl ProgramCommandError)"

definition optional_type :: "type_id \<Rightarrow> bool" where
  "optional_type t \<longleftrightarrow> starts_with ''optional<'' t \<and> ends_with ''>'' t"

text \<open>The typed guard on a call result, drawing identifiers from index \<open>n\<close> on.\<close>

definition result_condition :: "(nat \<Rightarrow> string) \<Rightarrow> nat \<Rightarrow> stable_id \<Rightarrow> type_id \<Rightarrow> value_node" where
  "result_condition uuid n s t =
     (let reference = SymbolReferenceValue (fresh_value_id uuid n) s t
      in if t = ''bool'' then reference
         else ComparisonValue (fresh_value_id uuid (n + 2)) OpNe reference (NullValue (fresh_value_id uuid (n + 1))))"

fun condition_ids :: "value_node \<Rightarrow> stable_id list" where
  "condition_ids (ComparisonValue i _ l r) = [value_id l, value_id r, i]"
| "condition_ids v = [value_id v]"

definition insert_if_from_call_result ::
  "(nat \<Rightarrow> string) \<Rightarrow> validation_env \<Rightarrow> program_document \<Rightarrow> stable_id \<Rightarrow> string option \<Rightarrow>
   command_error + edit_result" where
  "insert_if_from_call_result uuid E d sid name =
     rbind (require_statement (doc_statements d) sid) (\<lambda>c.
       case cu_statement c of
         CallStatement i f args rb review l \<Rightarrow>
           rbind (of_option ProgramCommandError (get_contract E f)) (\<lambda>contract.
             let t = fc_return_type contract in
             if t \<noteq> ''bool'' \<and> \<not> optional_type t then Inl ProgramCommandError
             else rbind (bound_result uuid 0 name contract rb) (\<lambda>(b, created).
               let condition = result_condition uuid (length created) (rb_symbol_id b) t;
                   if_id = new_stable_id uuid ''stmt'' (length created + length (condition_ids condition));
                   guard = IfStatement if_id condition [] [] [] None;
                   call = CallStatement i f args (Some b) review l
               in finish_edit E d
                    (update_block (cu_path c) (\<lambda>block. insert_at (Suc (cu_index c)) guard (block[cu_index c := call]))
                      (doc_statements d))
                    if_id (map JString (if_id # created @ condition_ids condition))))
       | _ \<Rightarrow> Inl ProgramCommandError)"

definition add_if_branch ::
  "(nat \<Rightarrow> string) \<Rightarrow> validation_env \<Rightarrow> program_document \<Rightarrow> stable_id \<Rightarrow> value_node \<Rightarrow> command_error + edit_result" where
  "add_if_branch uuid E d sid condition = update_statement (unlinked E) d sid ''if'' (\<lambda>s.
     case s of
       IfStatement i c th branches oth l \<Rightarrow>
         (let b = new_stable_id uuid ''branch'' 0
          in Inr (IfStatement i c th (branches @ [ConditionalBranch b condition []]) oth l,
              [JString b, JString (value_id condition)]))
     | _ \<Rightarrow> Inl ProgramCommandError)"

definition remove_if_branch ::
  "validation_env \<Rightarrow> program_document \<Rightarrow> stable_id \<Rightarrow> stable_id \<Rightarrow> command_error + edit_result" where
  "remove_if_branch E d sid bid = update_statement (unlinked E) d sid ''if'' (\<lambda>s.
     case s of
       IfStatement i c th branches oth l \<Rightarrow>
         rbind (of_option ProgramCommandError (List.find (\<lambda>b. branch_id b = bid) branches)) (\<lambda>b.
           if branch_statements b \<noteq> [] then Inl ProgramCommandError
           else Inr (IfStatement i c th (filter (\<lambda>b. branch_id b \<noteq> bid) branches) oth l, []))
     | _ \<Rightarrow> Inl ProgramCommandError)"

definition add_catch_clause ::
  "(nat \<Rightarrow> string) \<Rightarrow> validation_env \<Rightarrow> program_document \<Rightarrow> stable_id \<Rightarrow> stable_id list \<Rightarrow> loop_binding option \<Rightarrow>
   command_error + edit_result" where
  "add_catch_clause uuid E d sid error_ids binding = update_statement (unlinked E) d sid ''try'' (\<lambda>s.
     case s of
       TryStatement i body policy catches fin l \<Rightarrow>
         (let c = new_stable_id uuid ''catch'' 0
          in Inr (TryStatement i body policy (catches @ [CatchClause c error_ids binding []]) fin l,
              JString c # map (JString \<circ> lb_symbol_id) (opt_list binding)))
     | _ \<Rightarrow> Inl ProgramCommandError)"

section \<open>Updates that keep identities\<close>

fun with_value_id :: "stable_id \<Rightarrow> value_node \<Rightarrow> value_node" where
  "with_value_id j (UnsetValue _ t) = UnsetValue j t"
| "with_value_id j (NullValue _) = NullValue j"
| "with_value_id j (StringValue _ x) = StringValue j x"
| "with_value_id j (IntValue _ x) = IntValue j x"
| "with_value_id j (FloatValue _ x) = FloatValue j x"
| "with_value_id j (BoolValue _ x) = BoolValue j x"
| "with_value_id j (DateValue _ x) = DateValue j x"
| "with_value_id j (DateTimeValue _ x) = DateTimeValue j x"
| "with_value_id j (TimeValue _ x) = TimeValue j x"
| "with_value_id j (DurationValue _ x) = DurationValue j x"
| "with_value_id j (PointValue _ x y) = PointValue j x y"
| "with_value_id j (RectValue _ x y w h) = RectValue j x y w h"
| "with_value_id j (PathValue _ ps) = PathValue j ps"
| "with_value_id j (SymbolReferenceValue _ s t) = SymbolReferenceValue j s t"
| "with_value_id j (ProjectVariableReferenceValue _ s t) = ProjectVariableReferenceValue j s t"
| "with_value_id j (AssetReferenceValue _ a k) = AssetReferenceValue j a k"
| "with_value_id j (TargetReferenceValue _ t) = TargetReferenceValue j t"
| "with_value_id j (EntityReferenceValue _ r t) = EntityReferenceValue j r t"
| "with_value_id j (MemberAccessValue _ v f t) = MemberAccessValue j v f t"
| "with_value_id j (ListValue _ t items) = ListValue j t items"
| "with_value_id j (MapValue _ k v es) = MapValue j k v es"
| "with_value_id j (RecordValue _ t flds) = RecordValue j t flds"
| "with_value_id j (JsonValue _ p) = JsonValue j p"
| "with_value_id j (PureOperationValue _ op t inputs) = PureOperationValue j op t inputs"
| "with_value_id j (SelectorValue _ bs t e) = SelectorValue j bs t e"
| "with_value_id j (ComparisonValue _ op l r) = ComparisonValue j op l r"
| "with_value_id j (ConditionGroupValue _ op cs) = ConditionGroupValue j op cs"
| "with_value_id j (NotValue _ c) = NotValue j c"

lemma value_id_with_value_id [simp]: "value_id (with_value_id j v) = j"
  by (cases v) simp_all

lemma with_value_id_self [simp]: "with_value_id (value_id v) v = v"
  by (cases v) simp_all

text \<open>\<^verbatim>\<open>_replace_value\<close> of a present slot and of an optional one.\<close>

definition replace_value :: "value_node \<Rightarrow> value_node \<Rightarrow> command_error + value_node" where
  "replace_value current v =
     (if value_id current = [] then Inl ProgramCommandError else Inr (with_value_id (value_id current) v))"

definition replace_optional ::
  "value_node option \<Rightarrow> value_node option \<Rightarrow> command_error + value_node option" where
  "replace_optional current replacement =
     (case replacement of
        None \<Rightarrow> Inr None
      | Some v \<Rightarrow> (case current of
            None \<Rightarrow> Inr (Some v)
          | Some c \<Rightarrow> rbind (replace_value c v) (\<lambda>w. Inr (Some w))))"

definition replace_binding :: "loop_binding option \<Rightarrow> loop_binding option \<Rightarrow> loop_binding option" where
  "replace_binding current replacement =
     (case replacement of
        None \<Rightarrow> None
      | Some b \<Rightarrow> (case current of None \<Rightarrow> Some b | Some c \<Rightarrow> Some (b\<lparr>lb_symbol_id := lb_symbol_id c\<rparr>)))"

definition update_call_argument ::
  "validation_env \<Rightarrow> program_document \<Rightarrow> stable_id \<Rightarrow> stable_id \<Rightarrow> value_node \<Rightarrow> command_error + edit_result" where
  "update_call_argument E d sid p v = update_statement E d sid ''call'' (\<lambda>s.
     case s of
       CallStatement i f args rb review l \<Rightarrow>
         rbind (of_option ProgramCommandError (get_contract E f)) (\<lambda>c.
         rbind (of_option ProgramCommandError (contract_parameter c p)) (\<lambda>_.
           let v' = (case map_of args p of None \<Rightarrow> v | Some current \<Rightarrow> with_value_id (value_id current) v)
           in Inr (CallStatement i f (dict_set p v' args) rb (if fc_dangerous c then None else review) l, [])))
     | _ \<Rightarrow> Inl ProgramCommandError)"

definition missing_parameters ::
  "function_contract \<Rightarrow> (stable_id \<times> value_node) list \<Rightarrow> parameter_contract list" where
  "missing_parameters c args = filter (\<lambda>p. map_of args (pc_parameter_id p) = None) (fc_parameters c)"

definition repair_missing_call_arguments ::
  "(nat \<Rightarrow> string) \<Rightarrow> validation_env \<Rightarrow> program_document \<Rightarrow> stable_id \<Rightarrow> command_error + edit_result" where
  "repair_missing_call_arguments uuid E d sid = update_statement E d sid ''call'' (\<lambda>s.
     case s of
       CallStatement i f args rb review l \<Rightarrow>
         rbind (of_option ProgramCommandError (get_contract E f)) (\<lambda>c.
           if missing_parameters c args = [] then Inl ProgramCommandError
           else rbind (call_arguments uuid 0 [] (missing_parameters c args)) (\<lambda>new.
             Inr (CallStatement i f (args @ new) rb (if fc_dangerous c then None else review) l,
               concat (map (\<lambda>(p, v). owned_ids (encode_value v)) new))))
     | _ \<Rightarrow> Inl ProgramCommandError)"

definition update_assignment_value ::
  "validation_env \<Rightarrow> program_document \<Rightarrow> stable_id \<Rightarrow> value_node \<Rightarrow> command_error + edit_result" where
  "update_assignment_value E d sid v = update_statement E d sid ''assignment'' (\<lambda>s.
     case s of
       AssignmentStatement i t current l \<Rightarrow>
         rbind (replace_value current v) (\<lambda>v'. Inr (AssignmentStatement i t v' l, []))
     | _ \<Rightarrow> Inl ProgramCommandError)"

text \<open>A local target keeps its symbol.\<close>

fun retarget :: "assignment_target \<Rightarrow> assignment_target \<Rightarrow> assignment_target" where
  "retarget (LocalAssignmentTarget s _ _ _) (LocalAssignmentTarget _ n t d) = LocalAssignmentTarget s n t d"
| "retarget _ target = target"

definition update_assignment_target ::
  "validation_env \<Rightarrow> program_document \<Rightarrow> stable_id \<Rightarrow> assignment_target \<Rightarrow> value_node option \<Rightarrow>
   command_error + edit_result" where
  "update_assignment_target E d sid target v = update_statement E d sid ''assignment'' (\<lambda>s.
     case s of
       AssignmentStatement i t current l \<Rightarrow>
         rbind (case v of None \<Rightarrow> Inr current | Some w \<Rightarrow> replace_value current w) (\<lambda>v'.
           Inr (AssignmentStatement i (retarget t target) v' l, []))
     | _ \<Rightarrow> Inl ProgramCommandError)"

definition update_branch_condition ::
  "stable_id \<Rightarrow> value_node \<Rightarrow> conditional_branch list \<Rightarrow> command_error + conditional_branch list" where
  "update_branch_condition bid condition branches =
     (case index_of (\<lambda>b. branch_id b = bid) branches of
        None \<Rightarrow> Inl ProgramCommandError
      | Some k \<Rightarrow> rbind (replace_value (branch_condition (branches ! k)) condition) (\<lambda>v.
          Inr (branches[k := ConditionalBranch bid v (branch_statements (branches ! k))])))"

definition update_if_condition ::
  "validation_env \<Rightarrow> program_document \<Rightarrow> stable_id \<Rightarrow> value_node \<Rightarrow> stable_id option \<Rightarrow>
   command_error + edit_result" where
  "update_if_condition E d sid condition bid = update_statement E d sid ''if'' (\<lambda>s.
     case s of
       IfStatement i current th branches oth l \<Rightarrow>
         (case bid of
            None \<Rightarrow> rbind (replace_value current condition) (\<lambda>v. Inr (IfStatement i v th branches oth l, []))
          | Some b \<Rightarrow> rbind (update_branch_condition b condition branches) (\<lambda>branches'.
              Inr (IfStatement i current th branches' oth l, [])))
     | _ \<Rightarrow> Inl ProgramCommandError)"

definition update_loop ::
  "validation_env \<Rightarrow> program_document \<Rightarrow> stable_id \<Rightarrow> loop_mode \<Rightarrow> value_node \<Rightarrow> loop_binding option \<Rightarrow>
   loop_binding option \<Rightarrow> loop_binding option \<Rightarrow> loop_binding option \<Rightarrow> command_error + edit_result" where
  "update_loop E d sid m source item idx key val = update_statement E d sid ''loop'' (\<lambda>s.
     case s of
       LoopStatement i _ current body item0 idx0 key0 val0 l \<Rightarrow>
         rbind (replace_value current source) (\<lambda>v.
           Inr (LoopStatement i m v body (replace_binding item0 item) (replace_binding idx0 idx)
             (replace_binding key0 key) (replace_binding val0 val) l, []))
     | _ \<Rightarrow> Inl ProgramCommandError)"

definition update_return_value ::
  "validation_env \<Rightarrow> program_document \<Rightarrow> stable_id \<Rightarrow> value_node option \<Rightarrow> command_error + edit_result" where
  "update_return_value E d sid v = update_statement E d sid ''return'' (\<lambda>s.
     case s of
       ReturnStatement i current l \<Rightarrow> rbind (replace_optional current v) (\<lambda>v'. Inr (ReturnStatement i v' l, []))
     | _ \<Rightarrow> Inl ProgramCommandError)"

definition update_fail ::
  "validation_env \<Rightarrow> program_document \<Rightarrow> stable_id \<Rightarrow> stable_id \<Rightarrow> value_node \<Rightarrow> value_node option \<Rightarrow>
   command_error + edit_result" where
  "update_fail E d sid error_id msg details = update_statement E d sid ''fail'' (\<lambda>s.
     case s of
       FailStatement i _ msg0 details0 l \<Rightarrow>
         rbind (replace_value msg0 msg) (\<lambda>m.
         rbind (replace_optional details0 details) (\<lambda>x. Inr (FailStatement i error_id m x l, [])))
     | _ \<Rightarrow> Inl ProgramCommandError)"

text \<open>The review evidence of a policy is kept from the document, never taken from the caller.\<close>

definition replace_policy ::
  "retry_policy option \<Rightarrow> retry_policy option \<Rightarrow> command_error + retry_policy option" where
  "replace_policy current policy =
     (case policy of
        None \<Rightarrow> Inr None
      | Some r \<Rightarrow> (case current of
            None \<Rightarrow> Inr (Some (r\<lparr>rp_author_review_fingerprint := None\<rparr>))
          | Some c \<Rightarrow>
              rbind (replace_value (rp_max_retries c) (rp_max_retries r)) (\<lambda>m.
              rbind (replace_value (rp_interval c) (rp_interval r)) (\<lambda>i.
                Inr (Some \<lparr>rp_max_retries = m, rp_interval = i,
                  rp_author_review_fingerprint = rp_author_review_fingerprint c\<rparr>)))))"

definition update_try_retry_policy ::
  "validation_env \<Rightarrow> program_document \<Rightarrow> stable_id \<Rightarrow> retry_policy option \<Rightarrow> command_error + edit_result" where
  "update_try_retry_policy E d sid policy = update_statement E d sid ''try'' (\<lambda>s.
     case s of
       TryStatement i body current catches fin l \<Rightarrow>
         rbind (replace_policy current policy) (\<lambda>p. Inr (TryStatement i body p catches fin l, []))
     | _ \<Rightarrow> Inl ProgramCommandError)"

text \<open>The statement the typed document has under an identifier.\<close>

definition typed_statement :: "program_document \<Rightarrow> stable_id \<Rightarrow> statement option" where
  "typed_statement d sid = List.find (\<lambda>s. statement_id s = sid) (iter_statement_tree (doc_statements d))"

definition review_retry_risk ::
  "validation_env \<Rightarrow> program_document \<Rightarrow> stable_id \<Rightarrow> command_error + edit_result" where
  "review_retry_risk E d sid = update_statement E d sid ''try'' (\<lambda>s.
     case (typed_statement d sid, s) of
       (Some (TryStatement _ body (Some _) _ _ _), TryStatement i b (Some r) catches fin l) \<Rightarrow>
         if \<not> retry_body_has_side_effects E body then Inl ProgramCommandError
         else Inr (TryStatement i b
           (Some (r\<lparr>rp_author_review_fingerprint := Some (retry_review_fingerprint E sid body)\<rparr>)) catches fin l, [])
     | _ \<Rightarrow> Inl ProgramCommandError)"

definition review_dangerous_call ::
  "validation_env \<Rightarrow> program_document \<Rightarrow> stable_id \<Rightarrow> command_error + edit_result" where
  "review_dangerous_call E d sid = update_statement E d sid ''call'' (\<lambda>s.
     case (typed_statement d sid, s) of
       (Some (CallStatement _ f args _ _ _), CallStatement i f' args' rb _ l) \<Rightarrow>
         rbind (of_option PythonKeyError (get_contract E f)) (\<lambda>c.
           if \<not> fc_dangerous c then Inl ProgramCommandError
           else Inr (CallStatement i f' args' rb (Some (dangerous_call_review_fingerprint E sid f args c)) l, []))
     | _ \<Rightarrow> Inl ProgramCommandError)"

definition update_catch_clause ::
  "validation_env \<Rightarrow> program_document \<Rightarrow> stable_id \<Rightarrow> stable_id \<Rightarrow> stable_id list \<Rightarrow> loop_binding option \<Rightarrow>
   command_error + edit_result" where
  "update_catch_clause E d sid cid error_ids binding = update_statement E d sid ''try'' (\<lambda>s.
     case s of
       TryStatement i body policy catches fin l \<Rightarrow>
         (case index_of (\<lambda>c. catch_id c = cid) catches of
            None \<Rightarrow> Inl ProgramCommandError
          | Some k \<Rightarrow> Inr (TryStatement i body policy (catches[k := CatchClause cid error_ids
              (replace_binding (catch_error_binding (catches ! k)) binding) (catch_statements (catches ! k))]) fin l, []))
     | _ \<Rightarrow> Inl ProgramCommandError)"

definition update_target_scope ::
  "validation_env \<Rightarrow> program_document \<Rightarrow> stable_id \<Rightarrow> value_node \<Rightarrow> command_error + edit_result" where
  "update_target_scope E d sid target = update_statement E d sid ''target_scope'' (\<lambda>s.
     case s of
       TargetScopeStatement i current body l \<Rightarrow>
         rbind (replace_value current target) (\<lambda>v. Inr (TargetScopeStatement i v body l, []))
     | _ \<Rightarrow> Inl ProgramCommandError)"

definition replace_handler_arguments ::
  "(stable_id \<times> value_node) list \<Rightarrow> (stable_id \<times> value_node) list \<Rightarrow>
   command_error + (stable_id \<times> value_node) list" where
  "replace_handler_arguments current args =
     rmap (\<lambda>(p, v). case map_of current p of
         None \<Rightarrow> Inr (p, v)
       | Some c \<Rightarrow> rbind (replace_value c v) (\<lambda>w. Inr (p, w))) args"

definition update_listen ::
  "validation_env \<Rightarrow> program_document \<Rightarrow> stable_id \<Rightarrow> message_event_source \<Rightarrow> loop_binding \<Rightarrow> stable_id \<Rightarrow>
   value_node option \<Rightarrow> (stable_id \<times> value_node) list \<Rightarrow> command_error + edit_result" where
  "update_listen E d sid src rb handler condition args = update_statement E d sid ''listen'' (\<lambda>s.
     case s of
       ListenStatement i src0 rb0 condition0 _ args0 l \<Rightarrow>
         rbind (replace_value (es_name src0) (es_name src)) (\<lambda>n.
         rbind (replace_optional (es_sender src0) (es_sender src)) (\<lambda>snd.
         rbind (replace_handler_arguments args0 args) (\<lambda>args'.
         rbind (replace_optional condition0 condition) (\<lambda>c.
           Inr (ListenStatement i \<lparr>es_name = n, es_sender = snd\<rparr> (rb\<lparr>lb_symbol_id := lb_symbol_id rb0\<rparr>) c handler args' l, [])))))
     | _ \<Rightarrow> Inl ProgramCommandError)"

definition set_result_binding ::
  "validation_env \<Rightarrow> program_document \<Rightarrow> stable_id \<Rightarrow> result_binding option \<Rightarrow> command_error + edit_result" where
  "set_result_binding E d sid binding = update_statement E d sid ''call'' (\<lambda>s.
     case s of
       CallStatement i f args current review l \<Rightarrow>
         Inr (CallStatement i f args
           (case (binding, current) of
              (Some b, Some c) \<Rightarrow> Some (b\<lparr>rb_symbol_id := rb_symbol_id c\<rparr>)
            | _ \<Rightarrow> binding) review l, [])
     | _ \<Rightarrow> Inl ProgramCommandError)"

fun with_step_label :: "string option \<Rightarrow> statement \<Rightarrow> statement" where
  "with_step_label l (CallStatement i f args rb r _) = CallStatement i f args rb r l"
| "with_step_label l (AssignmentStatement i t v _) = AssignmentStatement i t v l"
| "with_step_label l (IfStatement i c th brs oth _) = IfStatement i c th brs oth l"
| "with_step_label l (LoopStatement i m s b item idx key val _) = LoopStatement i m s b item idx key val l"
| "with_step_label l (BreakStatement i _) = BreakStatement i l"
| "with_step_label l (ContinueStatement i _) = ContinueStatement i l"
| "with_step_label l (ReturnStatement i v _) = ReturnStatement i v l"
| "with_step_label l (FailStatement i e m x _) = FailStatement i e m x l"
| "with_step_label l (TryStatement i b r cs fin _) = TryStatement i b r cs fin l"
| "with_step_label l (TargetScopeStatement i t b _) = TargetScopeStatement i t b l"
| "with_step_label l (ListenStatement i src rb c h args _) = ListenStatement i src rb c h args l"

definition set_step_label ::
  "validation_env \<Rightarrow> program_document \<Rightarrow> stable_id \<Rightarrow> string option \<Rightarrow> command_error + edit_result" where
  "set_step_label E d sid label =
     rbind (require_statement (doc_statements d) sid) (\<lambda>c.
       let normalized = (case label of None \<Rightarrow> None | Some l \<Rightarrow> if strip l = [] then None else Some (strip l))
       in finish_edit (unlinked E) d
            (replace_statement c (with_step_label normalized (cu_statement c)) (doc_statements d)) sid [])"

section \<open>Moving and deleting\<close>

definition descendant_ids :: "statement \<Rightarrow> stable_id set" where
  "descendant_ids s = set (map statement_id (iter_statement_tree [s]))"

definition pop_statement :: "cursor \<Rightarrow> statement list \<Rightarrow> statement list" where
  "pop_statement c ss = update_block (cu_path c) (delete_at (cu_index c)) ss"

definition unchanged :: "program_document \<Rightarrow> stable_id \<Rightarrow> command_error + edit_result" where
  "unchanged d sid = Inr \<lparr>er_document = d, er_selected = sid, er_created = []\<rparr>"

definition in_subtree :: "statement_location \<Rightarrow> statement list \<Rightarrow> bool" where
  "in_subtree loc ss \<longleftrightarrow>
     (case loc_parent loc of None \<Rightarrow> False | Some p \<Rightarrow> list_ex (\<lambda>s. p \<in> descendant_ids s) ss)"

definition move_statement ::
  "validation_env \<Rightarrow> program_document \<Rightarrow> stable_id \<Rightarrow> statement_location \<Rightarrow> command_error + edit_result" where
  "move_statement E d sid loc =
     rbind (require_statement (doc_statements d) sid) (\<lambda>c.
       if in_subtree loc [cu_statement c] then Inl ProgramCommandError
       else if loc_before loc = Some sid then unchanged d sid
       else rbind (insert_statements (pop_statement c (doc_statements d)) [cu_statement c] loc)
         (\<lambda>ss. finish_edit (unlinked E) d ss sid []))"

text \<open>\<^verbatim>\<open>list(dict.fromkeys(...))\<close> keeps the first occurrence of each identifier.\<close>

definition unique_ids :: "stable_id list \<Rightarrow> stable_id list" where
  "unique_ids ids = rev (remdups (rev ids))"

text \<open>The cursors of a selection, in the order of their block; all in one block.\<close>

definition selection_cursors :: "statement list \<Rightarrow> stable_id list \<Rightarrow> command_error + cursor list" where
  "selection_cursors ss ids =
     rbind (require ProgramCommandError (ids \<noteq> [])) (\<lambda>_.
     rbind (rmap (require_statement ss) (unique_ids ids)) (\<lambda>cs.
       if list_all (\<lambda>c. cu_path c = cu_path (hd cs)) cs then Inr (sort_key cu_index cs)
       else Inl ProgramCommandError))"

definition pop_selection :: "cursor list \<Rightarrow> statement list \<Rightarrow> statement list" where
  "pop_selection cs ss = update_block (cu_path (hd cs)) (fold (\<lambda>c. delete_at (cu_index c)) (rev cs)) ss"

definition move_statements ::
  "validation_env \<Rightarrow> program_document \<Rightarrow> stable_id list \<Rightarrow> statement_location \<Rightarrow> command_error + edit_result" where
  "move_statements E d ids loc =
     rbind (selection_cursors (doc_statements d) ids) (\<lambda>cs.
       let moved = map cu_statement cs; last_id = statement_id (last moved) in
       if (case loc_before loc of None \<Rightarrow> False | Some b \<Rightarrow> b \<in> set (map statement_id moved))
       then unchanged d last_id
       else if in_subtree loc moved then Inl ProgramCommandError
       else rbind (insert_statements (pop_selection cs (doc_statements d)) moved loc)
         (\<lambda>ss. finish_edit (unlinked E) d ss last_id []))"

text \<open>The neighbour selected after a deletion, in the block that remains.\<close>

definition next_selection :: "block_path \<Rightarrow> nat \<Rightarrow> statement list \<Rightarrow> stable_id" where
  "next_selection p i ss =
     (case block_at p ss of
        None \<Rightarrow> []
      | Some block \<Rightarrow> if block = [] then [] else statement_id (block ! min i (length block - 1)))"

definition delete_statement ::
  "validation_env \<Rightarrow> program_document \<Rightarrow> stable_id \<Rightarrow> command_error + edit_result" where
  "delete_statement E d sid =
     rbind (require_statement (doc_statements d) sid) (\<lambda>c.
       let ss = pop_statement c (doc_statements d) in
       finish_edit (unlinked E) d ss (next_selection (cu_path c) (cu_index c) ss) [])"

definition delete_statements ::
  "validation_env \<Rightarrow> program_document \<Rightarrow> stable_id list \<Rightarrow> command_error + edit_result" where
  "delete_statements E d ids =
     rbind (selection_cursors (doc_statements d) ids) (\<lambda>cs.
       let ss = pop_selection cs (doc_statements d) in
       finish_edit (unlinked E) d ss (next_selection (cu_path (hd cs)) (cu_index (hd cs)) ss) [])"

end
