(* ===== verification/Program_Decode.thy ===== *)
theory Program_Decode
  imports Program_Json "HOL-Library.Monad_Syntax"
begin

text \<open>
  The way back from dumped dictionaries to statements: what the classes of
  \<^verbatim>\<open>core/vnext/program_types.py\<close> accept as input of \<^verbatim>\<open>model_validate\<close>, fields with their
  defaults, unknown keys refused, the kind choosing the class. The constraints on texts and
  the validators of whole models follow in \<open>model_validate\<close>. A dump decodes to
  what was dumped.
\<close>

section \<open>Fields\<close>

text \<open>
  What the validation library does with the input of a \<^verbatim>\<open>date\<close>, a \<^verbatim>\<open>datetime\<close>, a \<^verbatim>\<open>time\<close> (the
  ISO text of the result) and a \<^verbatim>\<open>bool\<close>, and the float it makes of an integer.
\<close>

record decode_env =
  de_date :: "json \<Rightarrow> string option"
  de_datetime :: "json \<Rightarrow> string option"
  de_time :: "json \<Rightarrow> string option"
  de_bool :: "json \<Rightarrow> bool option"
  de_float :: "int \<Rightarrow> rat"

type_synonym dumped_fields = "(string \<times> json) list"

definition get_field :: "dumped_fields \<Rightarrow> string \<Rightarrow> (json \<Rightarrow> 'a option) \<Rightarrow> 'a option" where
  "get_field fs k f = Option.bind (json_get k fs) f"

definition field_or :: "'a \<Rightarrow> dumped_fields \<Rightarrow> string \<Rightarrow> (json \<Rightarrow> 'a option) \<Rightarrow> 'a option" where
  "field_or d fs k f = (case json_get k fs of None \<Rightarrow> Some d | Some j \<Rightarrow> f j)"

text \<open>\<^verbatim>\<open>extra='forbid'\<close>.\<close>

definition only_keys :: "string list \<Rightarrow> dumped_fields \<Rightarrow> bool" where
  "only_keys ks fs \<longleftrightarrow> list_all (\<lambda>(k, j). k \<in> set ks) fs"

definition decode_fields :: "(dumped_fields \<Rightarrow> 'a option) \<Rightarrow> json \<Rightarrow> 'a option" where
  "decode_fields f j = (case j of JObject fs \<Rightarrow> f fs | _ \<Rightarrow> None)"

definition decode_list :: "(json \<Rightarrow> 'a option) \<Rightarrow> json \<Rightarrow> 'a list option" where
  "decode_list f j = (case j of JList xs \<Rightarrow> those (map f xs) | _ \<Rightarrow> None)"

definition decode_dict :: "(json \<Rightarrow> 'a option) \<Rightarrow> json \<Rightarrow> (string \<times> 'a) list option" where
  "decode_dict f j = (case j of JObject fs \<Rightarrow> those (map (\<lambda>(k, x). map_option (Pair k) (f x)) fs) | _ \<Rightarrow> None)"

definition decode_nullable :: "(json \<Rightarrow> 'a option) \<Rightarrow> json \<Rightarrow> 'a option option" where
  "decode_nullable f j = (case j of JNull \<Rightarrow> Some None | _ \<Rightarrow> map_option Some (f j))"

fun decode_text :: "json \<Rightarrow> string option" where
  "decode_text (JString s) = Some s"
| "decode_text _ = None"

fun decode_int :: "json \<Rightarrow> int option" where
  "decode_int (JInt i) = Some i"
| "decode_int _ = None"

fun decode_float :: "decode_env \<Rightarrow> json \<Rightarrow> rat option" where
  "decode_float D (JFloat q) = Some q"
| "decode_float D (JInt i) = Some (de_float D i)"
| "decode_float D _ = None"

fun decode_bool :: "json \<Rightarrow> bool option" where
  "decode_bool (JBool b) = Some b"
| "decode_bool _ = None"

fun decode_number :: "json \<Rightarrow> number option" where
  "decode_number (JInt i) = Some (IntNumber i)"
| "decode_number (JFloat q) = Some (FloatNumber q)"
| "decode_number _ = None"

text \<open>A \<^verbatim>\<open>Literal\<close>.\<close>

definition decode_literal :: "json \<Rightarrow> json \<Rightarrow> unit option" where
  "decode_literal v j = (if j = v then Some () else None)"

definition decode_enum :: "(string \<times> 'a) list \<Rightarrow> json \<Rightarrow> 'a option" where
  "decode_enum table j = Option.bind (decode_text j) (map_of table)"

text \<open>The function package follows a recursive call into the dumped_fields of a dictionary.\<close>

lemma get_field_cong [fundef_cong]:
  assumes "fs = gs" "k = l" "\<And>j. (l, j) \<in> set gs \<Longrightarrow> f j = g j"
  shows "get_field fs k f = get_field gs l g"
  using assms by (auto simp: get_field_def json_get_def intro!: Option.bind_cong dest: map_of_SomeD)

lemma field_or_cong [fundef_cong]:
  assumes "d = e" "fs = gs" "k = l" "\<And>j. (l, j) \<in> set gs \<Longrightarrow> f j = g j"
  shows "field_or d fs k f = field_or e gs l g"
  using assms by (auto simp: field_or_def json_get_def split: option.splits dest: map_of_SomeD)

lemma decode_fields_cong [fundef_cong]:
  assumes "i = j" "\<And>fs. j = JObject fs \<Longrightarrow> f fs = g fs"
  shows "decode_fields f i = decode_fields g j"
  using assms by (cases j) (simp_all add: decode_fields_def)

lemma decode_list_cong [fundef_cong]:
  assumes "i = j" "\<And>xs x. j = JList xs \<Longrightarrow> x \<in> set xs \<Longrightarrow> f x = g x"
  shows "decode_list f i = decode_list g j"
proof (cases j)
  case (JList xs)
  then have "map f xs = map g xs" using assms(2) by simp
  with JList assms(1) show ?thesis by (simp only: decode_list_def json.case)
qed (simp_all add: assms(1) decode_list_def)

lemma decode_dict_cong [fundef_cong]:
  assumes "i = j" "\<And>fs k x. j = JObject fs \<Longrightarrow> (k, x) \<in> set fs \<Longrightarrow> f x = g x"
  shows "decode_dict f i = decode_dict g j"
proof (cases j)
  case (JObject fs)
  then have "map (\<lambda>(k, x). map_option (Pair k) (f x)) fs = map (\<lambda>(k, x). map_option (Pair k) (g x)) fs"
    using assms(2) by (intro map_cong) auto
  with JObject assms(1) show ?thesis by (simp only: decode_dict_def json.case)
qed (simp_all add: assms(1) decode_dict_def)

lemma decode_nullable_cong [fundef_cong]:
  assumes "i = j" "j \<noteq> JNull \<Longrightarrow> f j = g j"
  shows "decode_nullable f i = decode_nullable g j"
  using assms by (cases j) (simp_all add: decode_nullable_def)

lemma field_size: "(k, j) \<in> set fs \<Longrightarrow> size j < size (JObject fs)"
proof -
  assume "(k, j) \<in> set fs"
  then have "size_prod (\<lambda>_. 0) size (k, j) \<le> size_list (size_prod (\<lambda>_. 0) size) fs"
    by (rule size_list_estimation') simp
  then show ?thesis by simp
qed

lemma item_size: "x \<in> set xs \<Longrightarrow> size x < size (JList xs)"
  by (auto dest: size_list_estimation' [where f = size, OF _ order_refl])

section \<open>Values\<close>

definition decode_point_literal :: "json \<Rightarrow> point_literal option" where
  "decode_point_literal = decode_fields (\<lambda>fs.
     if \<not> only_keys [''x'', ''y''] fs then None
     else do { x \<leftarrow> get_field fs ''x'' decode_number; y \<leftarrow> get_field fs ''y'' decode_number; Some \<lparr>pl_x = x, pl_y = y\<rparr> })"

definition role_names :: "(string \<times> binding_role) list" where
  "role_names = [(''item'', RoleItem), (''index'', RoleIndex), (''key'', RoleKey), (''value'', RoleValue)]"

definition compare_names :: "(string \<times> compare_operator) list" where
  "compare_names = [(''eq'', OpEq), (''ne'', OpNe), (''lt'', OpLt), (''lte'', OpLte), (''gt'', OpGt), (''gte'', OpGte)]"

definition group_names :: "(string \<times> group_operator) list" where
  "group_names = [(''all'', GroupAll), (''any'', GroupAny)]"

definition decode_selector_binding :: "json \<Rightarrow> selector_binding option" where
  "decode_selector_binding = decode_fields (\<lambda>fs.
     if \<not> only_keys [''symbol_id'', ''role'', ''display_name'', ''value_type''] fs then None
     else do { s \<leftarrow> get_field fs ''symbol_id'' decode_text; r \<leftarrow> get_field fs ''role'' (decode_enum role_names);
       n \<leftarrow> get_field fs ''display_name'' decode_text; t \<leftarrow> get_field fs ''value_type'' decode_text;
       Some \<lparr>sb_symbol_id = s, sb_role = r, sb_display_name = n, sb_value_type = t\<rparr> })"

text \<open>The keys of each class beside \<^verbatim>\<open>value_id\<close> and \<^verbatim>\<open>kind\<close>.\<close>

definition value_keys :: "(string \<times> string list) list" where
  "value_keys =
     [(''unset'', [''expected_type'']), (''null'', []), (''string'', [''value'']), (''int64'', [''value'']),
      (''float64'', [''value'']), (''bool'', [''value'']), (''date'', [''value'']), (''datetime'', [''value'']),
      (''time'', [''value'']), (''duration'', [''milliseconds'']), (''point'', [''x'', ''y'']),
      (''rect'', [''x'', ''y'', ''width'', ''height'']), (''path'', [''points'']),
      (''symbol_ref'', [''symbol_id'', ''value_type'']), (''project_variable_ref'', [''variable_id'', ''value_type'']),
      (''asset_ref'', [''asset_id'', ''asset_kind'']), (''target_ref'', [''target_id'']),
      (''entity_ref'', [''reference_id'', ''reference_type'']),
      (''member_access'', [''source'', ''field_id'', ''result_type'']), (''list'', [''item_type'', ''items'']),
      (''map'', [''key_type'', ''entry_value_type'', ''entries'', ''duplicate_policy'']),
      (''record'', [''record_type'', ''fields'']), (''json'', [''payload'']),
      (''operation'', [''operation_id'', ''result_type'', ''inputs'']),
      (''selector'', [''bindings'', ''result_type'', ''expression'']),
      (''compare'', [''operator'', ''left'', ''right'']), (''condition_group'', [''operator'', ''conditions'']),
      (''not'', [''condition''])]"

text \<open>The classes without values inside.\<close>

definition decode_leaf :: "decode_env \<Rightarrow> stable_id \<Rightarrow> string \<Rightarrow> dumped_fields \<Rightarrow> value_node option" where
  "decode_leaf D i kind fs =
     (if kind = ''unset'' then do { t \<leftarrow> get_field fs ''expected_type'' decode_text; Some (UnsetValue i t) }
      else if kind = ''null'' then Some (NullValue i)
      else if kind = ''string'' then do { x \<leftarrow> get_field fs ''value'' decode_text; Some (StringValue i x) }
      else if kind = ''int64'' then do { x \<leftarrow> get_field fs ''value'' decode_int; Some (IntValue i x) }
      else if kind = ''float64'' then do { x \<leftarrow> get_field fs ''value'' (decode_float D); Some (FloatValue i x) }
      else if kind = ''bool'' then do { x \<leftarrow> get_field fs ''value'' decode_bool; Some (BoolValue i x) }
      else if kind = ''date'' then do { x \<leftarrow> get_field fs ''value'' (de_date D); Some (DateValue i x) }
      else if kind = ''datetime'' then do { x \<leftarrow> get_field fs ''value'' (de_datetime D); Some (DateTimeValue i x) }
      else if kind = ''time'' then do { x \<leftarrow> get_field fs ''value'' (de_time D); Some (TimeValue i x) }
      else if kind = ''duration'' then do { x \<leftarrow> get_field fs ''milliseconds'' decode_int; Some (DurationValue i x) }
      else if kind = ''point'' then
        do { x \<leftarrow> get_field fs ''x'' decode_number; y \<leftarrow> get_field fs ''y'' decode_number; Some (PointValue i x y) }
      else if kind = ''rect'' then
        do { x \<leftarrow> get_field fs ''x'' decode_number; y \<leftarrow> get_field fs ''y'' decode_number; w \<leftarrow> get_field fs ''width'' decode_number;
          h \<leftarrow> get_field fs ''height'' decode_number; Some (RectValue i x y w h) }
      else if kind = ''path'' then
        do { ps \<leftarrow> get_field fs ''points'' (decode_list decode_point_literal); Some (PathValue i ps) }
      else if kind = ''symbol_ref'' then
        do { s \<leftarrow> get_field fs ''symbol_id'' decode_text; t \<leftarrow> get_field fs ''value_type'' decode_text; Some (SymbolReferenceValue i s t) }
      else if kind = ''project_variable_ref'' then
        do { s \<leftarrow> get_field fs ''variable_id'' decode_text; t \<leftarrow> get_field fs ''value_type'' decode_text;
          Some (ProjectVariableReferenceValue i s t) }
      else if kind = ''asset_ref'' then
        do { s \<leftarrow> get_field fs ''asset_id'' decode_text; t \<leftarrow> field_or ''image'' fs ''asset_kind'' decode_text;
          Some (AssetReferenceValue i s t) }
      else if kind = ''target_ref'' then do { s \<leftarrow> get_field fs ''target_id'' decode_text; Some (TargetReferenceValue i s) }
      else if kind = ''entity_ref'' then
        do { s \<leftarrow> get_field fs ''reference_id'' decode_text; t \<leftarrow> get_field fs ''reference_type'' decode_text;
          Some (EntityReferenceValue i s t) }
      else if kind = ''json'' then do { x \<leftarrow> get_field fs ''payload'' Some; Some (JsonValue i x) }
      else None)"

definition leaf_kinds :: "string list" where
  "leaf_kinds = [''unset'', ''null'', ''string'', ''int64'', ''float64'', ''bool'', ''date'', ''datetime'', ''time'',
     ''duration'', ''point'', ''rect'', ''path'', ''symbol_ref'', ''project_variable_ref'', ''asset_ref'', ''target_ref'',
     ''entity_ref'', ''json'']"

definition value_closed :: "string \<Rightarrow> dumped_fields \<Rightarrow> bool" where
  "value_closed kind fs \<longleftrightarrow> (case map_of value_keys kind of
     None \<Rightarrow> False | Some ks \<Rightarrow> only_keys (''value_id'' # ''kind'' # ks) fs)"

function decode_value :: "decode_env \<Rightarrow> json \<Rightarrow> value_node option" where
  "decode_value D j = decode_fields (\<lambda>fs. do {
     i \<leftarrow> get_field fs ''value_id'' decode_text;
     kind \<leftarrow> get_field fs ''kind'' decode_text;
     if \<not> value_closed kind fs then None
     else if kind \<in> set leaf_kinds then decode_leaf D i kind fs
     else if kind = ''member_access'' then
       do { source \<leftarrow> get_field fs ''source'' (decode_value D); f \<leftarrow> get_field fs ''field_id'' decode_text;
         t \<leftarrow> get_field fs ''result_type'' decode_text; Some (MemberAccessValue i source f t) }
     else if kind = ''list'' then
       do { t \<leftarrow> get_field fs ''item_type'' decode_text; xs \<leftarrow> field_or [] fs ''items'' (decode_list (decode_value D));
         Some (ListValue i t xs) }
     else if kind = ''map'' then
       do { k \<leftarrow> get_field fs ''key_type'' decode_text; t \<leftarrow> get_field fs ''entry_value_type'' decode_text;
         es \<leftarrow> field_or [] fs ''entries'' (decode_list (decode_fields (\<lambda>gs.
           if \<not> only_keys [''key'', ''value''] gs then None
           else do { x \<leftarrow> get_field gs ''key'' (decode_value D); y \<leftarrow> get_field gs ''value'' (decode_value D); Some (x, y) })));
         _ \<leftarrow> field_or () fs ''duplicate_policy'' (decode_literal (JString ''error''));
         Some (MapValue i k t es) }
     else if kind = ''record'' then
       do { t \<leftarrow> get_field fs ''record_type'' decode_text; xs \<leftarrow> field_or [] fs ''fields'' (decode_dict (decode_value D));
         Some (RecordValue i t xs) }
     else if kind = ''operation'' then
       do { op \<leftarrow> get_field fs ''operation_id'' decode_text; t \<leftarrow> get_field fs ''result_type'' decode_text;
         xs \<leftarrow> field_or [] fs ''inputs'' (decode_dict (decode_value D)); Some (PureOperationValue i op t xs) }
     else if kind = ''selector'' then
       do { bs \<leftarrow> get_field fs ''bindings'' (decode_list decode_selector_binding); t \<leftarrow> get_field fs ''result_type'' decode_text;
         e \<leftarrow> get_field fs ''expression'' (decode_value D); Some (SelectorValue i bs t e) }
     else if kind = ''compare'' then
       do { op \<leftarrow> get_field fs ''operator'' (decode_enum compare_names); l \<leftarrow> get_field fs ''left'' (decode_value D);
         r \<leftarrow> get_field fs ''right'' (decode_value D); Some (ComparisonValue i op l r) }
     else if kind = ''condition_group'' then
       do { op \<leftarrow> get_field fs ''operator'' (decode_enum group_names); cs \<leftarrow> get_field fs ''conditions'' (decode_list (decode_value D));
         Some (ConditionGroupValue i op cs) }
     else do { c \<leftarrow> get_field fs ''condition'' (decode_value D); Some (NotValue i c) } }) j"
  by pat_completeness auto
termination
  by (relation "measure (size \<circ> snd)")
    (auto dest!: field_size item_size)

declare decode_value.simps [simp del]

section \<open>A dumped value decodes to itself\<close>

lemma those_map_Some: "(\<And>x. x \<in> set xs \<Longrightarrow> f x = Some (g x)) \<Longrightarrow> those (map f xs) = Some (map g xs)"
  by (induction xs) simp_all

lemma decode_encode_number [simp]: "decode_number (encode_number n) = Some n"
  by (cases n) simp_all

lemma decode_encode_role [simp]: "decode_enum role_names (JString (encode_role r)) = Some r"
  by (cases r) (simp_all add: decode_enum_def role_names_def)

lemma decode_encode_compare [simp]: "decode_enum compare_names (JString (encode_compare r)) = Some r"
  by (cases r) (simp_all add: decode_enum_def compare_names_def)

lemma decode_encode_group [simp]: "decode_enum group_names (JString (encode_group r)) = Some r"
  by (cases r) (simp_all add: decode_enum_def group_names_def)

text \<open>Looking a field up in a concrete dictionary.\<close>

lemma field_lookup [simp]:
  "get_field [] k f = None" "get_field ((l, j) # fs) k f = (if k = l then f j else get_field fs k f)"
  "field_or d [] k f = Some d" "field_or d ((l, j) # fs) k f = (if k = l then f j else field_or d fs k f)"
  "decode_fields g (JObject fs) = g fs" "only_keys ks [] = True" "only_keys ks ((l, j) # fs) = (l \<in> set ks \<and> only_keys ks fs)"
  by (simp_all add: get_field_def field_or_def json_get_def decode_fields_def only_keys_def)

lemma decode_encode_point: "decode_point_literal (encode_point_literal p) = Some p"
  by (simp add: decode_point_literal_def encode_point_literal_def)

lemma decode_encode_binding: "decode_selector_binding (encode_selector_binding b) = Some b"
  by (simp add: decode_selector_binding_def encode_selector_binding_def)

lemma decode_list_map: "(\<And>x. x \<in> set xs \<Longrightarrow> f (g x) = Some x) \<Longrightarrow> decode_list f (JList (map g xs)) = Some xs"
  using those_map_Some [of xs "f \<circ> g" id] by (simp add: decode_list_def)

lemma decode_dict_map:
  assumes "\<And>k x. (k, x) \<in> set xs \<Longrightarrow> f (g x) = Some x"
  shows "decode_dict f (JObject (map (\<lambda>(k, x). (k, g x)) xs)) = Some xs"
proof -
  have "those (map ((\<lambda>(k, x). map_option (Pair k) (f x)) \<circ> (\<lambda>(k, x). (k, g x))) xs) = Some (map id xs)"
    using assms by (intro those_map_Some) auto
  then show ?thesis by (simp add: decode_dict_def)
qed

lemma nullable_encode: "(\<And>v. f v \<noteq> JNull) \<Longrightarrow> (\<And>v. x = Some v \<Longrightarrow> d (f v) = Some v) \<Longrightarrow> decode_nullable d (encode_opt f x) = Some x"
  by (cases x) (auto simp: decode_nullable_def split: json.splits)

text \<open>The dates, times and times of day of a value are texts the library reads as they are.\<close>

fun node_reads :: "decode_env \<Rightarrow> value_node \<Rightarrow> bool" where
  "node_reads D (DateValue _ x) = (de_date D (JString x) = Some x)"
| "node_reads D (DateTimeValue _ x) = (de_datetime D (JString x) = Some x)"
| "node_reads D (TimeValue _ x) = (de_time D (JString x) = Some x)"
| "node_reads D _ = True"

definition value_reads :: "decode_env \<Rightarrow> value_node \<Rightarrow> bool" where
  "value_reads D v \<longleftrightarrow> list_all (node_reads D) (iter_value_tree v)"

lemma value_reads_node: "value_reads D v \<Longrightarrow> node_reads D v"
  by (auto simp: value_reads_def list_all_iff)

lemma decoded_child: "value_reads D v \<Longrightarrow> c \<in> set (iter_value_children v) \<Longrightarrow> value_reads D c"
  by (auto simp: value_reads_def list_all_iff set_iter_value_tree [of v])

lemma value_closed_kinds [simp]:
  "value_closed ''unset'' fs = only_keys ([''value_id'', ''kind''] @ [''expected_type'']) fs"
  "value_closed ''null'' fs = only_keys ([''value_id'', ''kind''] @ []) fs"
  "value_closed ''string'' fs = only_keys ([''value_id'', ''kind''] @ [''value'']) fs"
  "value_closed ''int64'' fs = only_keys ([''value_id'', ''kind''] @ [''value'']) fs"
  "value_closed ''float64'' fs = only_keys ([''value_id'', ''kind''] @ [''value'']) fs"
  "value_closed ''bool'' fs = only_keys ([''value_id'', ''kind''] @ [''value'']) fs"
  "value_closed ''date'' fs = only_keys ([''value_id'', ''kind''] @ [''value'']) fs"
  "value_closed ''datetime'' fs = only_keys ([''value_id'', ''kind''] @ [''value'']) fs"
  "value_closed ''time'' fs = only_keys ([''value_id'', ''kind''] @ [''value'']) fs"
  "value_closed ''duration'' fs = only_keys ([''value_id'', ''kind''] @ [''milliseconds'']) fs"
  "value_closed ''point'' fs = only_keys ([''value_id'', ''kind''] @ [''x'', ''y'']) fs"
  "value_closed ''rect'' fs = only_keys ([''value_id'', ''kind''] @ [''x'', ''y'', ''width'', ''height'']) fs"
  "value_closed ''path'' fs = only_keys ([''value_id'', ''kind''] @ [''points'']) fs"
  "value_closed ''symbol_ref'' fs = only_keys ([''value_id'', ''kind''] @ [''symbol_id'', ''value_type'']) fs"
  "value_closed ''project_variable_ref'' fs = only_keys ([''value_id'', ''kind''] @ [''variable_id'', ''value_type'']) fs"
  "value_closed ''asset_ref'' fs = only_keys ([''value_id'', ''kind''] @ [''asset_id'', ''asset_kind'']) fs"
  "value_closed ''target_ref'' fs = only_keys ([''value_id'', ''kind''] @ [''target_id'']) fs"
  "value_closed ''entity_ref'' fs = only_keys ([''value_id'', ''kind''] @ [''reference_id'', ''reference_type'']) fs"
  "value_closed ''member_access'' fs = only_keys ([''value_id'', ''kind''] @ [''source'', ''field_id'', ''result_type'']) fs"
  "value_closed ''list'' fs = only_keys ([''value_id'', ''kind''] @ [''item_type'', ''items'']) fs"
  "value_closed ''map'' fs = only_keys ([''value_id'', ''kind''] @ [''key_type'', ''entry_value_type'', ''entries'', ''duplicate_policy'']) fs"
  "value_closed ''record'' fs = only_keys ([''value_id'', ''kind''] @ [''record_type'', ''fields'']) fs"
  "value_closed ''json'' fs = only_keys ([''value_id'', ''kind''] @ [''payload'']) fs"
  "value_closed ''operation'' fs = only_keys ([''value_id'', ''kind''] @ [''operation_id'', ''result_type'', ''inputs'']) fs"
  "value_closed ''selector'' fs = only_keys ([''value_id'', ''kind''] @ [''bindings'', ''result_type'', ''expression'']) fs"
  "value_closed ''compare'' fs = only_keys ([''value_id'', ''kind''] @ [''operator'', ''left'', ''right'']) fs"
  "value_closed ''condition_group'' fs = only_keys ([''value_id'', ''kind''] @ [''operator'', ''conditions'']) fs"
  "value_closed ''not'' fs = only_keys ([''value_id'', ''kind''] @ [''condition'']) fs"
  by (simp_all add: value_closed_def value_keys_def)

lemma leaf_kinds_simps [simp]:
  "''unset'' \<in> set leaf_kinds" "''null'' \<in> set leaf_kinds" "''string'' \<in> set leaf_kinds"
  "''int64'' \<in> set leaf_kinds" "''float64'' \<in> set leaf_kinds" "''bool'' \<in> set leaf_kinds"
  "''date'' \<in> set leaf_kinds" "''datetime'' \<in> set leaf_kinds" "''time'' \<in> set leaf_kinds"
  "''duration'' \<in> set leaf_kinds" "''point'' \<in> set leaf_kinds" "''rect'' \<in> set leaf_kinds"
  "''path'' \<in> set leaf_kinds" "''symbol_ref'' \<in> set leaf_kinds"
  "''project_variable_ref'' \<in> set leaf_kinds" "''asset_ref'' \<in> set leaf_kinds"
  "''target_ref'' \<in> set leaf_kinds" "''entity_ref'' \<in> set leaf_kinds"
  "''member_access'' \<notin> set leaf_kinds" "''list'' \<notin> set leaf_kinds"
  "''map'' \<notin> set leaf_kinds" "''record'' \<notin> set leaf_kinds" "''json'' \<in> set leaf_kinds"
  "''operation'' \<notin> set leaf_kinds" "''selector'' \<notin> set leaf_kinds"
  "''compare'' \<notin> set leaf_kinds" "''condition_group'' \<notin> set leaf_kinds"
  "''not'' \<notin> set leaf_kinds"
  by (simp_all add: leaf_kinds_def)

lemmas decode_value_object = decode_value.simps [of D "JObject fs" for D fs, unfolded field_lookup]

lemma decode_encode_value: "value_reads D v \<Longrightarrow> decode_value D (encode_value v) = Some v"
proof (induction v rule: value_tree_induct)
  case (node v)
  note n = value_reads_node [OF node.prems] and IH = node.IH [OF _ decoded_child [OF node.prems]]
  have pairs: "(k, x) \<in> set fs \<Longrightarrow> x \<in> snd ` set fs" for k x and fs :: "(string \<times> value_node) list" by force
  show ?case
  proof (cases v)
    case (MapValue i k t es)
    have e: "decode_value D (encode_value x) = Some x" "decode_value D (encode_value y) = Some y" if "(x, y) \<in> set es" for x y
      using that IH MapValue by force+
    have "decode_list (decode_fields (\<lambda>gs. if \<not> only_keys [''key'', ''value''] gs then None
           else do { x \<leftarrow> get_field gs ''key'' (decode_value D); y \<leftarrow> get_field gs ''value'' (decode_value D); Some (x, y) }))
        (JList (map (\<lambda>(x, y). JObject [(''key'', encode_value x), (''value'', encode_value y)]) es)) = Some es"
      by (rule decode_list_map) (auto simp: e)
    then show ?thesis
      by (simp add: MapValue encode_value.simps [of "MapValue i k t es"] value_object_def decode_value_object decode_literal_def)
  qed (use n IH pairs in \<open>(subst encode_value.simps, simp add: value_object_def decode_value_object decode_leaf_def decode_list_map
      decode_dict_map decode_encode_point decode_encode_binding)+\<close>)
qed

section \<open>Statements\<close>

definition decode_arguments :: "decode_env \<Rightarrow> dumped_fields \<Rightarrow> string \<Rightarrow> (stable_id \<times> value_node) list option" where
  "decode_arguments D fs k = field_or [] fs k (decode_dict (decode_value D))"

definition decode_result_binding :: "decode_env \<Rightarrow> json \<Rightarrow> result_binding option" where
  "decode_result_binding D = decode_fields (\<lambda>fs.
     if \<not> only_keys [''symbol_id'', ''display_name'', ''value_type'', ''declare''] fs then None
     else do { s \<leftarrow> get_field fs ''symbol_id'' decode_text; n \<leftarrow> get_field fs ''display_name'' decode_text; t \<leftarrow> get_field fs ''value_type'' decode_text;
       b \<leftarrow> field_or True fs ''declare'' (de_bool D);
       Some \<lparr>rb_symbol_id = s, rb_display_name = n, rb_value_type = t, rb_declare = b\<rparr> })"

definition decode_loop_binding :: "json \<Rightarrow> loop_binding option" where
  "decode_loop_binding = decode_fields (\<lambda>fs.
     if \<not> only_keys [''symbol_id'', ''display_name'', ''value_type''] fs then None
     else do { s \<leftarrow> get_field fs ''symbol_id'' decode_text; n \<leftarrow> get_field fs ''display_name'' decode_text; t \<leftarrow> get_field fs ''value_type'' decode_text;
       Some \<lparr>lb_symbol_id = s, lb_display_name = n, lb_value_type = t\<rparr> })"

definition decode_target :: "decode_env \<Rightarrow> json \<Rightarrow> assignment_target option" where
  "decode_target D = decode_fields (\<lambda>fs. do {
     kind \<leftarrow> get_field fs ''kind'' decode_text;
     if kind = ''local'' then
       if \<not> only_keys [''kind'', ''symbol_id'', ''display_name'', ''value_type'', ''declare''] fs then None
       else do { s \<leftarrow> get_field fs ''symbol_id'' decode_text; n \<leftarrow> get_field fs ''display_name'' decode_text; t \<leftarrow> get_field fs ''value_type'' decode_text;
         b \<leftarrow> field_or True fs ''declare'' (de_bool D); Some (LocalAssignmentTarget s n t b) }
     else if kind = ''project_variable'' then
       if \<not> only_keys [''kind'', ''variable_id'', ''value_type''] fs then None
       else do { s \<leftarrow> get_field fs ''variable_id'' decode_text; t \<leftarrow> get_field fs ''value_type'' decode_text;
         Some (ProjectVariableAssignmentTarget s t) }
     else None })"

definition decode_retry_policy :: "decode_env \<Rightarrow> json \<Rightarrow> retry_policy option" where
  "decode_retry_policy D = decode_fields (\<lambda>fs.
     if \<not> only_keys [''max_retries'', ''interval'', ''transient_only'', ''author_review_fingerprint''] fs then None
     else do { m \<leftarrow> get_field fs ''max_retries'' (decode_value D); i \<leftarrow> get_field fs ''interval'' (decode_value D);
       _ \<leftarrow> field_or () fs ''transient_only'' (decode_literal (JBool True));
       a \<leftarrow> field_or None fs ''author_review_fingerprint'' (decode_nullable decode_text);
       Some \<lparr>rp_max_retries = m, rp_interval = i, rp_author_review_fingerprint = a\<rparr> })"

definition decode_event_source :: "decode_env \<Rightarrow> json \<Rightarrow> message_event_source option" where
  "decode_event_source D = decode_fields (\<lambda>fs.
     if \<not> only_keys [''kind'', ''name'', ''sender''] fs then None
     else do { _ \<leftarrow> field_or () fs ''kind'' (decode_literal (JString ''message''));
       n \<leftarrow> get_field fs ''name'' (decode_value D); s \<leftarrow> field_or None fs ''sender'' (decode_nullable (decode_value D));
       Some \<lparr>es_name = n, es_sender = s\<rparr> })"

definition mode_names :: "(string \<times> loop_mode) list" where
  "mode_names = [(''repeat'', ModeRepeat), (''while'', ModeWhile), (''for_each'', ModeForEach), (''for_each_map'', ModeForEachMap)]"

definition statement_keys :: "(string \<times> string list) list" where
  "statement_keys =
     [(''call'', [''function_id'', ''arguments'', ''result_binding'', ''author_review_fingerprint'']),
      (''assignment'', [''target'', ''value'']),
      (''if'', [''condition'', ''then_statements'', ''additional_branches'', ''otherwise_statements'']),
      (''loop'', [''mode'', ''source'', ''body'', ''item_binding'', ''index_binding'', ''key_binding'', ''value_binding'']),
      (''break'', []), (''continue'', []), (''return'', [''value'']), (''fail'', [''error_id'', ''message'', ''details'']),
      (''try'', [''body'', ''retry_policy'', ''catches'', ''finally_statements'']), (''target_scope'', [''target'', ''body'']),
      (''listen'', [''event_source'', ''receive_binding'', ''condition'', ''handler_function_id'', ''handler_arguments''])]"

definition statement_closed :: "string \<Rightarrow> dumped_fields \<Rightarrow> bool" where
  "statement_closed kind fs \<longleftrightarrow> (case map_of statement_keys kind of
     None \<Rightarrow> False | Some ks \<Rightarrow> only_keys ([''statement_id'', ''kind'', ''step_label''] @ ks) fs)"

text \<open>The classes without blocks.\<close>

definition decode_simple ::
  "decode_env \<Rightarrow> stable_id \<Rightarrow> string \<Rightarrow> string option \<Rightarrow> dumped_fields \<Rightarrow> statement option" where
  "decode_simple D i kind l fs =
     (if kind = ''call'' then
        do { f \<leftarrow> get_field fs ''function_id'' decode_text; args \<leftarrow> decode_arguments D fs ''arguments'';
          rb \<leftarrow> field_or None fs ''result_binding'' (decode_nullable (decode_result_binding D));
          a \<leftarrow> field_or None fs ''author_review_fingerprint'' (decode_nullable decode_text); Some (CallStatement i f args rb a l) }
      else if kind = ''assignment'' then
        do { t \<leftarrow> get_field fs ''target'' (decode_target D); v \<leftarrow> get_field fs ''value'' (decode_value D);
          Some (AssignmentStatement i t v l) }
      else if kind = ''break'' then Some (BreakStatement i l)
      else if kind = ''continue'' then Some (ContinueStatement i l)
      else if kind = ''return'' then
        do { v \<leftarrow> field_or None fs ''value'' (decode_nullable (decode_value D)); Some (ReturnStatement i v l) }
      else if kind = ''fail'' then
        do { e \<leftarrow> get_field fs ''error_id'' decode_text; m \<leftarrow> get_field fs ''message'' (decode_value D);
          d \<leftarrow> field_or None fs ''details'' (decode_nullable (decode_value D)); Some (FailStatement i e m d l) }
      else
        do { s \<leftarrow> get_field fs ''event_source'' (decode_event_source D); rb \<leftarrow> get_field fs ''receive_binding'' decode_loop_binding;
          c \<leftarrow> field_or None fs ''condition'' (decode_nullable (decode_value D)); h \<leftarrow> get_field fs ''handler_function_id'' decode_text;
          args \<leftarrow> decode_arguments D fs ''handler_arguments''; Some (ListenStatement i s rb c h args l) })"

definition block_kinds :: "string list" where
  "block_kinds = [''if'', ''loop'', ''try'', ''target_scope'']"

abbreviation optional_binding :: "dumped_fields \<Rightarrow> string \<Rightarrow> loop_binding option option" where
  "optional_binding fs k \<equiv> field_or None fs k (decode_nullable decode_loop_binding)"

function decode_statement :: "decode_env \<Rightarrow> json \<Rightarrow> statement option" where
  "decode_statement D j = decode_fields (\<lambda>fs. do {
     i \<leftarrow> get_field fs ''statement_id'' decode_text;
     kind \<leftarrow> get_field fs ''kind'' decode_text;
     l \<leftarrow> field_or None fs ''step_label'' (decode_nullable decode_text);
     if \<not> statement_closed kind fs then None
     else if kind \<notin> set block_kinds then decode_simple D i kind l fs
     else if kind = ''if'' then
       do { c \<leftarrow> get_field fs ''condition'' (decode_value D);
         th \<leftarrow> field_or [] fs ''then_statements'' (decode_list (decode_statement D));
         branches \<leftarrow> field_or [] fs ''additional_branches'' (decode_list (decode_fields (\<lambda>gs.
           if \<not> only_keys [''branch_id'', ''condition'', ''statements''] gs then None
           else do { b \<leftarrow> get_field gs ''branch_id'' decode_text; bc \<leftarrow> get_field gs ''condition'' (decode_value D);
             ss \<leftarrow> field_or [] gs ''statements'' (decode_list (decode_statement D)); Some (ConditionalBranch b bc ss) })));
         oth \<leftarrow> field_or [] fs ''otherwise_statements'' (decode_list (decode_statement D));
         Some (IfStatement i c th branches oth l) }
     else if kind = ''loop'' then
       do { m \<leftarrow> get_field fs ''mode'' (decode_enum mode_names); source \<leftarrow> get_field fs ''source'' (decode_value D);
         body \<leftarrow> field_or [] fs ''body'' (decode_list (decode_statement D));
         item \<leftarrow> optional_binding fs ''item_binding''; idx \<leftarrow> optional_binding fs ''index_binding'';
         key \<leftarrow> optional_binding fs ''key_binding''; val \<leftarrow> optional_binding fs ''value_binding'';
         Some (LoopStatement i m source body item idx key val l) }
     else if kind = ''try'' then
       do { body \<leftarrow> field_or [] fs ''body'' (decode_list (decode_statement D));
         policy \<leftarrow> field_or None fs ''retry_policy'' (decode_nullable (decode_retry_policy D));
         catches \<leftarrow> field_or [] fs ''catches'' (decode_list (decode_fields (\<lambda>gs.
           if \<not> only_keys [''catch_id'', ''error_ids'', ''error_binding'', ''statements''] gs then None
           else do { c \<leftarrow> get_field gs ''catch_id'' decode_text; es \<leftarrow> field_or [] gs ''error_ids'' (decode_list decode_text);
             b \<leftarrow> optional_binding gs ''error_binding'';
             ss \<leftarrow> field_or [] gs ''statements'' (decode_list (decode_statement D)); Some (CatchClause c es b ss) })));
         fin \<leftarrow> field_or [] fs ''finally_statements'' (decode_list (decode_statement D));
         Some (TryStatement i body policy catches fin l) }
     else
       do { t \<leftarrow> get_field fs ''target'' (decode_value D); body \<leftarrow> field_or [] fs ''body'' (decode_list (decode_statement D));
         Some (TargetScopeStatement i t body l) } }) j"
  by pat_completeness auto
termination
  by (relation "measure (size \<circ> snd)") (auto dest!: field_size item_size)

declare decode_statement.simps [simp del]

section \<open>A dumped statement decodes to itself\<close>

lemma statement_tree_induct [case_names node]:
  assumes "\<And>s. (\<And>x b. b \<in> set (statement_child_blocks s) \<Longrightarrow> x \<in> set b \<Longrightarrow> P x) \<Longrightarrow> P s"
  shows "P s"
proof (induction s rule: measure_induct_rule [of size])
  case (less s)
  have "P x" if "b \<in> set (statement_child_blocks s)" "x \<in> set b" for x b
  proof (rule less)
    show "size x < size s" using that by (intro child_statement_size) auto
  qed
  then show ?case by (rule assms)
qed

definition reads_dumps :: "decode_env \<Rightarrow> statement list \<Rightarrow> bool" where
  "reads_dumps D ss \<longleftrightarrow> (\<forall>b. de_bool D (JBool b) = Some b) \<and>
     list_all (\<lambda>s. list_all (value_reads D) (statement_value_roots s)) (iter_statement_tree ss)"

lemma reads_dumps_root: "reads_dumps D [s] \<Longrightarrow> v \<in> set (statement_value_roots s) \<Longrightarrow> decode_value D (encode_value v) = Some v"
  by (rule decode_encode_value) (simp add: reads_dumps_def list_all_iff)

lemma reads_dumps_child:
  assumes "reads_dumps D [s]" "b \<in> set (statement_child_blocks s)" "x \<in> set b"
  shows "reads_dumps D [x]"
proof -
  have "set (iter_statement_tree [x]) \<subseteq> set (iter_statement_tree b)"
    using assms(3) by (auto simp: set_iter_statement_tree [of b] set_iter_statement_tree [of "[x]"])
  then have "set (iter_statement_tree [x]) \<subseteq> set (iter_statement_tree [s])" using assms(2) by auto
  with assms(1) show ?thesis by (auto simp: reads_dumps_def list_all_iff)
qed

lemma decode_encode_mode [simp]: "decode_enum mode_names (JString (encode_mode m)) = Some m"
  by (cases m) (simp_all add: decode_enum_def mode_names_def)

lemma encode_not_null [simp]: "encode_value v \<noteq> JNull"
  by (subst encode_value.simps) (simp add: value_object_def)

lemma decode_encode_loop_binding [simp]: "decode_loop_binding (encode_loop_binding b) = Some b"
  by (simp add: decode_loop_binding_def encode_loop_binding_def)

lemma nullable_text [simp]: "decode_nullable decode_text (encode_opt JString x) = Some x"
  by (rule nullable_encode) simp_all

lemma nullable_binding [simp]: "decode_nullable decode_loop_binding (encode_opt encode_loop_binding x) = Some x"
  by (rule nullable_encode) (simp_all add: encode_loop_binding_def decode_loop_binding_def)

lemma nullable_value: "(\<And>v. x = Some v \<Longrightarrow> decode_value D (encode_value v) = Some v) \<Longrightarrow>
    decode_nullable (decode_value D) (encode_opt encode_value x) = Some x"
  by (rule nullable_encode) simp_all

lemma nullable_result: "(\<And>b. de_bool D (JBool b) = Some b) \<Longrightarrow>
    decode_nullable (decode_result_binding D) (encode_opt encode_result_binding x) = Some x"
  by (rule nullable_encode) (simp_all add: encode_result_binding_def decode_result_binding_def)

lemma decode_encode_target: "(\<And>b. de_bool D (JBool b) = Some b) \<Longrightarrow> decode_target D (encode_target t) = Some t"
  by (cases t) (simp_all add: decode_target_def)

lemma nullable_policy:
  assumes "\<And>r v. x = Some r \<Longrightarrow> v \<in> {rp_max_retries r, rp_interval r} \<Longrightarrow> decode_value D (encode_value v) = Some v"
  shows "decode_nullable (decode_retry_policy D) (encode_opt encode_retry_policy x) = Some x"
  using assms by (intro nullable_encode) (auto simp: encode_retry_policy_def decode_retry_policy_def decode_literal_def)

lemma decode_encode_source:
  assumes "\<And>v. v \<in> set (es_name e # opt_list (es_sender e)) \<Longrightarrow> decode_value D (encode_value v) = Some v"
  shows "decode_event_source D (encode_event_source e) = Some e"
  using assms by (simp add: encode_event_source_def decode_event_source_def decode_literal_def nullable_value)

lemma decode_encode_arguments:
  assumes "\<And>v. v \<in> set (map snd args) \<Longrightarrow> decode_value D (encode_value v) = Some v"
  shows "decode_dict (decode_value D) (encode_arguments args) = Some args"
  unfolding encode_arguments_def using assms by (intro decode_dict_map) force

lemma decode_list_texts [simp]: "decode_list decode_text (JList (map JString xs)) = Some xs"
  by (rule decode_list_map) simp

lemma statement_closed_kinds [simp]:
  "statement_closed ''call'' fs = only_keys ([''statement_id'', ''kind'', ''step_label''] @ [''function_id'', ''arguments'', ''result_binding'', ''author_review_fingerprint'']) fs"
  "statement_closed ''assignment'' fs = only_keys ([''statement_id'', ''kind'', ''step_label''] @ [''target'', ''value'']) fs"
  "statement_closed ''if'' fs = only_keys ([''statement_id'', ''kind'', ''step_label''] @ [''condition'', ''then_statements'', ''additional_branches'', ''otherwise_statements'']) fs"
  "statement_closed ''loop'' fs = only_keys ([''statement_id'', ''kind'', ''step_label''] @ [''mode'', ''source'', ''body'', ''item_binding'', ''index_binding'', ''key_binding'', ''value_binding'']) fs"
  "statement_closed ''break'' fs = only_keys ([''statement_id'', ''kind'', ''step_label''] @ []) fs"
  "statement_closed ''continue'' fs = only_keys ([''statement_id'', ''kind'', ''step_label''] @ []) fs"
  "statement_closed ''return'' fs = only_keys ([''statement_id'', ''kind'', ''step_label''] @ [''value'']) fs"
  "statement_closed ''fail'' fs = only_keys ([''statement_id'', ''kind'', ''step_label''] @ [''error_id'', ''message'', ''details'']) fs"
  "statement_closed ''try'' fs = only_keys ([''statement_id'', ''kind'', ''step_label''] @ [''body'', ''retry_policy'', ''catches'', ''finally_statements'']) fs"
  "statement_closed ''target_scope'' fs = only_keys ([''statement_id'', ''kind'', ''step_label''] @ [''target'', ''body'']) fs"
  "statement_closed ''listen'' fs = only_keys ([''statement_id'', ''kind'', ''step_label''] @ [''event_source'', ''receive_binding'', ''condition'', ''handler_function_id'', ''handler_arguments'']) fs"
  by (simp_all add: statement_closed_def statement_keys_def)

lemma block_kinds_simps [simp]:
  "''call'' \<notin> set block_kinds" "''assignment'' \<notin> set block_kinds"
  "''if'' \<in> set block_kinds" "''loop'' \<in> set block_kinds" "''break'' \<notin> set block_kinds"
  "''continue'' \<notin> set block_kinds" "''return'' \<notin> set block_kinds"
  "''fail'' \<notin> set block_kinds" "''try'' \<in> set block_kinds"
  "''target_scope'' \<in> set block_kinds" "''listen'' \<notin> set block_kinds"
  by (simp_all add: block_kinds_def)

lemmas decode_statement_object = decode_statement.simps [of D "JObject fs" for D fs, unfolded field_lookup]

lemma decode_encode_statement: "reads_dumps D [s] \<Longrightarrow> decode_statement D (encode_statement s) = Some s"
proof (induction s rule: statement_tree_induct)
  case (node s)
  note root = reads_dumps_root [OF node.prems]
  have bools: "de_bool D (JBool b) = Some b" for b using node.prems by (simp add: reads_dumps_def)
  have IH: "decode_list (decode_statement D) (JList (map encode_statement b)) = Some b" if "b \<in> set (statement_child_blocks s)" for b
    using node.IH [OF that] reads_dumps_child [OF node.prems that] by (intro decode_list_map) blast
  note inner = nullable_value nullable_result [OF bools] decode_encode_target [OF bools]
  have args: "decode_dict (decode_value D) (encode_arguments args) = Some args" if "snd ` set args \<subseteq> set (statement_value_roots s)" for args
    using root that by (intro decode_encode_arguments) auto
  show ?case
  proof (cases s)
    case (IfStatement i c th branches oth l)
    have "decode_value D (encode_value (branch_condition b)) = Some (branch_condition b)"
      "decode_list (decode_statement D) (JList (map encode_statement (branch_statements b))) = Some (branch_statements b)"
      if "b \<in> set branches" for b
      using root IH that IfStatement by auto
    then have "decode_list (decode_fields (\<lambda>gs. if \<not> only_keys [''branch_id'', ''condition'', ''statements''] gs then None
           else do { b \<leftarrow> get_field gs ''branch_id'' decode_text; bc \<leftarrow> get_field gs ''condition'' (decode_value D);
             ss \<leftarrow> field_or [] gs ''statements'' (decode_list (decode_statement D)); Some (ConditionalBranch b bc ss) }))
        (JList (map (\<lambda>b. JObject
              [(''branch_id'', JString (branch_id b)), (''condition'', encode_value (branch_condition b)),
               (''statements'', JList (map encode_statement (branch_statements b)))]) branches)) = Some branches"
      by (intro decode_list_map) simp
    then show ?thesis using root IH
      by (simp add: IfStatement encode_statement.simps [of "IfStatement _ _ _ _ _ _"] statement_object_def decode_statement_object)
  next
    case (TryStatement i body policy catches fin l)
    have "decode_list (decode_statement D) (JList (map encode_statement (catch_statements c))) = Some (catch_statements c)"
      if "c \<in> set catches" for c
      using IH that TryStatement by auto
    then have "decode_list (decode_fields (\<lambda>gs. if \<not> only_keys [''catch_id'', ''error_ids'', ''error_binding'', ''statements''] gs then None
           else do { c \<leftarrow> get_field gs ''catch_id'' decode_text; es \<leftarrow> field_or [] gs ''error_ids'' (decode_list decode_text);
             b \<leftarrow> optional_binding gs ''error_binding'';
             ss \<leftarrow> field_or [] gs ''statements'' (decode_list (decode_statement D)); Some (CatchClause c es b ss) }))
        (JList (map (\<lambda>c. JObject
              [(''catch_id'', JString (catch_id c)), (''error_ids'', JList (map JString (catch_error_ids c))),
               (''error_binding'', encode_opt encode_loop_binding (catch_error_binding c)),
               (''statements'', JList (map encode_statement (catch_statements c)))]) catches)) = Some catches"
      by (intro decode_list_map) simp
    moreover have "decode_nullable (decode_retry_policy D) (encode_opt encode_retry_policy policy) = Some policy"
      using root TryStatement by (intro nullable_policy) auto
    ultimately show ?thesis using IH
      by (simp add: TryStatement encode_statement.simps [of "TryStatement _ _ _ _ _ _"] statement_object_def decode_statement_object)
  next
    case (ListenStatement i src rb c h args l)
    have "decode_event_source D (encode_event_source src) = Some src"
      using root ListenStatement by (auto intro!: decode_encode_source)
    moreover have "decode_dict (decode_value D) (encode_arguments args) = Some args"
      by (rule args) (auto simp: ListenStatement)
    ultimately show ?thesis using root ListenStatement
      by (subst encode_statement.simps)
        (simp add: statement_object_def decode_statement_object decode_simple_def decode_arguments_def nullable_value)
  qed (use root IH args in \<open>(subst encode_statement.simps,
      simp add: statement_object_def decode_statement_object decode_simple_def decode_arguments_def inner)+\<close>)
qed

end
