(* ===== verification/Program_Clipboard.thy ===== *)
theory Program_Clipboard
  imports Program_Commands Program_Decode
begin

text \<open>
  Copying and pasting of \<^verbatim>\<open>core/vnext/program_commands.py\<close>: the locals a snapshot declares get fresh
  identifiers, the dictionaries are cloned with fresh identifiers of their own, and the
  document they are put into is validated like after any command. A snapshot comes from a client,
  so the walk over it meets dictionaries of any form.
\<close>

declare rbind_cong [fundef_cong]

section \<open>The locals a snapshot declares\<close>

text \<open>
  \<^verbatim>\<open>item['symbol_id']\<close>. One that is no text fails the validation of the result, so the name \<^verbatim>\<open>str\<close>
  makes of it is of no account.
\<close>

definition note_symbol ::
  "(nat \<Rightarrow> string) \<Rightarrow> dumped_fields \<Rightarrow> symbol_state \<Rightarrow> command_error + symbol_state" where
  "note_symbol uuid fs st =
     (case json_get ''symbol_id'' fs of
        None \<Rightarrow> Inl PythonKeyError
      | Some (JString s) \<Rightarrow> Inr (rename_symbol uuid s st)
      | Some _ \<Rightarrow> Inr st)"

definition note_item ::
  "(nat \<Rightarrow> string) \<Rightarrow> json option \<Rightarrow> symbol_state \<Rightarrow> command_error + symbol_state" where
  "note_item uuid item st =
     (case item of
        None \<Rightarrow> Inr st
      | Some v \<Rightarrow> if \<not> json_truthy v then Inr st
          else (case v of JObject fs \<Rightarrow> note_symbol uuid fs st | _ \<Rightarrow> Inl PythonTypeError))"

definition declares :: "dumped_fields \<Rightarrow> bool" where
  "declares fs \<longleftrightarrow> (case json_get ''declare'' fs of None \<Rightarrow> True | Some d \<Rightarrow> json_truthy d)"

definition note_result ::
  "(nat \<Rightarrow> string) \<Rightarrow> dumped_fields \<Rightarrow> symbol_state \<Rightarrow> command_error + symbol_state" where
  "note_result uuid fs st =
     (case json_get ''result_binding'' fs of
        None \<Rightarrow> Inr st
      | Some v \<Rightarrow> if \<not> json_truthy v then Inr st
          else (case v of
              JObject bs \<Rightarrow> if declares bs then note_symbol uuid bs st else Inr st
            | _ \<Rightarrow> Inl PythonAttributeError))"

definition note_target ::
  "(nat \<Rightarrow> string) \<Rightarrow> dumped_fields \<Rightarrow> symbol_state \<Rightarrow> command_error + symbol_state" where
  "note_target uuid fs st =
     (case json_get ''target'' fs of
        Some (JObject ts) \<Rightarrow>
          if json_get ''kind'' ts = Some (JString ''local'') \<and> declares ts then note_symbol uuid ts st else Inr st
      | _ \<Rightarrow> Inr st)"

fun note_clauses ::
  "(nat \<Rightarrow> string) \<Rightarrow> json list \<Rightarrow> symbol_state \<Rightarrow> command_error + symbol_state" where
  "note_clauses uuid [] st = Inr st"
| "note_clauses uuid (c # cs) st =
     rbind (case c of JObject fs \<Rightarrow> note_item uuid (json_get ''error_binding'' fs) st | _ \<Rightarrow> Inl PythonAttributeError)
       (note_clauses uuid cs)"

definition note_own ::
  "(nat \<Rightarrow> string) \<Rightarrow> dumped_fields \<Rightarrow> symbol_state \<Rightarrow> command_error + symbol_state" where
  "note_own uuid fs st =
     (let kind = json_get ''kind'' fs; item = (\<lambda>k. note_item uuid (json_get k fs)) in
      rbind (note_result uuid fs st) (\<lambda>st.
      rbind (if kind = Some (JString ''assignment'') then note_target uuid fs st else Inr st) (\<lambda>st.
      rbind (if kind = Some (JString ''loop'')
         then rbind (item ''item_binding'' st) (\<lambda>st. rbind (item ''index_binding'' st) (\<lambda>st.
              rbind (item ''key_binding'' st) (item ''value_binding'')))
         else Inr st) (\<lambda>st.
      rbind (if kind = Some (JString ''try'')
         then rbind (iterate_json (json_get ''catches'' fs)) (\<lambda>cs. note_clauses uuid cs st)
         else Inr st) (\<lambda>st.
      if kind = Some (JString ''listen'') then item ''receive_binding'' st else Inr st)))))"

text \<open>\<^verbatim>\<open>_child_blocks\<close>: \<^verbatim>\<open>block or []\<close>, still to be iterated over.\<close>

definition inner_blocks :: "string \<Rightarrow> json list \<Rightarrow> command_error + json option list" where
  "inner_blocks k = rmap (\<lambda>b. case b of JObject fs \<Rightarrow> Inr (json_get k fs) | _ \<Rightarrow> Inl PythonAttributeError)"

definition child_blocks :: "dumped_fields \<Rightarrow> command_error + json option list" where
  "child_blocks fs =
     (case json_get ''kind'' fs of
        None \<Rightarrow> Inr []
      | Some kind \<Rightarrow>
          if kind = JString ''if'' then
            rbind (rbind (iterate_json (json_get ''additional_branches'' fs)) (inner_blocks ''statements'')) (\<lambda>bs.
              Inr (json_get ''then_statements'' fs # bs @ [json_get ''otherwise_statements'' fs]))
          else if unhashable kind then Inl PythonTypeError
          else if kind = JString ''loop'' \<or> kind = JString ''target_scope'' then Inr [json_get ''body'' fs]
          else if kind = JString ''try'' then
            rbind (rbind (iterate_json (json_get ''catches'' fs)) (inner_blocks ''statements'')) (\<lambda>bs.
              Inr (json_get ''body'' fs # bs @ [json_get ''finally_statements'' fs]))
          else Inr [])"

lemma iterated_size: "iterate_json (Some v) = Inr xs \<Longrightarrow> x \<in> set xs \<Longrightarrow> size x < size v \<or> (\<exists>s. x = JString s)"
  by (auto simp: iterate_json_def split: if_splits json.splits dest: item_size)

lemma json_get_size: "json_get k fs = Some v \<Longrightarrow> size v < size (JObject fs)"
  using field_size unfolding json_get_def by (fastforce dest: map_of_SomeD)

text \<open>What the blocks of a dictionary hold is smaller than it, or a text, which is no statement.\<close>

lemma inner_block_size:
  assumes "rbind (iterate_json (json_get k fs)) (inner_blocks l) = Inr bs" "Some b \<in> set bs"
  shows "size b < size (JObject fs)"
proof -
  obtain xs where xs: "iterate_json (json_get k fs) = Inr xs" and
    bs: "list_all2 (\<lambda>x b. (case x of JObject gs \<Rightarrow> Inr (json_get l gs) | _ \<Rightarrow> Inl PythonAttributeError) = Inr b) xs bs"
    using assms(1) by (auto simp: rbind_Inr_iff inner_blocks_def rmap_Inr_all2)
  obtain x where x: "x \<in> set xs" "(case x of JObject gs \<Rightarrow> Inr (json_get l gs) | _ \<Rightarrow> Inl PythonAttributeError) = Inr (Some b)"
    using assms(2) bs by (auto simp: list_all2_conv_all_nth in_set_conv_nth [of _ bs]) (metis nth_mem)
  then obtain gs where gs: "x = JObject gs" "json_get l gs = Some b" by (auto split: json.splits)
  obtain v where v: "json_get k fs = Some v" using xs x(1) by (auto simp: iterate_json_def split: option.splits)
  then have "size x < size v" using iterated_size [OF _ x(1)] xs gs(1) by auto
  with json_get_size [OF v] json_get_size [OF gs(2)] gs(1) show ?thesis by simp
qed

lemma child_block_bound:
  assumes "child_blocks fs = Inr bs" "Some b \<in> set bs"
  shows "size b < size (JObject fs)"
  using assms inner_block_size [of _ fs] json_get_size
  by (auto simp: child_blocks_def rbind_Inr_iff [of "rbind _ _"] simp del: json.size split: option.splits if_splits)

text \<open>The largest of a list of things, for the end of the walk.\<close>

definition largest :: "('a \<Rightarrow> nat) \<Rightarrow> 'a list \<Rightarrow> nat" where
  "largest f xs = foldr (\<lambda>x. max (f x)) xs 0"

lemma largest_simps [simp]: "largest f [] = 0" "largest f (x # xs) = max (f x) (largest f xs)"
  by (simp_all add: largest_def)

lemma largest_le: "(\<And>x. x \<in> set xs \<Longrightarrow> f x \<le> n) \<Longrightarrow> largest f xs \<le> n"
  by (induction xs) simp_all

definition block_weight :: "json option \<Rightarrow> nat" where
  "block_weight b = (case b of None \<Rightarrow> 0 | Some v \<Rightarrow> 2 * size v)"

lemma child_blocks_weight:
  assumes "child_blocks fs = Inr bs"
  shows "Suc (largest block_weight bs) < 2 * size (JObject fs)"
proof -
  have "block_weight b \<le> 2 * size (JObject fs) - 2" if "b \<in> set bs" for b
    using child_block_bound [OF assms, of "the b"] that by (cases b) (simp_all add: block_weight_def)
  then have "largest block_weight bs \<le> 2 * size (JObject fs) - 2" by (rule largest_le)
  then show ?thesis by simp
qed

lemma iterated_weight:
  assumes "iterate_json b = Inr xs"
  shows "largest (\<lambda>x. 2 * size x) xs < Suc (block_weight b)"
proof (cases b)
  case (Some v)
  have "2 * size x \<le> 2 * size v" if "x \<in> set xs" for x
    using iterated_size [OF assms [unfolded Some] that] by (cases v) auto
  then have "largest (\<lambda>x. 2 * size x) xs \<le> 2 * size v" by (rule largest_le)
  then show ?thesis by (simp add: Some block_weight_def)
qed (use assms in \<open>simp add: iterate_json_def\<close>)

function (sequential) collect_symbols ::
  "(nat \<Rightarrow> string) \<Rightarrow> json \<Rightarrow> symbol_state \<Rightarrow> command_error + symbol_state"
and collect_blocks ::
  "(nat \<Rightarrow> string) \<Rightarrow> json option list \<Rightarrow> symbol_state \<Rightarrow> command_error + symbol_state"
and collect_list ::
  "(nat \<Rightarrow> string) \<Rightarrow> json list \<Rightarrow> symbol_state \<Rightarrow> command_error + symbol_state" where
  "collect_symbols uuid j st =
     rbind (collect_selector_symbols uuid j st) (\<lambda>st1.
     case j of
       JObject fs \<Rightarrow> rbind (note_own uuid fs st1) (\<lambda>st2. rbind (child_blocks fs) (\<lambda>bs. collect_blocks uuid bs st2))
     | _ \<Rightarrow> Inl PythonAttributeError)"
| "collect_blocks uuid [] st = Inr st"
| "collect_blocks uuid (b # bs) st =
     rbind (iterate_json b) (\<lambda>xs. rbind (collect_list uuid xs st) (collect_blocks uuid bs))"
| "collect_list uuid [] st = Inr st"
| "collect_list uuid (x # xs) st = rbind (collect_symbols uuid x st) (collect_list uuid xs)"
  by pat_completeness auto
termination
  by (relation "measures
      [\<lambda>x. case x of Inl (_, j, _) \<Rightarrow> 2 * size j | Inr (Inl (_, bs, _)) \<Rightarrow> Suc (largest block_weight bs)
         | Inr (Inr (_, xs, _)) \<Rightarrow> largest (\<lambda>x. 2 * size x) xs,
       \<lambda>x. case x of Inr (Inr _) \<Rightarrow> 1 | _ \<Rightarrow> 0,
       \<lambda>x. case x of Inl _ \<Rightarrow> 0 | Inr (Inl (_, bs, _)) \<Rightarrow> length bs | Inr (Inr (_, xs, _)) \<Rightarrow> length xs]")
    (use child_blocks_weight iterated_weight in \<open>auto simp del: json.size simp: less_Suc_eq_le le_max_iff_disj\<close>)

section \<open>Copying and pasting\<close>

text \<open>\<^verbatim>\<open>_copy_statement_payloads\<close>: the cloned dictionaries and the created identifiers.\<close>

definition copy_statement_payloads ::
  "(nat \<Rightarrow> string) \<Rightarrow> json list \<Rightarrow> command_error + json list \<times> stable_id list" where
  "copy_statement_payloads uuid js =
     rbind (collect_list uuid js (0, [])) (\<lambda>(n, m).
     rbind (clone_list uuid m js (n, map snd m)) (\<lambda>(copied, _, created). Inr (copied, created)))"

text \<open>
  The copies go into the dump of the document, where the place must be there before they are looked
  at; then the model reads the whole document.
\<close>

definition insert_copies_at ::
  "decode_env \<Rightarrow> validation_env \<Rightarrow> program_document \<Rightarrow> json list \<times> stable_id list \<Rightarrow> statement_location \<Rightarrow>
   command_error + edit_result" where
  "insert_copies_at D E d copied loc =
     rbind (insert_statements (doc_statements d) [] loc) (\<lambda>_.
     rbind (of_option ModelValidationError (those (map (decode_statement D) (fst copied)))) (\<lambda>new.
     rbind (insert_statements (doc_statements d) new loc) (\<lambda>ss.
       finish_edit E d ss (statement_id (last new)) (map JString (snd copied)))))"

definition copy_statement ::
  "decode_env \<Rightarrow> (nat \<Rightarrow> string) \<Rightarrow> validation_env \<Rightarrow> program_document \<Rightarrow> stable_id \<Rightarrow> statement_location \<Rightarrow>
   command_error + edit_result" where
  "copy_statement D uuid E d sid loc =
     rbind (require_statement (doc_statements d) sid) (\<lambda>c.
     rbind (copy_statement_payloads uuid [encode_statement (cu_statement c)]) (\<lambda>copied.
       insert_copies_at D (unlinked E) d copied loc))"

definition paste_statements ::
  "decode_env \<Rightarrow> (nat \<Rightarrow> string) \<Rightarrow> validation_env \<Rightarrow> program_document \<Rightarrow> dumped_fields list \<Rightarrow> statement_location \<Rightarrow>
   command_error + edit_result" where
  "paste_statements D uuid E d payloads loc =
     rbind (require ProgramCommandError (payloads \<noteq> [])) (\<lambda>_.
     rbind (copy_statement_payloads uuid (map JObject payloads)) (\<lambda>copied.
       insert_copies_at D E d copied loc))"

section \<open>A clone has the outline of the original\<close>

text \<open>What a statement is, its identifiers and values aside: kinds, callees and blocks.\<close>

datatype shape = Shape string stable_id "shape list list"

fun callee :: "statement \<Rightarrow> stable_id" where
  "callee (CallStatement _ f _ _ _ _) = f"
| "callee (ListenStatement _ _ _ _ h _ _) = h"
| "callee _ = []"

function outline :: "statement \<Rightarrow> shape" where
  "outline s = Shape (statement_kind s) (callee s) (map (map outline) (statement_child_blocks s))"
  by pat_completeness auto
termination
  by (relation "measure size") (auto intro!: child_statement_size)

declare outline.simps [simp del]

definition clones :: "(nat \<Rightarrow> string) \<Rightarrow> symbol_map \<Rightarrow> json \<Rightarrow> json \<Rightarrow> bool" where
  "clones uuid m j j' \<longleftrightarrow> (\<exists>st st'. clone uuid m j st = Inr (j', st'))"

definition cloned_field :: "(nat \<Rightarrow> string) \<Rightarrow> symbol_map \<Rightarrow> string \<times> json \<Rightarrow> string \<times> json \<Rightarrow> bool" where
  "cloned_field uuid m f g \<longleftrightarrow>
     fst f = fst g \<and> (fst f \<notin> owned_keys \<longrightarrow> fst f \<noteq> ''symbol_id'' \<longrightarrow> clones uuid m (snd f) (snd g))"

lemma clonesI: "clone uuid m j st = Inr (j', st') \<Longrightarrow> clones uuid m j j'"
  unfolding clones_def by blast

lemma clone_list_all2: "clone_list uuid m xs st = Inr (ys, st') \<Longrightarrow> list_all2 (clones uuid m) xs ys"
  by (induction xs arbitrary: ys st) (auto simp: rbind_Inr_iff intro: clonesI)

lemma clone_fields_all2: "clone_fields uuid m fs st = Inr (gs, st') \<Longrightarrow> list_all2 (cloned_field uuid m) fs gs"
proof (induction fs arbitrary: gs st)
  case (Cons f fs)
  obtain k item where f: "f = (k, item)" by (cases f)
  obtain n created where st: "st = (n, created)" by (cases st)
  from Cons.prems obtain item' st1 gs' where
    item: "(if k \<in> owned_keys then
          (let i = new_stable_id uuid (owned_prefix k) n in Inr (JString i, Suc n, created @ [i]))
        else if k = ''symbol_id'' \<and> unhashable item then Inl PythonTypeError
        else if k = ''symbol_id'' \<and> renamed_symbol m item \<noteq> None then
          Inr (JString (the (renamed_symbol m item)), n, created)
        else clone uuid m item (n, created)) = Inr (item', st1)"
    and rest: "clone_fields uuid m fs st1 = Inr (gs', st')" and gs: "gs = (k, item') # gs'"
    by (auto simp: f st rbind_Inr_iff)
  have "cloned_field uuid m f (k, item')" using item by (auto simp: f cloned_field_def intro: clonesI)
  with Cons.IH [OF rest] show ?case by (simp add: gs)
qed auto

lemma payloads_clones:
  "copy_statement_payloads uuid js = Inr (ks, created) \<Longrightarrow> \<exists>m. list_all2 (clones uuid m) js ks"
  by (auto simp: copy_statement_payloads_def rbind_Inr_iff intro: clone_list_all2)

lemma clones_cases:
  "clones uuid m (JList xs) j \<Longrightarrow> \<exists>ys. j = JList ys \<and> list_all2 (clones uuid m) xs ys"
  "clones uuid m (JObject fs) j \<Longrightarrow> \<exists>gs. j = JObject gs \<and> list_all2 (cloned_field uuid m) fs gs"
  "clones uuid m (JString s) j \<Longrightarrow> j = JString s"
  by (auto simp: clones_def rbind_Inr_iff dest: clone_list_all2 clone_fields_all2)

lemma decoded_list:
  assumes "clones uuid m (JList (map enc b)) y" "decode_list dec y = Some b'"
    and "\<And>x j c. x \<in> set b \<Longrightarrow> clones uuid m (enc x) j \<Longrightarrow> dec j = Some c \<Longrightarrow> g c = g x"
  shows "map g b' = map g b"
proof -
  obtain ys where "y = JList ys" "list_all2 (clones uuid m) (map enc b) ys"
    using clones_cases(1) [OF assms(1)] by blast
  then have "list_all2 (\<lambda>x. clones uuid m (enc x)) b ys" "those (map dec ys) = Some b'"
    using assms(2) by (simp_all add: list_all2_map1 decode_list_def)
  then show ?thesis using assms(3)
  proof (induction b ys arbitrary: b' rule: list_all2_induct)
    case (Cons x xs y ys)
    from Cons.prems(1) obtain c cs where c: "dec y = Some c" "those (map dec ys) = Some cs" "b' = c # cs"
      by (auto split: option.splits)
    have "g c = g x" using Cons.prems(2) [OF _ Cons.hyps(1) c(1)] by simp
    moreover have "map g cs = map g xs" by (rule Cons.IH [OF c(2)]) (use Cons.prems(2) in auto)
    ultimately show ?case by (simp add: c(3))
  qed simp
qed

lemma cloned_lookup:
  assumes "list_all2 (cloned_field uuid m) fs gs" "k \<notin> owned_keys" "k \<noteq> ''symbol_id''"
  shows "rel_option (clones uuid m) (json_get k fs) (json_get k gs)"
  using assms(1)
  by (induction rule: list_all2_induct) (use assms(2,3) in \<open>auto simp: json_get_def cloned_field_def split: prod.splits\<close>)

text \<open>Reading a decoded statement off its dictionary.\<close>

lemma decode_simple_inv:
  assumes "decode_simple D i kind l gs = Some c" "kind \<in> fst ` set statement_keys" "kind \<notin> set block_kinds"
  shows "statement_kind c = kind \<and> statement_child_blocks c = [] \<and>
    (kind = ''call'' \<longrightarrow> get_field gs ''function_id'' decode_text = Some (callee c)) \<and>
    (kind = ''listen'' \<longrightarrow> get_field gs ''handler_function_id'' decode_text = Some (callee c)) \<and>
    (kind \<noteq> ''call'' \<longrightarrow> kind \<noteq> ''listen'' \<longrightarrow> callee c = [])"
  using assms by (auto simp: decode_simple_def statement_keys_def block_kinds_def Option.bind_eq_Some_conv split: if_splits)

lemma statement_closed_kind: "statement_closed kind gs \<Longrightarrow> kind \<in> fst ` set statement_keys"
  unfolding statement_closed_def by (metis (no_types, lifting) map_of_eq_None_iff option.simps(4))

lemma decode_statement_kind:
  assumes "decode_statement D (JObject gs) = Some c"
  obtains i kind l where "get_field gs ''kind'' decode_text = Some kind" "kind \<in> fst ` set statement_keys"
    "kind \<notin> set block_kinds \<Longrightarrow> decode_simple D i kind l gs = Some c"
  using assms unfolding decode_statement_object Option.bind_eq_Some_conv
proof (elim exE conjE, goal_cases)
  case (1 i kind l)
  then have "statement_closed kind gs" by (metis option.simps(3))
  then show ?case using 1 by (intro 1(1) [of kind i l]) (simp_all add: statement_closed_kind)
qed

lemma decode_if_inv:
  assumes "decode_statement D (JObject gs) = Some c" "get_field gs ''kind'' decode_text = Some ''if''"
  obtains i e l th branches oth where "c = IfStatement i e th branches oth l"
    "field_or [] gs ''then_statements'' (decode_list (decode_statement D)) = Some th"
    "field_or [] gs ''otherwise_statements'' (decode_list (decode_statement D)) = Some oth"
    "field_or [] gs ''additional_branches'' (decode_list (decode_fields (\<lambda>gs.
           if \<not> only_keys [''branch_id'', ''condition'', ''statements''] gs then None
           else do { b \<leftarrow> get_field gs ''branch_id'' decode_text; bc \<leftarrow> get_field gs ''condition'' (decode_value D);
             ss \<leftarrow> field_or [] gs ''statements'' (decode_list (decode_statement D)); Some (ConditionalBranch b bc ss) }))) = Some branches"
  using assms unfolding decode_statement_object Option.bind_eq_Some_conv
  by (clarsimp simp: Option.bind_eq_Some_conv split: if_splits)

lemma decode_loop_inv:
  assumes "decode_statement D (JObject gs) = Some c" "get_field gs ''kind'' decode_text = Some ''loop''"
  obtains i mode source body item idx key val l where "c = LoopStatement i mode source body item idx key val l"
    "field_or [] gs ''body'' (decode_list (decode_statement D)) = Some body"
  using assms unfolding decode_statement_object Option.bind_eq_Some_conv
  by (clarsimp simp: Option.bind_eq_Some_conv split: if_splits)

lemma decode_scope_inv:
  assumes "decode_statement D (JObject gs) = Some c" "get_field gs ''kind'' decode_text = Some ''target_scope''"
  obtains i target body l where "c = TargetScopeStatement i target body l"
    "field_or [] gs ''body'' (decode_list (decode_statement D)) = Some body"
  using assms unfolding decode_statement_object Option.bind_eq_Some_conv
  by (clarsimp simp: Option.bind_eq_Some_conv split: if_splits)

lemma decode_try_inv:
  assumes "decode_statement D (JObject gs) = Some c" "get_field gs ''kind'' decode_text = Some ''try''"
  obtains i body policy catches fin l where "c = TryStatement i body policy catches fin l"
    "field_or [] gs ''body'' (decode_list (decode_statement D)) = Some body"
    "field_or [] gs ''finally_statements'' (decode_list (decode_statement D)) = Some fin"
    "field_or [] gs ''catches'' (decode_list (decode_fields (\<lambda>gs.
           if \<not> only_keys [''catch_id'', ''error_ids'', ''error_binding'', ''statements''] gs then None
           else do { c \<leftarrow> get_field gs ''catch_id'' decode_text; es \<leftarrow> field_or [] gs ''error_ids'' (decode_list decode_text);
             b \<leftarrow> optional_binding gs ''error_binding'';
             ss \<leftarrow> field_or [] gs ''statements'' (decode_list (decode_statement D)); Some (CatchClause c es b ss) }))) = Some catches"
  using assms unfolding decode_statement_object Option.bind_eq_Some_conv
  by (clarsimp simp: Option.bind_eq_Some_conv split: if_splits)

text \<open>A field of a clone that holds a list of things.\<close>

lemma decoded_field:
  assumes "list_all2 (cloned_field uuid m) fs gs" "k \<notin> owned_keys" "k \<noteq> ''symbol_id''"
    and "json_get k fs = Some (JList (map enc b))" "field_or [] gs k (decode_list dec) = Some b'"
    and "\<And>x j c. x \<in> set b \<Longrightarrow> clones uuid m (enc x) j \<Longrightarrow> dec j = Some c \<Longrightarrow> g c = g x"
  shows "map g b' = map g b"
proof -
  obtain y where y: "json_get k gs = Some y" "clones uuid m (JList (map enc b)) y"
    using cloned_lookup [OF assms(1-3)] assms(4) by (auto simp: option_rel_Some1)
  then have "decode_list dec y = Some b'" using assms(5) by (simp add: field_or_def)
  then show ?thesis by (rule decoded_list [OF y(2) _ assms(6)])
qed

lemma cloned_text:
  assumes "list_all2 (cloned_field uuid m) fs gs" "k \<notin> owned_keys" "k \<noteq> ''symbol_id''" "json_get k fs = Some (JString s)"
  shows "get_field gs k decode_text = Some s"
  using cloned_lookup [OF assms(1-3)] assms(4)
  by (auto simp: option_rel_Some1 get_field_def dest!: clones_cases(3))

lemma clone_outline:
  "clones uuid m (encode_statement s) j \<Longrightarrow> decode_statement D j = Some c \<Longrightarrow> outline c = outline s"
proof (induction s arbitrary: j c rule: statement_tree_induct)
  case (node s)
  have "\<exists>fs. encode_statement s = JObject fs" by (subst encode_statement.simps) (simp add: statement_object_def)
  then obtain fs where fs: "encode_statement s = JObject fs" ..
  then obtain gs where j: "j = JObject gs" and rel: "list_all2 (cloned_field uuid m) fs gs"
    using node.prems(1) clones_cases(2) by metis
  note dec = node.prems(2) [unfolded j]
  note fields = fs [symmetric, unfolded encode_statement.simps [of s]]
  have plain: "k \<notin> owned_keys" "k \<noteq> ''symbol_id''"
    if "k \<in> {''kind'', ''function_id'', ''handler_function_id'', ''then_statements'', ''otherwise_statements'', ''body'',
      ''finally_statements'', ''additional_branches'', ''catches'', ''statements''}" for k
    using that by (auto simp: owned_keys_def)
  have kind: "get_field gs ''kind'' decode_text = Some (statement_kind s)"
    by (rule cloned_text [OF rel plain]) (use fields in \<open>auto simp: statement_object_def json_get_def\<close>)
  have simple: "outline c = outline s"
    if "statement_kind s \<notin> set block_kinds" "statement_child_blocks s = []"
      "statement_kind s = ''call'' \<Longrightarrow> json_get ''function_id'' fs = Some (JString (callee s))"
      "statement_kind s = ''listen'' \<Longrightarrow> json_get ''handler_function_id'' fs = Some (JString (callee s))"
      "statement_kind s \<noteq> ''call'' \<Longrightarrow> statement_kind s \<noteq> ''listen'' \<Longrightarrow> callee s = []"
  proof -
    obtain i k l where k: "get_field gs ''kind'' decode_text = Some k" "k \<in> fst ` set statement_keys"
      "k \<notin> set block_kinds \<Longrightarrow> decode_simple D i k l gs = Some c"
      by (rule decode_statement_kind [OF dec]) blast
    then have "k = statement_kind s" using kind by simp
    note inv = decode_simple_inv [OF k(3) k(2), unfolded this, OF that(1) that(1)]
    have "callee c = callee s"
    proof (cases "statement_kind s = ''call''")
      case True
      have "get_field gs ''function_id'' decode_text = Some (callee s)"
        by (rule cloned_text [OF rel plain that(3) [OF True]]) simp_all
      with inv True show ?thesis by simp
    next
      case no_call: False
      show ?thesis
      proof (cases "statement_kind s = ''listen''")
        case True
        have "get_field gs ''handler_function_id'' decode_text = Some (callee s)"
          by (rule cloned_text [OF rel plain that(4) [OF True]]) simp_all
        with inv True show ?thesis by simp
      qed (use inv no_call that(5) in simp)
    qed
    with inv that(2) show ?thesis by (simp add: outline.simps [of c] outline.simps [of s])
  qed
  have block: "map outline b' = map outline b"
    if "b \<in> set (statement_child_blocks s)" "list_all2 (cloned_field uuid m) hs is" "json_get k hs = Some (JList (map encode_statement b))"
      "field_or [] is k (decode_list (decode_statement D)) = Some b'" "k \<notin> owned_keys" "k \<noteq> ''symbol_id''" for b b' k hs "is"
    by (rule decoded_field [OF that(2,5,6,3,4)]) (rule node.IH [OF that(1)])
  show ?case
  proof (cases s)
    case (IfStatement i e th branches oth l)
    then have named: "get_field gs ''kind'' decode_text = Some ''if''" using kind by simp
    obtain i' e' l' th' branches' oth' where c: "c = IfStatement i' e' th' branches' oth' l'"
      "field_or [] gs ''then_statements'' (decode_list (decode_statement D)) = Some th'"
      "field_or [] gs ''otherwise_statements'' (decode_list (decode_statement D)) = Some oth'"
      and bs: "field_or [] gs ''additional_branches'' (decode_list (decode_fields (\<lambda>gs.
           if \<not> only_keys [''branch_id'', ''condition'', ''statements''] gs then None
           else do { b \<leftarrow> get_field gs ''branch_id'' decode_text; bc \<leftarrow> get_field gs ''condition'' (decode_value D);
             ss \<leftarrow> field_or [] gs ''statements'' (decode_list (decode_statement D)); Some (ConditionalBranch b bc ss) }))) = Some branches'"
      by (rule decode_if_inv [OF dec named]) blast
    have "map outline th' = map outline th"
      by (rule block [OF _ rel _ c(2) plain]) (use fields in \<open>auto simp: IfStatement statement_object_def json_get_def\<close>)
    moreover have "map outline oth' = map outline oth"
      by (rule block [OF _ rel _ c(3) plain]) (use fields in \<open>auto simp: IfStatement statement_object_def json_get_def\<close>)
    moreover have "map (map outline \<circ> branch_statements) branches' = map (map outline \<circ> branch_statements) branches"
    proof (rule decoded_field [OF rel plain _ bs])
      show "json_get ''additional_branches'' fs = Some (JList (map (\<lambda>b. JObject
          [(''branch_id'', JString (branch_id b)), (''condition'', encode_value (branch_condition b)),
           (''statements'', JList (map encode_statement (branch_statements b)))]) branches))"
        using fields by (auto simp: IfStatement statement_object_def json_get_def)
    next
      fix x j c
      assume x: "x \<in> set branches" "clones uuid m (JObject [(''branch_id'', JString (branch_id x)), (''condition'', encode_value (branch_condition x)),
          (''statements'', JList (map encode_statement (branch_statements x)))]) j"
        and c: "decode_fields (\<lambda>gs. if \<not> only_keys [''branch_id'', ''condition'', ''statements''] gs then None
           else do { b \<leftarrow> get_field gs ''branch_id'' decode_text; bc \<leftarrow> get_field gs ''condition'' (decode_value D);
             ss \<leftarrow> field_or [] gs ''statements'' (decode_list (decode_statement D)); Some (ConditionalBranch b bc ss) }) j = Some c"
      obtain hs where hs: "j = JObject hs" "list_all2 (cloned_field uuid m) [(''branch_id'', JString (branch_id x)),
          (''condition'', encode_value (branch_condition x)), (''statements'', JList (map encode_statement (branch_statements x)))] hs"
        using clones_cases(2) [OF x(2)] by blast
      then have ss: "field_or [] hs ''statements'' (decode_list (decode_statement D)) = Some (branch_statements c)"
        using c by (auto simp: Option.bind_eq_Some_conv split: if_splits)
      have "map outline (branch_statements c) = map outline (branch_statements x)"
        by (rule block [OF _ hs(2) _ ss plain]) (use x(1) in \<open>simp_all add: IfStatement json_get_def\<close>)
      then show "(map outline \<circ> branch_statements) c = (map outline \<circ> branch_statements) x" by simp
    qed simp_all
    ultimately show ?thesis by (simp add: c(1) IfStatement outline.simps [of "IfStatement _ _ _ _ _ _"])
  next
    case (LoopStatement i mode source body item idx key val l)
    then have named: "get_field gs ''kind'' decode_text = Some ''loop''" using kind by simp
    obtain i' mode' source' body' item' idx' key' val' l' where c: "c = LoopStatement i' mode' source' body' item' idx' key' val' l'"
      "field_or [] gs ''body'' (decode_list (decode_statement D)) = Some body'" by (rule decode_loop_inv [OF dec named]) blast
    have "map outline body' = map outline body"
      by (rule block [OF _ rel _ c(2) plain]) (use fields in \<open>auto simp: LoopStatement statement_object_def json_get_def\<close>)
    then show ?thesis by (simp add: c(1) LoopStatement outline.simps [of "LoopStatement _ _ _ _ _ _ _ _ _"])
  next
    case (TryStatement i body policy catches fin l)
    then have named: "get_field gs ''kind'' decode_text = Some ''try''" using kind by simp
    obtain i' body' policy' catches' fin' l' where c: "c = TryStatement i' body' policy' catches' fin' l'"
      "field_or [] gs ''body'' (decode_list (decode_statement D)) = Some body'"
      "field_or [] gs ''finally_statements'' (decode_list (decode_statement D)) = Some fin'"
      and cs: "field_or [] gs ''catches'' (decode_list (decode_fields (\<lambda>gs.
           if \<not> only_keys [''catch_id'', ''error_ids'', ''error_binding'', ''statements''] gs then None
           else do { c \<leftarrow> get_field gs ''catch_id'' decode_text; es \<leftarrow> field_or [] gs ''error_ids'' (decode_list decode_text);
             b \<leftarrow> optional_binding gs ''error_binding'';
             ss \<leftarrow> field_or [] gs ''statements'' (decode_list (decode_statement D)); Some (CatchClause c es b ss) }))) = Some catches'"
      by (rule decode_try_inv [OF dec named]) blast
    have "map outline body' = map outline body"
      by (rule block [OF _ rel _ c(2) plain]) (use fields in \<open>auto simp: TryStatement statement_object_def json_get_def\<close>)
    moreover have "map outline fin' = map outline fin"
      by (rule block [OF _ rel _ c(3) plain]) (use fields in \<open>auto simp: TryStatement statement_object_def json_get_def\<close>)
    moreover have "map (map outline \<circ> catch_statements) catches' = map (map outline \<circ> catch_statements) catches"
    proof (rule decoded_field [OF rel plain _ cs])
      show "json_get ''catches'' fs = Some (JList (map (\<lambda>c. JObject
          [(''catch_id'', JString (catch_id c)), (''error_ids'', JList (map JString (catch_error_ids c))),
           (''error_binding'', encode_opt encode_loop_binding (catch_error_binding c)),
           (''statements'', JList (map encode_statement (catch_statements c)))]) catches))"
        using fields by (auto simp: TryStatement statement_object_def json_get_def)
    next
      fix x j c
      assume x: "x \<in> set catches" "clones uuid m (JObject [(''catch_id'', JString (catch_id x)), (''error_ids'', JList (map JString (catch_error_ids x))),
           (''error_binding'', encode_opt encode_loop_binding (catch_error_binding x)),
           (''statements'', JList (map encode_statement (catch_statements x)))]) j"
        and c: "decode_fields (\<lambda>gs. if \<not> only_keys [''catch_id'', ''error_ids'', ''error_binding'', ''statements''] gs then None
           else do { c \<leftarrow> get_field gs ''catch_id'' decode_text; es \<leftarrow> field_or [] gs ''error_ids'' (decode_list decode_text);
             b \<leftarrow> optional_binding gs ''error_binding'';
             ss \<leftarrow> field_or [] gs ''statements'' (decode_list (decode_statement D)); Some (CatchClause c es b ss) }) j = Some c"
      obtain hs where hs: "j = JObject hs" "list_all2 (cloned_field uuid m) [(''catch_id'', JString (catch_id x)),
          (''error_ids'', JList (map JString (catch_error_ids x))), (''error_binding'', encode_opt encode_loop_binding (catch_error_binding x)),
          (''statements'', JList (map encode_statement (catch_statements x)))] hs"
        using clones_cases(2) [OF x(2)] by blast
      then have ss: "field_or [] hs ''statements'' (decode_list (decode_statement D)) = Some (catch_statements c)"
        using c by (auto simp: Option.bind_eq_Some_conv split: if_splits)
      have "map outline (catch_statements c) = map outline (catch_statements x)"
        by (rule block [OF _ hs(2) _ ss plain]) (use x(1) in \<open>simp_all add: TryStatement json_get_def\<close>)
      then show "(map outline \<circ> catch_statements) c = (map outline \<circ> catch_statements) x" by simp
    qed simp_all
    ultimately show ?thesis by (simp add: c(1) TryStatement outline.simps [of "TryStatement _ _ _ _ _ _"])
  next
    case (TargetScopeStatement i target body l)
    then have named: "get_field gs ''kind'' decode_text = Some ''target_scope''" using kind by simp
    obtain i' target' body' l' where c: "c = TargetScopeStatement i' target' body' l'"
      "field_or [] gs ''body'' (decode_list (decode_statement D)) = Some body'" by (rule decode_scope_inv [OF dec named]) blast
    have "map outline body' = map outline body"
      by (rule block [OF _ rel _ c(2) plain]) (use fields in \<open>auto simp: TargetScopeStatement statement_object_def json_get_def\<close>)
    then show ?thesis by (simp add: c(1) TargetScopeStatement outline.simps [of "TargetScopeStatement _ _ _ _"])
  qed (rule simple; use fields in \<open>auto simp: statement_object_def json_get_def\<close>)+
qed

end
