(* ===== verification/Scope_Soundness.thy ===== *)
theory Scope_Soundness
  imports Program_Validation
begin

text \<open>
  What a document without diagnostics guarantees, stated without the validator:
  definite assignment (every local a value reads has been bound on the way to it), jumps
  only inside loops, and references used at a type their declaration is compatible with.
\<close>

section \<open>The locals a value reads\<close>

fun selector_bound :: "value_node \<Rightarrow> stable_id set" where
  "selector_bound (SelectorValue _ bs _ _) = set (map sb_symbol_id bs)"
| "selector_bound _ = {}"

fun own_read :: "value_node \<Rightarrow> (stable_id \<times> type_id) set" where
  "own_read (SymbolReferenceValue _ s t) = {(s, t)}"
| "own_read _ = {}"

function typed_reads :: "value_node \<Rightarrow> (stable_id \<times> type_id) set" where
  "typed_reads v = own_read v \<union>
     {(s, t) \<in> \<Union> (typed_reads ` set (iter_value_children v)). s \<notin> selector_bound v}"
  by pat_completeness auto
termination by (relation "measure size") (auto simp: value_child_size)

declare typed_reads.simps [simp del]

definition value_reads :: "value_node \<Rightarrow> stable_id set" where
  "value_reads v = fst ` typed_reads v"

lemma selector_symbols_eq:
  "selector_symbols syms bs s \<noteq> None \<longleftrightarrow> s \<in> set (map sb_symbol_id bs) \<or> syms s \<noteq> None"
  by (induction bs arbitrary: syms) (auto simp: selector_symbols_def)

lemma selector_symbols_other:
  "s \<notin> set (map sb_symbol_id bs) \<Longrightarrow> selector_symbols syms bs s = syms s"
  by (induction bs arbitrary: syms) (auto simp: selector_symbols_def)

lemma child_contexts_symbols:
  "(a, e, y, c) \<in> set (child_contexts syms v) \<Longrightarrow> s \<notin> selector_bound v \<Longrightarrow> y s = syms s"
  by (cases v) (auto simp: selector_symbols_other)

lemma validate_value_typed_reads:
  "validate_value E sid a ex syms v = [] \<Longrightarrow> (s, t) \<in> typed_reads v \<Longrightarrow>
     \<exists>st. syms s = Some st \<and> types_compatible st t"
proof (induction E sid a ex syms v arbitrary: s t rule: validate_value.induct)
  case (1 E sid a ex syms v)
  have diag: "reference_diagnostics sid a syms v = []"
    "\<And>a e y c. (a, e, y, c) \<in> set (child_contexts syms v) \<Longrightarrow> validate_value E sid a e y c = []"
    using 1(2) by (auto simp: validate_value.simps [of E sid a ex syms v])
  from 1(3) consider "(s, t) \<in> own_read v"
    | c where "c \<in> set (iter_value_children v)" "(s, t) \<in> typed_reads c" "s \<notin> selector_bound v"
    by (subst (asm) typed_reads.simps) auto
  then show ?case
  proof cases
    case 1
    with diag(1) show ?thesis by (cases v) (auto split: option.splits)
  next
    case 2
    obtain a' e y where c: "(a', e, y, c) \<in> set (child_contexts syms v)"
      using child_contexts_cover [OF 2(1)] .
    have "\<exists>st. y s = Some st \<and> types_compatible st t"
      using 1(1) [OF c refl refl refl diag(2) [OF c] 2(2)] .
    then show ?thesis using child_contexts_symbols [OF c 2(3)] by simp
  qed
qed

lemma validate_value_reads: "validate_value E sid a ex syms v = [] \<Longrightarrow> value_reads v \<subseteq> dom syms"
  by (auto simp: value_reads_def dest!: validate_value_typed_reads)

lemma validate_value_expected:
  "validate_value E sid a (Some t) syms v = [] \<Longrightarrow> types_compatible (value_type v) t"
  by (simp add: validate_value.simps [of E sid a "Some t"])

section \<open>Definite assignment\<close>

definition loop_bound ::
  "loop_mode \<Rightarrow> loop_binding option \<Rightarrow> loop_binding option \<Rightarrow> loop_binding option \<Rightarrow> loop_binding option \<Rightarrow> stable_id set" where
  "loop_bound m item idx key val = lb_symbol_id `
     (case m of ModeForEach \<Rightarrow> set_option item \<union> set_option idx
      | ModeForEachMap \<Rightarrow> set_option key \<union> set_option val
      | _ \<Rightarrow> {})"

text \<open>The values of a statement and its blocks, each with the locals bound for it alone.\<close>

fun value_scopes :: "statement \<Rightarrow> (stable_id set \<times> value_node) list" where
  "value_scopes (ListenStatement _ src rb cond _ args _) =
     map (Pair {}) (es_name src # opt_list (es_sender src) @ opt_list cond) @
     map (\<lambda>(p, v). ({lb_symbol_id rb}, v)) args"
| "value_scopes s = map (Pair {}) (statement_value_roots s)"

fun block_scopes :: "statement \<Rightarrow> (stable_id set \<times> statement list) list" where
  "block_scopes (LoopStatement _ m _ body item idx key val _) = [(loop_bound m item idx key val, body)]"
| "block_scopes (TryStatement _ body _ catches finally_statements _) =
     ({}, body) #
     map (\<lambda>c. (lb_symbol_id ` set_option (catch_error_binding c), catch_statements c)) catches @
     [({}, finally_statements)]"
| "block_scopes s = map (Pair {}) (statement_child_blocks s)"

fun target_writes :: "assignment_target \<Rightarrow> stable_id set" where
  "target_writes (LocalAssignmentTarget s _ _ _) = {s}"
| "target_writes (ProjectVariableAssignmentTarget _ _) = {}"

fun statement_writes :: "statement \<Rightarrow> stable_id set" where
  "statement_writes (CallStatement _ _ _ rb _ _) = rb_symbol_id ` set_option rb"
| "statement_writes (AssignmentStatement _ t _ _) = target_writes t"
| "statement_writes _ = {}"

lemma value_scopes_roots: "map snd (value_scopes s) = statement_value_roots s"
  by (cases s) (simp_all add: comp_def case_prod_unfold)

lemma block_scopes_blocks: "map snd (block_scopes s) = statement_child_blocks s"
  by (cases s) (simp_all add: comp_def)

lemma block_scopes_child: "(B, b) \<in> set (block_scopes s) \<Longrightarrow> b \<in> set (statement_child_blocks s)"
  by (metis block_scopes_blocks image_eqI list.set_map snd_conv)

function definitely_assigned :: "stable_id set \<Rightarrow> statement list \<Rightarrow> bool" where
  "definitely_assigned A [] \<longleftrightarrow> True"
| "definitely_assigned A (s # rest) \<longleftrightarrow>
     (\<forall>(B, v) \<in> set (value_scopes s). value_reads v \<subseteq> A \<union> B) \<and>
     (\<forall>(B, b) \<in> set (block_scopes s). definitely_assigned (A \<union> B) b) \<and>
     definitely_assigned (A \<union> statement_writes s) rest"
  by pat_completeness auto
termination
  by (relation "measure (\<lambda>(A, b). size_list size b)")
    (auto dest!: block_scopes_child child_block_size)

section \<open>Jumps inside loops\<close>

fun is_jump :: "statement \<Rightarrow> bool" where
  "is_jump (BreakStatement _ _) = True"
| "is_jump (ContinueStatement _ _) = True"
| "is_jump _ = False"

fun is_loop :: "statement \<Rightarrow> bool" where
  "is_loop (LoopStatement _ _ _ _ _ _ _ _ _) = True"
| "is_loop _ = False"

function jumps_in_loops :: "bool \<Rightarrow> statement list \<Rightarrow> bool" where
  "jumps_in_loops inside [] \<longleftrightarrow> True"
| "jumps_in_loops inside (s # rest) \<longleftrightarrow>
     (is_jump s \<longrightarrow> inside) \<and>
     (\<forall>b \<in> set (statement_child_blocks s). jumps_in_loops (inside \<or> is_loop s) b) \<and>
     jumps_in_loops inside rest"
  by pat_completeness auto
termination
  by (relation "measure (\<lambda>(i, b). size_list size b)") (auto dest!: child_block_size)

section \<open>What the validator's segments cover\<close>

text \<open>
  The segments of a statement match its blocks: each block of \<^const>\<open>block_scopes\<close> is
  validated under the current table extended by its own locals.
\<close>

lemma declare_symbol_ok:
  "fst (declare_symbol sid s t syms) = [] \<Longrightarrow> dom (snd (declare_symbol sid s t syms)) = insert s (dom syms)"
  by (auto simp: declare_symbol_def split: option.splits)

lemma checked_binding_ok:
  "fst (checked_binding code w sid b syms) = [] \<Longrightarrow>
     dom (snd (checked_binding code w sid b syms)) = insert (lb_symbol_id b) (dom syms)"
  by (simp add: checked_binding_def declare_binding_def Let_def case_prod_unfold declare_symbol_ok)

lemma require_assignment_target_ok:
  "fst (require_assignment_target sid s t d syms) = [] \<Longrightarrow>
     dom (snd (require_assignment_target sid s t d syms)) = insert s (dom syms)"
  by (auto simp: require_assignment_target_def declare_symbol_ok split: if_splits option.splits)

lemma for_each_symbols_ok:
  assumes "fst (for_each_symbols sid source item idx syms) = []"
  shows "dom (snd (for_each_symbols sid source item idx syms)) =
    dom syms \<union> loop_bound ModeForEach item idx key val"
  using assms
  by (simp add: for_each_symbols_def loop_bound_def Let_def case_prod_unfold checked_binding_ok
    split: option.splits)

lemma for_each_map_symbols_ok:
  assumes "fst (for_each_map_symbols sid source key val syms) = []"
  shows "dom (snd (for_each_map_symbols sid source key val syms)) =
    dom syms \<union> loop_bound ModeForEachMap item idx key val"
  using assms
  by (cases "map_types (value_type source)"; cases key; cases val)
    (auto simp add: for_each_map_symbols_def loop_bound_def Let_def case_prod_unfold checked_binding_ok
    simp del: dom_eq_empty_conv)

lemma loop_symbols_ok:
  assumes "fst (loop_symbols m sid source item idx key val syms) = []"
  shows "dom (snd (loop_symbols m sid source item idx key val syms)) =
    dom syms \<union> loop_bound m item idx key val"
  using assms for_each_symbols_ok [of sid source item idx syms key val]
    for_each_map_symbols_ok [of sid source key val syms item idx]
  by (cases m) (simp_all add: loop_symbols_def loop_bound_def)

lemma catch_symbols_ok:
  "fst (catch_symbols sid c syms) = [] \<Longrightarrow>
     dom (snd (catch_symbols sid c syms)) = dom syms \<union> lb_symbol_id ` set_option (catch_error_binding c)"
  by (simp add: catch_symbols_def checked_binding_ok split: option.splits)

definition clean :: "segment list \<Rightarrow> bool" where
  "clean segments \<longleftrightarrow> (\<forall>(ds, d, y, b) \<in> set segments. ds = [])"

lemma clean_simps [simp]:
  "clean []"
  "clean ((ds, d, y, b) # segments) \<longleftrightarrow> ds = [] \<and> clean segments"
  "clean (xs @ ys) \<longleftrightarrow> clean xs \<and> clean ys"
  by (auto simp: clean_def)

lemma clean_map: "clean (map f xs) \<longleftrightarrow> (\<forall>x \<in> set xs. clean [f x])"
  by (auto simp: clean_def)

lemma validate_value_read:
  "validate_value E sid a ex syms v = [] \<Longrightarrow> s \<in> value_reads v \<Longrightarrow> \<exists>t. syms s = Some t"
  using validate_value_reads by blast

lemma call_plan_values:
  assumes "clean (fst (call_plan E syms sid f args rb review))" "(p, v) \<in> set args"
  shows "value_reads v \<subseteq> dom syms"
proof -
  have "validate_root E sid (map_option pc_value_type (argument_parameter (get_contract E f) p)) syms v = []"
    using assms by (auto simp: call_plan_def Let_def case_prod_unfold split: option.splits dest!: bspec)
  then show ?thesis by (rule validate_value_reads)
qed

lemma listen_plan_values:
  assumes "clean (listen_plan E syms sid src rb c h args)"
    "(B, v) \<in> set (value_scopes (ListenStatement sid src rb c h args l))"
  shows "value_reads v \<subseteq> dom syms \<union> B"
proof (cases "(B, v) \<in> Pair {lb_symbol_id rb} ` (snd ` set args)")
  case True
  then obtain p where p: "(p, v) \<in> set args" "B = {lb_symbol_id rb}" by auto
  then have "validate_root E sid (map_option pc_value_type (argument_parameter (get_contract E h) p))
    (syms(lb_symbol_id rb \<mapsto> lb_value_type rb)) v = []"
    using assms(1) by (auto simp: listen_plan_def Let_def case_prod_unfold dest!: bspec)
  then show ?thesis using p by (auto dest!: validate_value_reads split: if_splits)
next
  case False
  then have "\<exists>ex. validate_root E sid ex syms v = []"
    using assms by (auto simp: listen_plan_def Let_def case_prod_unfold image_iff split: option.splits)
  then show ?thesis by (auto dest: validate_value_read)
qed

abbreviation segments_of ::
  "validation_env \<Rightarrow> type_id \<Rightarrow> nat \<Rightarrow> symbols \<Rightarrow> statement \<Rightarrow> segment list" where
  "segments_of E R depth syms s \<equiv> fst (statement_plan E R depth syms s)"

lemma assignment_plan_values:
  "clean (fst (assignment_plan E syms sid t v)) \<Longrightarrow> \<exists>ex. validate_root E sid ex syms v = []"
  by (cases t) (auto simp: Let_def case_prod_unfold)

lemma statement_plan_values:
  assumes "clean (segments_of E R depth syms s)" "(B, v) \<in> set (value_scopes s)"
  shows "value_reads v \<subseteq> dom syms \<union> B"
proof (cases s)
  case (CallStatement sid f args rb review l)
  with assms have "\<exists>p. (p, v) \<in> set args" by auto
  then show ?thesis using assms CallStatement call_plan_values by fastforce
next
  case (AssignmentStatement sid t w l)
  with assms have "\<exists>ex. validate_root E sid ex syms v = []"
    using assignment_plan_values by auto
  then show ?thesis by (auto dest: validate_value_read)
next
  case (IfStatement sid c th branches oth l)
  with assms have "\<exists>ex. validate_root E sid ex syms v = []"
    by (auto simp: if_plan_def clean_map)
  then show ?thesis by (auto dest: validate_value_read)
next
  case (ReturnStatement sid w l)
  with assms show ?thesis
    by (auto simp: return_plan_def split: if_splits dest: validate_value_read)
next
  case (ListenStatement sid src rb c h args l)
  with assms listen_plan_values [of E syms sid src rb c h args B v l] show ?thesis by simp
qed (use assms in \<open>auto simp: loop_plan_def fail_plan_def try_plan_def scope_plan_def
      retry_diagnostics_def clean_map Let_def case_prod_unfold split: option.splits
      dest: validate_value_read dest!: bspec\<close>)

lemma statement_plan_writes:
  assumes "clean (segments_of E R depth syms s)"
  shows "dom (snd (statement_plan E R depth syms s)) = dom syms \<union> statement_writes s"
proof (cases s)
  case (CallStatement sid f args rb review l)
  with assms show ?thesis
    by (cases rb) (auto simp: call_plan_def Let_def case_prod_unfold
      simp flip: Un_insert_right dest!: require_assignment_target_ok)
next
  case (AssignmentStatement sid t w l)
  with assms show ?thesis
    by (cases t) (simp_all add: Let_def case_prod_unfold require_assignment_target_ok)
qed simp_all

lemma statement_plan_scopes:
  assumes "clean (segments_of E R depth syms s)" "(B, b) \<in> set (block_scopes s)"
  shows "\<exists>ds y. (ds, if is_loop s then Suc depth else depth, y, b) \<in> set (segments_of E R depth syms s) \<and>
    dom y = dom syms \<union> B"
proof (cases s)
  case (LoopStatement sid m source body item idx key val l)
  with assms show ?thesis
    using loop_symbols_ok [of m sid source item idx key val syms]
    by (simp add: loop_plan_def case_prod_unfold Let_def)
next
  case (TryStatement sid body policy catches fin l)
  show ?thesis
  proof (cases "\<exists>c \<in> set catches. B = lb_symbol_id ` set_option (catch_error_binding c) \<and> b = catch_statements c")
    case True
    then obtain c where c: "c \<in> set catches" "B = lb_symbol_id ` set_option (catch_error_binding c)"
      "b = catch_statements c" by blast
    have "fst (catch_symbols sid c syms) = []"
      using assms(1) TryStatement c(1)
      by (auto simp: try_plan_def clean_map case_prod_unfold Let_def dest!: bspec)
    from catch_symbols_ok [OF this] show ?thesis
      using TryStatement c by (auto simp: try_plan_def case_prod_unfold Let_def intro!: rev_image_eqI [of c])
  next
    case False
    with assms(2) TryStatement show ?thesis by (auto simp: try_plan_def)
  qed
qed (use assms in \<open>auto simp: if_plan_def scope_plan_def case_prod_unfold image_iff\<close>)

lemma statement_plan_jump:
  assumes "clean (segments_of E R depth syms s)" "is_jump s"
  shows "0 < depth"
  using assms by (cases s) (simp_all add: flow_plan_def)

lemma block_diagnostics_clean:
  assumes "block_diagnostics E R depth syms (s # rest) = []"
  shows "clean (segments_of E R depth syms s)"
    and "(ds, d, y, b) \<in> set (segments_of E R depth syms s) \<Longrightarrow> block_diagnostics E R d y b = []"
    and "block_diagnostics E R depth (snd (statement_plan E R depth syms s)) rest = []"
  using assms by (auto simp: block_diagnostics_Cons clean_def)

lemma block_definitely_assigned:
  "block_diagnostics E R depth syms b = [] \<Longrightarrow> definitely_assigned (dom syms) b"
proof (induction b arbitrary: depth syms rule: forest_induct)
  case Nil
  then show ?case by simp
next
  case (Cons s rest)
  note plan = block_diagnostics_clean [OF Cons.prems]
  have "definitely_assigned (dom syms \<union> B) b" if "(B, b) \<in> set (block_scopes s)" for B b
    using statement_plan_scopes [OF plan(1) that] plan(2) Cons.IH(1) [OF block_scopes_child [OF that]]
    by metis
  moreover have "definitely_assigned (dom syms \<union> statement_writes s) rest"
    using Cons.IH(2) [OF plan(3)] statement_plan_writes [OF plan(1)] by simp
  moreover have "value_reads v \<subseteq> dom syms \<union> B" if "(B, v) \<in> set (value_scopes s)" for B v
    using statement_plan_values [OF plan(1) that] .
  ultimately show ?case by (simp add: case_prod_unfold)
qed

lemma block_jumps_in_loops:
  "block_diagnostics E R depth syms b = [] \<Longrightarrow> jumps_in_loops (0 < depth) b"
proof (induction b arbitrary: depth syms rule: forest_induct)
  case Nil
  then show ?case by simp
next
  case (Cons s rest)
  note plan = block_diagnostics_clean [OF Cons.prems]
  have "jumps_in_loops (0 < depth \<or> is_loop s) b" if "b \<in> set (statement_child_blocks s)" for b
  proof -
    from that obtain B where "(B, b) \<in> set (block_scopes s)"
      by (auto simp flip: block_scopes_blocks)
    then obtain ds y where "(ds, if is_loop s then Suc depth else depth, y, b) \<in> set (segments_of E R depth syms s)"
      using statement_plan_scopes [OF plan(1)] by blast
    from Cons.IH(1) [OF that plan(2) [OF this]] show ?thesis by (cases "is_loop s") simp_all
  qed
  moreover have "jumps_in_loops (0 < depth) rest" using Cons.IH(2) [OF plan(3)] .
  ultimately show ?case using statement_plan_jump [OF plan(1)] by auto
qed

section \<open>Documents\<close>

definition parameter_symbols :: "program_document \<Rightarrow> stable_id set" where
  "parameter_symbols d = set (map pp_symbol_id (fn_parameters (doc_function d)))"

lemma dom_initial_symbols: "dom (initial_symbols d) = parameter_symbols d"
  by (simp add: initial_symbols_def parameter_symbols_def dom_map_of_conv_image_fst comp_def
    image_image del: map_map)

lemma document_block_clean:
  "validate_program_document E d = [] \<Longrightarrow>
     block_diagnostics E (fn_return_type (doc_function d)) 0 (initial_symbols d) (doc_statements d) = []"
  by (simp add: validate_program_document_def)

end
