(* ===== verification/Draft_Validation.thy ===== *)
theory Draft_Validation
  imports Program_Clipboard Scope_Soundness
begin

text \<open>
  A command validates against the linked registry or against none. What passes linked, the
  missing author reviews aside, passes unlinked without exception; so every document a
  command returns satisfies one invariant, and the static guarantees of
  \<^verbatim>\<open>Scope_Soundness\<close> hold for it.
\<close>

section \<open>Values do not depend on the registry\<close>

lemma node_diagnostics_unlinked: "node_diagnostics (unlinked E) sid v = node_diagnostics E sid v"
  by (cases v) (simp_all add: member_diagnostics_def record_diagnostics_def operation_diagnostics_def
    split: option.splits operation_state.splits)

lemma validate_value_unlinked_at:
  "validate_value (unlinked E) sid a ex syms v = validate_value E sid a ex syms v"
proof (induction E sid a ex syms v rule: validate_value.induct)
  case (1 E sid a ex syms v)
  have "map (\<lambda>(a, e, y, c). validate_value (unlinked E) sid a e y c) (child_contexts syms v) =
    map (\<lambda>(a, e, y, c). validate_value E sid a e y c) (child_contexts syms v)"
    using 1 by (auto intro!: map_cong)
  then show ?case
    by (simp only: validate_value.simps [of E sid a ex syms v]
        validate_value.simps [of "unlinked E" sid a ex syms v] node_diagnostics_unlinked)
qed

lemma validate_value_unlinked [simp]: "validate_value (unlinked E) = validate_value E"
  by (intro ext) (rule validate_value_unlinked_at)

lemma in_emit [simp]: "x \<in> set (emit b c s i) \<longleftrightarrow> b \<and> x = \<lparr>dg_code = c, dg_statement_id = s, dg_value_id = i\<rparr>"
  by (auto simp: emit_def)

lemma emit_False [simp]: "emit False c s i = []"
  by (simp add: emit_def)

definition lasting :: "diagnostic list \<Rightarrow> bool" where
  "lasting ds \<longleftrightarrow> (\<forall>x \<in> set ds. dg_code x \<notin> draft_codes)"

lemma lasting_simps [simp]:
  "lasting []"
  "lasting (xs @ ys) \<longleftrightarrow> lasting xs \<and> lasting ys"
  "lasting (concat xss) \<longleftrightarrow> (\<forall>xs \<in> set xss. lasting xs)"
  "lasting (emit b c s i) \<longleftrightarrow> b \<longrightarrow> c \<notin> draft_codes"
  by (auto simp: lasting_def)

lemma reference_diagnostics_lasting: "lasting (reference_diagnostics sid a syms v)"
  by (cases v) (simp_all add: draft_codes_def split: option.splits)

lemma node_diagnostics_lasting: "lasting (node_diagnostics E sid v)"
  by (cases v) (auto simp: draft_codes_def member_diagnostics_def record_diagnostics_def list_diagnostics_def
    map_diagnostics_def operation_diagnostics_def comparison_diagnostics_def condition_diagnostics_def Let_def
    split: option.splits operation_state.splits)

lemma validate_value_lasting: "lasting (validate_value E sid a ex syms v)"
proof (induction E sid a ex syms v rule: validate_value.induct)
  case (1 E sid a ex syms v)
  then show ?case
    by (subst validate_value.simps)
      (auto simp: reference_diagnostics_lasting node_diagnostics_lasting draft_codes_def split: option.splits)
qed

section \<open>Statements\<close>

text \<open>Unlinked, a statement has the same segments with some of the lasting diagnostics.\<close>

definition weaker :: "diagnostic list \<Rightarrow> diagnostic list \<Rightarrow> bool" where
  "weaker ds' ds \<longleftrightarrow> set ds' \<subseteq> set ds \<and> lasting ds'"

lemma weaker_simps [simp]:
  "weaker [] ds"
  "lasting ds \<Longrightarrow> weaker ds ds"
  by (simp_all add: weaker_def)

lemma weaker_filter: "weaker xs ys \<Longrightarrow> filter (\<lambda>x. dg_code x \<notin> draft_codes) ys = [] \<Longrightarrow> xs = []"
  by (cases xs) (auto simp: weaker_def lasting_def filter_empty_conv)

lemma weaker_append: "weaker xs' xs \<Longrightarrow> weaker ys' ys \<Longrightarrow> weaker (xs' @ ys') (xs @ ys)"
  by (auto simp: weaker_def)

lemma weaker_around: "weaker ys' ys \<Longrightarrow> lasting zs \<Longrightarrow> weaker (ys' @ zs) (xs @ ys @ us @ zs)"
  by (auto simp: weaker_def)

lemma weaker_same: "lasting xs \<Longrightarrow> weaker zs' zs \<Longrightarrow> weaker (xs @ zs') (xs @ zs)"
  by (auto simp: weaker_def)

lemma weaker_into: "weaker xs' xs \<Longrightarrow> weaker xs' (ys @ xs)" "weaker xs' xs \<Longrightarrow> weaker xs' (xs @ ys)"
  by (auto simp: weaker_def)

lemma weaker_concat:
  "(\<And>x. x \<in> set xs \<Longrightarrow> weaker (f x) (g x)) \<Longrightarrow> weaker (concat (map f xs)) (concat (map g xs))"
  by (induction xs) (auto intro: weaker_append)

fun segment_weaker :: "segment \<Rightarrow> segment \<Rightarrow> bool" where
  "segment_weaker (ds', r') (ds, r) \<longleftrightarrow> r' = r \<and> weaker ds' ds"

lemma get_contract_unlinked [simp]: "get_contract (unlinked E) f = None"
  by (simp add: get_contract_def)

lemma retry_side_effects_unlinked [simp]: "\<not> retry_body_has_side_effects (unlinked E) body"
  by (simp add: retry_body_has_side_effects_def)

lemma argument_root_weaker:
  "weaker (validate_root E sid (map_option pc_value_type (argument_parameter None p)) syms v)
     (validate_root E sid ex syms v)"
  by (auto simp: weaker_def validate_value_lasting argument_parameter_def
      validate_value.simps [of E sid False _ syms v] reference_diagnostics_lasting node_diagnostics_lasting)

lemma declare_symbol_lasting: "lasting (fst (declare_symbol sid s t syms))"
  by (auto simp: declare_symbol_def draft_codes_def split: option.splits)

lemma require_target_lasting: "lasting (fst (require_assignment_target sid s t d syms))"
  by (auto simp: require_assignment_target_def declare_symbol_lasting draft_codes_def split: option.splits)

lemma checked_binding_lasting: "code \<notin> draft_codes \<Longrightarrow> lasting (fst (checked_binding code w sid b syms))"
  by (simp add: checked_binding_def declare_binding_def Let_def case_prod_unfold declare_symbol_lasting)

lemma loop_symbols_lasting: "lasting (fst (loop_symbols m sid source item idx key val syms))"
  by (cases m) (auto simp: loop_symbols_def for_each_symbols_def for_each_map_symbols_def Let_def
    case_prod_unfold checked_binding_lasting draft_codes_def split: option.splits)

lemma catch_symbols_lasting: "lasting (fst (catch_symbols sid c syms))"
  by (auto simp: catch_symbols_def checked_binding_lasting draft_codes_def split: option.splits)

lemma call_plan_unlinked:
  "list_all2 segment_weaker (fst (call_plan (unlinked E) syms sid f args rb review))
     (fst (call_plan E syms sid f args rb review)) \<and>
   snd (call_plan (unlinked E) syms sid f args rb review) = snd (call_plan E syms sid f args rb review)"
proof -
  let ?c = "get_contract E f"
  have "weaker (concat (map (\<lambda>(p, v). validate_root E sid (map_option pc_value_type (argument_parameter None p)) syms v @
        choice_diagnostics sid (argument_parameter None p) v) args))
      (concat (map (\<lambda>(p, v). validate_root E sid (map_option pc_value_type (argument_parameter ?c p)) syms v @
        choice_diagnostics sid (argument_parameter ?c p) v) args))"
    by (intro weaker_concat)
      (auto simp: argument_parameter_def [of None] intro!: weaker_into(2)
        argument_root_weaker [unfolded argument_parameter_def, simplified])
  then show ?thesis
    by (cases rb)
      (simp_all add: call_plan_def Let_def case_prod_unfold result_binding_diagnostics_def [of _ None]
        require_target_lasting weaker_into weaker_around del: append_assoc)
qed

lemma listen_plan_unlinked:
  "list_all2 segment_weaker (listen_plan (unlinked E) syms sid src rb c h args) (listen_plan E syms sid src rb c h args)"
proof -
  let ?s = "syms(lb_symbol_id rb \<mapsto> lb_value_type rb)"
  define V' where "V' = concat (map (\<lambda>(p, v).
    validate_root E sid (map_option pc_value_type (argument_parameter None p)) ?s v) args)"
  define V where "V = concat (map (\<lambda>(p, v).
    validate_root E sid (map_option pc_value_type (argument_parameter (get_contract E h) p)) ?s v) args)"
  have V: "weaker V' V"
    unfolding V_def V'_def by (intro weaker_concat) (auto intro: argument_root_weaker)
  have "listen_plan (unlinked E) syms sid src rb c h args = leaf
      (validate_root E sid (Some ''string'') syms (es_name src) @
       (case es_sender src of None \<Rightarrow> [] | Some v \<Rightarrow> validate_root E sid (Some ''instance_ref'') syms v) @
       (case c of None \<Rightarrow> [] | Some v \<Rightarrow> validate_root E sid (Some ''bool'') syms v) @
       emit (lb_value_type rb \<noteq> ''received_message'') ''PGM-LISTEN-001'' sid [] @ V')"
    unfolding listen_plan_def V'_def validate_value_unlinked get_contract_unlinked by simp
  moreover obtain K where "listen_plan E syms sid src rb c h args = leaf
      (validate_root E sid (Some ''string'') syms (es_name src) @
       (case es_sender src of None \<Rightarrow> [] | Some v \<Rightarrow> validate_root E sid (Some ''instance_ref'') syms v) @
       (case c of None \<Rightarrow> [] | Some v \<Rightarrow> validate_root E sid (Some ''bool'') syms v) @
       emit (lb_value_type rb \<noteq> ''received_message'') ''PGM-LISTEN-001'' sid [] @ K @ V)"
    unfolding listen_plan_def V_def by (simp add: Let_def)
  moreover have "weaker V' (K @ V)" using V by (rule weaker_into)
  ultimately show ?thesis
    by (auto intro!: weaker_same simp: validate_value_lasting draft_codes_def split: option.splits)
qed

lemma statement_plan_unlinked:
  "list_all2 segment_weaker (segments_of (unlinked E) R depth syms s) (segments_of E R depth syms s) \<and>
   snd (statement_plan (unlinked E) R depth syms s) = snd (statement_plan E R depth syms s)"
proof (cases s)
  case (CallStatement sid f args rb review l)
  then show ?thesis by (simp add: call_plan_unlinked)
next
  case (AssignmentStatement sid t v l)
  then show ?thesis
    by (cases t) (simp_all add: Let_def case_prod_unfold validate_value_lasting require_target_lasting)
next
  case (ListenStatement sid src rb c h args l)
  then show ?thesis by (simp add: listen_plan_unlinked)
next
  case (TryStatement sid body policy catches fin l)
  then show ?thesis
    by (auto simp: try_plan_def retry_diagnostics_def list_all2_appendI list_all2_map1 list_all2_map2 Let_def
      case_prod_unfold catch_symbols_lasting validate_value_lasting draft_codes_def weaker_def
      intro!: list_all2_appendI list.rel_refl_strong split: option.splits)
qed (auto simp: if_plan_def loop_plan_def flow_plan_def return_plan_def fail_plan_def scope_plan_def
    validate_value_lasting loop_symbols_lasting Let_def case_prod_unfold list_all2_map1 list_all2_map2
    draft_codes_def intro!: list_all2_appendI list.rel_refl_strong split: option.splits)

section \<open>Blocks and documents\<close>

lemma block_diagnostics_simps:
  "block_diagnostics E R depth syms (s # rest) =
     concat (map (\<lambda>(ds, d, y, b). ds @ block_diagnostics E R d y b) (segments_of E R depth syms s)) @
     block_diagnostics E R depth (snd (statement_plan E R depth syms s)) rest"
  by (simp add: validate_block.simps Let_def case_prod_unfold)

lemma weaker_concat2:
  "list_all2 (\<lambda>x y. weaker (f x) (g y)) xs ys \<Longrightarrow> weaker (concat (map f xs)) (concat (map g ys))"
  by (induction xs ys rule: list_all2_induct) (auto intro: weaker_append)

lemma block_unlinked:
  "weaker (block_diagnostics (unlinked E) R depth syms b) (block_diagnostics E R depth syms b)"
proof (induction b arbitrary: depth syms rule: forest_induct)
  case Nil
  then show ?case by simp
next
  case (Cons s rest)
  note plan = statement_plan_unlinked [of E R depth syms s]
  have "list_all2 (\<lambda>(ds', d', y', b') (ds, d, y, b).
      weaker (ds' @ block_diagnostics (unlinked E) R d' y' b') (ds @ block_diagnostics E R d y b))
      (segments_of (unlinked E) R depth syms s) (segments_of E R depth syms s)"
  proof (rule list.rel_mono_strong [OF conjunct1 [OF plan]])
    fix x y
    assume "y \<in> set (segments_of E R depth syms s)" "segment_weaker x y"
    moreover obtain ds d t b where y: "y = (ds, d, t, b)" by (cases y)
    moreover obtain ds' where x: "x = (ds', d, t, b)" using \<open>segment_weaker x y\<close> y by (cases x) auto
    moreover have "weaker (block_diagnostics (unlinked E) R d t b) (block_diagnostics E R d t b)"
      using statement_plan_blocks [of ds d t b E R depth syms s] calculation(1) Cons.IH(1) y by auto
    ultimately show "(\<lambda>(ds', d', y', b') (ds, d, y, b).
        weaker (ds' @ block_diagnostics (unlinked E) R d' y' b') (ds @ block_diagnostics E R d y b)) x y"
      by (auto intro: weaker_append)
  qed
  then have "weaker (concat (map (\<lambda>(ds, d, y, b). ds @ block_diagnostics (unlinked E) R d y b) (segments_of (unlinked E) R depth syms s)))
      (concat (map (\<lambda>(ds, d, y, b). ds @ block_diagnostics E R d y b) (segments_of E R depth syms s)))"
    by (intro weaker_concat2) (auto elim!: list.rel_mono_strong)
  then show ?case
    unfolding block_diagnostics_simps conjunct2 [OF plan] by (intro weaker_append Cons.IH(2))
qed

text \<open>A draft: what every successful command leaves behind, whatever registry it used.\<close>

definition draft_ok :: "validation_env \<Rightarrow> program_document \<Rightarrow> bool" where
  "draft_ok E d \<longleftrightarrow>
     model_validate d \<and> validate_program_document (unlinked (E\<lparr>ve_require_configured := False\<rparr>)) d = []"

lemma draft_diagnostics_unlinked:
  assumes "draft_diagnostics E d = []"
  shows "validate_program_document (unlinked (E\<lparr>ve_require_configured := False\<rparr>)) d = []"
proof -
  let ?E = "E\<lparr>ve_require_configured := False\<rparr>"
  have "weaker (validate_program_document (unlinked ?E) d) (validate_program_document ?E d)"
    unfolding validate_program_document_def default_diagnostics_def
    by (intro weaker_append block_unlinked weaker_concat)
      (auto simp: validate_value_lasting split: option.splits)
  then show ?thesis using assms unfolding draft_diagnostics_def by (rule weaker_filter)
qed

lemma validate_command_result_ok:
  assumes "validate_command_result E d = Inr d'"
  shows "d' = d" "draft_ok E d"
  using assms draft_diagnostics_unlinked [of E d]
  by (auto simp: validate_command_result_def draft_ok_def Let_def split: if_splits)

lemma draft_ok_unlinked [simp]: "draft_ok (unlinked E) d = draft_ok E d"
  by (simp add: draft_ok_def)

lemma finish_edit_ok:
  assumes "finish_edit E d ss sel created = Inr r"
  shows "er_document r = doc_set_statements ss d" "draft_ok E (er_document r)"
    "er_selected r = sel" "er_created r = created"
  using assms validate_command_result_ok [of E "doc_set_statements ss d"]
  by (auto simp: finish_edit_def rbind_Inr_iff)

lemma draft_ok_definitely_assigned:
  "draft_ok E d \<Longrightarrow> definitely_assigned (parameter_symbols d) (doc_statements d)"
  using block_definitely_assigned [OF document_block_clean]
  by (auto simp: draft_ok_def dom_initial_symbols [symmetric])

lemma draft_ok_jumps: "draft_ok E d \<Longrightarrow> jumps_in_loops False (doc_statements d)"
  using block_jumps_in_loops [OF document_block_clean] by (fastforce simp: draft_ok_def)

end
