(* ===== verification/Command_Properties.thy ===== *)
theory Command_Properties
  imports Draft_Validation
begin

text \<open>
  What the structural commands guarantee: every result is a draft, nothing is lost or
  duplicated by an insertion, a move or a deletion, and a deletion undoes an insertion.
\<close>

section \<open>Every result is a draft\<close>

definition validated :: "validation_env \<Rightarrow> program_document \<Rightarrow> command_error + edit_result \<Rightarrow> bool" where
  "validated E d res \<longleftrightarrow> (\<forall>r. res = Inr r \<longrightarrow> er_document r = d \<or> draft_ok E (er_document r))"

lemma validated_intros [safe_intros]:
  "validated E d (Inl e)"
  "validated E d (unchanged d sid)"
  "validated E d (finish_edit E d ss sel created)"
  "validated E d (finish_edit (unlinked E) d ss sel created)"
  "(\<And>x. validated E d (f x)) \<Longrightarrow> validated E d (rbind m f)"
  "(b \<Longrightarrow> validated E d r1) \<Longrightarrow> (\<not> b \<Longrightarrow> validated E d r2) \<Longrightarrow> validated E d (if b then r1 else r2)"
  "(\<And>x y. validated E d (g x y)) \<Longrightarrow> validated E d (case p of (x, y) \<Rightarrow> g x y)"
  "validated E d r1 \<Longrightarrow> (\<And>x. validated E d (h x)) \<Longrightarrow> validated E d (case z of None \<Rightarrow> r1 | Some x \<Rightarrow> h x)"
  using finish_edit_ok(2) [of E d ss sel created] finish_edit_ok(2) [of "unlinked E" d ss sel created]
  by (auto simp: validated_def unchanged_def rbind_Inr_iff split: option.splits prod.splits)

lemma validated_update [safe_intros]:
  "validated E d (update_statement E d sid kind g)"
  "validated E d (update_statement (unlinked E) d sid kind g)"
  unfolding update_statement_def by (intro safe_intros)+

lemma validated_insert [safe_intros]:
  "validated E d (insert_structured_statement E d s loc)"
  "validated E d (insert_structured_statement (unlinked E) d s loc)"
  unfolding insert_structured_statement_def by (intro safe_intros)+

lemma validated_insert_call [safe_intros]: "validated E d (insert_call uuid E d f loc args)"
  unfolding insert_call_def Let_def by (intro safe_intros)

lemma validated_insert_if_result [safe_intros]:
  "validated E d (insert_if_from_call_result uuid E d sid name)"
  unfolding insert_if_from_call_result_def Let_def
  by (intro safe_intros) (auto split: statement.splits intro!: safe_intros)

lemma validated_set_label [safe_intros]: "validated E d (set_step_label E d sid label)"
  unfolding set_step_label_def Let_def by (intro safe_intros)

lemma validated_moves [safe_intros]:
  "validated E d (move_statement E d sid loc)"
  "validated E d (move_statements E d ids loc)"
  "validated E d (delete_statement E d sid)"
  "validated E d (delete_statements E d ids)"
  unfolding move_statement_def move_statements_def delete_statement_def delete_statements_def Let_def
  by (intro safe_intros)+

lemma validated_copies [safe_intros]:
  "validated E d (copy_statement D uuid E d sid loc)"
  "validated E d (paste_statements D uuid E d payloads loc)"
  unfolding copy_statement_def paste_statements_def insert_copies_at_def by (intro safe_intros)+

section \<open>The editor as a transition system\<close>

text \<open>One step is one successful command, its registry and identifier supply chosen freely.\<close>

inductive edits :: "validation_env \<Rightarrow> program_document \<Rightarrow> program_document \<Rightarrow> bool" for E d where
  edit_insert_call: "insert_call uuid E d f loc args = Inr r \<Longrightarrow> edits E d (er_document r)"
| edit_insert_assignment: "insert_assignment uuid E d target v loc = Inr r \<Longrightarrow> edits E d (er_document r)"
| edit_insert_if: "insert_if uuid E d v loc = Inr r \<Longrightarrow> edits E d (er_document r)"
| edit_insert_if_from_call_result: "insert_if_from_call_result uuid E d sid name = Inr r \<Longrightarrow> edits E d (er_document r)"
| edit_insert_loop: "insert_loop uuid E d m v item idx key val loc = Inr r \<Longrightarrow> edits E d (er_document r)"
| edit_insert_break: "insert_break uuid E d loc = Inr r \<Longrightarrow> edits E d (er_document r)"
| edit_insert_continue: "insert_continue uuid E d loc = Inr r \<Longrightarrow> edits E d (er_document r)"
| edit_insert_return: "insert_return uuid E d ov loc = Inr r \<Longrightarrow> edits E d (er_document r)"
| edit_insert_fail: "insert_fail uuid E d f v ov loc = Inr r \<Longrightarrow> edits E d (er_document r)"
| edit_insert_try: "insert_try uuid E d policy catches loc = Inr r \<Longrightarrow> edits E d (er_document r)"
| edit_insert_target_scope: "insert_target_scope uuid E d v loc = Inr r \<Longrightarrow> edits E d (er_document r)"
| edit_insert_listen: "insert_listen uuid E d src rb f ov args loc = Inr r \<Longrightarrow> edits E d (er_document r)"
| edit_add_if_branch: "add_if_branch uuid E d sid v = Inr r \<Longrightarrow> edits E d (er_document r)"
| edit_remove_if_branch: "remove_if_branch E d sid f = Inr r \<Longrightarrow> edits E d (er_document r)"
| edit_add_catch_clause: "add_catch_clause uuid E d sid fs item = Inr r \<Longrightarrow> edits E d (er_document r)"
| edit_update_call_argument: "update_call_argument E d sid f v = Inr r \<Longrightarrow> edits E d (er_document r)"
| edit_repair_missing_call_arguments: "repair_missing_call_arguments uuid E d sid = Inr r \<Longrightarrow> edits E d (er_document r)"
| edit_update_assignment_value: "update_assignment_value E d sid v = Inr r \<Longrightarrow> edits E d (er_document r)"
| edit_update_assignment_target: "update_assignment_target E d sid target ov = Inr r \<Longrightarrow> edits E d (er_document r)"
| edit_update_if_condition: "update_if_condition E d sid v branch = Inr r \<Longrightarrow> edits E d (er_document r)"
| edit_update_loop: "update_loop E d sid m v item idx key val = Inr r \<Longrightarrow> edits E d (er_document r)"
| edit_update_return_value: "update_return_value E d sid ov = Inr r \<Longrightarrow> edits E d (er_document r)"
| edit_update_fail: "update_fail E d sid f v ov = Inr r \<Longrightarrow> edits E d (er_document r)"
| edit_update_try_retry_policy: "update_try_retry_policy E d sid policy = Inr r \<Longrightarrow> edits E d (er_document r)"
| edit_review_retry_risk: "review_retry_risk E d sid = Inr r \<Longrightarrow> edits E d (er_document r)"
| edit_review_dangerous_call: "review_dangerous_call E d sid = Inr r \<Longrightarrow> edits E d (er_document r)"
| edit_update_catch_clause: "update_catch_clause E d sid f fs item = Inr r \<Longrightarrow> edits E d (er_document r)"
| edit_update_target_scope: "update_target_scope E d sid v = Inr r \<Longrightarrow> edits E d (er_document r)"
| edit_update_listen: "update_listen E d sid src rb f ov args = Inr r \<Longrightarrow> edits E d (er_document r)"
| edit_set_result_binding: "set_result_binding E d sid binding = Inr r \<Longrightarrow> edits E d (er_document r)"
| edit_set_step_label: "set_step_label E d sid name = Inr r \<Longrightarrow> edits E d (er_document r)"
| edit_copy_statement: "copy_statement D uuid E d sid loc = Inr r \<Longrightarrow> edits E d (er_document r)"
| edit_paste_statements: "paste_statements D uuid E d payloads loc = Inr r \<Longrightarrow> edits E d (er_document r)"
| edit_move_statement: "move_statement E d sid loc = Inr r \<Longrightarrow> edits E d (er_document r)"
| edit_move_statements: "move_statements E d fs loc = Inr r \<Longrightarrow> edits E d (er_document r)"
| edit_delete_statement: "delete_statement E d sid = Inr r \<Longrightarrow> edits E d (er_document r)"
| edit_delete_statements: "delete_statements E d fs = Inr r \<Longrightarrow> edits E d (er_document r)"

lemmas command_defs =
    insert_assignment_def insert_if_def insert_loop_def insert_break_def insert_continue_def
    insert_return_def insert_fail_def insert_try_def insert_target_scope_def insert_listen_def
    add_if_branch_def remove_if_branch_def add_catch_clause_def update_call_argument_def
    repair_missing_call_arguments_def update_assignment_value_def update_assignment_target_def
    update_if_condition_def update_loop_def update_return_value_def update_fail_def
    update_try_retry_policy_def review_retry_risk_def review_dangerous_call_def
    update_catch_clause_def update_target_scope_def update_listen_def set_result_binding_def

lemma validated_commands [safe_intros]:
  "validated E d (insert_assignment uuid E d target v loc)"
  "validated E d (insert_if uuid E d v loc)"
  "validated E d (insert_loop uuid E d m v item idx key val loc)"
  "validated E d (insert_break uuid E d loc)"
  "validated E d (insert_continue uuid E d loc)"
  "validated E d (insert_return uuid E d ov loc)"
  "validated E d (insert_fail uuid E d f v ov loc)"
  "validated E d (insert_try uuid E d policy catches loc)"
  "validated E d (insert_target_scope uuid E d v loc)"
  "validated E d (insert_listen uuid E d src rb f ov args loc)"
  "validated E d (add_if_branch uuid E d sid v)"
  "validated E d (remove_if_branch E d sid f)"
  "validated E d (add_catch_clause uuid E d sid fs item)"
  "validated E d (update_call_argument E d sid f v)"
  "validated E d (repair_missing_call_arguments uuid E d sid)"
  "validated E d (update_assignment_value E d sid v)"
  "validated E d (update_assignment_target E d sid target ov)"
  "validated E d (update_if_condition E d sid v branch)"
  "validated E d (update_loop E d sid m v item idx key val)"
  "validated E d (update_return_value E d sid ov)"
  "validated E d (update_fail E d sid f v ov)"
  "validated E d (update_try_retry_policy E d sid policy)"
  "validated E d (review_retry_risk E d sid)"
  "validated E d (review_dangerous_call E d sid)"
  "validated E d (update_catch_clause E d sid f fs item)"
  "validated E d (update_target_scope E d sid v)"
  "validated E d (update_listen E d sid src rb f ov args)"
  "validated E d (set_result_binding E d sid binding)"
  unfolding command_defs by (intro safe_intros)+

lemma validatedD: "res = Inr r \<Longrightarrow> validated E d res \<Longrightarrow> er_document r = d \<or> draft_ok E (er_document r)"
  by (simp add: validated_def)

lemma edits_draft:
  assumes "edits E d d'"
  shows "d' = d \<or> draft_ok E d'"
  using assms by cases (hypsubst, erule validatedD, rule safe_intros)+

lemma edits_reachable_draft: "(edits E)\<^sup>*\<^sup>* d d' \<Longrightarrow> draft_ok E d \<Longrightarrow> draft_ok E d'"
  by (induction rule: rtranclp_induct) (auto dest: edits_draft)

section \<open>Nothing lost, nothing duplicated\<close>

lemma insert_statements_shells:
  assumes "insert_statements ss new loc = Inr ss'"
  shows "shells ss' = shells ss + shells new"
proof -
  from assms obtain p b i where p: "block_at p ss = Some b" and ss': "ss' = update_block p (splice i new) ss"
    by (auto simp: insert_statements_def rbind_Inr_iff split: option.splits)
  have "shells (splice i new b) = shells b + shells new"
    by (metis (no_types) add.assoc add.commute append_take_drop_id shells_append splice_def)
  then show ?thesis using shells_update_block [OF p, of "splice i new"] ss' by simp
qed

lemma shells_delete_at:
  assumes "i < length b"
  shows "shells (delete_at i b) + shells [b ! i] = shells b"
proof -
  have "shells b = shells (take i b @ [b ! i] @ drop (Suc i) b)"
    using id_take_nth_drop [OF assms] by simp
  also have "\<dots> = shells (delete_at i b) + shells [b ! i]"
    by (simp only: shells_append delete_at_def ac_simps)
  finally show ?thesis by simp
qed

lemma shells_update_less:
  assumes "block_at p ss = Some b" "shells (f b) + m = shells b"
  shows "shells (update_block p f ss) + m = shells ss"
proof -
  have "count (shells (update_block p f ss) + m) x = count (shells ss) x" for x
    using arg_cong [OF shells_update_block [OF assms(1), of f], of "\<lambda>m. count m x"]
      arg_cong [OF assms(2), of "\<lambda>m. count m x"]
    unfolding count_union by linarith
  then show ?thesis by (simp add: multiset_eq_iff)
qed

lemma pop_statement_shells:
  assumes "cursor_in c ss"
  shows "shells (pop_statement c ss) + shells [cu_statement c] = shells ss"
proof -
  from assms obtain b where b: "block_at (cu_path c) ss = Some b" "cu_index c < length b" "b ! cu_index c = cu_statement c"
    by (auto simp: cursor_in_def)
  with shells_delete_at [of "cu_index c" b] show ?thesis
    unfolding pop_statement_def by (intro shells_update_less [OF b(1)]) (simp only:)
qed

lemma require_statement_sound:
  "require_statement ss sid = Inr c \<Longrightarrow> cursor_in c ss \<and> statement_id (cu_statement c) = sid"
  by (auto simp: require_statement_def dest: find_statement_sound)

lemma delete_fold:
  "sorted_wrt (<) is \<Longrightarrow> (\<forall>i \<in> set is. i < length b) \<Longrightarrow>
     shells (fold delete_at (rev is) b) + shells (map ((!) b) is) = shells b \<and>
     (\<forall>j. (\<forall>i \<in> set is. j < i) \<longrightarrow> j < length b \<longrightarrow>
        j < length (fold delete_at (rev is) b) \<and> fold delete_at (rev is) b ! j = b ! j)"
proof (induction "is")
  case (Cons i "is")
  let ?b = "fold delete_at (rev is) b"
  have IH: "shells ?b + shells (map ((!) b) is) = shells b"
    "\<And>j. (\<forall>i \<in> set is. j < i) \<Longrightarrow> j < length b \<Longrightarrow> j < length ?b \<and> ?b ! j = b ! j"
    using Cons by auto
  have i: "i < length ?b" "?b ! i = b ! i" using IH(2) [of i] Cons.prems by auto
  have "shells ?b = shells (delete_at i ?b) + shells [b ! i]"
    using shells_delete_at [OF i(1)] i(2) by simp
  moreover have "shells (map ((!) b) (i # is)) = shells [b ! i] + shells (map ((!) b) is)"
    using shells_append [of "[b ! i]" "map ((!) b) is"] by simp
  ultimately have "shells (delete_at i ?b) + shells (map ((!) b) (i # is)) = shells b"
    using IH(1) by (simp add: ac_simps)
  moreover have "j < length (delete_at i ?b) \<and> delete_at i ?b ! j = b ! j" if "j < i" "\<forall>i \<in> set is. j < i" "j < length b" for j
    using IH(2) [OF that(2,3)] that(1) i(1) by (simp add: delete_at_def nth_append)
  ultimately show ?case by simp
qed simp

lemma selection_cursors_sound:
  assumes "selection_cursors ss ids = Inr cs"
  obtains b where "cs \<noteq> []" "block_at (cu_path (hd cs)) ss = Some b" "sorted_wrt (<) (map cu_index cs)"
    "\<forall>c \<in> set cs. cu_index c < length b \<and> b ! cu_index c = cu_statement c"
    "set (map (statement_id \<circ> cu_statement) cs) = set ids"
proof -
  from assms obtain us where ids: "ids \<noteq> []" and us: "rmap (require_statement ss) (unique_ids ids) = Inr us"
    and same: "\<forall>c \<in> set us. cu_path c = cu_path (hd us)" and cs: "cs = sort_key cu_index us"
    by (auto simp: selection_cursors_def rbind_Inr_iff list_all_iff split: if_splits)
  have all2: "list_all2 (\<lambda>i c. require_statement ss i = Inr c) (unique_ids ids) us"
    using us by (simp add: rmap_Inr_all2)
  have sound: "cursor_in c ss" if "c \<in> set us" for c
    using all2 that by (auto simp: list_all2_conv_all_nth in_set_conv_nth dest: require_statement_sound)
  have sids: "map (statement_id \<circ> cu_statement) us = unique_ids ids"
    using all2 by (induction rule: list_all2_induct) (auto dest: require_statement_sound)
  have "us \<noteq> []" using ids sids by (auto simp: unique_ids_def)
  obtain b where b: "block_at (cu_path (hd us)) ss = Some b"
    using sound [OF hd_in_set [OF \<open>us \<noteq> []\<close>]] by (auto simp: cursor_in_def)
  have in_b: "cu_index c < length b \<and> b ! cu_index c = cu_statement c" if "c \<in> set us" for c
    using sound [OF that] same that b by (auto simp: cursor_in_def)
  have "distinct (map (statement_id \<circ> cu_statement) us)"
    unfolding sids by (simp add: unique_ids_def)
  moreover have "map (statement_id \<circ> cu_statement) us = map (\<lambda>i. statement_id (b ! i)) (map cu_index us)"
    using in_b by simp
  ultimately have "distinct (map (\<lambda>i. statement_id (b ! i)) (map cu_index us))" by metis
  then have "distinct (map cu_index us)" by (simp only: distinct_map)
  then have "distinct (map cu_index cs)" unfolding cs by (metis distinct_map mset_map mset_sort set_sort distinct_sort mset_eq_imp_distinct_iff)
  moreover have "sorted (map cu_index cs)" unfolding cs by simp
  ultimately have "sorted_wrt (<) (map cu_index cs)" by (simp add: strict_sorted_iff)
  moreover have set: "set cs = set us" using cs by simp
  moreover from this \<open>us \<noteq> []\<close> have "cs \<noteq> []" by auto
  moreover from this have "hd cs \<in> set us" using hd_in_set set by blast
  moreover have "set (map (statement_id \<circ> cu_statement) us) = set ids"
    unfolding sids by (simp add: unique_ids_def)
  ultimately show thesis using that [of b] b same in_b by auto
qed

lemma pop_selection_shells:
  assumes "selection_cursors ss ids = Inr cs"
  shows "shells (pop_selection cs ss) + shells (map cu_statement cs) = shells ss"
proof -
  obtain b where b: "block_at (cu_path (hd cs)) ss = Some b" and s: "sorted_wrt (<) (map cu_index cs)"
    and in_b: "\<forall>c \<in> set cs. cu_index c < length b \<and> b ! cu_index c = cu_statement c"
    using selection_cursors_sound [OF assms] by metis
  have same: "map ((!) b) (map cu_index cs) = map cu_statement cs" using in_b by simp
  have "\<forall>i \<in> set (map cu_index cs). i < length b" using in_b by simp
  from conjunct1 [OF delete_fold [OF s this]]
  have "shells (fold delete_at (rev (map cu_index cs)) b) + shells (map cu_statement cs) = shells b"
    unfolding same .
  moreover have "fold delete_at (rev (map cu_index cs)) b = fold (\<lambda>c. delete_at (cu_index c)) (rev cs) b"
    by (simp add: rev_map fold_map comp_def)
  ultimately show ?thesis
    unfolding pop_selection_def by (intro shells_update_less [OF b]) (simp only:)
qed

lemma move_statement_shells:
  assumes "move_statement E d sid loc = Inr r"
  shows "shells (doc_statements (er_document r)) = shells (doc_statements d)"
proof -
  from assms obtain c where c: "require_statement (doc_statements d) sid = Inr c"
    and rest: "er_document r = d \<or> (\<exists>ss. insert_statements (pop_statement c (doc_statements d)) [cu_statement c] loc = Inr ss \<and>
      finish_edit (unlinked E) d ss sid [] = Inr r)"
    by (auto simp: move_statement_def rbind_Inr_iff unchanged_def split: if_splits)
  show ?thesis
  proof (cases "er_document r = d")
    case False
    with rest obtain ss where ss: "insert_statements (pop_statement c (doc_statements d)) [cu_statement c] loc = Inr ss"
      "finish_edit (unlinked E) d ss sid [] = Inr r" by blast
    have "shells ss = shells (doc_statements d)"
      unfolding insert_statements_shells [OF ss(1)]
      by (rule pop_statement_shells [OF conjunct1 [OF require_statement_sound [OF c]]])
    then show ?thesis using finish_edit_ok(1) [OF ss(2)] by simp
  qed simp
qed

lemma move_statements_shells:
  assumes "move_statements E d ids loc = Inr r"
  shows "shells (doc_statements (er_document r)) = shells (doc_statements d)"
proof -
  from assms obtain cs where cs: "selection_cursors (doc_statements d) ids = Inr cs"
    and rest: "er_document r = d \<or> (\<exists>ss sel. insert_statements (pop_selection cs (doc_statements d)) (map cu_statement cs) loc = Inr ss \<and>
      finish_edit (unlinked E) d ss sel [] = Inr r)"
    by (fastforce simp: move_statements_def rbind_Inr_iff unchanged_def Let_def split: if_splits)
  show ?thesis
  proof (cases "er_document r = d")
    case False
    with rest obtain ss sel where ss: "insert_statements (pop_selection cs (doc_statements d)) (map cu_statement cs) loc = Inr ss"
      "finish_edit (unlinked E) d ss sel [] = Inr r" by blast
    have "shells ss = shells (doc_statements d)"
      unfolding insert_statements_shells [OF ss(1)] by (rule pop_selection_shells [OF cs])
    then show ?thesis using finish_edit_ok(1) [OF ss(2)] by simp
  qed simp
qed

lemma delete_statement_shells:
  assumes "delete_statement E d sid = Inr r"
  shows "\<exists>s \<in> set (iter_statement_tree (doc_statements d)). statement_id s = sid \<and>
    shells (doc_statements (er_document r)) + shells [s] = shells (doc_statements d)"
proof -
  from assms obtain c sel where c: "require_statement (doc_statements d) sid = Inr c"
    and f: "finish_edit (unlinked E) d (pop_statement c (doc_statements d)) sel [] = Inr r"
    by (auto simp: delete_statement_def rbind_Inr_iff Let_def)
  note c' = require_statement_sound [OF c]
  show ?thesis
    using cursor_in_tree [OF conjunct1 [OF c']] conjunct2 [OF c'] pop_statement_shells [OF conjunct1 [OF c']]
      finish_edit_ok(1) [OF f] by (intro bexI [of _ "cu_statement c"]) simp_all
qed

lemma delete_statements_shells:
  assumes "delete_statements E d ids = Inr r"
  shows "\<exists>ss. set (map statement_id ss) = set ids \<and> set ss \<subseteq> set (iter_statement_tree (doc_statements d)) \<and>
    shells (doc_statements (er_document r)) + shells ss = shells (doc_statements d)"
proof -
  from assms obtain cs sel where cs: "selection_cursors (doc_statements d) ids = Inr cs"
    and f: "finish_edit (unlinked E) d (pop_selection cs (doc_statements d)) sel [] = Inr r"
    by (auto simp: delete_statements_def rbind_Inr_iff Let_def)
  obtain b where b: "block_at (cu_path (hd cs)) (doc_statements d) = Some b"
      "\<forall>c \<in> set cs. cu_index c < length b \<and> b ! cu_index c = cu_statement c"
      "set (map (statement_id \<circ> cu_statement) cs) = set ids"
    using selection_cursors_sound [OF cs] by metis
  have "set (map cu_statement cs) \<subseteq> set b" using b(2) by (auto, metis nth_mem)
  then have "set (map cu_statement cs) \<subseteq> set (iter_statement_tree (doc_statements d))"
    using block_at_tree [OF b(1)] iter_statement_tree_top by blast
  then show ?thesis using pop_selection_shells [OF cs] finish_edit_ok(1) [OF f] b(3)
    by (intro exI [of _ "map cu_statement cs"]) simp
qed

lemma insert_structured_result:
  assumes "insert_structured_statement E d s loc = Inr r"
  obtains p b i where "block_at p (doc_statements d) = Some b" "i \<le> length b"
    "doc_statements (er_document r) = update_block p (splice i [s]) (doc_statements d)"
    "er_document r = doc_set_statements (doc_statements (er_document r)) d"
    "draft_ok E (er_document r)" "er_selected r = statement_id s"
proof -
  from assms obtain ss p b i where p: "block_at p (doc_statements d) = Some b"
    and i: "insertion_index b (loc_before loc) = Inr i" and ss: "ss = update_block p (splice i [s]) (doc_statements d)"
    and f: "finish_edit E d ss (statement_id s) (owned_ids (encode_statement s)) = Inr r"
    by (auto simp: insert_structured_statement_def insert_statements_def rbind_Inr_iff split: option.splits)
  have "i \<le> length b"
    using i by (auto simp: insertion_index_def split: option.splits dest: index_of_Some)
  then show thesis using that [OF p] finish_edit_ok [OF f] ss by simp
qed

lemma delete_at_splice: "i \<le> length b \<Longrightarrow> delete_at i (splice i [s] b) = b"
  by (simp add: delete_at_def splice_def)

lemma model_validate_distinct: "model_validate d \<Longrightarrow> distinct (forest_ids (doc_statements d))"
proof -
  assume "model_validate d"
  then have "distinct (block_ids (doc_statements d))"
    by (simp add: model_validate_def stable_ids_unique_def document_ids_def)
  moreover have "distinct (concat (map statement_ids ss)) \<Longrightarrow> distinct (map statement_id ss)" for ss
    by (induction ss) (auto simp: statement_ids_def)
  ultimately show ?thesis by (simp add: block_ids_def)
qed

lemma unlinked_draft:
  "E\<lparr>ve_registry := None, ve_require_configured := False\<rparr> = E\<lparr>ve_require_configured := False, ve_registry := None\<rparr>"
  by (cases E) simp

text \<open>A deletion right after an insertion gives the document back.\<close>

lemma insert_then_delete:
  assumes "draft_ok E d" "insert_structured_statement E d s loc = Inr r"
  shows "\<exists>r'. delete_statement E (er_document r) (er_selected r) = Inr r' \<and> er_document r' = d"
proof -
  let ?d' = "er_document r"
  obtain p b i where p: "block_at p (doc_statements d) = Some b" "i \<le> length b"
    and ss: "doc_statements ?d' = update_block p (splice i [s]) (doc_statements d)"
    and d': "?d' = doc_set_statements (doc_statements ?d') d" and ok: "draft_ok E ?d'"
    and sel: "er_selected r = statement_id s"
    using insert_structured_result [OF assms(2)] .
  have at: "block_at p (doc_statements ?d') = Some (splice i [s] b)"
    unfolding ss by (rule block_at_update [OF p(1)])
  have nth: "i < length (splice i [s] b)" "splice i [s] b ! i = s"
    using p(2) by (simp_all add: splice_def nth_append)
  have "distinct (forest_ids (doc_statements ?d'))"
    using ok by (intro model_validate_distinct) (simp add: draft_ok_def)
  from find_statement_unique [OF this at nth(1)]
  have find: "require_statement (doc_statements ?d') (er_selected r) =
      Inr \<lparr>cu_path = p, cu_index = i, cu_statement = s\<rparr>"
    by (simp add: require_statement_def nth(2) sel)
  have "update_block p (delete_at i) (doc_statements ?d') = doc_statements d"
    unfolding ss using p by (subst update_block_twice) (simp_all add: delete_at_splice update_block_same)
  then have pop: "pop_statement \<lparr>cu_path = p, cu_index = i, cu_statement = s\<rparr> (doc_statements ?d') = doc_statements d"
    by (simp add: pop_statement_def)
  have "doc_set_statements (doc_statements d) (doc_set_statements (doc_statements ?d') d) = d" by simp
  then have same: "doc_set_statements (doc_statements d) ?d' = d" by (simp only: d' [symmetric])
  have "validate_command_result (unlinked E) d = Inr d"
    using assms(1) by (simp add: validate_command_result_def draft_ok_def draft_diagnostics_def unlinked_draft)
  then show ?thesis
    by (simp add: delete_statement_def find pop finish_edit_def same Let_def)
qed

section \<open>An update touches one statement\<close>

lemma mset_exchange:
  fixes A B C D X Y :: "'a multiset"
  assumes "A + B = C + D" "D + X = B + Y"
  shows "A + X = C + Y"
proof -
  have "count (A + X) x = count (C + Y) x" for x
    using arg_cong [OF assms(1), of "\<lambda>m. count m x"] arg_cong [OF assms(2), of "\<lambda>m. count m x"]
    unfolding count_union by linarith
  then show ?thesis by (simp add: multiset_eq_iff)
qed

lemma shells_replace:
  assumes "cursor_in c ss" "statement_child_blocks s = statement_child_blocks (cu_statement c)"
  shows "add_mset (shell (cu_statement c)) (shells (replace_statement c s ss)) = add_mset (shell s) (shells ss)"
proof -
  obtain b where b: "block_at (cu_path c) ss = Some b" "cu_index c < length b" "b ! cu_index c = cu_statement c"
    using assms(1) by (auto simp: cursor_in_def)
  let ?f = "\<lambda>b. b[cu_index c := s]" let ?o = "{#shell (cu_statement c)#}"
  have up: "shells (?f b) + ?o = shells b + {#shell s#}"
    using shells_list_update [OF b(2), of s] assms(2) b(3) by simp
  have "shells (update_block (cu_path c) ?f ss) + ?o = shells ss + {#shell s#}"
    using shells_update_block [OF b(1)] up by (rule mset_exchange)
  then show ?thesis by (simp add: replace_statement_def)
qed

lemma update_statement_frame:
  assumes "update_statement E d sid kind f = Inr r"
    and "\<And>s s' cr. f s = Inr (s', cr) \<Longrightarrow> statement_child_blocks s' = statement_child_blocks s"
  obtains s s' cr where "s \<in> set (iter_statement_tree (doc_statements d))" "statement_id s = sid"
    "statement_kind s = kind" "f s = Inr (s', cr)" "er_selected r = sid" "er_created r = cr"
    "add_mset (shell s) (shells (doc_statements (er_document r))) = add_mset (shell s') (shells (doc_statements d))"
proof -
  from assms(1) obtain c s' cr where c: "require_statement (doc_statements d) sid = Inr c"
    and kind: "statement_kind (cu_statement c) = kind" and f: "f (cu_statement c) = Inr (s', cr)"
    and fin: "finish_edit E d (replace_statement c s' (doc_statements d)) sid cr = Inr r"
    by (auto simp: update_statement_def statement_for_update_def rbind_Inr_iff split: if_splits)
  note c' = require_statement_sound [OF c]
  show thesis
    using that [OF cursor_in_tree [OF conjunct1 [OF c']] conjunct2 [OF c'] kind f]
      finish_edit_ok [OF fin] shells_replace [OF conjunct1 [OF c'] assms(2) [OF f]] by simp
qed

section \<open>Copies\<close>

text \<open>Statements added to a valid document bring no identifier the document had.\<close>

lemma added_ids_fresh:
  assumes "shells ss = shells (doc_statements d) + shells new" "distinct (document_ids (doc_set_statements ss d))"
  shows "set (block_ids new) \<inter> set (document_ids d) = {}"
proof -
  have "mset (document_ids (doc_set_statements ss d)) = mset (document_ids d) + mset (block_ids new)"
    using assms(1) by (simp add: document_ids_def mset_block_ids ac_simps)
  then have "distinct (document_ids d @ block_ids new)"
    using assms(2) by (metis mset_append mset_eq_imp_distinct_iff)
  then show ?thesis by auto
qed

lemma insert_copies_adds:
  assumes "insert_copies_at D E d copied loc = Inr r"
  obtains new where "those (map (decode_statement D) (fst copied)) = Some new"
    "shells (doc_statements (er_document r)) = shells (doc_statements d) + shells new"
    "set (block_ids new) \<inter> set (document_ids d) = {}" "er_selected r = statement_id (last new)"
proof -
  obtain new ss where new: "those (map (decode_statement D) (fst copied)) = Some new"
    and ss: "insert_statements (doc_statements d) new loc = Inr ss"
    and fin: "finish_edit E d ss (statement_id (last new)) (map JString (snd copied)) = Inr r"
    using assms by (auto simp: insert_copies_at_def rbind_Inr_iff)
  note shells = insert_statements_shells [OF ss] and ok = finish_edit_ok [OF fin]
  have "distinct (document_ids (doc_set_statements ss d))"
    using ok(1,2) by (simp add: draft_ok_def model_validate_def stable_ids_unique_def)
  from that [OF new _ added_ids_fresh [OF shells this] ok(3)] show thesis using shells ok(1) by simp
qed

lemma copy_statement_adds:
  assumes "copy_statement D uuid E d sid loc = Inr r"
  shows "\<exists>s c. s \<in> set (iter_statement_tree (doc_statements d)) \<and> statement_id s = sid \<and> outline c = outline s \<and>
    shells (doc_statements (er_document r)) = shells (doc_statements d) + shells [c] \<and>
    set (block_ids [c]) \<inter> set (document_ids d) = {} \<and> er_selected r = statement_id c"
proof -
  obtain cur js created where cur: "require_statement (doc_statements d) sid = Inr cur"
    and js: "copy_statement_payloads uuid [encode_statement (cu_statement cur)] = Inr (js, created)"
    and fin: "insert_copies_at D (unlinked E) d (js, created) loc = Inr r"
    using assms by (auto simp: copy_statement_def rbind_Inr_iff)
  obtain m j where j: "js = [j]" "clones uuid m (encode_statement (cu_statement cur)) j"
    using payloads_clones [OF js] by (auto simp: list_all2_Cons1)
  obtain new where new: "those (map (decode_statement D) js) = Some new"
    "shells (doc_statements (er_document r)) = shells (doc_statements d) + shells new"
    "set (block_ids new) \<inter> set (document_ids d) = {}" "er_selected r = statement_id (last new)"
    by (rule insert_copies_adds [OF fin]) simp
  then obtain c where c: "new = [c]" "decode_statement D j = Some c" by (auto simp: j(1) split: option.splits)
  have "outline c = outline (cu_statement cur)" by (rule clone_outline [OF j(2) c(2)])
  with new c(1) cursor_in_tree require_statement_sound [OF cur] show ?thesis by auto
qed

section \<open>Defaults of project functions\<close>

lemma node_default_fails:
  "parameter_has_default p \<Longrightarrow> pc_default p = NodeDefault v \<Longrightarrow> default_value uuid n p \<noteq> Inr w"
  by (simp add: default_value_def)

lemma call_arguments_node_default:
  assumes "p \<in> set ps" "parameter_has_default p" "pc_default p = NodeDefault v"
    "map_of provided (pc_parameter_id p) = None"
  shows "call_arguments uuid n provided ps \<noteq> Inr args"
  using assms
proof (induction ps arbitrary: n args)
  case (Cons q qs)
  then show ?case
    by (cases "q = p") (auto simp: rbind_Inr_iff node_default_fails split: option.splits)
qed simp

end
