(* ===== verification/Samples.thy ===== *)
theory Samples
  imports Command_Properties
begin

text \<open>
  One small program, its environment and its identifiers, on which the theorems about
  documents and commands are evaluated.
\<close>

definition sample_env :: validation_env where
  "sample_env =
     \<lparr>ve_registry = Some (\<lambda>_. None), ve_record_contract = (\<lambda>_. None),
      ve_operation_state = (\<lambda>_. OperationUnknown), ve_operation_inputs = (\<lambda>_. []),
      ve_operation_issues = (\<lambda>_ _ _. 0), ve_revision = (\<lambda>_. ''revision''),
      ve_require_configured = True\<rparr>"

definition sample_uuid :: "nat \<Rightarrow> string" where
  "sample_uuid n = replicate n (CHR ''u'') @ ''0''"

definition sample_parameter :: program_parameter where
  "sample_parameter =
     \<lparr>pp_parameter_id = ''p'', pp_symbol_id = ''n'', pp_display_name = ''count'', pp_value_type = ''int64'',
      pp_required = True, pp_default_value = None\<rparr>"

definition sample_assignment :: statement where
  "sample_assignment = AssignmentStatement ''s1'' (LocalAssignmentTarget ''x'' ''x'' ''int64'' True)
     (SymbolReferenceValue ''v1'' ''n'' ''int64'') None"

definition sample_loop :: statement where
  "sample_loop = LoopStatement ''s2'' ModeRepeat (SymbolReferenceValue ''v2'' ''x'' ''int64'')
     [BreakStatement ''s3'' None] None None None None None"

definition sample_return :: statement where
  "sample_return = ReturnStatement ''s4'' (Some (SymbolReferenceValue ''v3'' ''x'' ''int64'')) None"

definition sample_document :: program_document where
  "sample_document =
     \<lparr>doc_document_id = ''d'',
      doc_function = \<lparr>fn_function_id = ''f'', fn_display_name = ''main'', fn_parameters = [sample_parameter],
        fn_return_type = ''int64'', fn_statements = [sample_assignment, sample_loop, sample_return]\<rparr>\<rparr>"

definition root_location :: statement_location where
  "root_location = \<lparr>loc_parent = None, loc_block = BlockRoot, loc_clause = None, loc_before = None\<rparr>"

definition front_location :: statement_location where
  "front_location = root_location\<lparr>loc_before := Some ''s1''\<rparr>"

lemma sample_validated: "validate_program_document sample_env sample_document = []"
  by code_simp

lemma sample_draft: "draft_ok sample_env sample_document"
  by code_simp

definition guard_condition :: value_node where
  "guard_condition = ComparisonValue ''c1'' OpGt (SymbolReferenceValue ''c2'' ''x'' ''int64'') (IntValue ''c3'' 3)"

definition edited_of :: "command_error + edit_result \<Rightarrow> edit_result" where
  "edited_of res = (case res of Inr r \<Rightarrow> r
     | Inl _ \<Rightarrow> \<lparr>er_document = sample_document, er_selected = [], er_created = []\<rparr>)"

lemma edited_of_Inr: "\<not> isl res \<Longrightarrow> res = Inr (edited_of res)"
  by (cases res) (simp_all add: edited_of_def)

definition sample_guarded :: "command_error + edit_result" where
  "sample_guarded = insert_if sample_uuid sample_env sample_document guard_condition root_location"

lemma sample_guarded_ok: "\<not> isl sample_guarded"
  by code_simp

lemma sample_guarded_step: "insert_if sample_uuid sample_env sample_document guard_condition root_location = Inr (edited_of sample_guarded)"
  using edited_of_Inr [OF sample_guarded_ok] by (simp only: sample_guarded_def)

definition sample_moved :: "command_error + edit_result" where
  "sample_moved = move_statement sample_env sample_document ''s4''
     (root_location\<lparr>loc_before := Some ''s2''\<rparr>)"

lemma sample_moved_ok: "\<not> isl sample_moved"
  by code_simp

lemma sample_moved_step: "move_statement sample_env sample_document ''s4''
     (root_location\<lparr>loc_before := Some ''s2''\<rparr>) = Inr (edited_of sample_moved)"
  using edited_of_Inr [OF sample_moved_ok] by (simp only: sample_moved_def)

definition sample_decode :: decode_env where
  "sample_decode =
     \<lparr>de_date = decode_text, de_datetime = decode_text, de_time = decode_text, de_bool = decode_bool, de_float = of_int\<rparr>"

lemma sample_reads: "reads_dumps sample_decode [sample_loop]"
  by code_simp

definition sample_copied :: "command_error + edit_result" where
  "sample_copied = copy_statement sample_decode sample_uuid sample_env sample_document ''s2'' root_location"

lemma sample_copied_ok: "\<not> isl sample_copied"
  by code_simp

lemma sample_copied_step:
  "copy_statement sample_decode sample_uuid sample_env sample_document ''s2'' root_location = Inr (edited_of sample_copied)"
  using edited_of_Inr [OF sample_copied_ok] by (simp only: sample_copied_def)

definition sample_deleted :: "command_error + edit_result" where
  "sample_deleted = delete_statement sample_env sample_document ''s2''"

lemma sample_deleted_ok: "\<not> isl sample_deleted"
  by code_simp

lemma sample_deleted_step: "delete_statement sample_env sample_document ''s2'' = Inr (edited_of sample_deleted)"
  using edited_of_Inr [OF sample_deleted_ok] by (simp only: sample_deleted_def)

definition sample_deleted_row :: "command_error + edit_result" where
  "sample_deleted_row = delete_statements sample_env sample_document [''s4'', ''s2'']"

lemma sample_deleted_row_ok: "\<not> isl sample_deleted_row"
  by code_simp

lemma sample_deleted_row_step: "delete_statements sample_env sample_document [''s4'', ''s2''] = Inr (edited_of sample_deleted_row)"
  using edited_of_Inr [OF sample_deleted_row_ok] by (simp only: sample_deleted_row_def)

definition sample_updated :: "command_error + edit_result" where
  "sample_updated = update_assignment_value sample_env sample_document ''s1'' (IntValue ''fresh'' 7)"

lemma sample_updated_ok: "\<not> isl sample_updated"
  by code_simp

lemma sample_updated_step: "update_assignment_value sample_env sample_document ''s1'' (IntValue ''fresh'' 7) = Inr (edited_of sample_updated)"
  using edited_of_Inr [OF sample_updated_ok] by (simp only: sample_updated_def)

end
