(* ===== verification/Mutation_Transaction.thy ===== *)
theory Mutation_Transaction
  imports Prelude "HOL-Library.Char_ord" "HOL-Library.List_Lexorder" "HOL-Library.Sublist"
begin

text \<open>
  \<^verbatim>\<open>core/vnext/mutation.py\<close>: a set of file replacements applied as one change, with a
  journal that lets the next open of the project roll an interrupted commit back.

  The project is a map from resolved paths (lists of components) to contents, with the
  directories, the paths a symbolic link leads out of the project, and the transaction
  directories. An action is atomic when the operating system makes it so: the replacement
  of a file, its removal, the creation and the removal of a directory tree (a crash inside
  a removal is treated apart). A run keeps every state it passes through, so that a crash
  is any one of them. A SHA-256 digest is a parameter.
\<close>

section \<open>Projects and runs\<close>

type_synonym resolved = "string list"
type_synonym bytes = string

datatype blob = BackupBlob nat string | StagedBlob nat string

record txn_operation =
  to_relative :: string
  to_write :: bool
  to_original_exists :: bool
  to_original_sha256 :: string
  to_backup :: "blob option"
  to_staged :: "blob option"
  to_staged_sha256 :: string

datatype txn_state = TxnStaging | TxnPrepared | TxnCommitting | TxnCommitted | TxnRolledBack

record txn_journal =
  tj_state :: txn_state
  tj_operations :: "txn_operation list"

record txn_directory =
  td_journal :: "txn_journal option"
  td_blobs :: "blob \<Rightarrow> bytes option"

record project =
  pr_files :: "resolved \<Rightarrow> bytes option"
  pr_dirs :: "resolved \<Rightarrow> bool"
  pr_outside :: "resolved \<Rightarrow> bool"
  pr_txns :: "(string \<times> txn_directory) list"

datatype txn_error = WorkspaceError | OperatingSystemError | HookError

text \<open>The states a run passed before its last one, the last one, and the result.\<close>

type_synonym 'a run = "project list \<times> project \<times> (txn_error + 'a)"

definition run_return :: "'a \<Rightarrow> project \<Rightarrow> 'a run" where
  "run_return x p = ([], p, Inr x)"

definition run_raise :: "txn_error \<Rightarrow> project \<Rightarrow> 'a run" where
  "run_raise e p = ([], p, Inl e)"

definition atomic :: "(project \<Rightarrow> txn_error + project) \<Rightarrow> project \<Rightarrow> unit run" where
  "atomic f p = (case f p of Inl e \<Rightarrow> ([], p, Inl e) | Inr q \<Rightarrow> ([p], q, Inr ()))"

definition run_bind :: "'a run \<Rightarrow> ('a \<Rightarrow> project \<Rightarrow> 'b run) \<Rightarrow> 'b run" where
  "run_bind r f =
     (case r of (tr, q, res) \<Rightarrow>
        (case res of
           Inl e \<Rightarrow> (tr, q, Inl e)
         | Inr x \<Rightarrow> (case f x q of (tr', q', res') \<Rightarrow> (tr @ tr', q', res'))))"

text \<open>\<^verbatim>\<open>except Exception\<close>: the handler runs where the run failed.\<close>

definition run_catch :: "'a run \<Rightarrow> (txn_error \<Rightarrow> project \<Rightarrow> 'a run) \<Rightarrow> 'a run" where
  "run_catch r h =
     (case r of (tr, q, res) \<Rightarrow>
        (case res of
           Inl e \<Rightarrow> (case h e q of (tr', q', res') \<Rightarrow> (tr @ tr', q', res'))
         | Inr x \<Rightarrow> r))"

definition run_states :: "'a run \<Rightarrow> project set" where
  "run_states r = (case r of (tr, q, res) \<Rightarrow> insert q (set tr))"

definition run_final :: "'a run \<Rightarrow> project" where
  "run_final r = (case r of (tr, q, res) \<Rightarrow> q)"

definition run_result :: "'a run \<Rightarrow> txn_error + 'a" where
  "run_result r = (case r of (tr, q, res) \<Rightarrow> res)"

section \<open>Atomic actions\<close>

fun split_slash :: "string \<Rightarrow> string list" where
  "split_slash [] = [[]]"
| "split_slash (c # s) =
     (case split_slash s of [] \<Rightarrow> [[c]] | w # ws \<Rightarrow> if c = CHR ''/'' then [] # w # ws else (c # w) # ws)"

text \<open>What the operating system resolves a path to where no link is involved.\<close>

definition resolve :: "string \<Rightarrow> resolved" where
  "resolve s = filter (\<lambda>c. c \<noteq> [] \<and> c \<noteq> ''.'') (split_slash s)"

definition txn_root :: string where
  "txn_root = ''.easycode/transactions''"

definition normalize_relative :: "string \<Rightarrow> string" where
  "normalize_relative s =
     (let slashes = map (\<lambda>c. if c = CHR 0x5C then CHR ''/'' else c) s
      in rev (dropWhile (\<lambda>c. c = CHR ''/'') (rev (dropWhile (\<lambda>c. c = CHR ''/'') slashes))))"

definition safe_path :: "project \<Rightarrow> string \<Rightarrow> txn_error + string \<times> resolved" where
  "safe_path p relative =
     (let n = normalize_relative relative in
      if n = [] \<or> ''..'' \<in> set (split_slash n) \<or> prefix (txn_root @ ''/'') n then Inl WorkspaceError
      else if pr_outside p (resolve n) then Inl WorkspaceError
      else Inr (n, resolve n))"

definition proper_prefixes :: "resolved \<Rightarrow> resolved list" where
  "proper_prefixes path = map (\<lambda>n. take n path) [0..<length path]"

text \<open>
  \<^verbatim>\<open>_atomic_write_bytes\<close>: parents are created, then the file is replaced in one action. It
  fails on a directory and below a file.
\<close>

definition write_file :: "resolved \<Rightarrow> bytes \<Rightarrow> project \<Rightarrow> txn_error + project" where
  "write_file path content p =
     (if pr_dirs p path \<or> list_ex (\<lambda>q. pr_files p q \<noteq> None) (proper_prefixes path)
      then Inl OperatingSystemError
      else Inr (p\<lparr>pr_files := (pr_files p)(path \<mapsto> content),
                  pr_dirs := (\<lambda>q. pr_dirs p q \<or> strict_prefix q path)\<rparr>))"

definition remove_file :: "resolved \<Rightarrow> project \<Rightarrow> txn_error + project" where
  "remove_file path p = Inr (p\<lparr>pr_files := (pr_files p)(path := None)\<rparr>)"

definition txn_update :: "string \<Rightarrow> (txn_directory \<Rightarrow> txn_directory) \<Rightarrow> project \<Rightarrow> project" where
  "txn_update tid f p = p\<lparr>pr_txns := map (\<lambda>(t, d). (t, if t = tid then f d else d)) (pr_txns p)\<rparr>"

definition make_directory :: "string \<Rightarrow> project \<Rightarrow> txn_error + project" where
  "make_directory tid p = Inr (p\<lparr>pr_txns := pr_txns p @ [(tid, \<lparr>td_journal = None, td_blobs = Map.empty\<rparr>)]\<rparr>)"

definition write_blob :: "string \<Rightarrow> blob \<Rightarrow> bytes \<Rightarrow> project \<Rightarrow> txn_error + project" where
  "write_blob tid b content p =
     Inr (txn_update tid (\<lambda>d. d\<lparr>td_blobs := (td_blobs d)(b \<mapsto> content)\<rparr>) p)"

definition write_journal :: "string \<Rightarrow> txn_journal \<Rightarrow> project \<Rightarrow> txn_error + project" where
  "write_journal tid j p = Inr (txn_update tid (\<lambda>d. d\<lparr>td_journal := Some j\<rparr>) p)"

definition remove_tree :: "string \<Rightarrow> project \<Rightarrow> txn_error + project" where
  "remove_tree tid p = Inr (p\<lparr>pr_txns := filter (\<lambda>(t, d). t \<noteq> tid) (pr_txns p)\<rparr>)"

definition read_blob :: "string \<Rightarrow> blob option \<Rightarrow> project \<Rightarrow> bytes option" where
  "read_blob tid b p =
     (case (b, map_of (pr_txns p) tid) of
        (Some x, Some d) \<Rightarrow> td_blobs d x
      | _ \<Rightarrow> None)"

section \<open>The transaction\<close>

text \<open>
  What the code takes from outside: the digest, the case folding of the file system and the
  failure hook, which may raise at a named point.
\<close>

datatype hook_stage = BeforeApply | AfterApply | BeforeCommitMarker

record txn_host =
  th_sha256 :: "bytes \<Rightarrow> string"
  th_normcase :: "string \<Rightarrow> string"
  th_hook_fails :: "hook_stage \<Rightarrow> string \<Rightarrow> bool"

type_synonym replacements = "(string \<times> bytes option) list"

text \<open>One iteration of \<^verbatim>\<open>stage\<close>: the backup, the staged content and the journal entry.\<close>

definition stage_one ::
  "txn_host \<Rightarrow> string \<Rightarrow> nat \<Rightarrow> string \<Rightarrow> resolved \<Rightarrow> bytes option \<Rightarrow> project \<Rightarrow> txn_operation run" where
  "stage_one H tid order relative absolute content p =
     (let original = pr_files p absolute; token = th_sha256 H relative;
          backup = (case original of None \<Rightarrow> None | Some _ \<Rightarrow> Some (BackupBlob order token));
          staged = (case content of None \<Rightarrow> None | Some _ \<Rightarrow> Some (StagedBlob order token))
      in if pr_dirs p absolute then run_raise WorkspaceError p
         else run_bind (case original of None \<Rightarrow> run_return () p
             | Some c \<Rightarrow> atomic (write_blob tid (BackupBlob order token) c) p) (\<lambda>_ q.
           run_bind (case content of None \<Rightarrow> run_return () q
             | Some c \<Rightarrow> atomic (write_blob tid (StagedBlob order token) c) q) (\<lambda>_.
           run_return \<lparr>to_relative = relative, to_write = content \<noteq> None,
             to_original_exists = original \<noteq> None,
             to_original_sha256 = (case original of None \<Rightarrow> [] | Some c \<Rightarrow> th_sha256 H c),
             to_backup = backup, to_staged = staged,
             to_staged_sha256 = (case content of None \<Rightarrow> [] | Some c \<Rightarrow> th_sha256 H c)\<rparr>)))"

fun stage_all ::
  "txn_host \<Rightarrow> string \<Rightarrow> nat \<Rightarrow> string list \<Rightarrow> replacements \<Rightarrow> project \<Rightarrow> txn_operation list run" where
  "stage_all H tid order seen [] p = run_return [] p"
| "stage_all H tid order seen ((raw, content) # rest) p =
     (case safe_path p raw of
        Inl e \<Rightarrow> run_raise e p
      | Inr (relative, absolute) \<Rightarrow>
          if th_normcase H relative \<in> set seen then run_raise WorkspaceError p
          else run_bind (stage_one H tid order relative absolute content p) (\<lambda>op q.
            run_bind (stage_all H tid (Suc order) (th_normcase H relative # seen) rest q) (\<lambda>ops.
              run_return (op # ops))))"

definition stage :: "txn_host \<Rightarrow> string \<Rightarrow> replacements \<Rightarrow> project \<Rightarrow> txn_operation list run" where
  "stage H tid repl p =
     (if tid \<in> set (map fst (pr_txns p)) then run_raise WorkspaceError p
      else run_bind (atomic (make_directory tid) p) (\<lambda>_ q.
        run_bind (stage_all H tid 0 [] repl q) (\<lambda>ops q'.
          run_bind (atomic (write_journal tid \<lparr>tj_state = TxnPrepared, tj_operations = ops\<rparr>) q') (\<lambda>_.
            run_return ops))))"

definition original_unchanged :: "txn_host \<Rightarrow> project \<Rightarrow> txn_operation \<Rightarrow> bool" where
  "original_unchanged H p op =
     (case safe_path p (to_relative op) of
        Inl e \<Rightarrow> False
      | Inr (_, absolute) \<Rightarrow>
          (pr_files p absolute \<noteq> None) = to_original_exists op \<and>
          (case pr_files p absolute of None \<Rightarrow> True | Some c \<Rightarrow> th_sha256 H c = to_original_sha256 op))"

definition verify_originals :: "txn_host \<Rightarrow> txn_operation list \<Rightarrow> project \<Rightarrow> unit run" where
  "verify_originals H ops p =
     (if list_all (original_unchanged H p) ops then run_return () p else run_raise WorkspaceError p)"

definition restore_one :: "string \<Rightarrow> txn_operation \<Rightarrow> project \<Rightarrow> unit run" where
  "restore_one tid op p =
     (case safe_path p (to_relative op) of
        Inl e \<Rightarrow> run_raise e p
      | Inr (_, absolute) \<Rightarrow>
          if to_original_exists op then
            (case read_blob tid (to_backup op) p of
               None \<Rightarrow> run_raise WorkspaceError p
             | Some c \<Rightarrow> atomic (write_file absolute c) p)
          else if pr_files p absolute \<noteq> None then atomic (remove_file absolute) p
          else run_return () p)"

fun run_each :: "('a \<Rightarrow> project \<Rightarrow> unit run) \<Rightarrow> 'a list \<Rightarrow> project \<Rightarrow> unit run" where
  "run_each f [] p = run_return () p"
| "run_each f (x # xs) p = run_bind (f x p) (\<lambda>_. run_each f xs)"

definition restore :: "string \<Rightarrow> txn_operation list \<Rightarrow> project \<Rightarrow> unit run" where
  "restore tid ops p = run_each (restore_one tid) (rev ops) p"

definition hook :: "txn_host \<Rightarrow> hook_stage \<Rightarrow> string \<Rightarrow> project \<Rightarrow> unit run" where
  "hook H s relative p = (if th_hook_fails H s relative then run_raise HookError p else run_return () p)"

definition apply_change :: "txn_host \<Rightarrow> string \<Rightarrow> txn_operation \<Rightarrow> resolved \<Rightarrow> project \<Rightarrow> unit run" where
  "apply_change H tid op absolute p =
     (if to_write op then
        (case read_blob tid (to_staged op) p of
           None \<Rightarrow> run_raise OperatingSystemError p
         | Some c \<Rightarrow> if th_sha256 H c \<noteq> to_staged_sha256 op then run_raise WorkspaceError p
             else atomic (write_file absolute c) p)
      else if pr_files p absolute \<noteq> None then atomic (remove_file absolute) p
      else run_return () p)"

definition apply_one :: "txn_host \<Rightarrow> string \<Rightarrow> txn_operation \<Rightarrow> project \<Rightarrow> unit run" where
  "apply_one H tid op p =
     (case safe_path p (to_relative op) of
        Inl e \<Rightarrow> run_raise e p
      | Inr (relative, absolute) \<Rightarrow>
          run_bind (hook H BeforeApply relative p) (\<lambda>_ q.
          run_bind (apply_change H tid op absolute q) (\<lambda>_.
          hook H AfterApply relative)))"

abbreviation journal_of :: "txn_state \<Rightarrow> txn_operation list \<Rightarrow> txn_journal" where
  "journal_of s ops \<equiv> \<lparr>tj_state = s, tj_operations = ops\<rparr>"

definition commit_body :: "txn_host \<Rightarrow> string \<Rightarrow> txn_operation list \<Rightarrow> project \<Rightarrow> unit run" where
  "commit_body H tid ops p =
     run_bind (run_each (apply_one H tid) ops p) (\<lambda>_ q.
     run_bind (hook H BeforeCommitMarker [] q) (\<lambda>_.
     atomic (write_journal tid (journal_of TxnCommitted ops))))"

text \<open>
  A failure rolls back, marks the journal and removes the directory; if the rollback itself
  fails the journal stays \<^verbatim>\<open>committing\<close> for the next open.
\<close>

definition roll_back :: "string \<Rightarrow> txn_operation list \<Rightarrow> txn_error \<Rightarrow> project \<Rightarrow> unit run" where
  "roll_back tid ops e p =
     run_bind (restore tid ops p) (\<lambda>_ q1.
     run_bind (atomic (write_journal tid (journal_of TxnRolledBack ops)) q1) (\<lambda>_ q2.
     run_bind (atomic (remove_tree tid) q2) (\<lambda>_. run_raise e)))"

definition commit_verified :: "txn_host \<Rightarrow> string \<Rightarrow> txn_operation list \<Rightarrow> project \<Rightarrow> unit run" where
  "commit_verified H tid ops p =
     run_bind (atomic (write_journal tid (journal_of TxnCommitting ops)) p) (\<lambda>_ q.
     run_bind (run_catch (commit_body H tid ops q) (roll_back tid ops)) (\<lambda>_.
     atomic (remove_tree tid)))"

definition commit :: "txn_host \<Rightarrow> string \<Rightarrow> txn_operation list \<Rightarrow> project \<Rightarrow> unit run" where
  "commit H tid ops p = run_bind (verify_originals H ops p) (\<lambda>_. commit_verified H tid ops)"

text \<open>
  \<^verbatim>\<open>apply\<close>. The directory is removed when staging or the check that opens the commit fails;
  from the journal state \<^verbatim>\<open>committing\<close> on, \<^verbatim>\<open>commit\<close> itself cleans up.
\<close>

definition apply_transaction :: "txn_host \<Rightarrow> string \<Rightarrow> replacements \<Rightarrow> project \<Rightarrow> string run" where
  "apply_transaction H tid repl p =
     run_bind
       (run_catch
         (run_bind (stage H tid repl p) (\<lambda>ops q.
            run_bind (verify_originals H ops q) (\<lambda>_. run_return ops)))
         (\<lambda>e q. run_bind (atomic (remove_tree tid) q) (\<lambda>_. run_raise e)))
       (\<lambda>ops q. run_bind (commit_verified H tid ops q) (\<lambda>_. run_return tid))"

section \<open>Recovery\<close>

datatype recovery = RolledBack | Discarded

text \<open>Any failure, the missing journal included, is raised again as a workspace error.\<close>

definition recover_one :: "string \<times> txn_directory \<Rightarrow> project \<Rightarrow> (string \<times> recovery) run" where
  "recover_one entry p =
     (case entry of (tid, d) \<Rightarrow>
        run_catch
          (case td_journal d of
             None \<Rightarrow> run_raise OperatingSystemError p
           | Some j \<Rightarrow>
               run_bind (if tj_state j = TxnCommitting then restore tid (tj_operations j) p else run_return () p)
                 (\<lambda>_ q. run_bind (atomic (remove_tree tid) q)
                   (\<lambda>_. run_return (tid, if tj_state j = TxnCommitting then RolledBack else Discarded))))
          (\<lambda>e. run_raise WorkspaceError))"

fun recover_each :: "(string \<times> txn_directory) list \<Rightarrow> project \<Rightarrow> (string \<times> recovery) list run" where
  "recover_each [] p = run_return [] p"
| "recover_each (entry # rest) p =
     run_bind (recover_one entry p) (\<lambda>r q.
       run_bind (recover_each rest q) (\<lambda>rs. run_return (r # rs)))"

definition recover :: "project \<Rightarrow> (string \<times> recovery) list run" where
  "recover p = recover_each (sort_key fst (pr_txns p)) p"

section \<open>Runs under a relation every action keeps\<close>

lemma run_proj_simps [simp]:
  "run_states (tr, q, res) = insert q (set tr)" "run_final (tr, q, res) = q" "run_result (tr, q, res) = res"
  by (simp_all add: run_states_def run_final_def run_result_def)

locale run_relation =
  fixes R :: "project \<Rightarrow> project \<Rightarrow> bool"
  assumes related_refl: "R p p"
    and related_trans: "R p q \<Longrightarrow> R q s \<Longrightarrow> R p s"
begin

definition related :: "project \<Rightarrow> 'a run \<Rightarrow> bool" where
  "related p r \<longleftrightarrow> (\<forall>s \<in> run_states r. R p s)"

lemma related_final: "related p r \<Longrightarrow> R p (run_final r)"
  by (cases r) (simp add: related_def)

lemma related_return: "related p (run_return x p)"
  by (simp add: related_def run_return_def related_refl)

lemma related_raise: "related p (run_raise e p)"
  by (simp add: related_def run_raise_def related_refl)

lemma related_atomic: "(\<And>q. f p = Inr q \<Longrightarrow> R p q) \<Longrightarrow> related p (atomic f p)"
  by (auto simp: related_def atomic_def related_refl split: sum.splits)

lemma related_shift: "R p q \<Longrightarrow> related q r \<Longrightarrow> related p r"
  by (auto simp: related_def intro: related_trans)

lemma related_bind:
  assumes "related p r" "\<And>x q. run_result r = Inr x \<Longrightarrow> R p q \<Longrightarrow> related q (f x q)"
  shows "related p (run_bind r f)"
proof (cases r)
  case (fields tr q res)
  show ?thesis
  proof (cases res)
    case (Inr x)
    have "R p q" using related_final [OF assms(1)] fields by simp
    then have "related p (f x q)" using assms(2) [of x q] fields Inr by (auto intro: related_shift)
    then show ?thesis using assms(1) fields Inr
      by (auto simp: related_def run_bind_def split: prod.splits)
  qed (use assms(1) fields in \<open>simp add: related_def run_bind_def\<close>)
qed

lemma related_catch:
  assumes "related p r" "\<And>e q. R p q \<Longrightarrow> related q (h e q)"
  shows "related p (run_catch r h)"
proof (cases r)
  case (fields tr q res)
  show ?thesis
  proof (cases res)
    case (Inl e)
    have "R p q" using related_final [OF assms(1)] fields by simp
    then have "related p (h e q)" using assms(2) by (auto intro: related_shift)
    then show ?thesis using assms(1) fields Inl
      by (auto simp: related_def run_catch_def split: prod.splits)
  qed (use assms(1) fields in \<open>simp add: related_def run_catch_def\<close>)
qed

lemma related_each:
  assumes "\<And>x q. x \<in> set xs \<Longrightarrow> R p q \<Longrightarrow> related q (f x q)"
  shows "related p (run_each f xs p)"
proof -
  have "R p q \<Longrightarrow> (\<And>x q. x \<in> set xs \<Longrightarrow> R p q \<Longrightarrow> related q (f x q)) \<Longrightarrow> related q (run_each f xs q)" for q
    by (induction xs arbitrary: q)
      (auto intro!: related_bind intro: related_return related_trans related_shift)
  with related_refl assms show ?thesis by blast
qed

end

end
