(* ===== verification/Mutation_Recovery.thy ===== *)
theory Mutation_Recovery
  imports Mutation_Transaction
begin

text \<open>
  The transaction of \<^verbatim>\<open>Mutation_Transaction\<close> is all or nothing: a failure leaves the files
  as they were, a success leaves the replacements, and after a crash at any point between
  two atomic actions at which the journal exists, recovery gives one of the two.
\<close>

section \<open>Paths\<close>

lemma dropWhile_id: "xs = [] \<or> \<not> P (hd xs) \<Longrightarrow> dropWhile P xs = xs"
  by (cases xs) auto

lemma strip_both:
  "dropWhile P (rev (dropWhile P (rev (dropWhile P xs)))) = rev (dropWhile P (rev (dropWhile P xs)))"
proof (rule dropWhile_id)
  let ?ys = "dropWhile P xs"
  show "rev (dropWhile P (rev ?ys)) = [] \<or> \<not> P (hd (rev (dropWhile P (rev ?ys))))"
  proof (cases "rev (dropWhile P (rev ?ys)) = []")
    case False
    obtain zs where "rev ?ys = zs @ dropWhile P (rev ?ys)"
      by (metis takeWhile_dropWhile_id)
    then have "?ys = rev (dropWhile P (rev ?ys)) @ rev zs" by (metis rev_append rev_rev_ident)
    with False have "hd ?ys = hd (rev (dropWhile P (rev ?ys)))" "?ys \<noteq> []"
      by (metis hd_append2, force)
    then show ?thesis using hd_dropWhile [of P xs] by simp
  qed simp
qed

lemma normalize_idempotent: "normalize_relative (normalize_relative s) = normalize_relative s"
proof -
  let ?g = "\<lambda>c. if c = CHR 0x5C then CHR ''/'' else c" and ?P = "\<lambda>c. c = CHR ''/''"
  let ?n = "normalize_relative s"
  have "set ?n \<subseteq> set (map ?g s)"
    by (auto simp: normalize_relative_def Let_def dest!: set_dropWhileD)
  then have "map ?g ?n = ?n" by (intro map_idI) (auto split: if_splits)
  moreover have "dropWhile ?P ?n = ?n"
    unfolding normalize_relative_def Let_def by (rule strip_both)
  moreover have "dropWhile ?P (rev ?n) = rev ?n"
    by (simp add: normalize_relative_def Let_def dropWhile_idem)
  ultimately show ?thesis
    unfolding normalize_relative_def [of "normalize_relative s"] Let_def by simp
qed

lemma safe_path_again: "safe_path p raw = Inr (n, a) \<Longrightarrow> safe_path p n = Inr (n, a) \<and> n = normalize_relative raw \<and> a = resolve n"
  by (auto simp: safe_path_def Let_def normalize_idempotent split: if_splits)

lemma safe_path_outside: "pr_outside q = pr_outside p \<Longrightarrow> safe_path q = safe_path p"
  by (simp add: safe_path_def fun_eq_iff Let_def)

section \<open>A project with one transaction directory\<close>

definition with_txn :: "project \<Rightarrow> string \<Rightarrow> txn_directory \<Rightarrow> project" where
  "with_txn p tid d = p\<lparr>pr_txns := pr_txns p @ [(tid, d)]\<rparr>"

definition fresh_txn :: "string \<Rightarrow> project \<Rightarrow> bool" where
  "fresh_txn tid p \<longleftrightarrow> tid \<notin> set (map fst (pr_txns p))"

lemma with_txn_sel [simp]:
  "pr_files (with_txn p tid d) = pr_files p"
  "pr_dirs (with_txn p tid d) = pr_dirs p"
  "pr_outside (with_txn p tid d) = pr_outside p"
  by (simp_all add: with_txn_def)

lemma safe_path_with [simp]: "safe_path (with_txn p tid d) = safe_path p"
  by (rule safe_path_outside) simp

lemma txn_map_fresh: "tid \<notin> fst ` set xs \<Longrightarrow> map (\<lambda>(t, d). (t, if t = tid then f d else d)) xs = xs"
  by (induction xs) auto

lemma map_of_fresh: "tid \<notin> fst ` set xs \<Longrightarrow> ([tid \<mapsto> d] ++ map_of xs) tid = Some d"
  by (induction xs) auto

lemma filter_fresh: "tid \<notin> fst ` set xs \<Longrightarrow> filter (\<lambda>(t, d). t \<noteq> tid) xs = xs"
  by (induction xs) auto

lemma txn_update_with [simp]: "fresh_txn tid p \<Longrightarrow> txn_update tid f (with_txn p tid d) = with_txn p tid (f d)"
  by (simp add: txn_update_def with_txn_def fresh_txn_def txn_map_fresh)

lemma read_blob_with [simp]: "fresh_txn tid p \<Longrightarrow> read_blob tid (Some b) (with_txn p tid d) = td_blobs d b"
  by (simp add: read_blob_def with_txn_def fresh_txn_def map_of_fresh)

lemma remove_tree_with [simp]: "fresh_txn tid p \<Longrightarrow> remove_tree tid (with_txn p tid d) = Inr p"
  by (simp add: remove_tree_def with_txn_def fresh_txn_def filter_fresh)

lemma write_file_with:
  "write_file a c (with_txn p tid d) = (case write_file a c p of Inl e \<Rightarrow> Inl e | Inr q \<Rightarrow> Inr (with_txn q tid d))"
  by (simp add: write_file_def with_txn_def)

lemma remove_file_with:
  "remove_file a (with_txn p tid d) = (case remove_file a p of Inl e \<Rightarrow> Inl e | Inr q \<Rightarrow> Inr (with_txn q tid d))"
  by (simp add: remove_file_def with_txn_def)

lemma run_bind_states:
  "run_states (run_bind r f) \<subseteq> run_states r \<union>
     (case run_result r of Inl e \<Rightarrow> {} | Inr x \<Rightarrow> run_states (f x (run_final r)))"
  by (auto simp: run_bind_def split: prod.splits sum.splits)

lemma run_bind_result:
  "run_result (run_bind r f) =
     (case run_result r of Inl e \<Rightarrow> Inl e | Inr x \<Rightarrow> run_result (f x (run_final r)))"
  "run_final (run_bind r f) =
     (case run_result r of Inl e \<Rightarrow> run_final r | Inr x \<Rightarrow> run_final (f x (run_final r)))"
  by (auto simp: run_bind_def split: prod.splits sum.splits)

lemma run_catch_result:
  "run_result (run_catch r h) =
     (case run_result r of Inl e \<Rightarrow> run_result (h e (run_final r)) | Inr x \<Rightarrow> Inr x)"
  "run_final (run_catch r h) =
     (case run_result r of Inl e \<Rightarrow> run_final (h e (run_final r)) | Inr x \<Rightarrow> run_final r)"
  "run_states (run_catch r h) \<subseteq> run_states r \<union>
     (case run_result r of Inl e \<Rightarrow> run_states (h e (run_final r)) | Inr x \<Rightarrow> {})"
  by (auto simp: run_catch_def split: prod.splits sum.splits)

section \<open>Runs that touch only the targets\<close>

text \<open>
  \<^verbatim>\<open>near T p q\<close>: from \<^verbatim>\<open>p\<close> to \<^verbatim>\<open>q\<close> only files in \<^verbatim>\<open>T\<close> changed, directories were only added
  above them, and the transaction directories are the same.
\<close>

definition near :: "resolved set \<Rightarrow> project \<Rightarrow> project \<Rightarrow> bool" where
  "near T p q \<longleftrightarrow> pr_outside q = pr_outside p \<and> pr_txns q = pr_txns p \<and>
     (\<forall>x. x \<notin> T \<longrightarrow> pr_files q x = pr_files p x) \<and>
     (\<forall>x. pr_dirs p x \<longrightarrow> pr_dirs q x) \<and>
     (\<forall>x. pr_dirs q x \<longrightarrow> pr_dirs p x \<or> (\<exists>t \<in> T. strict_prefix x t))"

lemma near_refl: "near T p p"
  by (simp add: near_def)

lemma near_trans:
  assumes "near T p q" "near T q s"
  shows "near T p s"
proof -
  have "pr_dirs p x \<or> (\<exists>t \<in> T. strict_prefix x t)" if "pr_dirs s x" for x
    using that assms unfolding near_def by blast
  with assms show ?thesis unfolding near_def by simp
qed

interpretation near: run_relation "near T" for T
  by unfold_locales (rule near_refl, erule near_trans, assumption)

lemma near_write: "a \<in> T \<Longrightarrow> write_file a c p = Inr q \<Longrightarrow> near T p q"
  by (auto simp: near_def write_file_def split: if_splits)

lemma near_remove: "a \<in> T \<Longrightarrow> remove_file a p = Inr q \<Longrightarrow> near T p q"
  by (auto simp: near_def remove_file_def)

lemma near_blob: "near T p q \<Longrightarrow> read_blob tid b q = read_blob tid b p"
  by (simp add: near_def read_blob_def)

lemma near_safe_path: "near T p q \<Longrightarrow> safe_path q = safe_path p"
  by (auto simp: near_def intro: safe_path_outside)

lemma related_hook: "near.related T q (hook H s r q)"
  by (simp add: hook_def near.related_return near.related_raise)

lemma related_apply_change: "a \<in> T \<Longrightarrow> near.related T q (apply_change H tid op a q)"
  by (auto simp: apply_change_def split: option.split
      intro!: near.related_return near.related_raise near.related_atomic intro: near_write near_remove)

text \<open>What an operation of the journal needs for its target.\<close>

definition operation_target :: "project \<Rightarrow> resolved set \<Rightarrow> txn_operation \<Rightarrow> bool" where
  "operation_target p T op \<longleftrightarrow> (\<exists>n. \<exists>a \<in> T. safe_path p (to_relative op) = Inr (n, a))"

lemma related_apply_one:
  assumes "operation_target p T op" "near T p q"
  shows "near.related T q (apply_one H tid op q)"
proof -
  from assms obtain n a where "a \<in> T" "safe_path q (to_relative op) = Inr (n, a)"
    by (auto simp: operation_target_def near_safe_path)
  then show ?thesis
    by (auto simp: apply_one_def intro!: near.related_bind intro: related_hook related_apply_change)
qed

lemma related_apply_all:
  assumes "list_all (operation_target p T) ops" "near T p q"
  shows "near.related T q (run_each (apply_one H tid) ops q)"
  using assms by (intro near.related_each)
    (auto simp: list_all_iff intro: related_apply_one near.related_trans)

section \<open>Restoring\<close>

definition tree_ok :: "project \<Rightarrow> bool" where
  "tree_ok p \<longleftrightarrow> (\<forall>x. pr_files p x \<noteq> None \<longrightarrow> \<not> pr_dirs p x \<and> (\<forall>y. strict_prefix y x \<longrightarrow> pr_files p y = None))"

definition prefix_free :: "resolved set \<Rightarrow> bool" where
  "prefix_free T \<longleftrightarrow> (\<forall>s \<in> T. \<forall>t \<in> T. \<not> strict_prefix s t)"

definition restorable :: "string \<Rightarrow> resolved set \<Rightarrow> project \<Rightarrow> txn_operation \<Rightarrow> bool" where
  "restorable tid T p op \<longleftrightarrow>
     (\<exists>n. \<exists>a \<in> T. safe_path p (to_relative op) = Inr (n, a) \<and>
        to_original_exists op = (pr_files p a \<noteq> None) \<and>
        (pr_files p a \<noteq> None \<longrightarrow> read_blob tid (to_backup op) p = pr_files p a))"

lemma restorable_target: "restorable tid T p op \<Longrightarrow> operation_target p T op"
  by (auto simp: restorable_def operation_target_def)

lemma proper_prefixes_strict: "x \<in> set (proper_prefixes a) \<longleftrightarrow> strict_prefix x a"
proof
  assume "x \<in> set (proper_prefixes a)"
  then obtain n where "n < length a" "x = take n a" by (auto simp: proper_prefixes_def)
  then show "strict_prefix x a"
    by (metis length_take min.absorb4 nat_less_le strict_prefix_def take_is_prefix)
next
  assume "strict_prefix x a"
  then have "x = take (length x) a" "length x < length a"
    by (auto simp: strict_prefix_def prefix_def)
  then show "x \<in> set (proper_prefixes a)" by (auto simp: proper_prefixes_def)
qed

lemma write_back:
  assumes "tree_ok p" "prefix_free T" "near T p q" "a \<in> T" "pr_files p a = Some c"
  shows "write_file a c q = Inr (q\<lparr>pr_files := (pr_files q)(a \<mapsto> c),
    pr_dirs := \<lambda>x. pr_dirs q x \<or> strict_prefix x a\<rparr>)"
proof -
  have "\<not> pr_dirs p a" "\<And>y. strict_prefix y a \<Longrightarrow> pr_files p y = None"
    using assms(1,5) by (auto simp: tree_ok_def)
  moreover have "\<not> pr_dirs q a" using assms(2-4) calculation(1) by (auto simp: near_def prefix_free_def)
  moreover have "pr_files q y = None" if "strict_prefix y a" for y
  proof -
    have "y \<notin> T" using that assms(2,4) by (auto simp: prefix_free_def)
    then show ?thesis using calculation(2) [OF that] assms(3) by (simp add: near_def)
  qed
  ultimately show ?thesis
    by (auto simp: write_file_def list_ex_iff proper_prefixes_strict)
qed

lemma restore_one_ok:
  assumes "tree_ok p" "prefix_free T" "near T p q" "restorable tid T p op"
  shows "run_result (restore_one tid op q) = Inr () \<and> near.related T q (restore_one tid op q) \<and>
    (\<exists>n a. safe_path p (to_relative op) = Inr (n, a) \<and> a \<in> T \<and>
       pr_files (run_final (restore_one tid op q)) = (pr_files q)(a := pr_files p a))"
proof -
  from assms(4) obtain n a where a: "a \<in> T" "safe_path p (to_relative op) = Inr (n, a)"
    "to_original_exists op = (pr_files p a \<noteq> None)"
    "pr_files p a \<noteq> None \<longrightarrow> read_blob tid (to_backup op) p = pr_files p a"
    by (auto simp: restorable_def)
  have sp: "safe_path q = safe_path p" by (rule near_safe_path [OF assms(3)])
  have rb: "read_blob tid b q = read_blob tid b p" for b by (rule near_blob [OF assms(3)])
  show ?thesis
  proof (cases "pr_files p a")
    case None
    then have r: "restore_one tid op q =
        (if pr_files q a \<noteq> None then atomic (remove_file a) q else run_return () q)"
      using a sp by (simp add: restore_one_def)
    have "near.related T q (atomic (remove_file a) q)"
      by (rule near.related_atomic) (rule near_remove [OF a(1)])
    moreover have "near.related T q (run_return () q)" by (rule near.related_return)
    moreover have "pr_files q a = None \<Longrightarrow> (pr_files q)(a := None) = pr_files q" by (simp add: fun_upd_idem)
    ultimately show ?thesis using a None
      unfolding r by (auto simp: atomic_def remove_file_def run_return_def)
  next
    case (Some c)
    have w: "write_file a c q = Inr (q\<lparr>pr_files := (pr_files q)(a \<mapsto> c),
        pr_dirs := \<lambda>x. pr_dirs q x \<or> strict_prefix x a\<rparr>)"
      by (rule write_back [OF assms(1-3) a(1) Some])
    have r: "restore_one tid op q = atomic (write_file a c) q"
      using a Some sp rb by (simp add: restore_one_def)
    have "near.related T q (atomic (write_file a c) q)"
      by (rule near.related_atomic) (rule near_write [OF a(1)])
    then show ?thesis using a Some w by (simp add: r atomic_def)
  qed
qed

definition operation_targets :: "project \<Rightarrow> txn_operation list \<Rightarrow> resolved set" where
  "operation_targets p ops = {a. \<exists>op \<in> set ops. \<exists>n. safe_path p (to_relative op) = Inr (n, a)}"

lemma restore_each_ok:
  assumes "tree_ok p" "prefix_free T"
  shows "near T p q \<Longrightarrow> list_all (restorable tid T p) ops \<Longrightarrow>
    run_result (run_each (restore_one tid) ops q) = Inr () \<and>
    near.related T q (run_each (restore_one tid) ops q) \<and>
    pr_files (run_final (run_each (restore_one tid) ops q)) =
      (\<lambda>x. if x \<in> operation_targets p ops then pr_files p x else pr_files q x)"
proof (induction ops arbitrary: q)
  case Nil
  then show ?case by (simp add: run_return_def operation_targets_def near.related_return [unfolded run_return_def])
next
  case (Cons op ops)
  let ?r = "restore_one tid op q"
  from Cons.prems have "restorable tid T p op" by simp
  from restore_one_ok [OF assms Cons.prems(1) this]
  obtain n a where one: "run_result ?r = Inr ()" "near.related T q ?r"
    "safe_path p (to_relative op) = Inr (n, a)" "pr_files (run_final ?r) = (pr_files q)(a := pr_files p a)"
    by auto
  have final: "near T p (run_final ?r)"
    by (rule near_trans [OF Cons.prems(1) near.related_final [OF one(2)]])
  from Cons.IH [OF final] Cons.prems(2)
  have rest: "run_result (run_each (restore_one tid) ops (run_final ?r)) = Inr ()"
    "near.related T (run_final ?r) (run_each (restore_one tid) ops (run_final ?r))"
    "pr_files (run_final (run_each (restore_one tid) ops (run_final ?r))) =
      (\<lambda>x. if x \<in> operation_targets p ops then pr_files p x else pr_files (run_final ?r) x)" by simp_all
  have "operation_targets p (op # ops) = insert a (operation_targets p ops)"
    using one(3) by (auto simp: operation_targets_def)
  moreover have "near.related T q (run_each (restore_one tid) (op # ops) q)"
    unfolding run_each.simps using one(2) Cons.IH Cons.prems
    by (intro near.related_bind) (auto intro: near_trans)
  ultimately show ?case using one rest by (auto simp: run_bind_result)
qed

lemma restore_ok:
  assumes "tree_ok p" "prefix_free T" "near T p q" "list_all (restorable tid T p) ops"
    and "T \<subseteq> operation_targets p ops"
  shows "run_result (restore tid ops q) = Inr ()" "near.related T q (restore tid ops q)"
    "pr_files (run_final (restore tid ops q)) = pr_files p"
proof -
  have r: "list_all (restorable tid T p) (rev ops)" using assms(4) by (simp add: list_all_iff)
  have t: "operation_targets p (rev ops) = operation_targets p ops" by (simp add: operation_targets_def)
  have f: "(\<lambda>x. if x \<in> operation_targets p ops then pr_files p x else pr_files q x) = pr_files p"
    using assms(3,5) by (auto simp: near_def fun_eq_iff)
  note * = restore_each_ok [OF assms(1-3) r]
  show "run_result (restore tid ops q) = Inr ()" "near.related T q (restore tid ops q)"
    "pr_files (run_final (restore tid ops q)) = pr_files p"
    using * unfolding restore_def t f by simp_all
qed

section \<open>Staging\<close>

fun blob_order :: "blob \<Rightarrow> nat" where
  "blob_order (BackupBlob n _) = n"
| "blob_order (StagedBlob n _) = n"

definition keeps_below :: "nat \<Rightarrow> txn_directory \<Rightarrow> txn_directory \<Rightarrow> bool" where
  "keeps_below n d d' \<longleftrightarrow> (\<forall>b. blob_order b < n \<longrightarrow> td_blobs d' b = td_blobs d b)"

lemma keeps_below_refl: "keeps_below n d d"
  by (simp add: keeps_below_def)

lemma keeps_below_trans: "keeps_below n d d' \<Longrightarrow> keeps_below n' d' d'' \<Longrightarrow> n \<le> n' \<Longrightarrow> keeps_below n d d''"
  by (simp add: keeps_below_def)

text \<open>
  The journal entry \<^verbatim>\<open>op\<close> describes the replacement: the original content is in its backup,
  the new content in its staged file.
\<close>

definition staged_op :: "txn_host \<Rightarrow> project \<Rightarrow> txn_directory \<Rightarrow> txn_operation \<Rightarrow> string \<times> bytes option \<Rightarrow> bool" where
  "staged_op H p d op change \<longleftrightarrow>
     (\<exists>n a. safe_path p (fst change) = Inr (n, a) \<and> to_relative op = n \<and> \<not> pr_dirs p a \<and>
        to_write op = (snd change \<noteq> None) \<and> to_original_exists op = (pr_files p a \<noteq> None) \<and>
        (\<forall>c. pr_files p a = Some c \<longrightarrow> to_original_sha256 op = th_sha256 H c \<and>
           (\<exists>b. to_backup op = Some b \<and> td_blobs d b = Some c)) \<and>
        (\<forall>c. snd change = Some c \<longrightarrow> to_staged_sha256 op = th_sha256 H c \<and>
           (\<exists>b. to_staged op = Some b \<and> td_blobs d b = Some c)))"

definition bounded_op :: "nat \<Rightarrow> txn_operation \<Rightarrow> bool" where
  "bounded_op n op \<longleftrightarrow> (\<forall>b. to_backup op = Some b \<or> to_staged op = Some b \<longrightarrow> blob_order b < n)"

lemma staged_op_keeps: "staged_op H p d op change \<Longrightarrow> bounded_op n op \<Longrightarrow> keeps_below n d d' \<Longrightarrow> staged_op H p d' op change"
  unfolding staged_op_def bounded_op_def keeps_below_def by metis

text \<open>The states of a staging run: the project with a directory that has no journal.\<close>

definition staging_states :: "project \<Rightarrow> string \<Rightarrow> project set" where
  "staging_states p tid = {with_txn p tid d |d. td_journal d = None}"

lemma staging_statesI: "td_journal d = None \<Longrightarrow> with_txn p tid d \<in> staging_states p tid"
  by (auto simp: staging_states_def)

lemma stage_one_ok:
  assumes "fresh_txn tid p" "td_journal d = None" "safe_path p raw = Inr (n, a)"
  shows "run_states (stage_one H tid order n a content (with_txn p tid d)) \<subseteq> staging_states p tid"
    and "run_result (stage_one H tid order n a content (with_txn p tid d)) = Inr op \<Longrightarrow>
      \<exists>d'. run_final (stage_one H tid order n a content (with_txn p tid d)) = with_txn p tid d' \<and>
        td_journal d' = None \<and> keeps_below order d d' \<and> bounded_op (Suc order) op \<and>
        staged_op H p d' op (raw, content)"
proof -
  let ?t = "th_sha256 H n"
  let ?b = "\<lambda>d. case pr_files p a of None \<Rightarrow> d | Some c \<Rightarrow> d\<lparr>td_blobs := (td_blobs d)(BackupBlob order ?t \<mapsto> c)\<rparr>"
  let ?s = "\<lambda>d. case content of None \<Rightarrow> d | Some c \<Rightarrow> d\<lparr>td_blobs := (td_blobs d)(StagedBlob order ?t \<mapsto> c)\<rparr>"
  show "run_states (stage_one H tid order n a content (with_txn p tid d)) \<subseteq> staging_states p tid"
    using assms(1,2)
    by (cases "pr_files p a"; cases content)
      (auto simp: stage_one_def Let_def run_raise_def run_return_def run_bind_def atomic_def write_blob_def
        intro!: staging_statesI)
  assume r: "run_result (stage_one H tid order n a content (with_txn p tid d)) = Inr op"
  then have nd: "\<not> pr_dirs p a" by (auto simp: stage_one_def Let_def run_raise_def)
  have "run_final (stage_one H tid order n a content (with_txn p tid d)) = with_txn p tid (?s (?b d))"
    using assms(1) nd by (cases "pr_files p a"; cases content)
      (simp_all add: stage_one_def Let_def run_return_def run_bind_def atomic_def write_blob_def)
  moreover have "td_journal (?s (?b d)) = None" "keeps_below order d (?s (?b d))"
    using assms(2) by (auto simp: keeps_below_def split: option.splits)
  moreover have op: "op = \<lparr>to_relative = n, to_write = content \<noteq> None,
      to_original_exists = pr_files p a \<noteq> None,
      to_original_sha256 = (case pr_files p a of None \<Rightarrow> [] | Some c \<Rightarrow> th_sha256 H c),
      to_backup = (case pr_files p a of None \<Rightarrow> None | Some _ \<Rightarrow> Some (BackupBlob order ?t)),
      to_staged = (case content of None \<Rightarrow> None | Some _ \<Rightarrow> Some (StagedBlob order ?t)),
      to_staged_sha256 = (case content of None \<Rightarrow> [] | Some c \<Rightarrow> th_sha256 H c)\<rparr>"
    using r nd assms(1) by (cases "pr_files p a"; cases content)
      (simp_all add: stage_one_def Let_def run_return_def run_bind_def atomic_def write_blob_def)
  moreover have "bounded_op (Suc order) op" unfolding op by (auto simp: bounded_op_def split: option.splits)
  moreover have "staged_op H p (?s (?b d)) op (raw, content)"
    using assms(3) nd unfolding op by (auto simp: staged_op_def split: option.splits)
  ultimately show "\<exists>d'. run_final (stage_one H tid order n a content (with_txn p tid d)) = with_txn p tid d' \<and>
        td_journal d' = None \<and> keeps_below order d d' \<and> bounded_op (Suc order) op \<and>
        staged_op H p d' op (raw, content)" by blast
qed

lemma stage_all_ok:
  assumes "fresh_txn tid p"
  shows "td_journal d = None \<Longrightarrow>
    run_states (stage_all H tid order seen repl (with_txn p tid d)) \<subseteq> staging_states p tid \<and>
    (\<forall>ops. run_result (stage_all H tid order seen repl (with_txn p tid d)) = Inr ops \<longrightarrow>
      (\<exists>d'. run_final (stage_all H tid order seen repl (with_txn p tid d)) = with_txn p tid d' \<and>
        td_journal d' = None \<and> keeps_below order d d' \<and> list_all2 (staged_op H p d') ops repl))"
proof (induction repl arbitrary: order seen d)
  case Nil
  then show ?case
    by (auto simp: run_return_def keeps_below_refl intro: staging_statesI)
next
  case (Cons change rest)
  obtain raw content where c: "change = (raw, content)" by (cases change)
  show ?case
  proof (cases "safe_path p raw")
    case (Inl e)
    then show ?thesis using c Cons.prems by (simp add: run_raise_def staging_statesI)
  next
    case (Inr na)
    obtain n a where na: "na = (n, a)" by (cases na)
    show ?thesis
    proof (cases "th_normcase H n \<in> set seen")
      case True
      then show ?thesis using c Cons.prems Inr na by (simp add: run_raise_def staging_statesI)
    next
      case False
      let ?w = "with_txn p tid d" and ?seen = "th_normcase H n # seen"
      let ?r = "stage_one H tid order n a content ?w"
      let ?f = "\<lambda>op q. run_bind (stage_all H tid (Suc order) ?seen rest q) (\<lambda>ops. run_return (op # ops))"
      have eq: "stage_all H tid order seen (change # rest) ?w = run_bind ?r ?f"
        using c Inr na False by simp
      have sp: "safe_path p raw = Inr (n, a)" using Inr na by simp
      note one = stage_one_ok [OF assms Cons.prems sp, of H order content]
      show ?thesis
      proof (cases "run_result ?r")
        case (Inl e)
        then have "run_result (run_bind ?r ?f) = Inl e" by (simp add: run_bind_result)
        then show ?thesis using one(1) run_bind_states [of ?r ?f] Inl unfolding eq by auto
      next
        case res: (Inr op)
        from one(2) [OF res] obtain d1 where d1: "run_final ?r = with_txn p tid d1" "td_journal d1 = None"
          "keeps_below order d d1" "bounded_op (Suc order) op" "staged_op H p d1 op change"
          using c by auto
        let ?r2 = "stage_all H tid (Suc order) ?seen rest (with_txn p tid d1)"
        note ih = Cons.IH [OF d1(2), of "Suc order" ?seen]
        have two: "run_states (?f op (with_txn p tid d1)) \<subseteq> staging_states p tid"
          using ih by (cases ?r2) (auto simp: run_bind_def run_return_def split: sum.splits)
        have st: "run_states (run_bind ?r ?f) \<subseteq> staging_states p tid"
          using one(1) two run_bind_states [of ?r ?f] res d1(1) by auto
        have "\<exists>d'. run_final (run_bind ?r ?f) = with_txn p tid d' \<and> td_journal d' = None \<and>
            keeps_below order d d' \<and> list_all2 (staged_op H p d') ops (change # rest)"
          if "run_result (run_bind ?r ?f) = Inr ops" for ops
        proof -
          from that res d1(1) obtain ops' where ops: "run_result ?r2 = Inr ops'" "ops = op # ops'"
            by (auto simp: run_bind_result run_return_def split: sum.splits)
          with ih obtain d' where d': "run_final ?r2 = with_txn p tid d'" "td_journal d' = None"
            "keeps_below (Suc order) d1 d'" "list_all2 (staged_op H p d') ops' rest" by blast
          have "keeps_below order d d'" by (rule keeps_below_trans [OF d1(3) d'(3)]) simp
          moreover have "staged_op H p d' op change" by (rule staged_op_keeps [OF d1(5,4) d'(3)])
          moreover have "run_final (run_bind ?r ?f) = with_txn p tid d'"
            using res d1(1) ops(1) d'(1) by (simp add: run_bind_result run_return_def)
          ultimately show ?thesis using d'(2,4) ops(2) by auto
        qed
        then show ?thesis using st unfolding eq by blast
      qed
    qed
  qed
qed

lemma staged_op_blobs: "td_blobs d' = td_blobs d \<Longrightarrow> staged_op H p d' = staged_op H p d"
  by (simp add: staged_op_def fun_eq_iff)

lemma make_directory_fresh:
  "make_directory tid p = Inr (with_txn p tid \<lparr>td_journal = None, td_blobs = Map.empty\<rparr>)"
  by (simp add: make_directory_def with_txn_def)

text \<open>A state of a staging run: before the directory, without the journal, or prepared.\<close>

lemma stage_ok:
  assumes "fresh_txn tid p"
  shows "s \<in> run_states (stage H tid repl p) \<Longrightarrow> s = p \<or> s \<in> staging_states p tid \<or>
      (\<exists>d ops. s = with_txn p tid d \<and> td_journal d = Some (journal_of TxnPrepared ops))"
    and "run_result (stage H tid repl p) = Inl e \<Longrightarrow> run_final (stage H tid repl p) \<in> staging_states p tid"
    and "run_result (stage H tid repl p) = Inr ops \<Longrightarrow>
      \<exists>d. run_final (stage H tid repl p) = with_txn p tid d \<and>
        td_journal d = Some (journal_of TxnPrepared ops) \<and> list_all2 (staged_op H p d) ops repl"
proof -
  let ?d = "\<lparr>td_journal = None, td_blobs = Map.empty\<rparr>"
  let ?a = "stage_all H tid 0 [] repl (with_txn p tid ?d)"
  let ?j = "\<lambda>d ops. d\<lparr>td_journal := Some (journal_of TxnPrepared ops)\<rparr>"
  have all: "run_states ?a \<subseteq> staging_states p tid"
    "\<And>ops. run_result ?a = Inr ops \<Longrightarrow> \<exists>d'. run_final ?a = with_txn p tid d' \<and>
        td_journal d' = None \<and> list_all2 (staged_op H p d') ops repl"
    using stage_all_ok [OF assms, of ?d H 0 "[]" repl] by auto
  have nf: "tid \<notin> set (map fst (pr_txns p))" using assms by (simp add: fresh_txn_def)
  obtain tr q res where a: "?a = (tr, q, res)" by (cases ?a)
  have "(s \<in> run_states (stage H tid repl p) \<longrightarrow> s = p \<or> s \<in> staging_states p tid \<or>
      (\<exists>d ops. s = with_txn p tid d \<and> td_journal d = Some (journal_of TxnPrepared ops))) \<and>
    (run_result (stage H tid repl p) = Inl e \<longrightarrow> run_final (stage H tid repl p) \<in> staging_states p tid) \<and>
    (run_result (stage H tid repl p) = Inr ops \<longrightarrow>
      (\<exists>d. run_final (stage H tid repl p) = with_txn p tid d \<and>
        td_journal d = Some (journal_of TxnPrepared ops) \<and> list_all2 (staged_op H p d) ops repl))"
  proof (cases res)
    case (Inl e')
    have "stage H tid repl p = (p # tr, q, Inl e')"
      using nf a Inl unfolding stage_def by (simp add: atomic_def make_directory_fresh run_bind_def)
    then show ?thesis using all(1) a by auto
  next
    case (Inr ops')
    with a all(2) obtain d' where d': "q = with_txn p tid d'" "td_journal d' = None"
      "list_all2 (staged_op H p d') ops' repl" by auto
    have eq: "stage H tid repl p = (p # tr @ [q], with_txn p tid (?j d' ops'), Inr ops')"
      using nf a Inr d'(1) assms unfolding stage_def
      by (simp add: atomic_def make_directory_fresh run_bind_def write_journal_def run_return_def)
    have "insert q (set tr) \<subseteq> staging_states p tid" using all(1) a by simp
    moreover have "list_all2 (staged_op H p (?j d' ops')) ops' repl"
      using d'(3) staged_op_blobs [of "?j d' ops'" d' H p] by simp
    moreover have "td_journal (?j d' ops') = Some (journal_of TxnPrepared ops')" by simp
    ultimately have ex: "\<exists>d. with_txn p tid (?j d' ops') = with_txn p tid d \<and>
        td_journal d = Some (journal_of TxnPrepared ops') \<and> list_all2 (staged_op H p d) ops' repl"
      by (intro exI [of _ "?j d' ops'"]) simp
    have "s = p \<or> s \<in> staging_states p tid \<or> s = with_txn p tid (?j d' ops')"
      if "s \<in> run_states (stage H tid repl p)"
      using that \<open>insert q (set tr) \<subseteq> staging_states p tid\<close> unfolding eq by auto
    with ex show ?thesis unfolding eq by auto
  qed
  then show "s \<in> run_states (stage H tid repl p) \<Longrightarrow> s = p \<or> s \<in> staging_states p tid \<or>
      (\<exists>d ops. s = with_txn p tid d \<and> td_journal d = Some (journal_of TxnPrepared ops))"
    and "run_result (stage H tid repl p) = Inl e \<Longrightarrow> run_final (stage H tid repl p) \<in> staging_states p tid"
    and "run_result (stage H tid repl p) = Inr ops \<Longrightarrow>
      \<exists>d. run_final (stage H tid repl p) = with_txn p tid d \<and>
        td_journal d = Some (journal_of TxnPrepared ops) \<and> list_all2 (staged_op H p d) ops repl"
    by blast+
qed

section \<open>Committing\<close>

definition target :: "string \<Rightarrow> resolved" where
  "target raw = resolve (normalize_relative raw)"

definition targets :: "replacements \<Rightarrow> resolved set" where
  "targets repl = target ` fst ` set repl"

text \<open>What a transaction promises: the project's files with every replacement made, in order.\<close>

fun replaced :: "replacements \<Rightarrow> (resolved \<Rightarrow> bytes option) \<Rightarrow> resolved \<Rightarrow> bytes option" where
  "replaced [] f = f"
| "replaced ((raw, content) # rest) f = replaced rest (f(target raw := content))"

lemma staged_op_target:
  "staged_op H p d op change \<Longrightarrow> safe_path p (to_relative op) = Inr (to_relative op, target (fst change))"
  unfolding staged_op_def target_def using safe_path_again by fastforce

lemma staged_targets:
  "list_all2 (staged_op H p d) ops repl \<Longrightarrow> operation_targets p ops = targets repl"
proof (induction rule: list_all2_induct)
  case Nil
  then show ?case by (simp add: operation_targets_def targets_def)
next
  case (Cons op ops change repl)
  have "operation_targets p (op # ops) = insert (target (fst change)) (operation_targets p ops)"
    using staged_op_target [OF Cons.hyps(1)] by (auto simp: operation_targets_def)
  with Cons.IH show ?case by (simp add: targets_def)
qed

lemma staged_not_dir: "staged_op H p d op change \<Longrightarrow> \<not> pr_dirs p (target (fst change))"
  unfolding staged_op_def target_def using safe_path_again by fastforce

lemma staged_restorable:
  assumes "fresh_txn tid p" "staged_op H p d op change" "target (fst change) \<in> T"
  shows "restorable tid T (with_txn p tid d) op"
proof -
  have sp: "safe_path p (to_relative op) = Inr (to_relative op, target (fst change))"
    by (rule staged_op_target [OF assms(2)])
  from assms(2) obtain n a where a: "safe_path p (fst change) = Inr (n, a)" "to_relative op = n"
    "to_original_exists op = (pr_files p a \<noteq> None)"
    "\<And>c. pr_files p a = Some c \<Longrightarrow> \<exists>b. to_backup op = Some b \<and> td_blobs d b = Some c"
    unfolding staged_op_def by blast
  have "a = target (fst change)" using safe_path_again [OF a(1)] by (simp add: target_def)
  with a assms sp show ?thesis
    unfolding restorable_def by (cases "pr_files p a") fastforce+
qed

lemma staged_all_restorable:
  "fresh_txn tid p \<Longrightarrow> list_all2 (staged_op H p d) ops repl \<Longrightarrow>
    list_all (restorable tid (targets repl) (with_txn p tid d)) ops"
  by (fastforce simp: list_all_iff list_all2_conv_all_nth in_set_conv_nth targets_def
      intro: staged_restorable)

lemma apply_one_files:
  assumes "fresh_txn tid p" "near T (with_txn p tid d) q" "staged_op H p d op change"
    and "run_result (apply_one H tid op q) = Inr ()"
  shows "pr_files (run_final (apply_one H tid op q)) = (pr_files q)(target (fst change) := snd change)"
proof -
  let ?a = "target (fst change)"
  have sp: "safe_path q (to_relative op) = Inr (to_relative op, ?a)"
    using near_safe_path [OF assms(2)] staged_op_target [OF assms(3)] by simp
  have rb: "read_blob tid (Some b) q = td_blobs d b" for b
    using near_blob [OF assms(2)] assms(1) by simp
  from assms(3) have w: "to_write op = (snd change \<noteq> None)"
    "\<And>c. snd change = Some c \<Longrightarrow> to_staged_sha256 op = th_sha256 H c \<and>
       (\<exists>b. to_staged op = Some b \<and> td_blobs d b = Some c)"
    by (auto simp: staged_op_def)
  show ?thesis
  proof (cases "snd change")
    case None
    then show ?thesis using assms(4) sp w(1)
      by (auto simp: apply_one_def apply_change_def hook_def run_bind_def run_return_def run_raise_def
          atomic_def remove_file_def fun_upd_idem split: if_splits)
  next
    case (Some c)
    with w obtain b where "to_write op" "to_staged_sha256 op = th_sha256 H c" "to_staged op = Some b"
      "read_blob tid (to_staged op) q = Some c" using rb by auto
    then show ?thesis using assms(4) sp Some
      by (auto simp: apply_one_def apply_change_def hook_def run_bind_def run_return_def run_raise_def
          atomic_def write_file_def split: if_splits)
  qed
qed

lemma apply_all_files:
  assumes "fresh_txn tid p" "list_all2 (staged_op H p d) ops repl" "targets repl \<subseteq> T"
  shows "near T (with_txn p tid d) q \<Longrightarrow> run_result (run_each (apply_one H tid) ops q) = Inr () \<Longrightarrow>
    pr_files (run_final (run_each (apply_one H tid) ops q)) = replaced repl (pr_files q)"
  using assms(2,3)
proof (induction arbitrary: q rule: list_all2_induct)
  case Nil
  then show ?case by (simp add: run_return_def)
next
  case (Cons op ops change repl)
  let ?r = "apply_one H tid op q"
  have r: "run_result ?r = Inr ()"
    using Cons.prems(2) by (auto simp: run_bind_result split: sum.splits)
  have "operation_target (with_txn p tid d) T op"
    using staged_op_target [OF Cons.hyps(1)] Cons.prems(3) by (simp add: operation_target_def targets_def)
  then have n: "near T (with_txn p tid d) (run_final ?r)"
    using Cons.prems(1) near_trans near.related_final related_apply_one by blast
  have f: "pr_files (run_final ?r) = (pr_files q)(target (fst change) := snd change)"
    by (rule apply_one_files [OF assms(1) Cons.prems(1) Cons.hyps(1) r])
  have "run_result (run_each (apply_one H tid) ops (run_final ?r)) = Inr ()"
    using Cons.prems(2) r by (simp add: run_bind_result)
  from Cons.IH [OF n this] Cons.prems(3) r f show ?case
    by (cases change) (simp add: run_bind_result targets_def del: fun_upd_apply)
qed

text \<open>
  The states after the journal says \<^verbatim>\<open>committing\<close>, and the states that are settled on given
  files: nothing of the transaction is left, or a journal that recovery only discards.
\<close>

definition in_commit :: "resolved set \<Rightarrow> project \<Rightarrow> string \<Rightarrow> txn_directory \<Rightarrow> txn_operation list \<Rightarrow> project \<Rightarrow> bool" where
  "in_commit T p tid d ops s \<longleftrightarrow>
     near T (with_txn p tid (d\<lparr>td_journal := Some (journal_of TxnCommitting ops)\<rparr>)) s"

definition settled :: "project \<Rightarrow> string \<Rightarrow> (resolved \<Rightarrow> bytes option) \<Rightarrow> project \<Rightarrow> bool" where
  "settled p tid f s \<longleftrightarrow> pr_files s = f \<and>
     (pr_txns s = pr_txns p \<or>
      (\<exists>d j. pr_txns s = pr_txns p @ [(tid, d)] \<and> td_journal d = Some j \<and> tj_state j \<noteq> TxnCommitting))"

definition atomic_change :: "project \<Rightarrow> replacements \<Rightarrow> bool" where
  "atomic_change p repl \<longleftrightarrow> tree_ok p \<and> prefix_free (targets repl)"

lemma txns_step:
  assumes "fresh_txn tid p" "pr_txns q = pr_txns p @ [(tid, d)]"
  shows "write_journal tid j q = Inr (q\<lparr>pr_txns := pr_txns p @ [(tid, d\<lparr>td_journal := Some j\<rparr>)]\<rparr>)"
    and "remove_tree tid q = Inr (q\<lparr>pr_txns := pr_txns p\<rparr>)"
  using assms by (simp_all add: write_journal_def remove_tree_def txn_update_def fresh_txn_def
      txn_map_fresh filter_fresh)

lemma restore_in_commit:
  assumes "fresh_txn tid p" "atomic_change p repl" "list_all2 (staged_op H p d) ops repl"
    and "in_commit (targets repl) p tid d ops q"
  shows "run_result (restore tid ops q) = Inr ()"
    "s \<in> run_states (restore tid ops q) \<Longrightarrow> in_commit (targets repl) p tid d ops s"
    "pr_files (run_final (restore tid ops q)) = pr_files p"
proof -
  let ?d = "d\<lparr>td_journal := Some (journal_of TxnCommitting ops)\<rparr>"
  let ?p = "with_txn p tid ?d"
  have st: "list_all2 (staged_op H p ?d) ops repl" using assms(3) staged_op_blobs [of ?d d H p] by simp
  have tree: "tree_ok ?p" "prefix_free (targets repl)"
    using assms(2) by (simp_all add: atomic_change_def tree_ok_def)
  have n: "near (targets repl) ?p q" using assms(4) by (simp add: in_commit_def)
  have ts: "targets repl \<subseteq> operation_targets ?p ops"
    using staged_targets [OF st] by (simp add: operation_targets_def)
  note * = restore_ok [OF tree n staged_all_restorable [OF assms(1) st] ts]
  show "run_result (restore tid ops q) = Inr ()" by (rule *(1))
  show "pr_files (run_final (restore tid ops q)) = pr_files p" using *(3) by simp
  show "in_commit (targets repl) p tid d ops s" if "s \<in> run_states (restore tid ops q)"
    using *(2) that n near_trans unfolding near.related_def in_commit_def by blast
qed

lemma in_commit_txns:
  "in_commit T p tid d ops s \<Longrightarrow>
    pr_txns s = pr_txns p @ [(tid, d\<lparr>td_journal := Some (journal_of TxnCommitting ops)\<rparr>)]"
  by (simp add: in_commit_def near_def with_txn_def)

lemma roll_back_ok:
  assumes "fresh_txn tid p" "atomic_change p repl" "list_all2 (staged_op H p d) ops repl"
    and "in_commit (targets repl) p tid d ops q"
  shows "run_result (roll_back tid ops e q) = Inl e"
    and "pr_files (run_final (roll_back tid ops e q)) = pr_files p"
    and "pr_txns (run_final (roll_back tid ops e q)) = pr_txns p"
    and "s \<in> run_states (roll_back tid ops e q) \<Longrightarrow>
      in_commit (targets repl) p tid d ops s \<or> settled p tid (pr_files p) s"
proof -
  note r = restore_in_commit [OF assms]
  obtain tr q1 where q1: "restore tid ops q = (tr, q1, Inr ())" using r(1) by (cases "restore tid ops q") auto
  let ?d1 = "d\<lparr>td_journal := Some (journal_of TxnRolledBack ops)\<rparr>"
  let ?q2 = "q1\<lparr>pr_txns := pr_txns p @ [(tid, ?d1)]\<rparr>"
  have i: "in_commit (targets repl) p tid d ops q1" using r(2) q1 by simp
  have w: "write_journal tid (journal_of TxnRolledBack ops) q1 = Inr ?q2"
    using txns_step(1) [OF assms(1) in_commit_txns [OF i]] by simp
  have m: "remove_tree tid ?q2 = Inr (?q2\<lparr>pr_txns := pr_txns p\<rparr>)"
    by (rule txns_step(2) [OF assms(1)]) simp
  have eq: "roll_back tid ops e q = (tr @ [q1, ?q2], ?q2\<lparr>pr_txns := pr_txns p\<rparr>, Inl e)"
    unfolding roll_back_def q1 run_bind_def by (simp add: atomic_def w m run_raise_def)
  show "run_result (roll_back tid ops e q) = Inl e" "pr_txns (run_final (roll_back tid ops e q)) = pr_txns p"
    by (simp_all add: eq)
  show f: "pr_files (run_final (roll_back tid ops e q)) = pr_files p" using r(3) q1 eq by simp
  have s: "settled p tid (pr_files p) ?q2" "settled p tid (pr_files p) (?q2\<lparr>pr_txns := pr_txns p\<rparr>)"
    using r(3) q1 by (auto simp: settled_def)
  show "in_commit (targets repl) p tid d ops s \<or> settled p tid (pr_files p) s"
    if "s \<in> run_states (roll_back tid ops e q)"
    using that r(2) q1 s i unfolding eq by auto
qed

text \<open>
  The part of \<^verbatim>\<open>commit\<close> inside \<^verbatim>\<open>try\<close>: it fails in a state recovery can restore, or ends with
  every replacement made and the marker written.
\<close>

lemma commit_body_ok:
  assumes "fresh_txn tid p" "list_all2 (staged_op H p d) ops repl"
    and "p1 = with_txn p tid (d\<lparr>td_journal := Some (journal_of TxnCommitting ops)\<rparr>)"
  shows "(\<exists>e tr q. commit_body H tid ops p1 = (tr, q, Inl e) \<and>
        (\<forall>x \<in> insert q (set tr). in_commit (targets repl) p tid d ops x)) \<or>
     (\<exists>tr q. commit_body H tid ops p1 = (tr, q, Inr ()) \<and>
        (\<forall>x \<in> set tr. in_commit (targets repl) p tid d ops x) \<and>
        pr_files q = replaced repl (pr_files p) \<and>
        pr_txns q = pr_txns p @ [(tid, d\<lparr>td_journal := Some (journal_of TxnCommitted ops)\<rparr>)])"
proof -
  let ?T = "targets repl"
  let ?d1 = "d\<lparr>td_journal := Some (journal_of TxnCommitting ops)\<rparr>"
  have st: "list_all2 (staged_op H p ?d1) ops repl" using assms(2) staged_op_blobs [of ?d1 d H p] by simp
  have ot: "list_all (operation_target p1 ?T) ops"
    using staged_all_restorable [OF assms(1) st] restorable_target assms(3) by (auto simp: list_all_iff)
  let ?each = "run_each (apply_one H tid) ops p1"
  have rel: "near.related ?T p1 ?each" by (rule related_apply_all [OF ot near_refl])
  obtain tr q res where each: "?each = (tr, q, res)" by (cases ?each)
  have ins: "in_commit ?T p tid d ops x" if "x \<in> insert q (set tr)" for x
    using rel that each assms(3) by (auto simp: near.related_def in_commit_def)
  have fin: "res = Inr () \<Longrightarrow> pr_files q = replaced repl (pr_files p)"
    using apply_all_files [OF assms(1) st subset_refl near_refl] each assms(3) by simp
  show ?thesis
  proof (cases res)
    case (Inl e)
    then show ?thesis using each ins by (simp add: commit_body_def run_bind_def)
  next
    case (Inr u)
    show ?thesis
    proof (cases "th_hook_fails H BeforeCommitMarker []")
      case True
      then show ?thesis using each ins Inr by (simp add: commit_body_def run_bind_def hook_def run_raise_def)
    next
      case False
      have "write_journal tid (journal_of TxnCommitted ops) q =
          Inr (q\<lparr>pr_txns := pr_txns p @ [(tid, d\<lparr>td_journal := Some (journal_of TxnCommitted ops)\<rparr>)]\<rparr>)"
        using txns_step(1) [OF assms(1) in_commit_txns [OF ins [of q]]] by simp
      then show ?thesis using each ins fin Inr False
        by (simp add: commit_body_def run_bind_def hook_def run_return_def atomic_def)
    qed
  qed
qed

lemma commit_verified_ok:
  assumes "fresh_txn tid p" "atomic_change p repl" "list_all2 (staged_op H p d) ops repl"
    and "td_journal d = Some (journal_of TxnPrepared ops)"
  shows "(\<exists>e tr q. commit_verified H tid ops (with_txn p tid d) = (tr, q, Inl e) \<and>
        pr_files q = pr_files p \<and> pr_txns q = pr_txns p \<and>
        (\<forall>x \<in> set tr. in_commit (targets repl) p tid d ops x \<or> settled p tid (pr_files p) x)) \<or>
     (\<exists>tr q. commit_verified H tid ops (with_txn p tid d) = (tr, q, Inr ()) \<and>
        pr_files q = replaced repl (pr_files p) \<and> pr_txns q = pr_txns p \<and>
        (\<forall>x \<in> set tr. in_commit (targets repl) p tid d ops x \<or> settled p tid (pr_files p) x \<or>
           settled p tid (replaced repl (pr_files p)) x))"
proof -
  let ?p1 = "with_txn p tid (d\<lparr>td_journal := Some (journal_of TxnCommitting ops)\<rparr>)"
  let ?p0 = "with_txn p tid d"
  have w: "write_journal tid (journal_of TxnCommitting ops) ?p0 = Inr ?p1"
    using assms(1) by (simp add: write_journal_def)
  have p0: "settled p tid (pr_files p) ?p0"
    using assms(4) by (auto simp: settled_def with_txn_def)
  from commit_body_ok [OF assms(1,3) refl] show ?thesis
  proof (elim disjE exE conjE)
    fix e tr q
    assume body: "commit_body H tid ops ?p1 = (tr, q, Inl e)"
      and i: "\<forall>x \<in> insert q (set tr). in_commit (targets repl) p tid d ops x"
    obtain tr' q' res where rb: "roll_back tid ops e q = (tr', q', res)" by (cases "roll_back tid ops e q")
    have iq: "in_commit (targets repl) p tid d ops q" using i by simp
    note r = roll_back_ok [OF assms(1-3) iq, where e = e, unfolded rb run_proj_simps]
    have "commit_verified H tid ops ?p0 = (?p0 # tr @ tr', q', Inl e)"
      unfolding commit_verified_def by (simp add: atomic_def w run_bind_def run_catch_def body rb r(1))
    then show ?thesis using i p0 r by auto
  next
    fix tr q
    assume body: "commit_body H tid ops ?p1 = (tr, q, Inr ())"
      and i: "\<forall>x \<in> set tr. in_commit (targets repl) p tid d ops x"
      and f: "pr_files q = replaced repl (pr_files p)"
      and t: "pr_txns q = pr_txns p @ [(tid, d\<lparr>td_journal := Some (journal_of TxnCommitted ops)\<rparr>)]"
    have "commit_verified H tid ops ?p0 = (?p0 # tr @ [q], q\<lparr>pr_txns := pr_txns p\<rparr>, Inr ())"
      unfolding commit_verified_def
      by (simp add: atomic_def w run_bind_def run_catch_def body txns_step(2) [OF assms(1) t])
    moreover have "settled p tid (replaced repl (pr_files p)) q" using f t by (simp add: settled_def)
    ultimately show ?thesis using i p0 f by auto
  qed
qed

section \<open>The transaction and its recovery\<close>

text \<open>What every state of a transaction and of its recoveries is.\<close>

definition crash_safe :: "txn_host \<Rightarrow> string \<Rightarrow> replacements \<Rightarrow> project \<Rightarrow> project \<Rightarrow> bool" where
  "crash_safe H tid repl p s \<longleftrightarrow> s \<in> staging_states p tid \<or>
     (\<exists>d ops. list_all2 (staged_op H p d) ops repl \<and> in_commit (targets repl) p tid d ops s) \<or>
     settled p tid (pr_files p) s \<or> settled p tid (replaced repl (pr_files p)) s"

lemma remove_staging: "fresh_txn tid p \<Longrightarrow> s \<in> staging_states p tid \<Longrightarrow> remove_tree tid s = Inr p"
  by (auto simp: staging_states_def)

lemma crash_safe_prepared:
  "td_journal d = Some (journal_of TxnPrepared ops) \<Longrightarrow> crash_safe H tid repl p (with_txn p tid d)"
  by (auto simp: crash_safe_def settled_def with_txn_def)

lemma apply_transaction_ok:
  assumes "fresh_txn tid p" "atomic_change p repl"
  shows "(\<exists>e tr q. apply_transaction H tid repl p = (tr, q, Inl e) \<and>
        pr_files q = pr_files p \<and> pr_txns q = pr_txns p \<and> (\<forall>x \<in> set tr. crash_safe H tid repl p x)) \<or>
     (\<exists>tr q. apply_transaction H tid repl p = (tr, q, Inr tid) \<and>
        pr_files q = replaced repl (pr_files p) \<and> pr_txns q = pr_txns p \<and>
        (\<forall>x \<in> set tr. crash_safe H tid repl p x))"
proof -
  obtain tr q res where st: "stage H tid repl p = (tr, q, res)" by (cases "stage H tid repl p")
  note ok = stage_ok [OF assms(1), where H = H and repl = repl, unfolded st run_proj_simps]
  have p: "crash_safe H tid repl p p" by (simp add: crash_safe_def settled_def)
  have tr: "crash_safe H tid repl p x" if "x \<in> insert q (set tr)" for x
    using ok(1) [OF that]
  proof (elim disjE exE conjE)
    show "x = p \<Longrightarrow> crash_safe H tid repl p x" by (simp add: p)
    show "x \<in> staging_states p tid \<Longrightarrow> crash_safe H tid repl p x" by (simp add: crash_safe_def)
  qed (simp add: crash_safe_prepared)
  show ?thesis
  proof (cases res)
    case (Inl e)
    then have "remove_tree tid q = Inr p" using ok(2) remove_staging [OF assms(1)] by blast
    then have "apply_transaction H tid repl p = (tr @ [q], p, Inl e)"
      using st Inl by (simp add: apply_transaction_def run_bind_def run_catch_def atomic_def run_raise_def)
    then show ?thesis using tr by auto
  next
    case (Inr ops)
    from ok(3) [OF this] obtain d where d: "q = with_txn p tid d"
      "td_journal d = Some (journal_of TxnPrepared ops)" "list_all2 (staged_op H p d) ops repl" by blast
    show ?thesis
    proof (cases "list_all (original_unchanged H q) ops")
      case False
      then have "apply_transaction H tid repl p = (tr @ [q], p, Inl WorkspaceError)"
        using st Inr d(1) assms(1) by (simp add: apply_transaction_def run_bind_def run_catch_def
            atomic_def run_raise_def verify_originals_def)
      then show ?thesis using tr by auto
    next
      case True
      obtain tr' q' res' where cv: "commit_verified H tid ops q = (tr', q', res')"
        by (cases "commit_verified H tid ops q")
      have ap: "apply_transaction H tid repl p = (tr @ tr', q', case res' of Inl e \<Rightarrow> Inl e | Inr _ \<Rightarrow> Inr tid)"
        using st Inr True cv by (simp add: apply_transaction_def run_bind_def run_catch_def
            run_return_def verify_originals_def split: sum.split)
      have cs: "crash_safe H tid repl p x"
        if "in_commit (targets repl) p tid d ops x \<or> settled p tid (pr_files p) x \<or>
          settled p tid (replaced repl (pr_files p)) x" for x
        using that d(3) unfolding crash_safe_def by blast
      from commit_verified_ok [OF assms d(3,2)] show ?thesis
      proof (elim disjE exE conjE)
        fix e tr2 q2
        assume "commit_verified H tid ops (with_txn p tid d) = (tr2, q2, Inl e)"
          "pr_files q2 = pr_files p" "pr_txns q2 = pr_txns p"
          "\<forall>x \<in> set tr2. in_commit (targets repl) p tid d ops x \<or> settled p tid (pr_files p) x"
        then show ?thesis using cv d(1) tr cs unfolding ap by auto
      next
        fix tr2 q2
        assume "commit_verified H tid ops (with_txn p tid d) = (tr2, q2, Inr ())"
          "pr_files q2 = replaced repl (pr_files p)" "pr_txns q2 = pr_txns p"
          "\<forall>x \<in> set tr2. in_commit (targets repl) p tid d ops x \<or> settled p tid (pr_files p) x \<or>
             settled p tid (replaced repl (pr_files p)) x"
        then show ?thesis using cv d(1) tr cs unfolding ap by auto
      qed
    qed
  qed
qed

lemma recover_single:
  assumes "pr_txns s = [(tid, d)]"
  shows "recover s = run_bind (recover_one (tid, d) s) (\<lambda>r. run_return [r])"
  using assms by (simp add: recover_def run_bind_def run_return_def split: prod.split sum.split)

lemma recover_settled:
  assumes "pr_txns p = []" "settled p tid f s"
  shows "\<exists>r tr q. recover s = (tr, q, Inr r) \<and> pr_files q = f \<and> pr_txns q = [] \<and> set tr \<subseteq> {s}"
proof (cases "pr_txns s = []")
  case True
  then show ?thesis using assms(2) by (simp add: recover_def run_return_def settled_def)
next
  case False
  then obtain d j where d: "pr_txns s = [(tid, d)]" "td_journal d = Some j" "tj_state j \<noteq> TxnCommitting"
    "pr_files s = f" using assms by (auto simp: settled_def)
  have "remove_tree tid s = Inr (s\<lparr>pr_txns := []\<rparr>)" using d(1) by (simp add: remove_tree_def)
  then show ?thesis using d unfolding recover_single [OF d(1)]
    by (simp add: recover_one_def run_bind_def run_return_def run_catch_def atomic_def)
qed

lemma recover_in_commit:
  assumes "pr_txns p = []" "atomic_change p repl" "list_all2 (staged_op H p d) ops repl"
    and "in_commit (targets repl) p tid d ops s"
  shows "\<exists>tr q. recover s = (tr, q, Inr [(tid, RolledBack)]) \<and> pr_files q = pr_files p \<and> pr_txns q = [] \<and>
    (\<forall>x \<in> set tr. in_commit (targets repl) p tid d ops x)"
proof -
  have fresh: "fresh_txn tid p" using assms(1) by (simp add: fresh_txn_def)
  note r = restore_in_commit [OF fresh assms(2-4)]
  let ?d = "d\<lparr>td_journal := Some (journal_of TxnCommitting ops)\<rparr>"
  have t: "pr_txns s = [(tid, ?d)]" using in_commit_txns [OF assms(4)] assms(1) by simp
  obtain tr q where q: "restore tid ops s = (tr, q, Inr ())" using r(1) by (cases "restore tid ops s") auto
  have i: "in_commit (targets repl) p tid d ops q" using r(2) q by simp
  have m: "remove_tree tid q = Inr (q\<lparr>pr_txns := []\<rparr>)"
    using txns_step(2) [OF fresh in_commit_txns [OF i]] assms(1) by simp
  have "recover s = (tr @ [q], q\<lparr>pr_txns := []\<rparr>, Inr [(tid, RolledBack)])"
    unfolding recover_single [OF t]
    by (simp add: recover_one_def q run_bind_def run_return_def run_catch_def atomic_def m)
  then show ?thesis using r q i by auto
qed

lemma recover_staging:
  assumes "pr_txns p = []" "s \<in> staging_states p tid"
  shows "recover s = ([], s, Inl WorkspaceError)"
  using assms by (auto simp: staging_states_def with_txn_def recover_def recover_one_def run_catch_def
      run_bind_def run_raise_def)

text \<open>The states a project can be found in: any state of the transaction, or of a recovery of one.\<close>

inductive crashed :: "txn_host \<Rightarrow> string \<Rightarrow> replacements \<Rightarrow> project \<Rightarrow> project \<Rightarrow> bool"
  for H tid repl p where
  crashed_apply: "s \<in> run_states (apply_transaction H tid repl p) \<Longrightarrow> crashed H tid repl p s"
| crashed_recover: "crashed H tid repl p s \<Longrightarrow> s' \<in> run_states (recover s) \<Longrightarrow> crashed H tid repl p s'"

lemma crashed_safe:
  assumes "pr_txns p = []" "atomic_change p repl" "crashed H tid repl p s"
  shows "crash_safe H tid repl p s"
  using assms(3)
proof induction
  case (crashed_apply s)
  have "fresh_txn tid p" using assms(1) by (simp add: fresh_txn_def)
  from apply_transaction_ok [OF this assms(2), of H] crashed_apply show ?case
    by (auto simp: crash_safe_def settled_def)
next
  case (crashed_recover s s')
  have fin: "settled p tid f q" if "pr_files q = f" "pr_txns q = []" for f q
    using that assms(1) by (simp add: settled_def)
  from crashed_recover.IH show ?case
    unfolding crash_safe_def [of H tid repl p s]
  proof (elim disjE exE conjE)
    assume "s \<in> staging_states p tid"
    with recover_staging [OF assms(1) this] crashed_recover.hyps show ?thesis
      by (simp add: crash_safe_def)
  next
    fix d ops assume "list_all2 (staged_op H p d) ops repl" "in_commit (targets repl) p tid d ops s"
    from recover_in_commit [OF assms(1,2) this] obtain tr q where
      "recover s = (tr, q, Inr [(tid, RolledBack)])" "settled p tid (pr_files p) q"
      "\<forall>x \<in> set tr. in_commit (targets repl) p tid d ops x" using fin by metis
    with crashed_recover.hyps \<open>list_all2 (staged_op H p d) ops repl\<close> show ?thesis
      by (auto simp: crash_safe_def)
  next
    assume st: "settled p tid (pr_files p) s"
    from recover_settled [OF assms(1) this] obtain r tr q where
      "recover s = (tr, q, Inr r)" "settled p tid (pr_files p) q" "set tr \<subseteq> {s}" using fin by metis
    with crashed_recover.hyps st show ?thesis by (auto simp: crash_safe_def)
  next
    assume st: "settled p tid (replaced repl (pr_files p)) s"
    from recover_settled [OF assms(1) this] obtain r tr q where
      "recover s = (tr, q, Inr r)" "settled p tid (replaced repl (pr_files p)) q" "set tr \<subseteq> {s}" using fin by metis
    with crashed_recover.hyps st show ?thesis by (auto simp: crash_safe_def)
  qed
qed

lemma crash_safe_recovers:
  assumes "pr_txns p = []" "atomic_change p repl" "crash_safe H tid repl p s"
    and "\<forall>(t, d) \<in> set (pr_txns s). td_journal d \<noteq> None"
  shows "\<exists>r. run_result (recover s) = Inr r \<and> pr_txns (run_final (recover s)) = [] \<and>
    pr_files (run_final (recover s)) \<in> {pr_files p, replaced repl (pr_files p)}"
proof -
  have "s \<notin> staging_states p tid" using assms(4) by (auto simp: staging_states_def with_txn_def)
  with assms(3) show ?thesis unfolding crash_safe_def
  proof (elim disjE exE conjE)
    fix d ops assume "list_all2 (staged_op H p d) ops repl" "in_commit (targets repl) p tid d ops s"
    with recover_in_commit [OF assms(1,2) this] show ?thesis by auto
  next
    assume "settled p tid (pr_files p) s"
    with recover_settled [OF assms(1) this] show ?thesis by auto
  next
    assume "settled p tid (replaced repl (pr_files p)) s"
    with recover_settled [OF assms(1) this] show ?thesis by auto
  qed simp
qed

section \<open>A change the project allows is made\<close>

definition writable :: "project \<Rightarrow> string \<Rightarrow> bool" where
  "writable p raw \<longleftrightarrow> (\<exists>n. safe_path p raw = Inr (n, target raw)) \<and> \<not> pr_dirs p (target raw) \<and>
     (\<forall>y. strict_prefix y (target raw) \<longrightarrow> pr_files p y = None)"

definition applicable :: "txn_host \<Rightarrow> project \<Rightarrow> replacements \<Rightarrow> bool" where
  "applicable H p repl \<longleftrightarrow> (\<forall>change \<in> set repl. writable p (fst change)) \<and>
     distinct (map (\<lambda>change. th_normcase H (normalize_relative (fst change))) repl)"

lemma writable_safe_path: "writable p raw \<Longrightarrow> safe_path p raw = Inr (normalize_relative raw, target raw)"
  unfolding writable_def using safe_path_again by fastforce

lemma stage_one_succeeds:
  "\<not> pr_dirs p a \<Longrightarrow> \<exists>op. run_result (stage_one H tid order n a content (with_txn p tid d)) = Inr op"
  by (cases "pr_files p a"; cases content)
    (simp_all add: stage_one_def Let_def run_bind_def run_return_def atomic_def write_blob_def)

lemma stage_all_succeeds:
  assumes "fresh_txn tid p"
  shows "td_journal d = None \<Longrightarrow> \<forall>change \<in> set repl. writable p (fst change) \<Longrightarrow>
    distinct (map (\<lambda>change. th_normcase H (normalize_relative (fst change))) repl) \<Longrightarrow>
    set seen \<inter> set (map (\<lambda>change. th_normcase H (normalize_relative (fst change))) repl) = {} \<Longrightarrow>
    \<exists>ops. run_result (stage_all H tid order seen repl (with_txn p tid d)) = Inr ops"
proof (induction repl arbitrary: order seen d)
  case Nil
  then show ?case by (simp add: run_return_def)
next
  case (Cons change rest)
  obtain raw content where c: "change = (raw, content)" by (cases change)
  let ?n = "normalize_relative raw"
  let ?key = "th_normcase H ?n"
  have w: "writable p raw" using Cons.prems(2) c by simp
  note sp = writable_safe_path [OF w]
  let ?r = "stage_one H tid order ?n (target raw) content (with_txn p tid d)"
  from stage_one_succeeds obtain op where op: "run_result ?r = Inr op"
    using w unfolding writable_def by blast
  from stage_one_ok(2) [OF assms Cons.prems(1) sp op] obtain d1 where
    d1: "run_final ?r = with_txn p tid d1" "td_journal d1 = None" by blast
  have "\<exists>ops. run_result (stage_all H tid (Suc order) (?key # seen) rest (with_txn p tid d1)) = Inr ops"
    using Cons.prems c by (intro Cons.IH [OF d1(2)]) auto
  then obtain ops where ops: "run_result (stage_all H tid (Suc order) (?key # seen) rest (with_txn p tid d1)) = Inr ops" ..
  have "?key \<notin> set seen" using Cons.prems(4) c by auto
  then show ?case using c sp op d1(1) ops by (simp add: run_bind_result run_return_def)
qed

lemma staged_unchanged:
  assumes "staged_op H p d op change"
  shows "original_unchanged H (with_txn p tid d) op"
proof -
  have sp: "safe_path p (to_relative op) = Inr (to_relative op, target (fst change))"
    by (rule staged_op_target [OF assms])
  from assms obtain n a where a: "safe_path p (fst change) = Inr (n, a)"
    "to_original_exists op = (pr_files p a \<noteq> None)"
    "\<And>c. pr_files p a = Some c \<Longrightarrow> to_original_sha256 op = th_sha256 H c"
    unfolding staged_op_def by blast
  have "a = target (fst change)" using safe_path_again [OF a(1)] by (simp add: target_def)
  with a(2,3) sp show ?thesis by (simp add: original_unchanged_def split: option.split)
qed

lemma staged_all_unchanged:
  "list_all2 (staged_op H p d) ops repl \<Longrightarrow> list_all (original_unchanged H (with_txn p tid d)) ops"
  by (induction rule: list_all2_induct) (simp_all add: staged_unchanged)

lemma write_file_allowed:
  assumes "near T p q" "prefix_free T" "a \<in> T" "\<not> pr_dirs p a" "\<forall>y. strict_prefix y a \<longrightarrow> pr_files p y = None"
  shows "\<exists>q'. write_file a c q = Inr q'"
proof -
  have "\<not> pr_dirs q a" using assms(1-4) by (auto simp: near_def prefix_free_def)
  moreover have "pr_files q y = None" if "strict_prefix y a" for y
  proof -
    have "y \<notin> T" using that assms(2,3) by (auto simp: prefix_free_def)
    then show ?thesis using that assms(1,5) by (simp add: near_def)
  qed
  ultimately show ?thesis by (auto simp: write_file_def list_ex_iff proper_prefixes_strict)
qed

lemma apply_one_succeeds:
  assumes "fresh_txn tid p" "near T (with_txn p tid d) q" "staged_op H p d op change"
    and "writable p (fst change)" "target (fst change) \<in> T" "prefix_free T" "\<And>s r. \<not> th_hook_fails H s r"
  shows "run_result (apply_one H tid op q) = Inr ()"
proof -
  let ?a = "target (fst change)"
  have sp: "safe_path q (to_relative op) = Inr (to_relative op, ?a)"
    using near_safe_path [OF assms(2)] staged_op_target [OF assms(3)] by simp
  have rb: "read_blob tid (Some b) q = td_blobs d b" for b
    using near_blob [OF assms(2)] assms(1) by simp
  have hook: "hook H s r x = ([], x, Inr ())" for s r x
    using assms(7) by (simp add: hook_def run_return_def)
  from assms(3) have w: "to_write op = (snd change \<noteq> None)"
    "\<And>c. snd change = Some c \<Longrightarrow> to_staged_sha256 op = th_sha256 H c \<and>
       (\<exists>b. to_staged op = Some b \<and> td_blobs d b = Some c)"
    by (auto simp: staged_op_def)
  have wf: "\<exists>q'. write_file ?a c q = Inr q'" for c
    using write_file_allowed [OF assms(2,6,5)] assms(4) by (simp add: writable_def)
  show ?thesis
  proof (cases "snd change")
    case None
    then show ?thesis using sp w(1) hook
      by (simp add: apply_one_def apply_change_def run_bind_def run_return_def atomic_def remove_file_def)
  next
    case (Some c)
    with w obtain b where "to_write op" "to_staged_sha256 op = th_sha256 H c" "to_staged op = Some b"
      "read_blob tid (to_staged op) q = Some c" using rb by auto
    moreover obtain q' where "write_file ?a c q = Inr q'" using wf by blast
    ultimately show ?thesis using sp hook
      by (simp add: apply_one_def apply_change_def run_bind_def atomic_def)
  qed
qed

lemma apply_all_succeeds:
  assumes "fresh_txn tid p" "list_all2 (staged_op H p d) ops repl" "targets repl \<subseteq> T" "prefix_free T"
    and "\<And>s r. \<not> th_hook_fails H s r"
  shows "near T (with_txn p tid d) q \<Longrightarrow> \<forall>change \<in> set repl. writable p (fst change) \<Longrightarrow>
    run_result (run_each (apply_one H tid) ops q) = Inr ()"
  using assms(2,3)
proof (induction arbitrary: q rule: list_all2_induct)
  case Nil
  then show ?case by (simp add: run_return_def)
next
  case (Cons op ops change repl)
  let ?r = "apply_one H tid op q"
  have t: "target (fst change) \<in> T" using Cons.prems(3) by (simp add: targets_def)
  have r: "run_result ?r = Inr ()"
    using apply_one_succeeds [OF assms(1) Cons.prems(1) Cons.hyps(1) _ t assms(4,5)] Cons.prems(2) by simp
  have "operation_target (with_txn p tid d) T op"
    using staged_op_target [OF Cons.hyps(1)] t by (simp add: operation_target_def)
  then have n: "near T (with_txn p tid d) (run_final ?r)"
    using Cons.prems(1) near_trans near.related_final related_apply_one by blast
  have "run_result (run_each (apply_one H tid) ops (run_final ?r)) = Inr ()"
    using Cons.IH [OF n] Cons.prems(2,3) by (simp add: targets_def)
  with r show ?case by (simp add: run_bind_result)
qed

lemma commit_body_succeeds:
  assumes "run_result (run_each (apply_one H tid) ops p1) = Inr ()" "\<And>s r. \<not> th_hook_fails H s r"
  shows "run_result (commit_body H tid ops p1) = Inr ()"
  using assms by (simp add: commit_body_def run_bind_result hook_def run_return_def atomic_def write_journal_def)

lemma apply_transaction_succeeds:
  assumes "fresh_txn tid p" "prefix_free (targets repl)" "applicable H p repl" "\<And>s r. \<not> th_hook_fails H s r"
  shows "run_result (apply_transaction H tid repl p) = Inr tid"
proof -
  let ?e = "\<lparr>td_journal = None, td_blobs = Map.empty\<rparr>"
  have "\<exists>ops. run_result (stage_all H tid 0 [] repl (with_txn p tid ?e)) = Inr ops"
    using assms(3) by (intro stage_all_succeeds [OF assms(1)]) (auto simp: applicable_def)
  then obtain ops where all: "run_result (stage_all H tid 0 [] repl (with_txn p tid ?e)) = Inr ops" ..
  have nf: "tid \<notin> set (map fst (pr_txns p))" using assms(1) by (simp add: fresh_txn_def)
  have ok: "run_result (stage H tid repl p) = Inr ops"
    unfolding stage_def if_not_P [OF nf]
    by (simp add: run_bind_result atomic_def make_directory_fresh write_journal_def run_return_def all)
  from stage_ok(3) [OF assms(1) ok] obtain d where d: "run_final (stage H tid repl p) = with_txn p tid d"
    "td_journal d = Some (journal_of TxnPrepared ops)" "list_all2 (staged_op H p d) ops repl"
    by (elim exE conjE) (rule that)
  have v: "list_all (original_unchanged H (with_txn p tid d)) ops"
    using d(3) by (rule staged_all_unchanged)
  let ?d1 = "d\<lparr>td_journal := Some (journal_of TxnCommitting ops)\<rparr>"
  have st: "list_all2 (staged_op H p ?d1) ops repl" using d(3) staged_op_blobs [of ?d1 d H p] by simp
  have "run_result (run_each (apply_one H tid) ops (with_txn p tid ?d1)) = Inr ()"
    using apply_all_succeeds [OF assms(1) st subset_refl assms(2,4) near_refl] assms(3)
    by (simp add: applicable_def)
  then have body: "run_result (commit_body H tid ops (with_txn p tid ?d1)) = Inr ()"
    by (rule commit_body_succeeds) (rule assms(4))
  have w: "write_journal tid (journal_of TxnCommitting ops) (with_txn p tid d) = Inr (with_txn p tid ?d1)"
    using assms(1) by (simp add: write_journal_def)
  have "run_result (commit_verified H tid ops (with_txn p tid d)) = Inr ()"
    using body w by (simp add: commit_verified_def run_bind_result run_catch_result atomic_def remove_tree_def)
  then show ?thesis using d(1) ok v
    by (simp add: apply_transaction_def run_bind_result run_catch_result verify_originals_def run_return_def)
qed

end
