(* ===== verification/Mutation_Properties.thy ===== *)
theory Mutation_Properties
  imports Mutation_Recovery
begin

text \<open>
  What a project mutation promises, on the model of \<^verbatim>\<open>core/vnext/mutation.py\<close>: it is all or
  nothing, it makes an applicable change, and it recovers from crashes; and the two places
  where the code stops short of that.
\<close>

section \<open>A sample project\<close>

definition sample_project :: project where
  "sample_project = \<lparr>pr_files = [[''main.py''] \<mapsto> ''old''], pr_dirs = (\<lambda>x. x = []),
     pr_outside = (\<lambda>x. False), pr_txns = []\<rparr>"

definition sample_host :: "(hook_stage \<Rightarrow> string \<Rightarrow> bool) \<Rightarrow> txn_host" where
  "sample_host fails = \<lparr>th_sha256 = id, th_normcase = id, th_hook_fails = fails\<rparr>"

definition quiet_host :: txn_host where
  "quiet_host = sample_host (\<lambda>s r. False)"

definition marker_fails_host :: txn_host where
  "marker_fails_host = sample_host (\<lambda>s r. s = BeforeCommitMarker)"

definition sample_change :: replacements where
  "sample_change = [(''main.py'', Some ''new''), (''lib/b.py'', Some ''b''), (''lib/c.py'', None)]"

lemma strict_prefix_single: "strict_prefix y [x] \<longleftrightarrow> y = []"
  by (cases y) (auto simp: strict_prefix_def)

lemma strict_prefix_pair: "strict_prefix y [x, z] \<longleftrightarrow> y = [] \<or> y = [x]"
  by (cases y) (auto simp: strict_prefix_def Cons_prefix_Cons prefix_Cons)

lemma sample_targets:
  "target ''main.py'' = [''main.py'']" "target ''lib/b.py'' = [''lib'', ''b.py'']"
  "target ''lib/c.py'' = [''lib'', ''c.py'']"
  by code_simp+

lemma sample_atomic_change: "atomic_change sample_project sample_change"
  by (auto simp: atomic_change_def tree_ok_def prefix_free_def targets_def sample_change_def
      sample_project_def sample_targets strict_prefix_single strict_prefix_pair)

lemma sample_fresh: "fresh_txn tid sample_project"
  by (simp add: fresh_txn_def sample_project_def)

lemma sample_applicable: "applicable quiet_host sample_project sample_change"
proof -
  have "safe_path sample_project ''main.py'' = Inr (''main.py'', target ''main.py'')"
    "safe_path sample_project ''lib/b.py'' = Inr (''lib/b.py'', target ''lib/b.py'')"
    "safe_path sample_project ''lib/c.py'' = Inr (''lib/c.py'', target ''lib/c.py'')"
    by code_simp+
  moreover have "distinct (map (\<lambda>change. th_normcase quiet_host (normalize_relative (fst change))) sample_change)"
    by code_simp
  ultimately show ?thesis
    unfolding applicable_def writable_def sample_change_def
    by (auto simp: sample_targets sample_project_def strict_prefix_single strict_prefix_pair)
qed

section \<open>Properties\<close>

text \<open>C13. A mutation is all or nothing: when it raises, whatever the reason (an invalid path, a
  changed original, a failing write, a failing hook), every file is as before; when it
  returns, every replacement is made. Either way its transaction directory is gone. The
  project's files and directories are consistent, and no target lies below another.\<close>

theorem transaction_all_or_nothing:
  assumes "fresh_txn tid p" "atomic_change p repl"
  shows "case run_result (apply_transaction H tid repl p) of
      Inl e \<Rightarrow> pr_files (run_final (apply_transaction H tid repl p)) = pr_files p \<and>
        pr_txns (run_final (apply_transaction H tid repl p)) = pr_txns p
    | Inr t \<Rightarrow> t = tid \<and> pr_files (run_final (apply_transaction H tid repl p)) = replaced repl (pr_files p) \<and>
        pr_txns (run_final (apply_transaction H tid repl p)) = pr_txns p"
  using apply_transaction_ok [OF assms, of H] by auto

theorem transaction_all_or_nothing_witness:
  "case run_result (apply_transaction marker_fails_host ''txn_1'' sample_change sample_project) of
      Inl e \<Rightarrow> pr_files (run_final (apply_transaction marker_fails_host ''txn_1'' sample_change sample_project)) =
          pr_files sample_project \<and>
        pr_txns (run_final (apply_transaction marker_fails_host ''txn_1'' sample_change sample_project)) =
          pr_txns sample_project
    | Inr t \<Rightarrow> t = ''txn_1'' \<and>
        pr_files (run_final (apply_transaction marker_fails_host ''txn_1'' sample_change sample_project)) =
          replaced sample_change (pr_files sample_project) \<and>
        pr_txns (run_final (apply_transaction marker_fails_host ''txn_1'' sample_change sample_project)) =
          pr_txns sample_project"
  by (rule transaction_all_or_nothing [OF sample_fresh sample_atomic_change])




text \<open>The eighth state of the sample run, in the middle of applying it.\<close>

definition sample_crash :: project where
  "sample_crash = fst (apply_transaction quiet_host ''txn_1'' sample_change sample_project) ! 7"

lemma sample_crash_state:
  "crashed quiet_host ''txn_1'' sample_change sample_project sample_crash"
  "map (\<lambda>(t, d). map_option tj_state (td_journal d)) (pr_txns sample_crash) = [Some TxnCommitting]"
  "pr_files sample_crash [''main.py''] = Some ''new''"
  "pr_files sample_crash [''lib'', ''b.py''] = None"
proof -
  have "7 < length (fst (apply_transaction quiet_host ''txn_1'' sample_change sample_project))" by code_simp
  then have "sample_crash \<in> run_states (apply_transaction quiet_host ''txn_1'' sample_change sample_project)"
    unfolding sample_crash_def run_states_def by (auto split: prod.split intro: nth_mem)
  then show "crashed quiet_host ''txn_1'' sample_change sample_project sample_crash" by (rule crashed_apply)
  show "map (\<lambda>(t, d). map_option tj_state (td_journal d)) (pr_txns sample_crash) = [Some TxnCommitting]"
    "pr_files sample_crash [''main.py''] = Some ''new''"
    "pr_files sample_crash [''lib'', ''b.py''] = None" by code_simp+
qed


section \<open>Where recovery stops short\<close>

text \<open>A step that follows passes the state it starts in, so no state of a run is lost.\<close>

lemma passes_bind:
  "s \<in> run_states r \<Longrightarrow> (\<And>x q. q \<in> run_states (f x q)) \<Longrightarrow> s \<in> run_states (run_bind r f)"
proof (cases r)
  case (fields tr q res)
  assume *: "s \<in> run_states r" "\<And>x q. q \<in> run_states (f x q)"
  show ?thesis
  proof (cases res)
    case (Inr x)
    obtain tr' q' res' where "f x q = (tr', q', res')" by (cases "f x q")
    with *(1) *(2) [of q x] fields Inr show ?thesis by (auto simp: run_bind_def)
  qed (use *(1) fields in \<open>simp add: run_bind_def\<close>)
qed

lemma passes_catch:
  "s \<in> run_states r \<Longrightarrow> (\<And>e q. q \<in> run_states (h e q)) \<Longrightarrow> s \<in> run_states (run_catch r h)"
proof (cases r)
  case (fields tr q res)
  assume *: "s \<in> run_states r" "\<And>e q. q \<in> run_states (h e q)"
  show ?thesis
  proof (cases res)
    case (Inl e)
    obtain tr' q' res' where "h e q = (tr', q', res')" by (cases "h e q")
    with *(1) *(2) [of q e] fields Inl show ?thesis by (auto simp: run_catch_def)
  qed (use *(1) fields in \<open>simp add: run_catch_def\<close>)
qed

lemma passes_basic:
  "p \<in> run_states (run_return x p)" "p \<in> run_states (run_raise e p)" "p \<in> run_states (atomic f p)"
  "p \<in> run_states (hook H st r p)" "p \<in> run_states (verify_originals H ops p)"
  by (auto simp: run_return_def run_raise_def atomic_def hook_def verify_originals_def split: sum.split)

lemmas passes_intros = passes_bind passes_catch passes_basic

lemma passes_each: "(\<And>x q. q \<in> run_states (f x q)) \<Longrightarrow> p \<in> run_states (run_each f xs p)"
  by (induction xs arbitrary: p) (auto intro!: passes_intros)

lemma passes_steps:
  "p \<in> run_states (stage_one H tid order n a c p)" "p \<in> run_states (apply_one H tid op p)"
  "p \<in> run_states (restore_one tid op p)"
  by (auto simp: stage_one_def apply_one_def apply_change_def restore_one_def Let_def
      intro!: passes_intros split: option.split sum.split)

lemma passes_stage_all: "p \<in> run_states (stage_all H tid order seen repl p)"
  by (induction repl arbitrary: order seen p)
    (auto intro!: passes_intros passes_steps split: sum.split)

lemma passes_commit: "p \<in> run_states (commit_verified H tid ops p)"
  unfolding commit_verified_def commit_body_def roll_back_def restore_def
  by (intro passes_intros passes_each passes_steps)

text \<open>C16. The journal is written only when staging is complete, so every mutation passes a state
  that recovery refuses: the directory exists without a journal, recovery raises, and the
  project cannot be opened although no file of it was changed.\<close>

theorem staging_crash_blocks_recovery:
  assumes "pr_txns p = []"
  shows "\<exists>s \<in> run_states (apply_transaction H tid repl p).
    pr_files s = pr_files p \<and> run_result (recover s) = Inl WorkspaceError"
proof -
  let ?s = "with_txn p tid \<lparr>td_journal = None, td_blobs = Map.empty\<rparr>"
  have mk: "atomic (make_directory tid) p = ([p], ?s, Inr ())"
    by (simp add: atomic_def make_directory_fresh)
  have stage: "?s \<in> run_states (stage H tid repl p)"
    if "tid \<notin> set (map fst (pr_txns p))"
    unfolding stage_def if_not_P [OF that] using mk
    by (intro passes_bind passes_stage_all passes_intros) simp_all
  have "tid \<notin> set (map fst (pr_txns p))" using assms by simp
  then have "?s \<in> run_states (apply_transaction H tid repl p)"
    unfolding apply_transaction_def
    by (intro passes_bind passes_catch stage passes_commit passes_intros)
  moreover have "recover ?s = ([], ?s, Inl WorkspaceError)"
    by (rule recover_staging [OF assms, where tid = tid]) (simp add: staging_statesI)
  ultimately show ?thesis by (intro bexI [of _ ?s]) auto
qed

theorem staging_crash_blocks_recovery_witness:
  "\<exists>s \<in> run_states (apply_transaction quiet_host ''txn_1'' sample_change sample_project).
    pr_files s = pr_files sample_project \<and> run_result (recover s) = Inl WorkspaceError"
  by (rule staging_crash_blocks_recovery) (simp add: sample_project_def)

text \<open>
  Replacing a file by a directory is not undone: once \<^verbatim>\<open>a/b\<close> was written the directory \<^verbatim>\<open>a\<close>
  stands where the file \<^verbatim>\<open>a\<close> was, the rollback fails, and so does every later recovery.
\<close>

definition directory_change :: replacements where
  "directory_change = [(''main.py'', None), (''main.py/b'', Some ''b'')]"

lemma directory_change_not_rolled_back:
  "run_result (apply_transaction marker_fails_host ''txn_1'' directory_change sample_project) = Inl OperatingSystemError"
  "pr_files (run_final (apply_transaction marker_fails_host ''txn_1'' directory_change sample_project)) [''main.py''] = None"
  "run_result (recover (run_final (apply_transaction marker_fails_host ''txn_1'' directory_change sample_project))) =
    Inl WorkspaceError"
  by code_simp+

text \<open>The guard on the transaction directory compares names, not the paths they resolve to.\<close>

lemma guard_on_names:
  "safe_path sample_project ''.easycode/transactions/t/journal.json'' = Inl WorkspaceError"
  "safe_path sample_project ''.easycode/./transactions/t/journal.json'' =
    Inr (''.easycode/./transactions/t/journal.json'', [''.easycode'', ''transactions'', ''t'', ''journal.json''])"
  by code_simp+

text \<open>
  A recovery that is interrupted inside the removal of the directory may have lost the
  backups while the journal still says \<^verbatim>\<open>committing\<close>; the next recovery then fails.
\<close>

definition without_backups :: "project \<Rightarrow> project" where
  "without_backups p = p\<lparr>pr_txns := map (\<lambda>(t, d). (t, d\<lparr>td_blobs := Map.empty\<rparr>)) (pr_txns p)\<rparr>"

lemma torn_removal_blocks_recovery:
  "run_result (recover (without_backups sample_crash)) = Inl WorkspaceError"
  by code_simp

end
