(* ===== verification/Graph_Model.thy ===== *)
theory Graph_Model
  imports Program_Json "HOL-Library.Monad_Syntax"
begin

text \<open>
  The graphs the runtime finds its way in: \<^verbatim>\<open>core/graph/builder.py\<close> and
  \<^verbatim>\<open>core/graph/pathfinder.py\<close>, with the parts of \<^verbatim>\<open>core/models.py\<close> they read.

  A dictionary of lists that yields an empty list for a missing key is a function; a set
  is a set; the order in which the code walks a set is a parameter. Identifiers inside
  dictionaries are text, and a value that is no text counts as missing.
\<close>

section \<open>Nodes, edges and maps\<close>

type_synonym json_fields = "(string \<times> json) list"

record graph_edge =
  ge_edge_id :: string
  ge_source_node :: string
  ge_target_node :: string
  ge_source_port :: string
  ge_source_port_id :: string
  ge_label :: string
  ge_canvas :: string
  ge_routing :: json_fields

definition edge_to_dict :: "graph_edge \<Rightarrow> json_fields" where
  "edge_to_dict e =
     [(''edge_id'', JString (ge_edge_id e)), (''source_node'', JString (ge_source_node e)),
      (''target_node'', JString (ge_target_node e)), (''source_port'', JString (ge_source_port e)),
      (''source_port_id'', JString (if ge_source_port_id e \<noteq> [] then ge_source_port_id e else ge_source_port e)),
      (''label'', JString (ge_label e)), (''canvas'', JString (ge_canvas e))] @
     (if ge_routing e \<noteq> [] then [(''routing'', JObject (ge_routing e))] else [])"

record graph_node =
  gn_node_id :: string
  gn_node_type :: string
  gn_params :: json_fields

record graph_task =
  gt_task_id :: string
  gt_nodes :: "graph_node list"

record topology_map =
  tm_tasks :: "graph_task list"
  tm_edges :: "json_fields list"

definition text_field :: "string \<Rightarrow> json_fields \<Rightarrow> string" where
  "text_field k fs = (case map_of fs k of Some (JString s) \<Rightarrow> s | _ \<Rightarrow> [])"

definition node_page_id :: "graph_node \<Rightarrow> string" where
  "node_page_id n = text_field ''page_id'' (gn_params n)"

definition iter_nodes :: "topology_map \<Rightarrow> graph_node list" where
  "iter_nodes tm = concat (map gt_nodes (tm_tasks tm))"

definition or_else :: "string \<Rightarrow> string \<Rightarrow> string" where
  "or_else a b = (if a \<noteq> [] then a else b)"

definition resolve_page :: "topology_map \<Rightarrow> string \<Rightarrow> string" where
  "resolve_page tm ref =
     (if ref = [] then []
      else case find (\<lambda>n. gn_node_id n = ref) (iter_nodes tm) of
             Some n \<Rightarrow> or_else (node_page_id n) ref
           | None \<Rightarrow> ref)"

definition get_node_by_page :: "topology_map \<Rightarrow> string \<Rightarrow> graph_node option" where
  "get_node_by_page tm page = find (\<lambda>n. node_page_id n = page) (iter_nodes tm)"

definition get_neighbors :: "topology_map \<Rightarrow> string \<Rightarrow> (json_fields \<times> graph_node option) list" where
  "get_neighbors tm page =
     map (\<lambda>e. (e, get_node_by_page tm (resolve_page tm (text_field ''target_node'' e))))
       (filter (\<lambda>e. resolve_page tm (text_field ''source_node'' e) = page) (tm_edges tm))"

section \<open>Adjacency graphs\<close>

type_synonym out_edge = "string \<times> string option \<times> json_fields"

record adjacency_graph =
  ag_node_index :: "string \<Rightarrow> nat option"
  ag_adjacency :: "string \<Rightarrow> out_edge list"
  ag_reverse :: "string \<Rightarrow> string list"
  ag_all_nodes :: "string set"
  ag_task_nodes :: "string \<Rightarrow> string list"

definition empty_graph :: adjacency_graph where
  "empty_graph = \<lparr>ag_node_index = Map.empty, ag_adjacency = (\<lambda>_. []), ag_reverse = (\<lambda>_. []),
     ag_all_nodes = {}, ag_task_nodes = (\<lambda>_. [])\<rparr>"

definition add_node :: "string \<Rightarrow> nat \<Rightarrow> string \<Rightarrow> adjacency_graph \<Rightarrow> adjacency_graph" where
  "add_node n i task g =
     g\<lparr>ag_node_index := (ag_node_index g)(n \<mapsto> i), ag_all_nodes := insert n (ag_all_nodes g),
       ag_task_nodes := (if task \<noteq> [] then (ag_task_nodes g)(task := ag_task_nodes g task @ [n]) else ag_task_nodes g)\<rparr>"

definition add_edge :: "string \<Rightarrow> string \<Rightarrow> string option \<Rightarrow> json_fields \<Rightarrow> adjacency_graph \<Rightarrow> adjacency_graph" where
  "add_edge s t task e g =
     g\<lparr>ag_adjacency := (ag_adjacency g)(s := ag_adjacency g s @ [(t, task, e)]),
       ag_reverse := (ag_reverse g)(t := ag_reverse g t @ [s]),
       ag_all_nodes := insert t (insert s (ag_all_nodes g))\<rparr>"

definition get_out_edges :: "adjacency_graph \<Rightarrow> string \<Rightarrow> out_edge list" where
  "get_out_edges g n = ag_adjacency g n"

definition get_target_index :: "adjacency_graph \<Rightarrow> string \<Rightarrow> nat option" where
  "get_target_index g n = ag_node_index g n"

definition has_node :: "adjacency_graph \<Rightarrow> string \<Rightarrow> bool" where
  "has_node g n \<longleftrightarrow> n \<in> ag_all_nodes g"

section \<open>Building graphs\<close>

definition add_workflow_edge :: "string \<Rightarrow> graph_edge \<Rightarrow> adjacency_graph \<Rightarrow> adjacency_graph" where
  "add_workflow_edge task e g =
     (if ge_canvas e \<noteq> ''workflow'' then g
      else if ag_node_index g (ge_source_node e) \<noteq> None
        then add_edge (ge_source_node e) (ge_target_node e) (Some task) (edge_to_dict e) g
        else g)"

definition task_graph :: "graph_edge list \<Rightarrow> string \<Rightarrow> graph_node list \<Rightarrow> adjacency_graph" where
  "task_graph edges task nodes =
     fold (add_workflow_edge task) edges
       (fold (\<lambda>(i, n). add_node (gn_node_id n) i task) (enumerate 0 nodes) empty_graph)"

text \<open>The dictionary of the project's tasks, in its order.\<close>

definition build_from_project ::
  "(string \<times> graph_task) list \<Rightarrow> graph_edge list \<Rightarrow> (string \<times> adjacency_graph) list" where
  "build_from_project tasks edges = map (\<lambda>(tid, t). (tid, task_graph edges tid (gt_nodes t))) tasks"

definition is_popup_node :: "graph_node \<Rightarrow> bool" where
  "is_popup_node n \<longleftrightarrow> gn_node_type n = ''page_state'' \<and>
     (case map_of (gn_params n) ''is_random_popup'' of None \<Rightarrow> False | Some v \<Rightarrow> json_truthy v)"

definition is_popup_task :: "graph_task \<Rightarrow> bool" where
  "is_popup_task t = list_ex is_popup_node (gt_nodes t)"

definition setdefault :: "string \<Rightarrow> json \<Rightarrow> json_fields \<Rightarrow> json_fields" where
  "setdefault k v fs = (if map_of fs k = None then fs @ [(k, v)] else fs)"

definition edge_payload :: "json_fields \<Rightarrow> json_fields" where
  "edge_payload e =
     (let get = (\<lambda>k d. case map_of e k of None \<Rightarrow> d | Some v \<Rightarrow> v)
      in setdefault ''conditions'' (get ''conditions'' (JList []))
           (setdefault ''action'' (get ''action'' (JString [])) e))"

definition popup_node_ids :: "topology_map \<Rightarrow> string set" where
  "popup_node_ids tm = set (map gn_node_id (filter is_popup_node (iter_nodes tm)))"

definition page_key :: "graph_node \<Rightarrow> string" where
  "page_key n = or_else (node_page_id n) (gn_node_id n)"

text \<open>The nodes of the main graph with their index, and their page keys (a later node wins).\<close>

definition main_nodes :: "topology_map \<Rightarrow> (nat \<times> graph_node) list" where
  "main_nodes tm = filter (\<lambda>(i, n). gn_node_id n \<notin> popup_node_ids tm) (enumerate 0 (iter_nodes tm))"

definition page_keys :: "graph_node list \<Rightarrow> string \<Rightarrow> string option" where
  "page_keys nodes = map_of (rev (map (\<lambda>n. (gn_node_id n, page_key n)) nodes))"

definition endpoint_page :: "topology_map \<Rightarrow> (string \<Rightarrow> string option) \<Rightarrow> string \<Rightarrow> string" where
  "endpoint_page tm keys ref =
     or_else (case keys ref of None \<Rightarrow> [] | Some k \<Rightarrow> k) (resolve_page tm ref)"

definition add_topology_edge ::
  "topology_map \<Rightarrow> (string \<Rightarrow> string option) \<Rightarrow> json_fields \<Rightarrow> adjacency_graph \<Rightarrow> adjacency_graph" where
  "add_topology_edge tm keys e g =
     (let src = text_field ''source_node'' e; tgt = text_field ''target_node'' e;
          source_page = endpoint_page tm keys src; target_page = endpoint_page tm keys tgt
      in if src \<in> popup_node_ids tm \<or> tgt \<in> popup_node_ids tm then g
         else if source_page = [] \<or> target_page = [] then g
         else add_edge source_page target_page None (edge_payload e) g)"

definition build_topology_graph :: "topology_map \<Rightarrow> adjacency_graph" where
  "build_topology_graph tm =
     fold (add_topology_edge tm (page_keys (map snd (main_nodes tm)))) (tm_edges tm)
       (fold (\<lambda>(i, n). add_node (page_key n) i ''topology'') (main_nodes tm) empty_graph)"

definition add_popup_edge :: "(string \<Rightarrow> string option) \<Rightarrow> json_fields \<Rightarrow> adjacency_graph \<Rightarrow> adjacency_graph" where
  "add_popup_edge keys e g =
     (case (keys (text_field ''source_node'' e), keys (text_field ''target_node'' e)) of
        (Some s, Some t) \<Rightarrow> add_edge s t None (edge_payload e) g
      | _ \<Rightarrow> g)"

definition popup_graph :: "topology_map \<Rightarrow> graph_task \<Rightarrow> adjacency_graph" where
  "popup_graph tm t =
     fold (add_popup_edge (page_keys (gt_nodes t))) (tm_edges tm)
       (fold (\<lambda>(i, n). add_node (page_key n) i (gt_task_id t)) (enumerate 0 (gt_nodes t)) empty_graph)"

text \<open>A dictionary by task: a later task with the same identifier replaces the graph in place.\<close>

definition build_popup_graphs :: "topology_map \<Rightarrow> string \<Rightarrow> adjacency_graph option" where
  "build_popup_graphs tm =
     map_of (rev (map (\<lambda>t. (gt_task_id t, popup_graph tm t)) (filter is_popup_task (tm_tasks tm))))"

section \<open>Finding a path\<close>

record path_result =
  path_success :: bool
  path_nodes :: "string list"
  path_edges :: "json_fields list"

definition path_failure :: path_result where
  "path_failure = \<lparr>path_success = False, path_nodes = [], path_edges = []\<rparr>"

definition path_found :: "string list \<Rightarrow> json_fields list \<Rightarrow> path_result" where
  "path_found p es = \<lparr>path_success = True, path_nodes = p, path_edges = es\<rparr>"

definition max_search_depth :: nat where
  "max_search_depth = 100"

type_synonym queue_entry = "string \<times> string list \<times> json_fields list"

text \<open>The edges out of one entry of the queue: the result, or the entries to append.\<close>

fun scan_edges ::
  "(json_fields \<Rightarrow> bool) \<Rightarrow> string set \<Rightarrow> string \<Rightarrow> string list \<Rightarrow> json_fields list \<Rightarrow> out_edge list \<Rightarrow> string set \<Rightarrow>
   path_result + queue_entry list \<times> string set" where
  "scan_edges admit avoid target path eds [] visited = Inr ([], visited)"
| "scan_edges admit avoid target path eds ((t, task, e) # rest) visited =
     (if t \<in> avoid then scan_edges admit avoid target path eds rest visited
      else if t \<in> visited then scan_edges admit avoid target path eds rest visited
      else if \<not> admit e then scan_edges admit avoid target path eds rest visited
      else if t = target then Inl (path_found (path @ [t]) (eds @ [e]))
      else case scan_edges admit avoid target path eds rest (insert t visited) of
             Inl r \<Rightarrow> Inl r
           | Inr (new, visited') \<Rightarrow> Inr ((t, path @ [t], eds @ [e]) # new, visited'))"

fun search_level ::
  "adjacency_graph \<Rightarrow> (json_fields \<Rightarrow> bool) \<Rightarrow> string set \<Rightarrow> string \<Rightarrow> nat \<Rightarrow> queue_entry list \<Rightarrow> string set \<Rightarrow>
   path_result + queue_entry list \<times> string set" where
  "search_level g admit avoid target (Suc n) ((current, path, eds) # queue) visited =
     (case scan_edges admit avoid target path eds (get_out_edges g current) visited of
        Inl r \<Rightarrow> Inl r
      | Inr (new, visited') \<Rightarrow> search_level g admit avoid target n (queue @ new) visited')"
| "search_level g admit avoid target _ queue visited = Inr (queue, visited)"

text \<open>The outer loop, with the depth that is left.\<close>

fun search_depths ::
  "adjacency_graph \<Rightarrow> (json_fields \<Rightarrow> bool) \<Rightarrow> string set \<Rightarrow> string \<Rightarrow> nat \<Rightarrow> queue_entry list \<Rightarrow> string set \<Rightarrow> path_result" where
  "search_depths g admit avoid target 0 queue visited = path_failure"
| "search_depths g admit avoid target (Suc depth) queue visited =
     (if queue = [] then path_failure
      else case search_level g admit avoid target (length queue) queue visited of
             Inl r \<Rightarrow> r
           | Inr (queue', visited') \<Rightarrow> search_depths g admit avoid target depth queue' visited')"

definition find_path_with_conditions ::
  "(json_fields \<Rightarrow> bool) option \<Rightarrow> adjacency_graph \<Rightarrow> string \<Rightarrow> string \<Rightarrow> string set \<Rightarrow> path_result" where
  "find_path_with_conditions checker g source target avoid =
     (if \<not> has_node g source \<or> \<not> has_node g target then path_failure
      else if source = target then path_found [source] []
      else search_depths g (case checker of None \<Rightarrow> (\<lambda>_. True) | Some c \<Rightarrow> c) avoid target
             max_search_depth [(source, [source], [])] {source})"

definition find_shortest_path :: "adjacency_graph \<Rightarrow> string \<Rightarrow> string \<Rightarrow> string set \<Rightarrow> path_result" where
  "find_shortest_path g source target avoid =
     (if \<not> has_node g source \<or> \<not> has_node g target then path_failure
      else if source = target then path_found [source] []
      else search_depths g (\<lambda>_. True) avoid target max_search_depth [(source, [source], [])] {source})"

section \<open>Reachable nodes and cycles\<close>

fun mark_new :: "out_edge list \<Rightarrow> string set \<Rightarrow> string list \<times> string set" where
  "mark_new [] visited = ([], visited)"
| "mark_new ((t, task, e) # rest) visited =
     (if t \<in> visited then mark_new rest visited
      else case mark_new rest (insert t visited) of (new, visited') \<Rightarrow> (t # new, visited'))"

text \<open>A loop until the queue is empty; not returning is \<^verbatim>\<open>None\<close>.\<close>

partial_function (option) reach_loop :: "adjacency_graph \<Rightarrow> string list \<Rightarrow> string set \<Rightarrow> string set option" where
  "reach_loop g queue visited =
     (case queue of
        [] \<Rightarrow> Some visited
      | current # rest \<Rightarrow>
          (case mark_new (get_out_edges g current) visited of
             (new, visited') \<Rightarrow> reach_loop g (rest @ new) visited'))"

definition find_all_reachable :: "adjacency_graph \<Rightarrow> string \<Rightarrow> string set option" where
  "find_all_reachable g source =
     (if \<not> has_node g source then Some {}
      else map_option (\<lambda>visited. visited - {source}) (reach_loop g [source] {source}))"

datatype color = White | Gray | Black

type_synonym dfs_state = "(string \<Rightarrow> color) \<times> (string \<Rightarrow> string option)"

text \<open>
  The recursion of \<^verbatim>\<open>dfs\<close> is limited by the depth of the interpreter's stack, which is its
  fuel. The walk back along the parents is a loop that might not end.
\<close>

datatype dfs_result = NoCycle | Cycle "string list" | RecursionLimit | Diverges

partial_function (option) parent_chain :: "(string \<Rightarrow> string option) \<Rightarrow> string \<Rightarrow> string \<Rightarrow> string list option" where
  "parent_chain parent target v =
     (if v = target then Some []
      else case parent v of
             None \<Rightarrow> Some []
           | Some p \<Rightarrow> Option.bind (parent_chain parent target p) (\<lambda>c. Some (v # c)))"

definition cycle_through :: "(string \<Rightarrow> string option) \<Rightarrow> string \<Rightarrow> string \<Rightarrow> dfs_result" where
  "cycle_through parent target node =
     (case parent_chain parent target node of
        None \<Rightarrow> Diverges
      | Some c \<Rightarrow> Cycle (rev (target # c @ [target])))"

function (sequential) dfs :: "adjacency_graph \<Rightarrow> nat \<Rightarrow> string \<Rightarrow> dfs_state \<Rightarrow> dfs_state \<times> dfs_result"
and dfs_edges :: "adjacency_graph \<Rightarrow> nat \<Rightarrow> string \<Rightarrow> string list \<Rightarrow> dfs_state \<Rightarrow> dfs_state \<times> dfs_result" where
  "dfs g 0 n st = (st, RecursionLimit)"
| "dfs g (Suc k) n (col, par) = dfs_edges g k n (map fst (get_out_edges g n)) (col(n := Gray), par)"
| "dfs_edges g k n [] (col, par) = ((col(n := Black), par), NoCycle)"
| "dfs_edges g k n (t # ts) (col, par) =
     (if col t = Gray then ((col, par), cycle_through par t n)
      else if col t = White then
        (case dfs g k t (col, par(t \<mapsto> n)) of
           (st, NoCycle) \<Rightarrow> dfs_edges g k n ts st
         | (st, Cycle c) \<Rightarrow> (st, Cycle c)
         | (st, RecursionLimit) \<Rightarrow> (st, RecursionLimit)
         | (st, Diverges) \<Rightarrow> (st, Diverges))
      else dfs_edges g k n ts (col, par))"
  by pat_completeness auto
termination
  by (relation "measures [\<lambda>x. case x of Inl (g, k, n, st) \<Rightarrow> 2 * k | Inr (g, k, n, ts, st) \<Rightarrow> 2 * k + 1,
      \<lambda>x. case x of Inl (g, k, n, st) \<Rightarrow> 0 | Inr (g, k, n, ts, st) \<Rightarrow> length ts]") auto

text \<open>The nodes are walked in the order the set yields them.\<close>

fun dfs_roots :: "adjacency_graph \<Rightarrow> nat \<Rightarrow> string list \<Rightarrow> dfs_state \<Rightarrow> dfs_result" where
  "dfs_roots g k [] st = NoCycle"
| "dfs_roots g k (n # ns) (col, par) =
     (if col n = White then
        (case dfs g k n (col, par) of
           (st, NoCycle) \<Rightarrow> dfs_roots g k ns st
         | (st, r) \<Rightarrow> r)
      else dfs_roots g k ns (col, par))"

definition detect_cycle :: "nat \<Rightarrow> string list \<Rightarrow> adjacency_graph \<Rightarrow> dfs_result" where
  "detect_cycle limit order g = dfs_roots g limit order (\<lambda>_. White, Map.empty)"

end
