(* ===== verification/Graph_Search.thy ===== *)
theory Graph_Search
  imports Graph_Model
begin

text \<open>
  The searches of \<^verbatim>\<open>Graph_Model\<close>: routes and balls around a node in a graph given by its
  successor function (a locale the searches interpret), breadth-first search by levels, the
  reachable set, and the depth-first search for a cycle.
\<close>

section \<open>Routes and distance\<close>

text \<open>A route from \<^verbatim>\<open>u\<close> is the list of its steps, each a node with the edge into it.\<close>

fun route :: "('a \<Rightarrow> ('a \<times> 'e) list) \<Rightarrow> 'a \<Rightarrow> ('a \<times> 'e) list \<Rightarrow> bool" where
  "route out u [] = True"
| "route out u ((w, e) # r) = ((w, e) \<in> set (out u) \<and> route out w r)"

fun route_end :: "'a \<Rightarrow> ('a \<times> 'e) list \<Rightarrow> 'a" where
  "route_end u [] = u"
| "route_end u ((w, e) # r) = route_end w r"

text \<open>The nodes at most \<^verbatim>\<open>n\<close> steps away.\<close>

primrec ball :: "('a \<Rightarrow> ('a \<times> 'e) list) \<Rightarrow> 'a \<Rightarrow> nat \<Rightarrow> 'a set" where
  "ball out s 0 = {s}"
| "ball out s (Suc n) = ball out s n \<union> (\<Union>u \<in> ball out s n. fst ` set (out u))"

locale successors =
  fixes out :: "'a \<Rightarrow> ('a \<times> 'e) list" and admits :: "'a \<Rightarrow> 'a \<Rightarrow> bool"
  assumes admits_out: "admits u w \<longleftrightarrow> w \<in> fst ` set (out u)"
begin

lemma route_snoc: "route out u (r @ [(w, e)]) \<longleftrightarrow> route out u r \<and> (w, e) \<in> set (out (route_end u r))"
  by (induction u r rule: route_end.induct) auto

lemma route_end_snoc: "route_end u (r @ [(w, e)]) = w"
  by (induction u r rule: route_end.induct) auto

lemma ball_mono: "m \<le> n \<Longrightarrow> ball out s m \<subseteq> ball out s n"
  by (induction n) (auto simp: le_Suc_eq)

lemma route_in_ball: "route out s r \<Longrightarrow> length r \<le> n \<Longrightarrow> route_end s r \<in> ball out s n"
proof (induction r arbitrary: n rule: rev_induct)
  case Nil
  then show ?case using ball_mono [of 0 n s] by auto
next
  case (snoc x r)
  obtain w e where x: "x = (w, e)" by (cases x)
  then obtain m where n: "n = Suc m" using snoc.prems(2) by (cases n) auto
  have "route_end s r \<in> ball out s m" using snoc x n by (intro snoc.IH) (auto simp: route_snoc)
  then show ?case using snoc.prems(1) x n by (force simp: route_snoc route_end_snoc)
qed

lemma ball_route: "v \<in> ball out s n \<Longrightarrow> \<exists>r. route out s r \<and> length r \<le> n \<and> route_end s r = v"
proof (induction n arbitrary: v)
  case 0
  then show ?case by (intro exI [of _ "[]"]) simp
next
  case (Suc n)
  show ?case
  proof (cases "v \<in> ball out s n")
    case True
    then show ?thesis using Suc.IH le_SucI by blast
  next
    case False
    with Suc.prems obtain u e where u: "u \<in> ball out s n" "(v, e) \<in> set (out u)" by auto
    from Suc.IH [OF u(1)] obtain r where "route out s r" "length r \<le> n" "route_end s r = u" by blast
    with u(2) show ?thesis
      by (intro exI [of _ "r @ [(v, e)]"]) (simp add: route_snoc route_end_snoc)
  qed
qed

lemma ball_closed:
  assumes "\<forall>u \<in> ball out s n. fst ` set (out u) \<subseteq> ball out s n"
  shows "ball out s (n + k) = ball out s n"
  using assms by (induction k) auto

text \<open>Reachability in the relation of the graph.\<close>

lemma reach_ball: "admits\<^sup>*\<^sup>* s v \<longleftrightarrow> (\<exists>n. v \<in> ball out s n)"
proof
  show "admits\<^sup>*\<^sup>* s v \<Longrightarrow> \<exists>n. v \<in> ball out s n"
  proof (induction rule: rtranclp_induct)
    case base
    then show ?case by (intro exI [of _ 0]) simp
  next
    case (step u w)
    then obtain n where "u \<in> ball out s n" by blast
    with step.hyps(2) have "w \<in> ball out s (Suc n)" by (auto simp: admits_out)
    then show ?case by blast
  qed
next
  have "v \<in> ball out s n \<Longrightarrow> admits\<^sup>*\<^sup>* s v" for n
    by (induction n arbitrary: v) (force simp: admits_out intro: rtranclp.rtrancl_into_rtrancl)+
  then show "\<exists>n. v \<in> ball out s n \<Longrightarrow> admits\<^sup>*\<^sup>* s v" by blast
qed

lemma reach_closed:
  assumes "s \<in> S" "\<And>u. u \<in> S \<Longrightarrow> fst ` set (out u) \<subseteq> S" "admits\<^sup>*\<^sup>* s v"
  shows "v \<in> S"
  using assms(3,1) by (induction rule: rtranclp_induct) (use assms(2) admits_out in blast)+

end

section \<open>Breadth-first search by levels\<close>

definition admitted :: "(json_fields \<Rightarrow> bool) \<Rightarrow> string set \<Rightarrow> out_edge list \<Rightarrow> (string \<times> json_fields) list" where
  "admitted admit avoid es =
     map (\<lambda>(t, task, e). (t, e)) (filter (\<lambda>(t, task, e). t \<notin> avoid \<and> admit e) es)"

text \<open>The graph a search walks: the edges that are not avoided and whose condition holds.\<close>

definition search_out ::
  "adjacency_graph \<Rightarrow> (json_fields \<Rightarrow> bool) \<Rightarrow> string set \<Rightarrow> string \<Rightarrow> (string \<times> json_fields) list" where
  "search_out g admit avoid u = admitted admit avoid (get_out_edges g u)"

definition steps_to :: "adjacency_graph \<Rightarrow> (json_fields \<Rightarrow> bool) \<Rightarrow> string set \<Rightarrow> string \<Rightarrow> string \<Rightarrow> bool" where
  "steps_to g admit avoid u w \<longleftrightarrow> (\<exists>task e. (w, task, e) \<in> set (get_out_edges g u) \<and> w \<notin> avoid \<and> admit e)"

interpretation search: successors "search_out g admit avoid" "steps_to g admit avoid" for g admit avoid
  by unfold_locales (force simp: steps_to_def search_out_def admitted_def)

text \<open>What one entry of the queue contributes.\<close>

definition scan_post ::
  "(string \<times> json_fields) list \<Rightarrow> string \<Rightarrow> string list \<Rightarrow> json_fields list \<Rightarrow> string set \<Rightarrow>
   path_result + queue_entry list \<times> string set \<Rightarrow> bool" where
  "scan_post adm target path eds visited res \<longleftrightarrow>
     (case res of
        Inl r \<Rightarrow> target \<notin> visited \<and>
          (\<exists>e. (target, e) \<in> set adm \<and> r = path_found (path @ [target]) (eds @ [e]))
      | Inr (new, visited') \<Rightarrow>
          visited' = visited \<union> fst ` set adm \<and>
          fst ` set new = visited' - visited \<and> (target \<in> visited' \<longrightarrow> target \<in> visited) \<and>
          (\<forall>(w, p, ed) \<in> set new. \<exists>e. (w, e) \<in> set adm \<and> p = path @ [w] \<and> ed = eds @ [e]))"

lemma scan_post_step:
  assumes "t \<notin> visited" "t \<noteq> target" "scan_post adm target path eds (insert t visited) res"
  shows "scan_post ((t, e) # adm) target path eds visited
    (case res of Inl r \<Rightarrow> Inl r | Inr (new, visited') \<Rightarrow> Inr ((t, path @ [t], eds @ [e]) # new, visited'))"
proof (cases res)
  case (Inl r)
  with assms show ?thesis by (auto simp: scan_post_def)
next
  case (Inr nv)
  obtain new visited' where nv: "nv = (new, visited')" by (cases nv)
  have i: "visited' = insert t visited \<union> fst ` set adm"
    "fst ` set new = visited' - insert t visited" "target \<in> visited' \<longrightarrow> target \<in> insert t visited"
    "\<forall>(w, p, ed) \<in> set new. \<exists>e. (w, e) \<in> set adm \<and> p = path @ [w] \<and> ed = eds @ [e]"
    using assms(3) Inr nv by (simp_all add: scan_post_def)
  have "fst ` set ((t, path @ [t], eds @ [e]) # new) = visited' - visited"
    using i(1,2) assms(1) by auto
  moreover have "\<forall>(w, p, ed) \<in> set ((t, path @ [t], eds @ [e]) # new).
      \<exists>e'. (w, e') \<in> set ((t, e) # adm) \<and> p = path @ [w] \<and> ed = eds @ [e']"
    using i(4) by fastforce
  ultimately show ?thesis using i assms(2) unfolding scan_post_def Inr nv by simp
qed

lemma scan_post_known:
  assumes "t \<in> visited" "scan_post adm target path eds visited res"
  shows "scan_post ((t, e) # adm) target path eds visited res"
proof (cases res)
  case (Inr nv)
  with assms show ?thesis by (cases nv) (fastforce simp: scan_post_def)
qed (use assms in \<open>auto simp: scan_post_def\<close>)

lemma scan_edges_ok:
  "scan_post (admitted admit avoid es) target path eds visited (scan_edges admit avoid target path eds es visited)"
proof (induction es arbitrary: visited)
  case Nil
  then show ?case by (simp add: scan_post_def admitted_def)
next
  case (Cons x rest)
  obtain t task e where x: "x = (t, task, e)" by (cases x)
  have a: "admitted admit avoid (x # rest) =
    (if t \<notin> avoid \<and> admit e then (t, e) # admitted admit avoid rest else admitted admit avoid rest)"
    by (simp add: admitted_def x)
  consider "t \<in> avoid \<or> \<not> admit e" | "t \<notin> avoid" "admit e" "t \<in> visited"
    | "t \<notin> avoid" "admit e" "t \<notin> visited" "t = target"
    | "t \<notin> avoid" "admit e" "t \<notin> visited" "t \<noteq> target" by blast
  then show ?case
  proof cases
    case 1
    then have "admitted admit avoid (x # rest) = admitted admit avoid rest" by (auto simp: a)
    moreover have "scan_edges admit avoid target path eds (x # rest) visited =
      scan_edges admit avoid target path eds rest visited" using 1 x by auto
    ultimately show ?thesis using Cons.IH by simp
  next
    case 2
    then have "scan_edges admit avoid target path eds (x # rest) visited =
      scan_edges admit avoid target path eds rest visited" using x by simp
    with 2 a scan_post_known [OF 2(3) Cons.IH] show ?thesis by simp
  next
    case 3
    then have "scan_edges admit avoid target path eds (x # rest) visited =
      Inl (path_found (path @ [target]) (eds @ [e]))" using x by simp
    with 3 a show ?thesis by (auto simp: scan_post_def)
  next
    case 4
    then have "scan_edges admit avoid target path eds (x # rest) visited =
      (case scan_edges admit avoid target path eds rest (insert t visited) of
         Inl r \<Rightarrow> Inl r
       | Inr (new, visited') \<Rightarrow> Inr ((t, path @ [t], eds @ [e]) # new, visited'))" using x by simp
    with 4 a scan_post_step [OF 4(3,4) Cons.IH] show ?thesis by simp
  qed
qed

text \<open>An entry of the queue at distance \<^verbatim>\<open>d\<close> carries a route to its node.\<close>

definition entry_ok ::
  "adjacency_graph \<Rightarrow> (json_fields \<Rightarrow> bool) \<Rightarrow> string set \<Rightarrow> string \<Rightarrow> nat \<Rightarrow> queue_entry \<Rightarrow> bool" where
  "entry_ok g admit avoid s d entry \<longleftrightarrow>
     (case entry of (current, path, eds) \<Rightarrow>
        \<exists>r. route (search_out g admit avoid) s r \<and> length r = d \<and> route_end s r = current \<and>
          path = s # map fst r \<and> eds = map snd r)"

lemma entry_ok_step:
  assumes "entry_ok g admit avoid s d (current, path, eds)" "(w, e) \<in> set (search_out g admit avoid current)"
  shows "entry_ok g admit avoid s (Suc d) (w, path @ [w], eds @ [e])"
proof -
  from assms(1) obtain r where "route (search_out g admit avoid) s r" "length r = d"
    "route_end s r = current" "path = s # map fst r" "eds = map snd r"
    by (auto simp: entry_ok_def)
  with assms(2) show ?thesis
    unfolding entry_ok_def by (auto simp: search.route_snoc search.route_end_snoc intro!: exI [of _ "r @ [(w, e)]"])
qed

abbreviation level_targets ::
  "adjacency_graph \<Rightarrow> (json_fields \<Rightarrow> bool) \<Rightarrow> string set \<Rightarrow> queue_entry list \<Rightarrow> string set" where
  "level_targets g admit avoid q \<equiv> (\<Union>u \<in> fst ` set q. fst ` set (search_out g admit avoid u))"

lemma search_level_ok:
  assumes "\<forall>x \<in> set q1. entry_ok g admit avoid s d x" "target \<notin> visited"
  shows "case search_level g admit avoid target (length q1) (q1 @ q2) visited of
      Inl r \<Rightarrow> \<exists>rt. route (search_out g admit avoid) s rt \<and> length rt = Suc d \<and> route_end s rt = target \<and>
        r = path_found (s # map fst rt) (map snd rt)
    | Inr (q', visited') \<Rightarrow> \<exists>new. q' = q2 @ new \<and> visited' = visited \<union> level_targets g admit avoid q1 \<and>
        fst ` set new = visited' - visited \<and> target \<notin> visited' \<and>
        (\<forall>x \<in> set new. entry_ok g admit avoid s (Suc d) x)"
  using assms
proof (induction q1 arbitrary: q2 visited)
  case Nil
  then show ?case by (cases q2) auto
next
  case (Cons x q1)
  obtain current path eds where x: "x = (current, path, eds)" by (cases x)
  let ?scan = "scan_edges admit avoid target path eds (get_out_edges g current) visited"
  have post: "scan_post (search_out g admit avoid current) target path eds visited ?scan"
    unfolding search_out_def by (rule scan_edges_ok)
  have ok: "entry_ok g admit avoid s d (current, path, eds)" using Cons.prems(1) x by simp
  show ?case
  proof (cases ?scan)
    case (Inl r)
    with post obtain e where e: "(target, e) \<in> set (search_out g admit avoid current)"
      "r = path_found (path @ [target]) (eds @ [e])" by (auto simp: scan_post_def)
    from entry_ok_step [OF ok e(1)] e(2) obtain rt where
      "route (search_out g admit avoid) s rt" "length rt = Suc d" "route_end s rt = target"
      "r = path_found (s # map fst rt) (map snd rt)" by (auto simp: entry_ok_def)
    then show ?thesis using x Inl by auto
  next
    case (Inr nv)
    obtain new v1 where nv: "nv = (new, v1)" by (cases nv)
    have p: "v1 = visited \<union> fst ` set (search_out g admit avoid current)" "fst ` set new = v1 - visited"
      "target \<notin> v1" "\<forall>(w, p, ed) \<in> set new. \<exists>e. (w, e) \<in> set (search_out g admit avoid current) \<and> p = path @ [w] \<and> ed = eds @ [e]"
      using post Inr nv Cons.prems(2) by (auto simp: scan_post_def)
    have new: "\<forall>y \<in> set new. entry_ok g admit avoid s (Suc d) y"
      using p(4) entry_ok_step [OF ok] by fastforce
    have eq: "search_level g admit avoid target (length (x # q1)) ((x # q1) @ q2) visited =
        search_level g admit avoid target (length q1) (q1 @ (q2 @ new)) v1"
      using x Inr nv by simp
    have "\<forall>y \<in> set q1. entry_ok g admit avoid s d y" using Cons.prems(1) by simp
    note ih = Cons.IH [OF this p(3), of "q2 @ new"]
    show ?thesis
    proof (cases "search_level g admit avoid target (length q1) (q1 @ (q2 @ new)) v1")
      case (Inl r)
      with ih show ?thesis unfolding eq by simp
    next
      case (Inr res)
      obtain q' v2 where res: "res = (q', v2)" by (cases res)
      from ih Inr res obtain new2 where n2: "q' = (q2 @ new) @ new2" "v2 = v1 \<union> level_targets g admit avoid q1"
        "fst ` set new2 = v2 - v1" "target \<notin> v2" "\<forall>x \<in> set new2. entry_ok g admit avoid s (Suc d) x" by auto
      have "v2 = visited \<union> level_targets g admit avoid (x # q1)" using n2(2) p(1) x by auto
      moreover have "fst ` set (new @ new2) = v2 - visited"
      proof -
        have "fst ` set (new @ new2) = (v1 - visited) \<union> (v2 - v1)"
          by (simp only: set_append image_Un p(2) n2(3))
        also have "\<dots> = v2 - visited" unfolding n2(2) p(1) by blast
        finally show ?thesis .
      qed
      moreover have "\<forall>y \<in> set (new @ new2). entry_ok g admit avoid s (Suc d) y" using new n2(5) by auto
      moreover have "q' = q2 @ (new @ new2)" using n2(1) by simp
      ultimately show ?thesis using n2(4) unfolding eq Inr res sum.case prod.case by blast
    qed
  qed
qed

text \<open>
  The search at depth \<^verbatim>\<open>d\<close>: what was visited is the ball of that radius, and every visited
  node outside the queue has all its successors visited.
\<close>

definition search_invariant ::
  "adjacency_graph \<Rightarrow> (json_fields \<Rightarrow> bool) \<Rightarrow> string set \<Rightarrow> string \<Rightarrow> string \<Rightarrow> nat \<Rightarrow> queue_entry list \<Rightarrow> string set \<Rightarrow> bool" where
  "search_invariant g admit avoid s target d q visited \<longleftrightarrow>
     visited = ball (search_out g admit avoid) s d \<and> target \<notin> visited \<and> fst ` set q \<subseteq> visited \<and>
     (\<forall>x \<in> set q. entry_ok g admit avoid s d x) \<and>
     (\<forall>u \<in> visited - fst ` set q. fst ` set (search_out g admit avoid u) \<subseteq> visited)"

lemma search_invariant_start:
  "source \<noteq> target \<Longrightarrow> search_invariant g admit avoid source target 0 [(source, [source], [])] {source}"
  by (auto simp: search_invariant_def entry_ok_def)

lemma search_invariant_step:
  assumes inv: "search_invariant g admit avoid s target d q visited"
    and "visited' = visited \<union> level_targets g admit avoid q" "fst ` set q' = visited' - visited"
    and "target \<notin> visited'" "\<forall>x \<in> set q'. entry_ok g admit avoid s (Suc d) x"
  shows "search_invariant g admit avoid s target (Suc d) q' visited'"
proof -
  let ?out = "search_out g admit avoid"
  have v: "visited = ball ?out s d" and closed: "\<forall>u \<in> visited - fst ` set q. fst ` set (?out u) \<subseteq> visited"
    and q: "fst ` set q \<subseteq> visited"
    using inv unfolding search_invariant_def by blast+
  have "ball ?out s (Suc d) = visited \<union> (\<Union>u \<in> visited. fst ` set (?out u))" using v by simp
  also have "\<dots> = visited'" using closed q assms(2) by blast
  finally have ball: "visited' = ball ?out s (Suc d)" ..
  have "\<forall>u \<in> visited' - fst ` set q'. fst ` set (?out u) \<subseteq> visited'"
  proof
    fix u assume "u \<in> visited' - fst ` set q'"
    then have "u \<in> visited" using assms(3) by blast
    then show "fst ` set (?out u) \<subseteq> visited'" using closed assms(2) by blast
  qed
  moreover have "fst ` set q' \<subseteq> visited'" using assms(3) by blast
  ultimately show ?thesis unfolding search_invariant_def using ball assms(4,5) by (intro conjI)
qed

text \<open>
  From depth \<^verbatim>\<open>d\<close> with \<^verbatim>\<open>k\<close> levels left, the search finds a shortest route of at most \<^verbatim>\<open>d + k\<close>
  steps, or there is none.
\<close>

lemma search_depths_ok:
  assumes "search_invariant g admit avoid s target d q visited"
  shows "(\<exists>rt. search_depths g admit avoid target k q visited = path_found (s # map fst rt) (map snd rt) \<and>
        route (search_out g admit avoid) s rt \<and> route_end s rt = target \<and> length rt \<le> d + k \<and>
        (\<forall>n < length rt. target \<notin> ball (search_out g admit avoid) s n)) \<or>
     (search_depths g admit avoid target k q visited = path_failure \<and>
        target \<notin> ball (search_out g admit avoid) s (d + k))"
  using assms
proof (induction k arbitrary: d q visited)
  case 0
  then show ?case by (auto simp: search_invariant_def)
next
  case (Suc k)
  let ?out = "search_out g admit avoid"
  have v: "visited = ball ?out s d" and t: "target \<notin> visited"
    and ok: "\<forall>x \<in> set q. entry_ok g admit avoid s d x"
    using Suc.prems unfolding search_invariant_def by blast+
  show ?case
  proof (cases "q = []")
    case True
    then have "\<forall>u \<in> ball ?out s d. fst ` set (?out u) \<subseteq> ball ?out s d"
      using Suc.prems v unfolding search_invariant_def by (metis Diff_empty image_empty list.set(1))
    then have "ball ?out s (d + Suc k) = ball ?out s d" by (rule search.ball_closed)
    then show ?thesis using True t v by simp
  next
    case False
    note lv = search_level_ok [OF ok t, of "[]", simplified]
    show ?thesis
    proof (cases "search_level g admit avoid target (length q) q visited")
      case (Inl r)
      with lv obtain rt where rt: "route ?out s rt" "length rt = Suc d" "route_end s rt = target"
        "r = path_found (s # map fst rt) (map snd rt)" by auto
      have "target \<notin> ball ?out s n" if "n < length rt" for n
        using that rt(2) t v search.ball_mono [of n d g admit avoid s] by auto
      with rt Inl False show ?thesis by auto
    next
      case (Inr res)
      obtain q' v' where res: "res = (q', v')" by (cases res)
      from lv Inr res have "v' = visited \<union> level_targets g admit avoid q" "fst ` set q' = v' - visited"
        "target \<notin> v'" "\<forall>x \<in> set q'. entry_ok g admit avoid s (Suc d) x" by auto
      from Suc.IH [OF search_invariant_step [OF Suc.prems this]] Inr res False show ?thesis by simp
    qed
  qed
qed

lemma search_ok:
  assumes "source \<noteq> target"
    and "res = search_depths g admit avoid target max_search_depth [(source, [source], [])] {source}"
  shows "(\<exists>rt. res = path_found (source # map fst rt) (map snd rt) \<and>
        route (search_out g admit avoid) source rt \<and> route_end source rt = target \<and> length rt \<le> max_search_depth \<and>
        (\<forall>rt'. route (search_out g admit avoid) source rt' \<and> route_end source rt' = target \<longrightarrow> length rt \<le> length rt')) \<or>
     (res = path_failure \<and>
        (\<forall>rt'. route (search_out g admit avoid) source rt' \<and> route_end source rt' = target \<longrightarrow>
           max_search_depth < length rt'))"
proof -
  let ?out = "search_out g admit avoid"
  from search_depths_ok [OF search_invariant_start [OF assms(1)], of g admit avoid max_search_depth]
  show ?thesis
  proof (elim disjE exE conjE)
    fix rt assume rt: "search_depths g admit avoid target max_search_depth [(source, [source], [])] {source} =
        path_found (source # map fst rt) (map snd rt)" "route ?out source rt" "route_end source rt = target"
      "length rt \<le> 0 + max_search_depth" "\<forall>n < length rt. target \<notin> ball ?out source n"
    have "length rt \<le> length rt'" if "route ?out source rt'" "route_end source rt' = target" for rt'
      using search.route_in_ball [OF that(1) order_refl] that(2) rt(5) by (meson not_le)
    with rt show ?thesis unfolding assms(2) by auto
  next
    assume f: "search_depths g admit avoid target max_search_depth [(source, [source], [])] {source} = path_failure"
      "target \<notin> ball ?out source (0 + max_search_depth)"
    have "max_search_depth < length rt'" if "route ?out source rt'" "route_end source rt' = target" for rt'
      using search.route_in_ball [OF that(1)] that(2) f(2) by (metis add_0 not_le)
    with f show ?thesis unfolding assms(2) by blast
  qed
qed

section \<open>Reachable nodes\<close>

definition edge_to :: "adjacency_graph \<Rightarrow> string \<Rightarrow> string \<Rightarrow> bool" where
  "edge_to g u w \<longleftrightarrow> w \<in> fst ` set (get_out_edges g u)"

definition plain_out :: "adjacency_graph \<Rightarrow> string \<Rightarrow> out_edge list" where
  "plain_out g u = get_out_edges g u"

interpretation graph: successors "plain_out g" "edge_to g" for g
  by unfold_locales (simp add: edge_to_def plain_out_def)

text \<open>Every graph the builder makes has finitely many nodes and keeps the ends of its edges.\<close>

definition graph_ok :: "adjacency_graph \<Rightarrow> bool" where
  "graph_ok g \<longleftrightarrow> finite (ag_all_nodes g) \<and>
     (\<forall>u w. edge_to g u w \<longrightarrow> u \<in> ag_all_nodes g \<and> w \<in> ag_all_nodes g)"

lemma graph_ok_empty: "graph_ok empty_graph"
  by (simp add: graph_ok_def empty_graph_def edge_to_def get_out_edges_def)

lemma graph_ok_add_node: "graph_ok g \<Longrightarrow> graph_ok (add_node n i task g)"
  by (auto simp: graph_ok_def add_node_def edge_to_def get_out_edges_def)

lemma graph_ok_add_edge: "graph_ok g \<Longrightarrow> graph_ok (add_edge s t task e g)"
  by (auto simp: graph_ok_def add_edge_def edge_to_def get_out_edges_def)

lemma fold_graph_ok: "(\<And>x g. graph_ok g \<Longrightarrow> graph_ok (f x g)) \<Longrightarrow> graph_ok g \<Longrightarrow> graph_ok (fold f xs g)"
  by (induction xs arbitrary: g) simp_all

lemma graph_ok_built:
  "graph_ok (task_graph edges task nodes)" "graph_ok (build_topology_graph tm)" "graph_ok (popup_graph tm t)"
proof -
  have nodes: "graph_ok (fold (\<lambda>(i, n). add_node (f n) i tid) xs empty_graph)" for f tid and xs :: "(nat \<times> graph_node) list"
    by (intro fold_graph_ok) (auto simp: graph_ok_empty graph_ok_add_node)
  show "graph_ok (task_graph edges task nodes)" unfolding task_graph_def
    by (rule fold_graph_ok [OF _ nodes]) (simp add: add_workflow_edge_def graph_ok_add_edge)
  show "graph_ok (build_topology_graph tm)" unfolding build_topology_graph_def
    by (rule fold_graph_ok [OF _ nodes]) (simp add: add_topology_edge_def Let_def graph_ok_add_edge)
  show "graph_ok (popup_graph tm t)" unfolding popup_graph_def
    by (rule fold_graph_ok [OF _ nodes]) (simp add: add_popup_edge_def graph_ok_add_edge split: option.split)
qed

lemma mark_new_ok:
  "mark_new es visited = (new, visited') \<Longrightarrow>
    visited' = visited \<union> fst ` set es \<and> set new = visited' - visited \<and> distinct new"
proof (induction es visited arbitrary: new visited' rule: mark_new.induct)
  case (2 t task e rest visited)
  show ?case
  proof (cases "t \<in> visited")
    case True
    with 2 show ?thesis by auto
  next
    case False
    then obtain new1 where m: "mark_new rest (insert t visited) = (new1, visited')" "new = t # new1"
      using 2(3) by (auto split: prod.splits)
    from 2(2) [OF False m(1)] have i: "visited' = insert t visited \<union> fst ` set rest"
      "set new1 = visited' - insert t visited" "distinct new1" by simp_all
    have "set new = visited' - visited" using i m(2) False by auto
    then show ?thesis using i m(2) by auto
  qed
qed simp

lemma reach_loop_ok:
  assumes "graph_ok g"
  shows "visited \<subseteq> ag_all_nodes g \<Longrightarrow> set queue \<subseteq> visited \<Longrightarrow>
    (\<forall>u \<in> visited - set queue. \<forall>w. edge_to g u w \<longrightarrow> w \<in> visited) \<Longrightarrow> \<forall>v \<in> visited. (edge_to g)\<^sup>*\<^sup>* s v \<Longrightarrow>
    \<exists>R. reach_loop g queue visited = Some R \<and> visited \<subseteq> R \<and> (\<forall>u \<in> R. \<forall>w. edge_to g u w \<longrightarrow> w \<in> R) \<and>
      (\<forall>v \<in> R. (edge_to g)\<^sup>*\<^sup>* s v)"
proof (induction "card (ag_all_nodes g - visited) + length queue" arbitrary: queue visited rule: less_induct)
  case less
  show ?case
  proof (cases queue)
    case Nil
    then show ?thesis using less.prems by (subst reach_loop.simps) simp
  next
    case (Cons c rest)
    obtain new visited' where m: "mark_new (get_out_edges g c) visited = (new, visited')" by fastforce
    have v': "visited' = visited \<union> {w. edge_to g c w}" and n: "set new = visited' - visited" "distinct new"
      using mark_new_ok [OF m] by (auto simp: edge_to_def)
    have sub: "visited' \<subseteq> ag_all_nodes g" using v' less.prems(1) assms by (auto simp: graph_ok_def)
    have fin: "finite (ag_all_nodes g)" using assms by (simp add: graph_ok_def)
    have "visited \<subseteq> visited'" using v' by blast
    have "ag_all_nodes g - visited = (ag_all_nodes g - visited') \<union> set new"
      unfolding n(1) using sub \<open>visited \<subseteq> visited'\<close> by blast
    moreover have "(ag_all_nodes g - visited') \<inter> set new = {}" using n(1) by blast
    ultimately have "card (ag_all_nodes g - visited) = card (ag_all_nodes g - visited') + length new"
      using fin n(2) by (simp add: card_Un_disjoint distinct_card)
    then have lt: "card (ag_all_nodes g - visited') + length (rest @ new) < card (ag_all_nodes g - visited) + length queue"
      using Cons by simp
    have q: "set (rest @ new) \<subseteq> visited'" using less.prems(2) Cons n(1) v' by auto
    have c: "\<forall>u \<in> visited' - set (rest @ new). \<forall>w. edge_to g u w \<longrightarrow> w \<in> visited'"
    proof (intro ballI allI impI)
      fix u w assume u: "u \<in> visited' - set (rest @ new)" "edge_to g u w"
      have "u \<notin> set new" "u \<notin> set rest" using u(1) by simp_all
      then have "u \<in> visited" using u(1) unfolding n(1) by blast
      show "w \<in> visited'"
      proof (cases "u = c")
        case True
        then show ?thesis using u(2) v' by blast
      next
        case False
        then have "u \<in> visited - set queue" using \<open>u \<in> visited\<close> \<open>u \<notin> set rest\<close> Cons by simp
        then show ?thesis using less.prems(3) u(2) \<open>visited \<subseteq> visited'\<close> by blast
      qed
    qed
    have "c \<in> visited" using less.prems(2) Cons by simp
    then have r: "\<forall>v \<in> visited'. (edge_to g)\<^sup>*\<^sup>* s v"
      using less.prems(4) v' by (auto intro: rtranclp.rtrancl_into_rtrancl)
    from less.hyps [OF lt sub q c r] obtain R where R: "reach_loop g (rest @ new) visited' = Some R"
      "visited' \<subseteq> R" "\<forall>u \<in> R. \<forall>w. edge_to g u w \<longrightarrow> w \<in> R" "\<forall>v \<in> R. (edge_to g)\<^sup>*\<^sup>* s v" by blast
    have "reach_loop g queue visited = Some R" using R(1) m Cons by (subst reach_loop.simps) simp
    with R v' show ?thesis by blast
  qed
qed

lemma find_all_reachable_ok:
  assumes "graph_ok g" "has_node g source"
  shows "find_all_reachable g source = Some ({v. (edge_to g)\<^sup>*\<^sup>* source v} - {source})"
proof -
  from assms(2) have "{source} \<subseteq> ag_all_nodes g" by (simp add: has_node_def)
  from reach_loop_ok [OF assms(1) this, of "[source]" source] obtain R where R:
    "reach_loop g [source] {source} = Some R" "source \<in> R"
    "\<And>u w. u \<in> R \<Longrightarrow> edge_to g u w \<Longrightarrow> w \<in> R" "\<And>v. v \<in> R \<Longrightarrow> (edge_to g)\<^sup>*\<^sup>* source v" by auto
  have "v \<in> R" if "(edge_to g)\<^sup>*\<^sup>* source v" for v
    using that by (induction rule: rtranclp_induct) (use R in auto)
  then have "R = {v. (edge_to g)\<^sup>*\<^sup>* source v}" using R(4) by blast
  with R(1) assms(2) show ?thesis by (simp add: find_all_reachable_def)
qed

end
