(* ===== verification/Graph_Cycle.thy ===== *)
theory Graph_Cycle
  imports Graph_Search
begin

text \<open>
  The depth-first search of \<^verbatim>\<open>detect_cycle\<close>: a cycle it reports is one, a report of none
  means that there is none, and a stack deeper than the number of nodes is enough.
\<close>

section \<open>The stack of gray nodes\<close>

text \<open>The gray nodes from the newest to the root, each entered from the next by its parent entry.\<close>

fun stack_ok :: "adjacency_graph \<Rightarrow> (string \<Rightarrow> string option) \<Rightarrow> string list \<Rightarrow> bool" where
  "stack_ok g par (v # w # rest) = (par v = Some w \<and> edge_to g w v \<and> stack_ok g par (w # rest))"
| "stack_ok g par _ = True"

definition is_cycle :: "adjacency_graph \<Rightarrow> string list \<Rightarrow> bool" where
  "is_cycle g c \<longleftrightarrow> 2 \<le> length c \<and> hd c = last c \<and> successively (edge_to g) c"

lemma stack_ok_upd: "t \<notin> set stk \<Longrightarrow> stack_ok g (par(t := p)) stk = stack_ok g par stk"
  by (induction stk rule: induct_list012) auto

lemma stack_ok_push:
  "stack_ok g par (n # stk) \<Longrightarrow> edge_to g n t \<Longrightarrow> t \<notin> set (n # stk) \<Longrightarrow> stack_ok g (par(t \<mapsto> n)) (t # n # stk)"
  using stack_ok_upd [of t "n # stk" g par "Some n"] by simp

lemma stack_ok_tl: "stack_ok g par (v # stk) \<Longrightarrow> stack_ok g par stk"
  by (cases stk) auto

lemma parent_chain_stack:
  "stack_ok g par (v # stk) \<Longrightarrow> target \<in> set (v # stk) \<Longrightarrow>
    \<exists>c. parent_chain par target v = Some c \<and> successively (\<lambda>a b. edge_to g b a) (c @ [target]) \<and>
      hd (c @ [target]) = v"
proof (induction stk arbitrary: v)
  case Nil
  then show ?case by (subst parent_chain.simps) simp
next
  case (Cons w stk)
  show ?case
  proof (cases "v = target")
    case True
    then show ?thesis by (subst parent_chain.simps) simp
  next
    case False
    from Cons.prems have p: "par v = Some w" "edge_to g w v" "stack_ok g par (w # stk)" by simp_all
    from Cons.IH [OF p(3)] Cons.prems(2) False obtain c where c: "parent_chain par target w = Some c"
      "successively (\<lambda>a b. edge_to g b a) (c @ [target])" "hd (c @ [target]) = w" by auto
    have "parent_chain par target v = Some (v # c)"
      using False p(1) c(1) by (subst parent_chain.simps) simp
    moreover have "successively (\<lambda>a b. edge_to g b a) ((v # c) @ [target])"
      using c(2,3) p(2) by (cases "c @ [target]") (auto simp: successively_Cons)
    ultimately show ?thesis by simp
  qed
qed

lemma successively_rev': "successively (\<lambda>a b. P b a) xs \<Longrightarrow> successively P (rev xs)"
  by (simp add: successively_rev)

lemma cycle_through_ok:
  assumes "stack_ok g par (n # stk)" "t \<in> set (n # stk)" "edge_to g n t"
  shows "\<exists>c. cycle_through par t n = Cycle c \<and> is_cycle g c"
proof -
  from parent_chain_stack [OF assms(1,2)] obtain c where c: "parent_chain par t n = Some c"
    "successively (\<lambda>a b. edge_to g b a) (c @ [t])" "hd (c @ [t]) = n" by blast
  have "successively (\<lambda>a b. edge_to g b a) (t # c @ [t])"
    using c(2,3) assms(3) by (cases "c @ [t]") (auto simp: successively_Cons)
  then have "successively (edge_to g) (rev (t # c @ [t]))" by (rule successively_rev')
  moreover have "hd (rev (t # c @ [t])) = last (rev (t # c @ [t]))" by simp
  ultimately have "is_cycle g (rev (t # c @ [t]))" unfolding is_cycle_def by simp
  then show ?thesis using c(1) by (simp add: cycle_through_def)
qed

section \<open>What the search keeps\<close>

definition black_ok :: "adjacency_graph \<Rightarrow> (string \<Rightarrow> color) \<Rightarrow> bool" where
  "black_ok g col \<longleftrightarrow> (\<forall>u. col u = Black \<longrightarrow>
     (\<forall>w. edge_to g u w \<longrightarrow> col w = Black) \<and> \<not> (edge_to g)\<^sup>+\<^sup>+ u u)"

definition dfs_inv :: "adjacency_graph \<Rightarrow> string list \<Rightarrow> dfs_state \<Rightarrow> bool" where
  "dfs_inv g stk st \<longleftrightarrow> distinct stk \<and> {v. fst st v = Gray} = set stk \<and> stack_ok g (snd st) stk \<and> black_ok g (fst st)"

definition dfs_grows :: "dfs_state \<Rightarrow> dfs_state \<Rightarrow> bool" where
  "dfs_grows st st' \<longleftrightarrow> (\<forall>u. fst st u = Black \<longrightarrow> fst st' u = Black) \<and> (\<forall>u. fst st' u = White \<longrightarrow> fst st u = White)"

definition dfs_post :: "adjacency_graph \<Rightarrow> string list \<Rightarrow> string \<Rightarrow> dfs_state \<Rightarrow> dfs_state \<times> dfs_result \<Rightarrow> bool" where
  "dfs_post g stk n st res \<longleftrightarrow>
     (case snd res of
        NoCycle \<Rightarrow> dfs_inv g stk (fst res) \<and> dfs_grows st (fst res) \<and> fst (fst res) n = Black
      | Cycle c \<Rightarrow> is_cycle g c
      | RecursionLimit \<Rightarrow> True
      | Diverges \<Rightarrow> False)"

lemma dfs_grows_trans: "dfs_grows st st' \<Longrightarrow> dfs_grows st' st'' \<Longrightarrow> dfs_grows st st''"
  unfolding dfs_grows_def by blast

lemma black_reach: "black_ok g col \<Longrightarrow> col u = Black \<Longrightarrow> (edge_to g)\<^sup>+\<^sup>+ u v \<Longrightarrow> col v = Black"
proof -
  assume *: "black_ok g col" "col u = Black" and "(edge_to g)\<^sup>+\<^sup>+ u v"
  from this(3) show ?thesis
  proof (induction rule: tranclp_induct)
    case (base w)
    then show ?case using * unfolding black_ok_def by blast
  next
    case (step v w)
    then show ?case using *(1) unfolding black_ok_def by blast
  qed
qed

text \<open>A gray node all of whose successors are black can become black.\<close>

lemma black_ok_finish:
  assumes "black_ok g col" "col n \<noteq> Black" "\<forall>w. edge_to g n w \<longrightarrow> col w = Black"
  shows "black_ok g (col(n := Black))"
proof -
  have "\<not> (edge_to g)\<^sup>+\<^sup>+ n n"
  proof
    assume "(edge_to g)\<^sup>+\<^sup>+ n n"
    then obtain w where w: "edge_to g n w" "(edge_to g)\<^sup>*\<^sup>* w n" by (meson tranclpD)
    then have "col w = Black" using assms(3) by simp
    moreover have "w = n \<or> (edge_to g)\<^sup>+\<^sup>+ w n" using w(2) by (meson rtranclpD)
    ultimately show False using black_reach [OF assms(1)] assms(2) by blast
  qed
  with assms show ?thesis by (auto simp: black_ok_def)
qed

lemma dfs_inv_finish:
  assumes "dfs_inv g (n # stk) (col, par)" "\<forall>w. edge_to g n w \<longrightarrow> col w = Black"
  shows "dfs_inv g stk (col(n := Black), par) \<and> dfs_grows (col, par) (col(n := Black), par)"
proof -
  have gray: "col v = Gray \<longleftrightarrow> v = n \<or> v \<in> set stk" for v
    using assms(1) by (auto simp: dfs_inv_def)
  then have "{v. (col(n := Black)) v = Gray} = set stk"
    using assms(1) by (auto simp: dfs_inv_def)
  moreover have "black_ok g (col(n := Black))"
    using assms gray [of n] by (intro black_ok_finish) (auto simp: dfs_inv_def)
  ultimately show ?thesis using assms(1) stack_ok_tl by (auto simp: dfs_inv_def dfs_grows_def)
qed

lemma dfs_inv_push:
  assumes "dfs_inv g stk (col, par)" "col n = White" "stk = [] \<or> edge_to g (hd stk) n \<and> par n = Some (hd stk)"
  shows "dfs_inv g (n # stk) (col(n := Gray), par) \<and> dfs_grows (col, par) (col(n := Gray), par)"
proof -
  have gray: "col v = Gray \<longleftrightarrow> v \<in> set stk" for v using assms(1) by (auto simp: dfs_inv_def)
  from gray [of n] have "n \<notin> set stk" using assms(2) by auto
  moreover have "{v. (col(n := Gray)) v = Gray} = insert n (set stk)" using gray by auto
  moreover have "stack_ok g par (n # stk)"
    using assms(1,3) by (cases stk) (auto simp: dfs_inv_def)
  moreover have "black_ok g (col(n := Gray))"
    using assms(1,2) by (auto simp: dfs_inv_def black_ok_def)
  ultimately show ?thesis using assms(1,2) by (auto simp: dfs_inv_def dfs_grows_def)
qed

lemma dfs_ok:
  "dfs_inv g stk st \<Longrightarrow> fst st n = White \<Longrightarrow>
    stk = [] \<or> edge_to g (hd stk) n \<and> snd st n = Some (hd stk) \<Longrightarrow> dfs_post g stk n st (dfs g k n st)"
  "dfs_inv g (n # stk) st \<Longrightarrow> set ts \<subseteq> {w. edge_to g n w} \<Longrightarrow>
    (\<forall>w. edge_to g n w \<longrightarrow> w \<in> set ts \<or> fst st w = Black) \<Longrightarrow> dfs_post g stk n st (dfs_edges g k n ts st)"
proof (induction g k n st and g k n ts st arbitrary: stk and stk rule: dfs_dfs_edges.induct)
  case (1 g n st)
  then show ?case by (simp add: dfs_post_def)
next
  case (2 g k n col par)
  have p: "dfs_inv g (n # stk) (col(n := Gray), par)" "dfs_grows (col, par) (col(n := Gray), par)"
    using dfs_inv_push [of g stk col par n] 2(2-4) by simp_all
  have "dfs_post g stk n (col(n := Gray), par) (dfs_edges g k n (map fst (get_out_edges g n)) (col(n := Gray), par))"
    using 2(1) [OF p(1)] by (auto simp: edge_to_def)
  then show ?case using dfs_grows_trans [OF p(2)]
    by (auto simp: dfs_post_def split: dfs_result.splits)
next
  case (3 g k n col par)
  then show ?case using dfs_inv_finish [of g n stk col par] by (simp add: dfs_post_def)
next
  case (4 g k n t ts col par)
  have e: "edge_to g n t" using "4.prems"(2) by simp
  have gray: "col v = Gray \<longleftrightarrow> v = n \<or> v \<in> set stk" for v using "4.prems"(1) by (auto simp: dfs_inv_def)
  consider "col t = Gray" | "col t = White" | "col t = Black" by (cases "col t")
  then show ?case
  proof cases
    case 1
    have "stack_ok g par (n # stk)" using "4.prems"(1) by (simp add: dfs_inv_def)
    then have "\<exists>c. cycle_through par t n = Cycle c \<and> is_cycle g c"
      using gray [of t] 1 by (intro cycle_through_ok [OF _ _ e]) auto
    then show ?thesis using 1 by (auto simp: dfs_post_def)
  next
    case 3
    then have "dfs_edges g k n (t # ts) (col, par) = dfs_edges g k n ts (col, par)" by simp
    moreover have "dfs_post g stk n (col, par) (dfs_edges g k n ts (col, par))"
      using "4.IH"(3) [of stk] "4.prems" 3 by auto
    ultimately show ?thesis by simp
  next
    case 2
    have t: "t \<notin> set (n # stk)" using gray [of t] 2 by auto
    have i: "dfs_inv g (n # stk) (col, par(t \<mapsto> n))"
      using "4.prems"(1) stack_ok_upd [OF t] by (simp add: dfs_inv_def)
    have r: "dfs_post g (n # stk) t (col, par(t \<mapsto> n)) (dfs g k t (col, par(t \<mapsto> n)))"
      using "4.IH"(1) [of "n # stk"] i e 2 by simp
    obtain st' res where d: "dfs g k t (col, par(t \<mapsto> n)) = (st', res)" by fastforce
    show ?thesis
    proof (cases res)
      case NoCycle
      then have st: "dfs_inv g (n # stk) st'" "dfs_grows (col, par) st'" "fst st' t = Black"
        using r d by (auto simp: dfs_post_def dfs_grows_def)
      have "dfs_post g stk n st' (dfs_edges g k n ts st')"
        using "4.prems" 2 d NoCycle st by (intro "4.IH"(2)) (auto simp: dfs_grows_def)
      then have "dfs_post g stk n (col, par) (dfs_edges g k n ts st')"
        using dfs_grows_trans [OF st(2)] by (auto simp: dfs_post_def split: dfs_result.splits)
      then show ?thesis using 2 d NoCycle by simp
    qed (use r d 2 in \<open>auto simp: dfs_post_def\<close>)
  qed
qed

section \<open>Enough stack\<close>

definition white_nodes :: "adjacency_graph \<Rightarrow> dfs_state \<Rightarrow> string set" where
  "white_nodes g st = {v \<in> ag_all_nodes g. fst st v = White}"

lemma white_visit:
  assumes "graph_ok g" "n \<in> ag_all_nodes g" "col n = White" "card (white_nodes g (col, par)) \<le> Suc k" "c \<noteq> White"
  shows "card (white_nodes g (col(n := c), par)) \<le> k"
proof -
  have "white_nodes g (col(n := c), par) = white_nodes g (col, par) - {n}"
    using assms(5) by (auto simp: white_nodes_def)
  moreover have "n \<in> white_nodes g (col, par)" "finite (white_nodes g (col, par))"
    using assms(1-3) by (auto simp: white_nodes_def graph_ok_def)
  ultimately show ?thesis using assms(4) by simp
qed

lemma dfs_enough:
  assumes "graph_ok g"
  shows "n \<in> ag_all_nodes g \<Longrightarrow> fst st n = White \<Longrightarrow> card (white_nodes g st) \<le> k \<Longrightarrow>
      snd (dfs g k n st) \<noteq> RecursionLimit \<and> white_nodes g (fst (dfs g k n st)) \<subseteq> white_nodes g st"
    "set ts \<subseteq> ag_all_nodes g \<Longrightarrow> card (white_nodes g st) \<le> k \<Longrightarrow>
      snd (dfs_edges g k n ts st) \<noteq> RecursionLimit \<and> white_nodes g (fst (dfs_edges g k n ts st)) \<subseteq> white_nodes g st"
  using assms
proof (induction g k n st and g k n ts st rule: dfs_dfs_edges.induct)
  case (1 g n st)
  then have "n \<in> white_nodes g st" "finite (white_nodes g st)"
    by (auto simp: white_nodes_def graph_ok_def)
  then show ?case using 1 by auto
next
  case (2 g k n col par)
  have "card (white_nodes g (col(n := Gray), par)) \<le> k"
    using white_visit [of g n col par k Gray] 2(2-5) by simp
  moreover have "set (map fst (get_out_edges g n)) \<subseteq> ag_all_nodes g"
    using 2(5) by (auto simp: graph_ok_def edge_to_def)
  ultimately have "snd (dfs_edges g k n (map fst (get_out_edges g n)) (col(n := Gray), par)) \<noteq> RecursionLimit \<and>
      white_nodes g (fst (dfs_edges g k n (map fst (get_out_edges g n)) (col(n := Gray), par))) \<subseteq>
      white_nodes g (col(n := Gray), par)" using 2(1,5) by blast
  moreover have "white_nodes g (col(n := Gray), par) \<subseteq> white_nodes g (col, par)"
    by (auto simp: white_nodes_def)
  ultimately show ?case unfolding dfs.simps by blast
next
  case (3 g k n col par)
  then show ?case by (auto simp: white_nodes_def)
next
  case (4 g k n t ts col par)
  consider "col t = Gray" | "col t = White" | "col t = Black" by (cases "col t")
  then show ?case
  proof cases
    case 1
    then show ?thesis by (simp add: cycle_through_def split: option.split)
  next
    case 3
    then show ?thesis using "4.IH"(3) "4.prems" by simp
  next
    case 2
    have w: "white_nodes g (col, par(t \<mapsto> n)) = white_nodes g (col, par)" by (simp add: white_nodes_def)
    have r: "snd (dfs g k t (col, par(t \<mapsto> n))) \<noteq> RecursionLimit \<and>
        white_nodes g (fst (dfs g k t (col, par(t \<mapsto> n)))) \<subseteq> white_nodes g (col, par)"
      using "4.IH"(1) "4.prems" 2 w by simp
    obtain st' res where d: "dfs g k t (col, par(t \<mapsto> n)) = (st', res)" by fastforce
    show ?thesis
    proof (cases res)
      case NoCycle
      have "finite (white_nodes g (col, par))" using "4.prems"(3) by (simp add: white_nodes_def graph_ok_def)
      then have "card (white_nodes g st') \<le> k" using r d "4.prems"(2) card_mono le_trans by (metis fst_conv)
      then have "snd (dfs_edges g k n ts st') \<noteq> RecursionLimit \<and> white_nodes g (fst (dfs_edges g k n ts st')) \<subseteq> white_nodes g st'"
        using "4.prems" 2 d NoCycle by (intro "4.IH"(2)) auto
      then show ?thesis using r 2 d NoCycle by auto
    qed (use r d 2 in auto)
  qed
qed

section \<open>All roots\<close>

lemma dfs_roots_ok:
  "dfs_inv g [] st \<Longrightarrow>
    (case dfs_roots g k ns st of
       NoCycle \<Rightarrow> \<exists>st'. dfs_inv g [] st' \<and> dfs_grows st st' \<and> (\<forall>n \<in> set ns. fst st' n = Black)
     | Cycle c \<Rightarrow> is_cycle g c
     | RecursionLimit \<Rightarrow> True
     | Diverges \<Rightarrow> False)"
proof (induction ns arbitrary: st)
  case Nil
  then have "dfs_inv g [] st \<and> dfs_grows st st" by (simp add: dfs_grows_def)
  then show ?case by (cases st) auto
next
  case (Cons n ns)
  obtain col par where st: "st = (col, par)" by (cases st)
  show ?case
  proof (cases "col n = White")
    case False
    have "{v. col v = Gray} = {}" using Cons.prems st by (simp add: dfs_inv_def)
    then have "col n = Black" using False by (cases "col n") auto
    then show ?thesis using Cons.IH [OF Cons.prems] False st
      by (fastforce simp: dfs_grows_def split: dfs_result.splits)
  next
    case True
    have p: "dfs_post g [] n (col, par) (dfs g k n (col, par))"
      using dfs_ok(1) [of g "[]" "(col, par)" n k] Cons.prems True st by simp
    obtain st' res where d: "dfs g k n (col, par) = (st', res)" by fastforce
    show ?thesis
    proof (cases res)
      case NoCycle
      then have s: "dfs_inv g [] st'" "dfs_grows st st'" "fst st' n = Black" using p d st by (auto simp: dfs_post_def)
      have eq: "dfs_roots g k (n # ns) st = dfs_roots g k ns st'" using True d NoCycle st by simp
      show ?thesis
      proof (cases "dfs_roots g k ns st'")
        case NoCycle
        with Cons.IH [OF s(1)] obtain st'' where s'': "dfs_inv g [] st''" "dfs_grows st' st''"
          "\<forall>n \<in> set ns. fst st'' n = Black" by auto
        moreover have "fst st'' n = Black" using s(3) s''(2) by (simp add: dfs_grows_def)
        ultimately have "dfs_inv g [] st'' \<and> dfs_grows st st'' \<and> (\<forall>v \<in> set (n # ns). fst st'' v = Black)"
          using dfs_grows_trans [OF s(2)] by auto
        then show ?thesis unfolding eq NoCycle dfs_result.case by blast
      qed (use Cons.IH [OF s(1)] eq in auto)
    qed (use p d True st in \<open>auto simp: dfs_post_def\<close>)
  qed
qed

lemma dfs_roots_enough:
  assumes "graph_ok g"
  shows "set ns \<subseteq> ag_all_nodes g \<Longrightarrow> card (white_nodes g st) \<le> k \<Longrightarrow> dfs_roots g k ns st \<noteq> RecursionLimit"
proof (induction ns arbitrary: st)
  case (Cons n ns)
  obtain col par where st: "st = (col, par)" by (cases st)
  show ?case
  proof (cases "col n = White")
    case True
    obtain st' res where d: "dfs g k n (col, par) = (st', res)" by fastforce
    have r: "res \<noteq> RecursionLimit" "white_nodes g st' \<subseteq> white_nodes g st"
      using dfs_enough(1) [OF assms, of n st k] Cons.prems True d st by auto
    have "finite (white_nodes g st)" using assms by (simp add: white_nodes_def graph_ok_def)
    then have "card (white_nodes g st') \<le> k" using r(2) Cons.prems(2) card_mono le_trans by blast
    then show ?thesis using Cons r(1) True d st by (cases res) auto
  qed (use Cons st in auto)
qed simp

lemma dfs_inv_initial: "dfs_inv g [] (\<lambda>_. White, Map.empty)"
  by (simp add: dfs_inv_def black_ok_def)

text \<open>The verdict on a graph whose nodes are walked in any order.\<close>

lemma detect_cycle_ok:
  assumes "graph_ok g" "set order = ag_all_nodes g"
  shows "(case detect_cycle limit order g of
       NoCycle \<Rightarrow> \<forall>u. \<not> (edge_to g)\<^sup>+\<^sup>+ u u
     | Cycle c \<Rightarrow> is_cycle g c
     | RecursionLimit \<Rightarrow> limit < card (ag_all_nodes g)
     | Diverges \<Rightarrow> False)"
proof -
  let ?r = "detect_cycle limit order g"
  have r: "case ?r of
       NoCycle \<Rightarrow> \<exists>st'. dfs_inv g [] st' \<and> dfs_grows (\<lambda>_. White, Map.empty) st' \<and> (\<forall>n \<in> set order. fst st' n = Black)
     | Cycle c \<Rightarrow> is_cycle g c | RecursionLimit \<Rightarrow> True | Diverges \<Rightarrow> False"
    unfolding detect_cycle_def by (rule dfs_roots_ok [OF dfs_inv_initial])
  show ?thesis
  proof (cases ?r)
    case NoCycle
    with r obtain st' where st': "dfs_inv g [] st'" "\<forall>n \<in> ag_all_nodes g. fst st' n = Black"
      using assms(2) by auto
    have "\<not> (edge_to g)\<^sup>+\<^sup>+ u u" for u
    proof
      assume c: "(edge_to g)\<^sup>+\<^sup>+ u u"
      then obtain w where "edge_to g u w" by (meson tranclpD)
      then have "u \<in> ag_all_nodes g" using assms(1) by (auto simp: graph_ok_def)
      then show False using st' c by (auto simp: dfs_inv_def black_ok_def)
    qed
    with NoCycle show ?thesis by simp
  next
    case RecursionLimit
    have "white_nodes g (\<lambda>_. White, Map.empty) = ag_all_nodes g" by (auto simp: white_nodes_def)
    then have "\<not> card (ag_all_nodes g) \<le> limit"
      using dfs_roots_enough [OF assms(1), of order "(\<lambda>_. White, Map.empty)" limit] assms(2) RecursionLimit
      by (auto simp: detect_cycle_def)
    with RecursionLimit show ?thesis by simp
  qed (use r in auto)
qed

end
