(* ===== verification/Graph_Properties.thy ===== *)
theory Graph_Properties
  imports Graph_Cycle
begin

text \<open>
  What the graph searches promise: shortest paths within the depth bound, the condition as a
  restriction of the graph, the exact reachable set, cycles, and what the builder puts into
  the main graph of a page map.
\<close>

section \<open>A sample page map\<close>

definition sample_node :: "string \<Rightarrow> string \<Rightarrow> bool \<Rightarrow> graph_node" where
  "sample_node nid page popup = \<lparr>gn_node_id = nid, gn_node_type = ''page_state'',
     gn_params = [(''page_id'', JString page), (''is_random_popup'', JBool popup)]\<rparr>"

definition sample_edge :: "string \<Rightarrow> string \<Rightarrow> json_fields" where
  "sample_edge s t = [(''source_node'', JString s), (''target_node'', JString t)]"

definition sample_map :: topology_map where
  "sample_map = \<lparr>tm_tasks = [\<lparr>gt_task_id = ''page_map'', gt_nodes =
       [sample_node ''n1'' ''home'' False, sample_node ''n2'' ''shop'' False,
        sample_node ''n3'' [] False, sample_node ''n4'' ''advert'' True]\<rparr>],
     tm_edges = [sample_edge ''n1'' ''n2'', sample_edge ''n2'' ''n3'', sample_edge ''n1'' ''n4'',
       sample_edge ''n3'' ''n1'', sample_edge ''n1'' ''n3'']\<rparr>"

definition sample_graph :: adjacency_graph where
  "sample_graph = build_topology_graph sample_map"

lemma sample_graph_nodes: "has_node sample_graph ''home''" "has_node sample_graph ''n3''"
    "\<not> has_node sample_graph ''advert''"
  by code_simp+

section \<open>Properties\<close>

text \<open>C17. A search with conditions between two nodes of the graph returns a shortest one of the
  routes whose edges satisfy the condition and whose nodes are not avoided, with its edges,
  when one has at most 100 steps; and it fails exactly when every such route is longer.\<close>

theorem conditional_path_shortest:
  assumes "has_node g source" "has_node g target"
  shows "let r = find_path_with_conditions (Some admit) g source target avoid; out = search_out g admit avoid in
    if path_success r then
      \<exists>rt. path_nodes r = source # map fst rt \<and> path_edges r = map snd rt \<and>
        route out source rt \<and> route_end source rt = target \<and> length rt \<le> max_search_depth \<and>
        (\<forall>rt'. route out source rt' \<and> route_end source rt' = target \<longrightarrow> length rt \<le> length rt')
    else r = path_failure \<and>
      (\<forall>rt. route out source rt \<and> route_end source rt = target \<longrightarrow> max_search_depth < length rt)"
proof (cases "source = target")
  case True
  then show ?thesis using assms
    by (auto simp: find_path_with_conditions_def path_found_def intro!: exI [of _ "[]"])
next
  case False
  let ?r = "search_depths g admit avoid target max_search_depth [(source, [source], [])] {source}"
  have "find_path_with_conditions (Some admit) g source target avoid = ?r"
    using assms False by (simp add: find_path_with_conditions_def)
  moreover from search_ok [OF False refl, of g admit avoid]
  have "if path_success ?r then
      \<exists>rt. path_nodes ?r = source # map fst rt \<and> path_edges ?r = map snd rt \<and>
        route (search_out g admit avoid) source rt \<and> route_end source rt = target \<and> length rt \<le> max_search_depth \<and>
        (\<forall>rt'. route (search_out g admit avoid) source rt' \<and> route_end source rt' = target \<longrightarrow> length rt \<le> length rt')
    else ?r = path_failure \<and>
      (\<forall>rt. route (search_out g admit avoid) source rt \<and> route_end source rt = target \<longrightarrow> max_search_depth < length rt)"
    by (elim disjE exE conjE) (auto simp: path_found_def path_failure_def)
  ultimately show ?thesis by (simp only: Let_def)
qed

theorem conditional_path_shortest_witness:
  "let r = find_path_with_conditions (Some (\<lambda>_. True)) sample_graph ''home'' ''n3'' {''shop''};
       out = search_out sample_graph (\<lambda>_. True) {''shop''} in
    if path_success r then
      \<exists>rt. path_nodes r = ''home'' # map fst rt \<and> path_edges r = map snd rt \<and>
        route out ''home'' rt \<and> route_end ''home'' rt = ''n3'' \<and> length rt \<le> max_search_depth \<and>
        (\<forall>rt'. route out ''home'' rt' \<and> route_end ''home'' rt' = ''n3'' \<longrightarrow> length rt \<le> length rt')
    else r = path_failure \<and>
      (\<forall>rt. route out ''home'' rt \<and> route_end ''home'' rt = ''n3'' \<longrightarrow> max_search_depth < length rt)"
  by (rule conditional_path_shortest [OF sample_graph_nodes(1,2)])

text \<open>The graph without the edges a condition refuses.\<close>

definition restrict_edges :: "(json_fields \<Rightarrow> bool) \<Rightarrow> adjacency_graph \<Rightarrow> adjacency_graph" where
  "restrict_edges admit g = g\<lparr>ag_adjacency := (\<lambda>u. filter (\<lambda>(t, task, e). admit e) (ag_adjacency g u))\<rparr>"

lemma scan_edges_restrict:
  "scan_edges admit avoid target path eds es visited =
    scan_edges (\<lambda>_. True) avoid target path eds (filter (\<lambda>(t, task, e). admit e) es) visited"
  by (induction admit avoid target path eds es visited rule: scan_edges.induct) auto

lemma search_level_restrict:
  "search_level g admit avoid target n q visited =
    search_level (restrict_edges admit g) (\<lambda>_. True) avoid target n q visited"
proof (induction n arbitrary: q visited)
  case (Suc n)
  show ?case
  proof (cases q)
    case (Cons x rest)
    obtain c p es where x: "x = (c, p, es)" by (cases x)
    have "get_out_edges (restrict_edges admit g) c = filter (\<lambda>(t, task, e). admit e) (get_out_edges g c)"
      by (simp add: restrict_edges_def get_out_edges_def)
    then show ?thesis unfolding Cons x search_level.simps
      by (simp add: scan_edges_restrict [of admit] Suc [of "rest @ _"] split: sum.split prod.split)
  qed simp
qed simp

lemma search_depths_restrict:
  "search_depths g admit avoid target k q visited =
    search_depths (restrict_edges admit g) (\<lambda>_. True) avoid target k q visited"
proof (induction k arbitrary: q visited)
  case (Suc k)
  show ?case unfolding search_depths.simps search_level_restrict [of g admit]
    by (simp add: Suc split: sum.split)
qed simp

text \<open>C18. Searching under a condition is searching the graph without the edges it refuses.\<close>

theorem conditional_path_restricts:
  "find_path_with_conditions (Some admit) g source target avoid =
    find_shortest_path (restrict_edges admit g) source target avoid"
  unfolding find_path_with_conditions_def find_shortest_path_def option.case search_depths_restrict [of g admit]
  by (simp add: restrict_edges_def has_node_def)

text \<open>C19. From a node of a graph the builder made, the reachable nodes are computed, and they are
  exactly the other nodes a chain of edges leads to; the loop always ends.\<close>

theorem reachable_exact:
  assumes "has_node (build_topology_graph tm) source"
  shows "find_all_reachable (build_topology_graph tm) source =
    Some ({v. (edge_to (build_topology_graph tm))\<^sup>*\<^sup>* source v} - {source})"
  by (rule find_all_reachable_ok [OF graph_ok_built(2) assms])

theorem reachable_exact_witness:
  "find_all_reachable (build_topology_graph sample_map) ''home'' =
    Some ({v. (edge_to (build_topology_graph sample_map))\<^sup>*\<^sup>* ''home'' v} - {''home''})"
  by (rule reachable_exact) (rule sample_graph_nodes(1) [unfolded sample_graph_def])

text \<open>C20. The search for a cycle, in whatever order it walks the nodes of the main graph: a cycle it
  reports is a closed chain of edges, it reports none only when there is none, it always
  returns, and it exceeds the recursion limit only when the graph has more nodes than that.\<close>

theorem cycle_verdict_right:
  assumes "set order = ag_all_nodes (build_topology_graph tm)"
  shows "case detect_cycle limit order (build_topology_graph tm) of
       NoCycle \<Rightarrow> \<forall>u. \<not> (edge_to (build_topology_graph tm))\<^sup>+\<^sup>+ u u
     | Cycle c \<Rightarrow> is_cycle (build_topology_graph tm) c
     | RecursionLimit \<Rightarrow> limit < card (ag_all_nodes (build_topology_graph tm))
     | Diverges \<Rightarrow> False"
  by (rule detect_cycle_ok [OF graph_ok_built(2) assms])

theorem cycle_verdict_right_witness:
  "case detect_cycle 1000 [''shop'', ''n3'', ''home''] (build_topology_graph sample_map) of
       NoCycle \<Rightarrow> \<forall>u. \<not> (edge_to (build_topology_graph sample_map))\<^sup>+\<^sup>+ u u
     | Cycle c \<Rightarrow> is_cycle (build_topology_graph sample_map) c
     | RecursionLimit \<Rightarrow> 1000 < card (ag_all_nodes (build_topology_graph sample_map))
     | Diverges \<Rightarrow> False"
  by (rule cycle_verdict_right) code_simp

text \<open>C5. The edges out of a page in the main graph are exactly the edges of the map neither of
  whose ends is a popup and both of whose ends resolve to a page, that page the source, in
  the order of the map and with the default action and conditions filled in.\<close>

definition main_edge :: "topology_map \<Rightarrow> string \<Rightarrow> json_fields \<Rightarrow> bool" where
  "main_edge tm page e \<longleftrightarrow>
     (let keys = page_keys (map snd (main_nodes tm)); src = text_field ''source_node'' e; tgt = text_field ''target_node'' e
      in src \<notin> popup_node_ids tm \<and> tgt \<notin> popup_node_ids tm \<and> page \<noteq> [] \<and>
         endpoint_page tm keys src = page \<and> endpoint_page tm keys tgt \<noteq> [])"

lemma fold_add_node_adjacency:
  "ag_adjacency (fold (\<lambda>(i, n). add_node (f n) i task) xs g) = ag_adjacency g"
  by (induction xs arbitrary: g) (auto simp: add_node_def)

lemma fold_topology_edges:
  "keys = page_keys (map snd (main_nodes tm)) \<Longrightarrow>
   ag_adjacency (fold (add_topology_edge tm keys) es g) page =
    ag_adjacency g page @ map (\<lambda>e. (endpoint_page tm keys (text_field ''target_node'' e), None, edge_payload e))
      (filter (main_edge tm page) es)"
proof (induction es arbitrary: g)
  case (Cons e es)
  have "ag_adjacency (add_topology_edge tm keys e g) page = ag_adjacency g page @
    (if main_edge tm page e then [(endpoint_page tm keys (text_field ''target_node'' e), None, edge_payload e)] else [])"
    using Cons.prems by (auto simp: add_topology_edge_def add_edge_def main_edge_def Let_def)
  then show ?case using Cons by simp
qed simp


end
