(* ===== verification/Runtime_Values.thy ===== *)
theory Runtime_Values
  imports Program_Commands "HOL-Library.Char_ord" "HOL-Library.List_Lexorder"
begin

text \<open>
  The values the runtime computes with (\<^verbatim>\<open>core/vnext/runtime.py\<close>): Python's \<^verbatim>\<open>None\<close>, booleans,
  integers, floats, strings, lists and dictionaries, with truth, equality, order and
  arithmetic as Python has them.

  A float is the rational number it denotes; the rounding of a float result is a parameter,
  infinities and NaN are left out. A dictionary is the list of its entries in insertion
  order; its keys are scalars, equal as Python compares them (\<^verbatim>\<open>1\<close>, \<^verbatim>\<open>1.0\<close> and \<^verbatim>\<open>True\<close> are one
  key).
\<close>

section \<open>Values\<close>

datatype pyval =
    PNone
  | PBool bool
  | PInt int
  | PFloat rat
  | PStr string
  | PList "pyval list"
  | PDict "(pyval \<times> pyval) list"

type_synonym pydict = "(pyval \<times> pyval) list"

fun py_truthy :: "pyval \<Rightarrow> bool" where
  "py_truthy PNone = False"
| "py_truthy (PBool b) = b"
| "py_truthy (PInt i) = (i \<noteq> 0)"
| "py_truthy (PFloat q) = (q \<noteq> 0)"
| "py_truthy (PStr s) = (s \<noteq> [])"
| "py_truthy (PList xs) = (xs \<noteq> [])"
| "py_truthy (PDict fs) = (fs \<noteq> [])"

fun py_number :: "pyval \<Rightarrow> rat option" where
  "py_number (PBool b) = Some (if b then 1 else 0)"
| "py_number (PInt i) = Some (of_int i)"
| "py_number (PFloat q) = Some q"
| "py_number _ = None"

fun py_integer :: "pyval \<Rightarrow> int option" where
  "py_integer (PBool b) = Some (if b then 1 else 0)"
| "py_integer (PInt i) = Some i"
| "py_integer _ = None"

fun hashable :: "pyval \<Rightarrow> bool" where
  "hashable (PList _) = False"
| "hashable (PDict _) = False"
| "hashable _ = True"

definition key_eq :: "pyval \<Rightarrow> pyval \<Rightarrow> bool" where
  "key_eq a b = (case (py_number a, py_number b) of
     (Some x, Some y) \<Rightarrow> x = y | (None, None) \<Rightarrow> a = b | _ \<Rightarrow> False)"

fun dict_get :: "pydict \<Rightarrow> pyval \<Rightarrow> pyval option" where
  "dict_get [] k = None"
| "dict_get ((k', v) # fs) k = (if key_eq k' k then Some v else dict_get fs k)"

fun dict_put :: "pydict \<Rightarrow> pyval \<Rightarrow> pyval \<Rightarrow> pydict" where
  "dict_put [] k v = [(k, v)]"
| "dict_put ((k', w) # fs) k v = (if key_eq k' k then (k', v) # fs else (k', w) # dict_put fs k v)"

definition dict_delete :: "pydict \<Rightarrow> pyval \<Rightarrow> pydict" where
  "dict_delete fs k = filter (\<lambda>(k', v). \<not> key_eq k' k) fs"

definition dict_update :: "pydict \<Rightarrow> pydict \<Rightarrow> pydict" where
  "dict_update fs gs = fold (\<lambda>(k, v) acc. dict_put acc k v) gs fs"

definition text_get :: "pydict \<Rightarrow> string \<Rightarrow> pyval option" where
  "text_get fs k = dict_get fs (PStr k)"

lemma dict_get_member: "dict_get fs k = Some v \<Longrightarrow> \<exists>k'. (k', v) \<in> set fs"
  by (induction fs) (auto split: if_splits)

lemma dict_entry_size:
  assumes "(k, v) \<in> set fs"
  shows "size v < size (PDict fs)" "size k < size (PDict fs)"
proof -
  have "size_prod size size (k, v) \<le> size_list (size_prod size size) fs"
    using assms by (rule size_list_estimation') simp
  then show "size v < size (PDict fs)" "size k < size (PDict fs)" by simp_all
qed

lemma list_item_size: "x \<in> set xs \<Longrightarrow> size x < size (PList xs)"
  by (auto dest: size_list_estimation' [where f = size, OF _ order_refl])

lemma text_get_size: "text_get fs k = Some v \<Longrightarrow> size v < size (PDict fs)"
  by (auto simp: text_get_def dest!: dict_get_member dict_entry_size(1))

text \<open>Equality: numbers by value, lists item by item, dictionaries as maps.\<close>

function py_eq :: "pyval \<Rightarrow> pyval \<Rightarrow> bool" where
  "py_eq a b =
     (case (a, b) of
        (PList xs, PList ys) \<Rightarrow> length xs = length ys \<and> list_all (\<lambda>(x, y). py_eq x y) (zip xs ys)
      | (PDict fs, PDict gs) \<Rightarrow> length fs = length gs \<and>
          list_all (\<lambda>(k, v). case dict_get gs k of None \<Rightarrow> False | Some w \<Rightarrow> py_eq v w) fs
      | _ \<Rightarrow> key_eq a b)"
  by pat_completeness auto
termination
  by (relation "measure (\<lambda>(a, b). size a)")
    (auto dest: set_zip_leftD intro: list_item_size dict_entry_size(1))

declare py_eq.simps [simp del]

definition py_in :: "pyval \<Rightarrow> pyval list \<Rightarrow> bool" where
  "py_in x xs = list_ex (\<lambda>y. py_eq y x) xs"

section \<open>Errors\<close>

text \<open>
  A \<^verbatim>\<open>RuntimeFailure\<close> with its error identifier, whether it is transient, and its details; any
  other Python exception by the name of its class. Message texts are left out.
\<close>

datatype rt_error = RuntimeFailure string bool pyval | PythonError string

fun rt_error_id :: "rt_error \<Rightarrow> string" where
  "rt_error_id (RuntimeFailure i t d) = i"
| "rt_error_id (PythonError c) = ''runtime.error''"

fun rt_transient :: "rt_error \<Rightarrow> bool" where
  "rt_transient (RuntimeFailure i t d) = t"
| "rt_transient (PythonError c) = False"

fun rt_details :: "rt_error \<Rightarrow> pyval" where
  "rt_details (RuntimeFailure i t d) = d"
| "rt_details (PythonError c) = PNone"

type_synonym 'a py = "rt_error + 'a"

definition fail_with :: "string \<Rightarrow> 'a py" where
  "fail_with i = Inl (RuntimeFailure i False PNone)"

definition py_raise :: "string \<Rightarrow> 'a py" where
  "py_raise c = Inl (PythonError c)"

section \<open>What the host of the evaluation provides\<close>

text \<open>
  The Python library beneath the evaluator, as parameters: the rounding of floats, \<^verbatim>\<open>str\<close> of
  floats and containers, attributes of values that are no dictionary, \<^verbatim>\<open>%\<close> on a text, the
  parsing of ISO date-times into an instant and whether it carries a zone, and the pure
  operations that are not modelled.
\<close>

record eval_env =
  ev_round :: "rat \<Rightarrow> rat"
  ev_text :: "pyval \<Rightarrow> string"
  ev_attribute :: "pyval \<Rightarrow> string \<Rightarrow> pyval option"
  ev_percent :: "string \<Rightarrow> pyval \<Rightarrow> pyval py"
  ev_datetime :: "string \<Rightarrow> (bool \<times> int) option"
  ev_resource_function :: string
  ev_operation :: "string \<Rightarrow> pyval \<Rightarrow> (string \<Rightarrow> pyval py) \<Rightarrow> pyval py"

fun py_str :: "eval_env \<Rightarrow> pyval \<Rightarrow> string" where
  "py_str E PNone = ''None''"
| "py_str E (PBool b) = (if b then ''True'' else ''False'')"
| "py_str E (PStr s) = s"
| "py_str E v = ev_text E v"

section \<open>Order and arithmetic\<close>

text \<open>\<^verbatim>\<open>a < b\<close>, or a \<^verbatim>\<open>TypeError\<close>: numbers, texts, and lists at their first difference.\<close>

function py_less :: "pyval \<Rightarrow> pyval \<Rightarrow> bool py"
and py_less_list :: "pyval list \<Rightarrow> pyval list \<Rightarrow> bool py" where
  "py_less a b =
     (case (a, b) of
        (PStr s, PStr t) \<Rightarrow> Inr (s < t)
      | (PList xs, PList ys) \<Rightarrow> py_less_list xs ys
      | _ \<Rightarrow> (case (py_number a, py_number b) of
                (Some x, Some y) \<Rightarrow> Inr (x < y)
              | _ \<Rightarrow> py_raise ''TypeError''))"
| "py_less_list [] ys = Inr (ys \<noteq> [])"
| "py_less_list (x # xs) [] = Inr False"
| "py_less_list (x # xs) (y # ys) = (if py_eq x y then py_less_list xs ys else py_less x y)"
  by pat_completeness auto
termination
  by (relation "measure (\<lambda>p. case p of Inl (a, b) \<Rightarrow> 2 * size a | Inr (xs, ys) \<Rightarrow> 2 * size_list size xs + 1)") auto

definition py_compare :: "string \<Rightarrow> pyval \<Rightarrow> pyval \<Rightarrow> bool py" where
  "py_compare op a b =
     (if op = ''eq'' then Inr (py_eq a b)
      else if op = ''ne'' then Inr (\<not> py_eq a b)
      else if op = ''lt'' then py_less a b
      else if op = ''lte'' then rbind (py_less b a) (\<lambda>g. Inr (\<not> g))
      else if op = ''gt'' then py_less b a
      else rbind (py_less a b) (\<lambda>l. Inr (\<not> l)))"

text \<open>An operation on two numbers: on integers as it is, otherwise on floats and rounded.\<close>

definition numeric ::
  "eval_env \<Rightarrow> (int \<Rightarrow> int \<Rightarrow> int) \<Rightarrow> (rat \<Rightarrow> rat \<Rightarrow> rat) \<Rightarrow> pyval \<Rightarrow> pyval \<Rightarrow> pyval py" where
  "numeric E f g a b =
     (case (py_integer a, py_integer b) of
        (Some i, Some j) \<Rightarrow> Inr (PInt (f i j))
      | _ \<Rightarrow> (case (py_number a, py_number b) of
                (Some x, Some y) \<Rightarrow> Inr (PFloat (ev_round E (g x y)))
              | _ \<Rightarrow> py_raise ''TypeError''))"

definition py_add :: "eval_env \<Rightarrow> pyval \<Rightarrow> pyval \<Rightarrow> pyval py" where
  "py_add E a b =
     (case (a, b) of
        (PStr s, PStr t) \<Rightarrow> Inr (PStr (s @ t))
      | (PList xs, PList ys) \<Rightarrow> Inr (PList (xs @ ys))
      | _ \<Rightarrow> numeric E (+) (+) a b)"

definition py_sub :: "eval_env \<Rightarrow> pyval \<Rightarrow> pyval \<Rightarrow> pyval py" where
  "py_sub E a b = numeric E (-) (-) a b"

definition repeated :: "int \<Rightarrow> 'a list \<Rightarrow> 'a list" where
  "repeated n xs = concat (replicate (nat n) xs)"

definition py_mul :: "eval_env \<Rightarrow> pyval \<Rightarrow> pyval \<Rightarrow> pyval py" where
  "py_mul E a b =
     (case (a, b, py_integer a, py_integer b) of
        (PStr s, _, _, Some n) \<Rightarrow> Inr (PStr (repeated n s))
      | (PList xs, _, _, Some n) \<Rightarrow> Inr (PList (repeated n xs))
      | (_, PStr s, Some n, _) \<Rightarrow> Inr (PStr (repeated n s))
      | (_, PList xs, Some n, _) \<Rightarrow> Inr (PList (repeated n xs))
      | _ \<Rightarrow> numeric E (*) (*) a b)"

definition nonzero :: "pyval \<Rightarrow> 'a py \<Rightarrow> 'a py" where
  "nonzero b r = (if py_number b = Some 0 then py_raise ''ZeroDivisionError'' else r)"

definition py_divide :: "eval_env \<Rightarrow> pyval \<Rightarrow> pyval \<Rightarrow> pyval py" where
  "py_divide E a b =
     (case (py_number a, py_number b) of
        (Some x, Some y) \<Rightarrow> nonzero b (Inr (PFloat (ev_round E (x / y))))
      | _ \<Rightarrow> py_raise ''TypeError'')"

definition py_modulo :: "eval_env \<Rightarrow> pyval \<Rightarrow> pyval \<Rightarrow> pyval py" where
  "py_modulo E a b =
     (case a of
        PStr s \<Rightarrow> ev_percent E s b
      | _ \<Rightarrow> (case (py_number a, py_number b) of
          (Some _, Some _) \<Rightarrow> nonzero b (numeric E (mod) (\<lambda>x y. x - y * of_int \<lfloor>x / y\<rfloor>) a b)
        | _ \<Rightarrow> py_raise ''TypeError''))"

definition py_floor_divide :: "eval_env \<Rightarrow> pyval \<Rightarrow> pyval \<Rightarrow> pyval py" where
  "py_floor_divide E a b =
     (case (py_number a, py_number b) of
        (Some _, Some _) \<Rightarrow> nonzero b (numeric E (div) (\<lambda>x y. of_int \<lfloor>x / y\<rfloor>) a b)
      | _ \<Rightarrow> py_raise ''TypeError'')"

text \<open>\<^verbatim>\<open>-x\<close>, \<^verbatim>\<open>+x\<close>.\<close>

definition py_negative :: "pyval \<Rightarrow> pyval py" where
  "py_negative a =
     (case py_integer a of
        Some i \<Rightarrow> Inr (PInt (- i))
      | None \<Rightarrow> (case a of PFloat q \<Rightarrow> Inr (PFloat (- q)) | _ \<Rightarrow> py_raise ''TypeError''))"

definition py_positive :: "pyval \<Rightarrow> pyval py" where
  "py_positive a =
     (case py_integer a of
        Some i \<Rightarrow> Inr (PInt i)
      | None \<Rightarrow> (case a of PFloat q \<Rightarrow> Inr (PFloat q) | _ \<Rightarrow> py_raise ''TypeError''))"

text \<open>\<^verbatim>\<open>owner[key]\<close>.\<close>

definition py_item :: "'a list \<Rightarrow> pyval \<Rightarrow> 'a py" where
  "py_item xs k =
     (case py_integer k of
        None \<Rightarrow> py_raise ''TypeError''
      | Some i \<Rightarrow>
          let n = int (length xs); j = (if i < 0 then i + n else i)
          in if 0 \<le> j \<and> j < n then Inr (xs ! nat j) else py_raise ''IndexError'')"

definition py_subscript :: "pyval \<Rightarrow> pyval \<Rightarrow> pyval py" where
  "py_subscript owner k =
     (case owner of
        PList xs \<Rightarrow> py_item xs k
      | PStr s \<Rightarrow> rbind (py_item s k) (\<lambda>c. Inr (PStr [c]))
      | PDict fs \<Rightarrow> if \<not> hashable k then py_raise ''TypeError''
          else (case dict_get fs k of None \<Rightarrow> py_raise ''KeyError'' | Some v \<Rightarrow> Inr v)
      | _ \<Rightarrow> py_raise ''TypeError'')"

text \<open>\<^verbatim>\<open>xs[start:end]\<close>.\<close>

definition slice_bound :: "nat \<Rightarrow> int \<Rightarrow> nat" where
  "slice_bound n i = nat (max 0 (min (int n) (if i < 0 then i + int n else i)))"

definition py_slice :: "'a list \<Rightarrow> int \<Rightarrow> int \<Rightarrow> 'a list" where
  "py_slice xs i j = (let a = slice_bound (length xs) i; b = slice_bound (length xs) j in take (b - a) (drop a xs))"

text \<open>\<^verbatim>\<open>int(x)\<close> of a number truncates towards zero; of a text it is left to the host.\<close>

definition truncate_rat :: "rat \<Rightarrow> int" where
  "truncate_rat q = (if q < 0 then - \<lfloor>- q\<rfloor> else \<lfloor>q\<rfloor>)"

definition py_int :: "pyval \<Rightarrow> int py" where
  "py_int v =
     (case py_integer v of
        Some i \<Rightarrow> Inr i
      | None \<Rightarrow> (case v of
          PFloat q \<Rightarrow> Inr (truncate_rat q)
        | PStr s \<Rightarrow> (case parse_int s of None \<Rightarrow> py_raise ''ValueError'' | Some i \<Rightarrow> Inr i)
        | _ \<Rightarrow> py_raise ''TypeError''))"

text \<open>\<^verbatim>\<open>list(x)\<close>: the items of a list, the characters of a text, the keys of a dictionary.\<close>

definition py_list :: "pyval \<Rightarrow> pyval list py" where
  "py_list v =
     (case v of
        PList xs \<Rightarrow> Inr xs
      | PStr s \<Rightarrow> Inr (map (\<lambda>c. PStr [c]) s)
      | PDict fs \<Rightarrow> Inr (map fst fs)
      | _ \<Rightarrow> py_raise ''TypeError'')"

definition py_dict :: "pyval \<Rightarrow> pydict py" where
  "py_dict v = (case v of PDict fs \<Rightarrow> Inr fs | _ \<Rightarrow> py_raise ''TypeError'')"

end
