(* ===== verification/Pure_Operations.thy ===== *)
theory Pure_Operations
  imports Runtime_Values
begin

text \<open>
  The pure operations of \<^verbatim>\<open>runtime.py\<close> (\<^verbatim>\<open>_pure_operation\<close>): numbers, texts, optionals, lists,
  maps and JSON paths. An operation gets its inputs as unevaluated results, so that only
  what the code evaluates can fail, in the code's order; a selector is a function of its
  bindings. Regular expressions, dates, colours, geometry, JSON text and schemas, letter
  case, rounding and formatting are the host's.
\<close>

section \<open>Loops over items\<close>

text \<open>Every 256 items the loop looks whether the session is cancelled.\<close>

definition cancellation_checkpoint :: "bool \<Rightarrow> nat \<Rightarrow> unit py" where
  "cancellation_checkpoint cancelled i =
     (if i mod 256 \<noteq> 0 then Inr () else if cancelled then fail_with ''runtime.cancelled'' else Inr ())"

fun select_fold :: "bool \<Rightarrow> nat \<Rightarrow> (nat \<Rightarrow> 'a \<Rightarrow> 'b \<Rightarrow> 'b py) \<Rightarrow> 'b \<Rightarrow> 'a list \<Rightarrow> 'b py" where
  "select_fold c i f acc [] = Inr acc"
| "select_fold c i f acc (x # xs) =
     rbind (cancellation_checkpoint c i) (\<lambda>_. rbind (f i x acc) (\<lambda>acc'. select_fold c (Suc i) f acc' xs))"

text \<open>The first item whose result is true.\<close>

fun select_until :: "bool \<Rightarrow> nat \<Rightarrow> (nat \<Rightarrow> 'a \<Rightarrow> pyval py) \<Rightarrow> 'a list \<Rightarrow> 'a option py" where
  "select_until c i f [] = Inr None"
| "select_until c i f (x # xs) =
     rbind (cancellation_checkpoint c i) (\<lambda>_. rbind (f i x) (\<lambda>r.
       if py_truthy r then Inr (Some x) else select_until c (Suc i) f xs))"

text \<open>A comparison sort that meets incomparable keys raises; otherwise the sort is stable.\<close>

fun insert_row :: "(pyval \<times> 'a) \<Rightarrow> (pyval \<times> 'a) list \<Rightarrow> (pyval \<times> 'a) list py" where
  "insert_row x [] = Inr [x]"
| "insert_row x (y # ys) =
     rbind (py_less (fst y) (fst x)) (\<lambda>b.
       if b then rbind (insert_row x ys) (\<lambda>zs. Inr (y # zs)) else Inr (x # y # ys))"

fun sort_rows :: "(pyval \<times> 'a) list \<Rightarrow> (pyval \<times> 'a) list py" where
  "sort_rows [] = Inr []"
| "sort_rows (x # xs) = rbind (sort_rows xs) (insert_row x)"

definition comparable :: "pyval \<Rightarrow> pyval \<Rightarrow> bool" where
  "comparable a b \<longleftrightarrow> \<not> isl (py_less a b)"

text \<open>\<^verbatim>\<open>reverse=True\<close> keeps equal rows in their order: it reverses, sorts and reverses again.\<close>

definition sort_by :: "bool \<Rightarrow> (pyval \<times> 'a) list \<Rightarrow> 'a list py" where
  "sort_by descending rows =
     (if length rows \<le> 1 then Inr (map snd rows)
      else if \<exists>a \<in> set rows. \<exists>b \<in> set rows. \<not> comparable (fst a) (fst b)
        then fail_with ''runtime.collection_sort_key''
      else if descending then rbind (sort_rows (rev rows)) (\<lambda>r. Inr (rev (map snd r)))
      else rbind (sort_rows rows) (\<lambda>r. Inr (map snd r)))"

section \<open>Operations\<close>

type_synonym inputs = "string \<Rightarrow> pyval py"
type_synonym selectors = "string \<Rightarrow> (string \<times> pyval) list \<Rightarrow> pyval py"

definition with_input :: "inputs \<Rightarrow> string \<Rightarrow> (pyval \<Rightarrow> 'a py) \<Rightarrow> 'a py" where
  "with_input inp n f = rbind (inp n) f"

definition with_inputs :: "inputs \<Rightarrow> string \<Rightarrow> string \<Rightarrow> (pyval \<Rightarrow> pyval \<Rightarrow> 'a py) \<Rightarrow> 'a py" where
  "with_inputs inp m n f = rbind (inp m) (\<lambda>a. rbind (inp n) (f a))"

definition py_min :: "pyval \<Rightarrow> pyval \<Rightarrow> pyval py" where
  "py_min a b = rbind (py_less b a) (\<lambda>l. Inr (if l then b else a))"

definition py_max :: "pyval \<Rightarrow> pyval \<Rightarrow> pyval py" where
  "py_max a b = rbind (py_less a b) (\<lambda>l. Inr (if l then b else a))"

definition py_zero :: "pyval \<Rightarrow> bool" where
  "py_zero v \<longleftrightarrow> py_eq v (PInt 0)"

definition number_operation :: "eval_env \<Rightarrow> string \<Rightarrow> pyval \<Rightarrow> inputs \<Rightarrow> pyval py" where
  "number_operation E op rt inp =
     (if op = ''core.number_add.v1'' then with_inputs inp ''left'' ''right'' (py_add E)
      else if op = ''core.number_subtract.v1'' then with_inputs inp ''left'' ''right'' (py_sub E)
      else if op = ''core.number_multiply.v1'' then with_inputs inp ''left'' ''right'' (py_mul E)
      else if op \<in> {''core.number_divide.v1'', ''core.number_modulo.v1''} then
        with_input inp ''right'' (\<lambda>r.
          if py_zero r then fail_with ''runtime.divide_by_zero''
          else with_input inp ''left'' (\<lambda>l.
            if op = ''core.number_divide.v1'' then py_divide E l r else py_modulo E l r))
      else if op = ''core.number_min.v1'' then with_inputs inp ''left'' ''right'' py_min
      else if op = ''core.number_max.v1'' then with_inputs inp ''left'' ''right'' py_max
      else if op = ''core.number_clamp.v1'' then
        with_input inp ''value'' (\<lambda>v. with_inputs inp ''minimum'' ''maximum'' (\<lambda>lo hi.
          rbind (py_less hi lo) (\<lambda>bad.
            if bad then fail_with ''runtime.operation_invalid''
            else rbind (py_max lo v) (\<lambda>m. py_min hi m))))
      else if op = ''core.number_to_int.v1'' then
        with_input inp ''value'' (\<lambda>v. rbind (py_int v) (\<lambda>i. Inr (PInt i)))
      else ev_operation E op rt inp)"

definition text_input :: "eval_env \<Rightarrow> inputs \<Rightarrow> string \<Rightarrow> (string \<Rightarrow> 'a py) \<Rightarrow> 'a py" where
  "text_input E inp n f = rbind (inp n) (\<lambda>v. f (py_str E v))"

fun join_texts :: "string \<Rightarrow> string list \<Rightarrow> string" where
  "join_texts sep [] = []"
| "join_texts sep [s] = s"
| "join_texts sep (s # t # ts) = s @ sep @ join_texts sep (t # ts)"

definition the_texts :: "pyval \<Rightarrow> string list option" where
  "the_texts v = (case v of
     PList xs \<Rightarrow> if list_all (\<lambda>x. \<exists>s. x = PStr s) xs
       then Some (map (\<lambda>x. case x of PStr s \<Rightarrow> s | _ \<Rightarrow> []) xs) else None
   | _ \<Rightarrow> None)"

definition text_operation :: "eval_env \<Rightarrow> string \<Rightarrow> pyval \<Rightarrow> inputs \<Rightarrow> pyval py" where
  "text_operation E op rt inp =
     (if op = ''core.text_join.v1'' then
        text_input E inp ''separator'' (\<lambda>sep. with_input inp ''list'' (\<lambda>v.
          case the_texts v of None \<Rightarrow> fail_with ''runtime.argument_type''
          | Some ts \<Rightarrow> Inr (PStr (join_texts sep ts))))
      else if op = ''core.text_concat.v1'' then
        text_input E inp ''left'' (\<lambda>a. text_input E inp ''right'' (\<lambda>b. Inr (PStr (a @ b))))
      else if op = ''core.text_slice.v1'' then
        text_input E inp ''text'' (\<lambda>t. with_input inp ''start'' (\<lambda>a. rbind (py_int a) (\<lambda>i.
          with_input inp ''end'' (\<lambda>b. rbind (py_int b) (\<lambda>j. Inr (PStr (py_slice t i j)))))))
      else if op = ''core.text_length.v1'' then
        text_input E inp ''text'' (\<lambda>t. Inr (PInt (int (length t))))
      else ev_operation E op rt inp)"

definition collection_budget :: nat where
  "collection_budget = 100000"

definition list_index :: "nat \<Rightarrow> bool \<Rightarrow> pyval \<Rightarrow> nat py" where
  "list_index n allow_end raw =
     (case raw of
        PInt i \<Rightarrow> if i < 0 \<or> (if allow_end then int n else int n - 1) < i
          then fail_with ''runtime.collection_index'' else Inr (nat i)
      | _ \<Rightarrow> fail_with ''runtime.operation_invalid'')"

definition item_bindings :: "nat \<Rightarrow> pyval \<Rightarrow> (string \<times> pyval) list" where
  "item_bindings i x = [(''item'', x), (''index'', PInt (int i))]"

definition entry_bindings :: "pyval \<times> pyval \<Rightarrow> (string \<times> pyval) list" where
  "entry_bindings e = [(''key'', fst e), (''value'', snd e)]"

definition distinct_items :: "pyval list \<Rightarrow> pyval list" where
  "distinct_items xs = fold (\<lambda>x acc. if py_in x acc then acc else acc @ [x]) xs []"

definition append_group :: "pyval \<Rightarrow> pyval \<Rightarrow> pydict \<Rightarrow> pydict py" where
  "append_group k x groups =
     (if \<not> hashable k then fail_with ''runtime.map_key_invalid''
      else case dict_get groups k of
             Some (PList xs) \<Rightarrow> Inr (dict_put groups k (PList (xs @ [x])))
           | _ \<Rightarrow> Inr (dict_put groups k (PList [x])))"

definition py_sum :: "eval_env \<Rightarrow> pyval list \<Rightarrow> pyval py" where
  "py_sum E xs = fold (\<lambda>x acc. rbind acc (\<lambda>a. py_add E a x)) xs (Inr (PInt 0))"

fun py_extreme :: "(pyval \<Rightarrow> pyval \<Rightarrow> pyval py) \<Rightarrow> pyval list \<Rightarrow> pyval py" where
  "py_extreme f [] = Inr PNone"
| "py_extreme f (x # xs) = fold (\<lambda>y acc. rbind acc (\<lambda>a. f a y)) xs (Inr x)"

text \<open>The operations of a list without a selector.\<close>

definition list_plain :: "eval_env \<Rightarrow> string \<Rightarrow> pyval \<Rightarrow> inputs \<Rightarrow> pyval list \<Rightarrow> pyval py" where
  "list_plain E op rt inp items =
     (if op = ''core.list_is_empty.v1'' then Inr (PBool (items = []))
      else if op = ''core.list_length.v1'' then Inr (PInt (int (length items)))
      else if op = ''core.list_contains.v1'' then with_input inp ''value'' (\<lambda>v. Inr (PBool (py_in v items)))
      else if op = ''core.list_first.v1'' then Inr (case items of [] \<Rightarrow> PNone | x # _ \<Rightarrow> x)
      else if op = ''core.list_last.v1'' then Inr (if items = [] then PNone else last items)
      else if op = ''core.list_get.v1'' then with_input inp ''index'' (\<lambda>raw. Inr
        (case py_integer raw of
           Some i \<Rightarrow> if 0 \<le> i \<and> i < int (length items) then items ! nat i else PNone
         | None \<Rightarrow> PNone))
      else if op = ''core.list_append.v1'' then with_input inp ''value'' (\<lambda>v. Inr (PList (items @ [v])))
      else if op = ''core.list_prepend.v1'' then with_input inp ''value'' (\<lambda>v. Inr (PList (v # items)))
      else if op = ''core.list_insert.v1'' then with_input inp ''index'' (\<lambda>raw.
        rbind (list_index (length items) True raw) (\<lambda>i. with_input inp ''value'' (\<lambda>v.
          Inr (PList (take i items @ v # drop i items)))))
      else if op = ''core.list_replace.v1'' then with_input inp ''index'' (\<lambda>raw.
        rbind (list_index (length items) False raw) (\<lambda>i. with_input inp ''value'' (\<lambda>v.
          Inr (PList (take i items @ v # drop (Suc i) items)))))
      else if op = ''core.list_remove_at.v1'' then with_input inp ''index'' (\<lambda>raw.
        rbind (list_index (length items) False raw) (\<lambda>i. Inr (PList (take i items @ drop (Suc i) items))))
      else if op = ''core.list_clear.v1'' then Inr (PList [])
      else if op = ''core.list_reverse.v1'' then Inr (PList (rev items))
      else if op = ''core.list_slice.v1'' then with_input inp ''start'' (\<lambda>a. rbind (py_int a) (\<lambda>i.
        with_input inp ''end'' (\<lambda>b. rbind (py_int b) (\<lambda>j. Inr (PList (py_slice items i j))))))
      else if op = ''core.list_concat.v1'' then with_input inp ''other'' (\<lambda>v.
        rbind (py_list v) (\<lambda>ys. Inr (PList (items @ ys))))
      else if op = ''core.list_distinct.v1'' then Inr (PList (distinct_items items))
      else if op = ''core.list_sum.v1'' then py_sum E items
      else if op = ''core.list_average.v1'' then
        (if items = [] then Inr PNone else rbind (py_sum E items) (\<lambda>t. py_divide E t (PInt (int (length items)))))
      else if op = ''core.list_min.v1'' then py_extreme py_min items
      else if op = ''core.list_max.v1'' then py_extreme py_max items
      else ev_operation E op rt inp)"

definition list_flatten :: "bool \<Rightarrow> pyval list \<Rightarrow> pyval py" where
  "list_flatten c items =
     rbind (select_fold c 0 (\<lambda>i x acc. case x of
         PList ys \<Rightarrow> if collection_budget < length acc + length ys
           then fail_with ''runtime.collection_budget'' else Inr (acc @ ys)
       | _ \<Rightarrow> fail_with ''runtime.operation_invalid'') [] items) (\<lambda>xs. Inr (PList xs))"

definition list_zip :: "bool \<Rightarrow> pyval list \<Rightarrow> pyval list \<Rightarrow> pyval py" where
  "list_zip c items other =
     (if collection_budget < length other then fail_with ''runtime.collection_budget''
      else rbind (select_fold c 0 (\<lambda>i p acc. Inr (acc @
            [PDict [(PStr ''zip_pair.field.left'', fst p), (PStr ''zip_pair.field.right'', snd p)]]))
          [] (zip items other)) (\<lambda>xs. Inr (PList xs)))"

text \<open>The operations of a list with a selector or a checkpoint.\<close>

definition list_operation ::
  "eval_env \<Rightarrow> bool \<Rightarrow> string \<Rightarrow> pyval \<Rightarrow> inputs \<Rightarrow> selectors \<Rightarrow> pyval list \<Rightarrow> pyval py" where
  "list_operation E c op rt inp sel items =
     (let pick = (\<lambda>n i x. sel n (item_bindings i x)); keep = (\<lambda>i x. pick ''predicate'' i x) in
      if op = ''core.list_filter.v1'' then
        rbind (select_fold c 0 (\<lambda>i x acc. rbind (keep i x) (\<lambda>r. Inr (if py_truthy r then acc @ [x] else acc))) [] items)
          (\<lambda>xs. Inr (PList xs))
      else if op = ''core.list_map.v1'' then
        rbind (select_fold c 0 (\<lambda>i x acc. rbind (pick ''transform'' i x) (\<lambda>y. Inr (acc @ [y]))) [] items)
          (\<lambda>xs. Inr (PList xs))
      else if op = ''core.list_sort_by.v1'' then
        rbind (select_fold c 0 (\<lambda>i x acc. rbind (pick ''key_selector'' i x) (\<lambda>k. Inr (acc @ [(k, x)]))) [] items)
          (\<lambda>rows. with_input inp ''descending'' (\<lambda>d.
             rbind (sort_by (py_truthy d) rows) (\<lambda>xs. Inr (PList xs))))
      else if op = ''core.list_group_by.v1'' then
        rbind (select_fold c 0 (\<lambda>i x acc. rbind (pick ''key_selector'' i x) (\<lambda>k. append_group k x acc)) [] items)
          (\<lambda>groups. Inr (PDict groups))
      else if op = ''core.list_flatten.v1'' then list_flatten c items
      else if op = ''core.list_zip.v1'' then
        with_input inp ''other'' (\<lambda>v. rbind (py_list v) (list_zip c items))
      else if op = ''core.list_find_first.v1'' then
        rbind (select_until c 0 keep items) (\<lambda>r. Inr (case r of None \<Rightarrow> PNone | Some x \<Rightarrow> x))
      else if op = ''core.list_any.v1'' then
        rbind (select_until c 0 keep items) (\<lambda>r. Inr (PBool (r \<noteq> None)))
      else if op = ''core.list_all.v1'' then
        rbind (select_until c 0 (\<lambda>i x. rbind (keep i x) (\<lambda>r. Inr (PBool (\<not> py_truthy r)))) items)
          (\<lambda>r. Inr (PBool (r = None)))
      else if op = ''core.list_count_match.v1'' then
        rbind (select_fold c 0 (\<lambda>i x acc. rbind (keep i x) (\<lambda>r. Inr (if py_truthy r then acc + 1 else acc))) 0 items)
          (\<lambda>n. Inr (PInt n))
      else if op = ''core.list_index_by.v1'' then
        rbind (select_fold c 0 (\<lambda>i x acc. rbind (pick ''key_selector'' i x) (\<lambda>k.
            if \<not> hashable k then fail_with ''runtime.map_key_invalid''
            else if dict_get acc k \<noteq> None then fail_with ''runtime.map_duplicate_key''
            else Inr (dict_put acc k x))) [] items)
          (\<lambda>indexed. Inr (PDict indexed))
      else list_plain E op rt inp items)"

section \<open>Maps\<close>

definition hashed :: "pyval \<Rightarrow> 'a py \<Rightarrow> 'a py" where
  "hashed k r = (if hashable k then r else py_raise ''TypeError'')"

definition map_merge :: "pydict \<Rightarrow> pydict \<Rightarrow> string \<Rightarrow> pyval py" where
  "map_merge source other policy =
     (if list_ex (\<lambda>(k, v). dict_get other k \<noteq> None) source \<and> policy = ''error''
      then fail_with ''runtime.map_duplicate_key''
      else Inr (PDict (if policy = ''keep_old'' then dict_update other source else dict_update source other)))"

definition map_operation ::
  "eval_env \<Rightarrow> bool \<Rightarrow> string \<Rightarrow> pyval \<Rightarrow> inputs \<Rightarrow> selectors \<Rightarrow> pydict \<Rightarrow> pyval py" where
  "map_operation E c op rt inp sel source =
     (let pick = (\<lambda>n e. sel n (entry_bindings e)) in
      if op = ''core.map_has_key.v1'' then with_input inp ''key'' (\<lambda>k. hashed k (Inr (PBool (dict_get source k \<noteq> None))))
      else if op = ''core.map_get.v1'' then with_input inp ''key'' (\<lambda>k. hashed k
        (Inr (case dict_get source k of None \<Rightarrow> PNone | Some v \<Rightarrow> v)))
      else if op = ''core.map_set.v1'' then with_inputs inp ''key'' ''value'' (\<lambda>k v. hashed k (Inr (PDict (dict_put source k v))))
      else if op = ''core.map_delete.v1'' then with_input inp ''key'' (\<lambda>k.
        if source = [] then Inr (PDict []) else hashed k (Inr (PDict (dict_delete source k))))
      else if op = ''core.map_clear.v1'' then Inr (PDict [])
      else if op = ''core.map_keys.v1'' then Inr (PList (map fst source))
      else if op = ''core.map_values.v1'' then Inr (PList (map snd source))
      else if op = ''core.map_entries.v1'' then
        Inr (PList (map (\<lambda>(k, v). PDict [(PStr ''key'', k), (PStr ''value'', v)]) source))
      else if op = ''core.map_merge.v1'' then with_input inp ''other'' (\<lambda>m. rbind (py_dict m) (\<lambda>other.
        text_input E inp ''conflict'' (map_merge source other)))
      else if op = ''core.map_filter.v1'' then
        rbind (select_fold c 0 (\<lambda>i e acc. rbind (pick ''predicate'' e) (\<lambda>r.
            Inr (if py_truthy r then dict_put acc (fst e) (snd e) else acc))) [] source) (\<lambda>fs. Inr (PDict fs))
      else if op = ''core.map_map_values.v1'' then
        rbind (select_fold c 0 (\<lambda>i e acc. rbind (pick ''transform'' e) (\<lambda>v. Inr (dict_put acc (fst e) v))) [] source)
          (\<lambda>fs. Inr (PDict fs))
      else if op = ''core.map_group_by.v1'' then
        rbind (select_fold c 0 (\<lambda>i e acc. rbind (pick ''key_selector'' e) (\<lambda>k. append_group k
            (PDict [(PStr ''map_entry.field.key'', fst e), (PStr ''map_entry.field.value'', snd e)]) acc)) [] source)
          (\<lambda>groups. Inr (PDict groups))
      else ev_operation E op rt inp)"

section \<open>Paths into JSON\<close>

definition json_step :: "eval_env \<Rightarrow> pyval \<Rightarrow> pyval \<Rightarrow> pyval option" where
  "json_step E v part =
     (case v of
        PDict fs \<Rightarrow> text_get fs (py_str E part)
      | PList xs \<Rightarrow> (case py_integer part of
          Some i \<Rightarrow> if 0 \<le> i \<and> i < int (length xs) then Some (xs ! nat i) else None
        | None \<Rightarrow> None)
      | _ \<Rightarrow> None)"

fun json_locate :: "eval_env \<Rightarrow> pyval \<Rightarrow> pyval list \<Rightarrow> pyval option" where
  "json_locate E v [] = Some v"
| "json_locate E v (p # ps) = (case json_step E v p of None \<Rightarrow> None | Some w \<Rightarrow> json_locate E w ps)"

text \<open>The code changes the owner in place in a copy; here the copy is rebuilt along the path.\<close>

definition json_put :: "eval_env \<Rightarrow> pyval \<Rightarrow> pyval \<Rightarrow> pyval \<Rightarrow> pyval option" where
  "json_put E v part w =
     (case v of
        PDict fs \<Rightarrow> Some (PDict (dict_put fs (PStr (py_str E part)) w))
      | PList xs \<Rightarrow> (case py_integer part of
          Some i \<Rightarrow> if 0 \<le> i \<and> i < int (length xs) then Some (PList (xs[nat i := w])) else None
        | None \<Rightarrow> None)
      | _ \<Rightarrow> None)"

definition json_drop :: "eval_env \<Rightarrow> pyval \<Rightarrow> pyval \<Rightarrow> pyval option" where
  "json_drop E v part =
     (case v of
        PDict fs \<Rightarrow> Some (PDict (dict_delete fs (PStr (py_str E part))))
      | PList xs \<Rightarrow> (case py_integer part of
          Some i \<Rightarrow> if 0 \<le> i \<and> i < int (length xs) then Some (PList (take (nat i) xs @ drop (Suc (nat i)) xs)) else None
        | None \<Rightarrow> None)
      | _ \<Rightarrow> None)"

fun json_change :: "eval_env \<Rightarrow> (pyval \<Rightarrow> pyval \<Rightarrow> pyval option) \<Rightarrow> pyval \<Rightarrow> pyval list \<Rightarrow> pyval option" where
  "json_change E f v [] = None"
| "json_change E f v [p] = f v p"
| "json_change E f v (p # q # ps) =
     (case json_step E v p of
        None \<Rightarrow> None
      | Some w \<Rightarrow> (case json_change E f w (q # ps) of
          None \<Rightarrow> None
        | Some w' \<Rightarrow> json_put E v p w'))"

definition or_none :: "pyval option \<Rightarrow> pyval" where
  "or_none v = (case v of None \<Rightarrow> PNone | Some w \<Rightarrow> w)"

definition can_put :: "eval_env \<Rightarrow> pyval \<Rightarrow> pyval list \<Rightarrow> bool" where
  "can_put E v path = (json_change E (\<lambda>w p. json_put E w p PNone) v path \<noteq> None)"

definition json_operation :: "eval_env \<Rightarrow> string \<Rightarrow> pyval \<Rightarrow> inputs \<Rightarrow> pyval py" where
  "json_operation E op rt inp =
     with_input inp ''json'' (\<lambda>source. with_input inp ''path'' (\<lambda>p. rbind (py_list p) (\<lambda>path.
       if op = ''core.json_path_exists.v1'' then Inr (PBool (json_locate E source path \<noteq> None))
       else if op = ''core.json_path_get.v1'' then Inr (or_none (json_locate E source path))
       else if path = [] then (if op = ''core.json_path_set.v1'' then inp ''value'' else Inr PNone)
       else if op = ''core.json_path_set.v1'' then
         (if can_put E source path
          then with_input inp ''value'' (\<lambda>v. Inr (or_none (json_change E (\<lambda>w k. json_put E w k v) source path)))
          else Inr PNone)
       else Inr (or_none (json_change E (json_drop E) source path)))))"

section \<open>Dispatch\<close>

text \<open>A prefix of the name chooses the group; a group that knows no such name falls through.\<close>

definition pure_operation ::
  "eval_env \<Rightarrow> bool \<Rightarrow> string \<Rightarrow> pyval \<Rightarrow> inputs \<Rightarrow> selectors \<Rightarrow> pyval py" where
  "pure_operation E c op rt inp sel =
     (if starts_with ''core.number_'' op then number_operation E op rt inp
      else if op \<in> {''core.text_join.v1'', ''core.text_concat.v1'', ''core.text_slice.v1'', ''core.text_length.v1''}
        then text_operation E op rt inp
      else if op = ''core.optional_has_value.v1'' then with_input inp ''value'' (\<lambda>v. Inr (PBool (v \<noteq> PNone)))
      else if op = ''core.optional_default.v1'' then
        with_input inp ''value'' (\<lambda>v. if v = PNone then inp ''default'' else Inr v)
      else if op = ''core.select.v1'' then
        with_input inp ''condition'' (\<lambda>b. if py_truthy b then inp ''when_true'' else inp ''when_false'')
      else if starts_with ''core.list_'' op then
        with_input inp ''list'' (\<lambda>v. rbind (py_list v) (\<lambda>items.
          if collection_budget < length items then fail_with ''runtime.collection_budget''
          else list_operation E c op rt inp sel items))
      else if starts_with ''core.map_'' op then
        with_input inp ''map'' (\<lambda>v. rbind (py_dict v) (\<lambda>source.
          if collection_budget < length source then fail_with ''runtime.collection_budget''
          else map_operation E c op rt inp sel source))
      else if starts_with ''core.json_path_'' op then json_operation E op rt inp
      else ev_operation E op rt inp)"

end
