(* ===== verification/Runtime_Eval.thy ===== *)
theory Runtime_Eval
  imports Pure_Operations
begin

text \<open>
  Values between the compiler and the runtime: \<^verbatim>\<open>lower_value\<close> is \<^verbatim>\<open>_lower_value\<close> of
  \<^verbatim>\<open>core/vnext/program_compiler.py\<close>, which turns a typed value into nested dictionaries with a
  \<^verbatim>\<open>kind\<close>; \<^verbatim>\<open>eval_value\<close> is \<^verbatim>\<open>_value\<close> of \<^verbatim>\<open>core/vnext/runtime.py\<close>, which interprets any such
  dictionary, in the order of its tests.
\<close>

section \<open>Lowering\<close>

fun lower_json :: "json \<Rightarrow> pyval" where
  "lower_json JNull = PNone"
| "lower_json (JBool b) = PBool b"
| "lower_json (JInt i) = PInt i"
| "lower_json (JFloat q) = PFloat q"
| "lower_json (JString s) = PStr s"
| "lower_json (JList xs) = PList (map lower_json xs)"
| "lower_json (JObject fs) = PDict (map (\<lambda>(k, v). (PStr k, lower_json v)) fs)"

fun lower_number :: "number \<Rightarrow> pyval" where
  "lower_number (IntNumber i) = PInt i"
| "lower_number (FloatNumber q) = PFloat q"

definition ecir :: "(string \<times> pyval) list \<Rightarrow> pyval" where
  "ecir fs = PDict (map (\<lambda>(k, v). (PStr k, v)) fs)"

fun operator_name :: "compare_operator \<Rightarrow> string" where
  "operator_name OpEq = ''eq''" | "operator_name OpNe = ''ne''" | "operator_name OpLt = ''lt''"
| "operator_name OpLte = ''lte''" | "operator_name OpGt = ''gt''" | "operator_name OpGte = ''gte''"

fun group_name :: "group_operator \<Rightarrow> string" where
  "group_name GroupAll = ''all''" | "group_name GroupAny = ''any''"

fun role_name :: "binding_role \<Rightarrow> string" where
  "role_name RoleItem = ''item''" | "role_name RoleIndex = ''index''"
| "role_name RoleKey = ''key''" | "role_name RoleValue = ''value''"

definition lower_binding :: "selector_binding \<Rightarrow> pyval" where
  "lower_binding b = ecir [(''symbol_id'', PStr (sb_symbol_id b)), (''role'', PStr (role_name (sb_role b))),
     (''value_type'', PStr (sb_value_type b))]"

lemma entry_size1: "(k, v) \<in> set xs \<Longrightarrow> size v < Suc (size_list (size_prod (\<lambda>_. 0) size) xs)"
  using size_list_estimation' [of "(k, v)" xs "size v" "size_prod (\<lambda>_. 0) size"] by simp

lemma entry_size2:
  assumes "(k, v) \<in> set xs"
  shows "size v < Suc (size_list (size_prod size size) xs)" "size k < Suc (size_list (size_prod size size) xs)"
  using size_list_estimation' [OF assms, of "size v + size k" "size_prod size size"] by simp_all

text \<open>The left side is \<^verbatim>\<open>_LoweringError\<close> with the identifier of the value that was not set.\<close>

function lower_value :: "value_node \<Rightarrow> stable_id + pyval" where
  "lower_value (UnsetValue i t) = Inl i"
| "lower_value (NullValue i) = Inr PNone"
| "lower_value (StringValue i s) = Inr (PStr s)"
| "lower_value (IntValue i n) = Inr (PInt n)"
| "lower_value (FloatValue i q) = Inr (PFloat q)"
| "lower_value (BoolValue i b) = Inr (PBool b)"
| "lower_value (DateValue i s) = Inr (ecir [(''kind'', PStr ''date''), (''value'', PStr s)])"
| "lower_value (DateTimeValue i s) = Inr (ecir [(''kind'', PStr ''datetime''), (''value'', PStr s)])"
| "lower_value (TimeValue i s) = Inr (ecir [(''kind'', PStr ''time''), (''value'', PStr s)])"
| "lower_value (DurationValue i ms) = Inr (ecir [(''kind'', PStr ''duration''), (''milliseconds'', PInt ms)])"
| "lower_value (SymbolReferenceValue i s t) =
     Inr (ecir [(''kind'', PStr ''reference''), (''scope'', PStr ''local''), (''symbol_id'', PStr s)])"
| "lower_value (ProjectVariableReferenceValue i s t) =
     Inr (ecir [(''kind'', PStr ''reference''), (''scope'', PStr ''project''), (''variable_id'', PStr s)])"
| "lower_value (AssetReferenceValue i a k) =
     Inr (ecir [(''kind'', PStr ''asset_ref''), (''asset_id'', PStr a), (''asset_kind'', PStr k)])"
| "lower_value (TargetReferenceValue i t) = Inr (ecir [(''kind'', PStr ''target_ref''), (''target_id'', PStr t)])"
| "lower_value (EntityReferenceValue i r t) =
     Inr (ecir [(''kind'', PStr ''entity_ref''), (''reference_id'', PStr r), (''reference_type'', PStr t)])"
| "lower_value (PointValue i x y) =
     Inr (ecir [(''kind'', PStr ''point''), (''x'', lower_number x), (''y'', lower_number y)])"
| "lower_value (RectValue i x y w h) =
     Inr (ecir [(''kind'', PStr ''rect''), (''x'', lower_number x), (''y'', lower_number y),
       (''width'', lower_number w), (''height'', lower_number h)])"
| "lower_value (PathValue i ps) =
     Inr (ecir [(''kind'', PStr ''path''), (''points'', PList (map (\<lambda>p.
       ecir [(''x'', lower_number (pl_x p)), (''y'', lower_number (pl_y p))]) ps))])"
| "lower_value (MemberAccessValue i source f t) =
     rbind (lower_value source) (\<lambda>s. Inr (ecir [(''kind'', PStr ''member_access''), (''source'', s),
       (''field_id'', PStr f), (''result_type'', PStr t)]))"
| "lower_value (ListValue i t items) =
     rbind (rmap lower_value items) (\<lambda>xs. Inr (ecir [(''kind'', PStr ''list''), (''item_type'', PStr t),
       (''items'', PList xs)]))"
| "lower_value (MapValue i kt vt entries) =
     rbind (rmap (\<lambda>(k, v). rbind (lower_value k) (\<lambda>k'. rbind (lower_value v) (\<lambda>v'.
         Inr (ecir [(''key'', k'), (''value'', v')])))) entries)
       (\<lambda>es. Inr (ecir [(''kind'', PStr ''map''), (''key_type'', PStr kt), (''value_type'', PStr vt),
          (''duplicate_policy'', PStr ''error''), (''entries'', PList es)]))"
| "lower_value (RecordValue i t flds) =
     rbind (rmap (\<lambda>(k, v). rbind (lower_value v) (\<lambda>w. Inr (k, w))) (sort_key fst flds))
       (\<lambda>fs. Inr (ecir [(''kind'', PStr ''record''), (''record_type'', PStr t), (''fields'', ecir fs)]))"
| "lower_value (JsonValue i j) = Inr (ecir [(''kind'', PStr ''json''), (''value'', lower_json j)])"
| "lower_value (PureOperationValue i op t inputs) =
     rbind (rmap (\<lambda>(k, v). rbind (lower_value v) (\<lambda>w. Inr (k, w))) (sort_key fst inputs))
       (\<lambda>ins. Inr (ecir [(''kind'', PStr ''operation''), (''operation_id'', PStr op), (''result_type'', PStr t),
          (''inputs'', ecir ins)]))"
| "lower_value (SelectorValue i bs t e) =
     rbind (lower_value e) (\<lambda>e'. Inr (ecir [(''kind'', PStr ''selector''), (''bindings'', PList (map lower_binding bs)),
       (''result_type'', PStr t), (''expression'', e')]))"
| "lower_value (ComparisonValue i op l r) =
     rbind (lower_value l) (\<lambda>l'. rbind (lower_value r) (\<lambda>r'.
       Inr (ecir [(''kind'', PStr ''compare''), (''operator'', PStr (operator_name op)),
         (''operand_type'', PStr (value_type l)), (''left'', l'), (''right'', r')])))"
| "lower_value (ConditionGroupValue i op cs) =
     rbind (rmap lower_value cs) (\<lambda>xs. Inr (ecir [(''kind'', PStr ''condition_group''),
       (''operator'', PStr (group_name op)), (''conditions'', PList xs)]))"
| "lower_value (NotValue i c) =
     rbind (lower_value c) (\<lambda>c'. Inr (ecir [(''kind'', PStr ''not''), (''condition'', c')]))"
  by pat_completeness auto
termination
  by (relation "measure size")
    (auto simp: less_Suc_eq_le dest: entry_size1 entry_size2 size_list_estimation' [where f = size, OF _ order_refl])

section \<open>Evaluation\<close>

record scope =
  sc_locals :: "string \<Rightarrow> pyval option"
  sc_project :: "string \<Rightarrow> pyval option"
  sc_cancelled :: bool

text \<open>\<^verbatim>\<open>d.get(k)\<close> and \<^verbatim>\<open>str(d.get(k) or '')\<close>.\<close>

definition child :: "pydict \<Rightarrow> string \<Rightarrow> pyval" where
  "child fs k = or_none (text_get fs k)"

definition child_text :: "eval_env \<Rightarrow> pydict \<Rightarrow> string \<Rightarrow> string" where
  "child_text E fs k = (if py_truthy (child fs k) then py_str E (child fs k) else [])"

text \<open>\<^verbatim>\<open>d.get(k) or []\<close> as something to iterate, \<^verbatim>\<open>d.get(k) or {}\<close> as a dictionary.\<close>

definition child_items :: "pydict \<Rightarrow> string \<Rightarrow> pyval list py" where
  "child_items fs k = (if py_truthy (child fs k) then py_list (child fs k) else Inr [])"

definition child_dict :: "pydict \<Rightarrow> string \<Rightarrow> pydict py" where
  "child_dict fs k =
     (if \<not> py_truthy (child fs k) then Inr []
      else case child fs k of PDict gs \<Rightarrow> Inr gs | _ \<Rightarrow> py_raise ''AttributeError'')"

definition input_key :: "string \<Rightarrow> pyval \<Rightarrow> bool" where
  "input_key n k = (case k of PStr s \<Rightarrow> ends_with (''.input.'' @ n) s | _ \<Rightarrow> False)"

text \<open>The one input of the operation whose key ends with the name.\<close>

definition matching_input :: "pydict \<Rightarrow> string \<Rightarrow> pyval option" where
  "matching_input fs n =
     (case child_dict fs ''inputs'' of
        Inl e \<Rightarrow> None
      | Inr ins \<Rightarrow> (case filter (\<lambda>(k, v). input_key n k) ins of [(k, v)] \<Rightarrow> Some v | _ \<Rightarrow> None))"

lemma child_size: "size (child fs k) < size (PDict fs)"
  using text_get_size [of fs k] by (cases "text_get fs k") (auto simp: child_def or_none_def)

lemma py_list_size: "py_list v = Inr xs \<Longrightarrow> x \<in> set xs \<Longrightarrow> size x \<le> size v"
proof (cases v)
  case (PList ys)
  assume "py_list v = Inr xs" "x \<in> set xs"
  with PList show ?thesis using list_item_size [of x xs] by (simp add: py_list_def)
next
  case (PDict fs)
  assume a: "py_list v = Inr xs" "x \<in> set xs"
  with PDict obtain w where "(x, w) \<in> set fs" by (auto simp: py_list_def)
  from dict_entry_size(2) [OF this] PDict show ?thesis by simp
qed (auto simp: py_list_def py_raise_def)

lemma child_items_size: "child_items fs k = Inr xs \<Longrightarrow> x \<in> set xs \<Longrightarrow> size x < size (PDict fs)"
  using child_size [of fs k] py_list_size [of "child fs k" xs x]
  by (auto simp: child_items_def split: if_splits)

lemma child_dict_size: "child_dict fs k = Inr gs \<Longrightarrow> size (PDict gs) \<le> size (PDict fs)"
  using child_size [of fs k] by (auto simp: child_dict_def py_raise_def split: if_splits pyval.splits)

lemma matching_input_size: "matching_input fs n = Some v \<Longrightarrow> size v < size (PDict fs)"
proof -
  assume "matching_input fs n = Some v"
  then obtain ins k where ins: "child_dict fs ''inputs'' = Inr ins" "filter (\<lambda>(k, v). input_key n k) ins = [(k, v)]"
    by (auto simp: matching_input_def split: sum.splits list.splits)
  then have "(k, v) \<in> set ins" by (metis (no_types) filter_eq_ConsD in_set_conv_decomp)
  then show ?thesis using child_dict_size [OF ins(1)] dict_entry_size(1) less_le_trans by blast
qed

declare rbind_cong [fundef_cong]

fun eval_all :: "('a \<Rightarrow> pyval py) \<Rightarrow> 'a list \<Rightarrow> bool py" where
  "eval_all f [] = Inr True"
| "eval_all f (x # xs) = rbind (f x) (\<lambda>v. if py_truthy v then eval_all f xs else Inr False)"

fun eval_any :: "('a \<Rightarrow> pyval py) \<Rightarrow> 'a list \<Rightarrow> bool py" where
  "eval_any f [] = Inr False"
| "eval_any f (x # xs) = rbind (f x) (\<lambda>v. if py_truthy v then Inr True else eval_any f xs)"

lemma eval_all_cong [fundef_cong]: "xs = ys \<Longrightarrow> (\<And>x. x \<in> set ys \<Longrightarrow> f x = g x) \<Longrightarrow> eval_all f xs = eval_all g ys"
proof -
  assume "xs = ys" "\<And>x. x \<in> set ys \<Longrightarrow> f x = g x"
  moreover have "(\<And>x. x \<in> set ys \<Longrightarrow> f x = g x) \<Longrightarrow> eval_all f ys = eval_all g ys"
    by (induction ys) (auto intro: rbind_cong)
  ultimately show ?thesis by simp
qed

lemma eval_any_cong [fundef_cong]: "xs = ys \<Longrightarrow> (\<And>x. x \<in> set ys \<Longrightarrow> f x = g x) \<Longrightarrow> eval_any f xs = eval_any g ys"
proof -
  assume "xs = ys" "\<And>x. x \<in> set ys \<Longrightarrow> f x = g x"
  moreover have "(\<And>x. x \<in> set ys \<Longrightarrow> f x = g x) \<Longrightarrow> eval_any f ys = eval_any g ys"
    by (induction ys) (auto intro: rbind_cong)
  ultimately show ?thesis by simp
qed

text \<open>The entries of a map: the key, the check for a duplicate, then the value.\<close>

fun eval_entries :: "(pyval \<Rightarrow> pyval py) \<Rightarrow> pydict \<Rightarrow> pyval list \<Rightarrow> pydict py" where
  "eval_entries f acc [] = Inr acc"
| "eval_entries f acc (e # es) =
     (case e of
        PDict en \<Rightarrow> rbind (f (child en ''key'')) (\<lambda>k.
          if \<not> hashable k then py_raise ''TypeError''
          else if dict_get acc k \<noteq> None then fail_with ''runtime.map_duplicate_key''
          else rbind (f (child en ''value'')) (\<lambda>v. eval_entries f (dict_put acc k v) es))
      | _ \<Rightarrow> py_raise ''AttributeError'')"

lemma eval_entries_cong [fundef_cong]:
  assumes "acc = acc'" "es = es'" "\<And>e v. e \<in> set es' \<Longrightarrow> size v < size e \<Longrightarrow> f v = g v"
  shows "eval_entries f acc es = eval_entries g acc' es'"
proof -
  have "(\<And>e v. e \<in> set es' \<Longrightarrow> size v < size e \<Longrightarrow> f v = g v) \<Longrightarrow> eval_entries f acc' es' = eval_entries g acc' es'"
  proof (induction es' arbitrary: acc')
    case (Cons e es)
    have ih: "eval_entries f a es = eval_entries g a es" for a
      using Cons.prems by (intro Cons.IH) (meson list.set_intros(2))
    show ?case
    proof (cases e)
      case (PDict en)
      have "f (child en k) = g (child en k)" for k using Cons.prems [of e "child en k"] PDict child_size by simp
      then show ?thesis using PDict ih by (auto intro!: rbind_cong)
    qed simp_all
  qed simp
  with assms show ?thesis by simp
qed

definition eval_fields :: "(pyval \<Rightarrow> pyval py) \<Rightarrow> pydict \<Rightarrow> pydict py" where
  "eval_fields f fs = rmap (\<lambda>(k, v). rbind (f v) (\<lambda>w. Inr (k, w))) fs"

lemma eval_fields_cong [fundef_cong]:
  assumes "fs = gs" "\<And>k v. (k, v) \<in> set gs \<Longrightarrow> f v = g v"
  shows "eval_fields f fs = eval_fields g gs"
  unfolding eval_fields_def using assms by (intro rmap_cong) auto

text \<open>The bindings of a selector added to the scope, or the first one that does not fit.\<close>

fun bind_selector :: "eval_env \<Rightarrow> (string \<times> pyval) list \<Rightarrow> pyval list \<Rightarrow> scope \<Rightarrow> scope py" where
  "bind_selector E given [] sc = Inr sc"
| "bind_selector E given (b # bs) sc =
     (case b of
        PDict en \<Rightarrow>
          (let role = child_text E en ''role''; s = child_text E en ''symbol_id'' in
           case map_of given role of
             None \<Rightarrow> fail_with ''runtime.operation_invalid''
           | Some v \<Rightarrow> if s = [] then fail_with ''runtime.operation_invalid''
               else bind_selector E given bs (sc\<lparr>sc_locals := (sc_locals sc)(s \<mapsto> v)\<rparr>))
      | _ \<Rightarrow> fail_with ''runtime.operation_invalid'')"

definition lookup_name :: "scope \<Rightarrow> string \<Rightarrow> string \<Rightarrow> pyval py" where
  "lookup_name sc where name =
     (case (if where = ''project'' then sc_project sc else sc_locals sc) name of
        None \<Rightarrow> fail_with ''runtime.variable_unset''
      | Some v \<Rightarrow> Inr v)"

text \<open>\<^verbatim>\<open>kind == 'reference'\<close>: the first of three keys that is there names the variable.\<close>

definition reference_name :: "eval_env \<Rightarrow> pydict \<Rightarrow> string" where
  "reference_name E fs =
     (if py_truthy (child fs ''symbol_id'') then py_str E (child fs ''symbol_id'')
      else if py_truthy (child fs ''variable_id'') then py_str E (child fs ''variable_id'')
      else child_text E fs ''name'')"

definition reference_scope :: "eval_env \<Rightarrow> pydict \<Rightarrow> string" where
  "reference_scope E fs = (if py_truthy (child fs ''scope'') then py_str E (child fs ''scope'') else ''local'')"

definition member_of :: "eval_env \<Rightarrow> pyval \<Rightarrow> string \<Rightarrow> pyval py" where
  "member_of E owner f =
     (case owner of
        PNone \<Rightarrow> fail_with ''runtime.optional_empty''
      | PDict gs \<Rightarrow> (case text_get gs f of None \<Rightarrow> fail_with ''runtime.member_missing'' | Some v \<Rightarrow> Inr v)
      | v \<Rightarrow> (case ev_attribute E v f of None \<Rightarrow> fail_with ''runtime.member_missing'' | Some w \<Rightarrow> Inr w))"

definition known_operators :: "string set" where
  "known_operators = {''eq'', ''ne'', ''lt'', ''lte'', ''gt'', ''gte''}"

definition instant :: "eval_env \<Rightarrow> pyval \<Rightarrow> (bool \<times> int) py" where
  "instant E v = (case ev_datetime E (py_str E v) of None \<Rightarrow> fail_with ''time.value_invalid'' | Some t \<Rightarrow> Inr t)"

text \<open>\<^verbatim>\<open>kind == 'compare'\<close>, the two sides evaluated.\<close>

definition compare_values :: "eval_env \<Rightarrow> string \<Rightarrow> string \<Rightarrow> pyval \<Rightarrow> pyval \<Rightarrow> pyval py" where
  "compare_values E op operand_type l r =
     rbind (if operand_type \<noteq> ''datetime'' then Inr (l, r)
            else rbind (instant E l) (\<lambda>(za, a). rbind (instant E r) (\<lambda>(zb, b).
              if za \<noteq> zb then fail_with ''time.timezone_mismatch'' else Inr (PInt a, PInt b))))
       (\<lambda>(a, b). if op \<notin> known_operators then fail_with ''runtime.operation_unsupported''
          else rbind (py_compare op a b) (\<lambda>t. Inr (PBool t)))"

definition legacy_member :: "eval_env \<Rightarrow> pyval \<Rightarrow> pyval \<Rightarrow> pyval py" where
  "legacy_member E owner name =
     (case owner of
        PDict gs \<Rightarrow> if hashable name then Inr (or_none (dict_get gs name)) else py_raise ''TypeError''
      | v \<Rightarrow> (case ev_attribute E v (py_str E name) of None \<Rightarrow> py_raise ''AttributeError'' | Some w \<Rightarrow> Inr w))"

definition legacy_unary :: "pyval \<Rightarrow> pyval \<Rightarrow> pyval py" where
  "legacy_unary op v =
     (if op = PStr ''not'' then Inr (PBool (\<not> py_truthy v))
      else if op = PStr ''negative'' then py_negative v
      else if op = PStr ''positive'' then py_positive v
      else py_raise (if hashable op then ''KeyError'' else ''TypeError''))"

definition legacy_binary :: "eval_env \<Rightarrow> pyval \<Rightarrow> pyval \<Rightarrow> pyval \<Rightarrow> pyval py" where
  "legacy_binary E op l r =
     (if op = PStr ''add'' then py_add E l r
      else if op = PStr ''subtract'' then py_sub E l r
      else if op = PStr ''multiply'' then py_mul E l r
      else if op = PStr ''divide'' then py_divide E l r
      else if op = PStr ''modulo'' then py_modulo E l r
      else if op = PStr ''floor_divide'' then py_floor_divide E l r
      else py_raise (if hashable op then ''KeyError'' else ''TypeError''))"

definition reference_kinds :: "string set" where
  "reference_kinds = {''asset_ref'', ''target_ref'', ''entity_ref'', ''point'', ''rect'', ''path''}"

text \<open>What the recursion of \<^verbatim>\<open>_value\<close> descends to is smaller.\<close>

lemma child_smaller: "size (child fs k) < Suc (size_list (size_prod size size) fs)"
  using child_size [of fs k] by simp

lemma eval_sizes:
  "x \<in> set xs \<Longrightarrow> size x < Suc (size_list size xs)"
  "(k, v) \<in> set fs \<Longrightarrow> size v < Suc (size_list (size_prod size size) fs)"
  "child_items fs n = Inr xs \<Longrightarrow> x \<in> set xs \<Longrightarrow> size x < Suc (size_list (size_prod size size) fs)"
  "child_items fs n = Inr xs \<Longrightarrow> x \<in> set xs \<Longrightarrow> size v < size x \<Longrightarrow> size v < Suc (size_list (size_prod size size) fs)"
  "child_items fs n = Inr (x # xs) \<Longrightarrow> size x < Suc (size_list (size_prod size size) fs)"
  "child_dict fs n = Inr gs \<Longrightarrow> (k, v) \<in> set gs \<Longrightarrow> size v < Suc (size_list (size_prod size size) fs)"
  "matching_input fs n = Some v \<Longrightarrow> size v < Suc (size_list (size_prod size size) fs)"
  "matching_input fs n = Some (PDict gs) \<Longrightarrow> size (child gs m) < Suc (size_list (size_prod size size) fs)"
  using list_item_size [of x xs] dict_entry_size [of k v fs] child_items_size [of fs n xs x]
    child_items_size [of fs n "x # xs" x] child_dict_size [of fs n gs] dict_entry_size [of k v gs]
    matching_input_size [of fs n v] matching_input_size [of fs n "PDict gs"] child_size [of gs m]
  by simp_all

function eval_value :: "eval_env \<Rightarrow> scope \<Rightarrow> pyval \<Rightarrow> pyval py" where
  "eval_value E sc (PList xs) = rbind (rmap (eval_value E sc) xs) (\<lambda>ys. Inr (PList ys))"
| "eval_value E sc (PDict fs) =
     (let plain = rbind (eval_fields (eval_value E sc) fs) (\<lambda>gs. Inr (PDict gs)) in
      case text_get fs ''kind'' of
        Some (PStr kind) \<Rightarrow>
          if kind = ''duration'' then Inr (child fs ''milliseconds'')
          else if kind = ''reference'' then lookup_name sc (reference_scope E fs) (reference_name E fs)
          else if kind = ''member_access'' then
            rbind (eval_value E sc (child fs ''source'')) (\<lambda>owner. member_of E owner (child_text E fs ''field_id''))
          else if kind = ''list'' then
            rbind (child_items fs ''items'') (\<lambda>xs. rbind (rmap (eval_value E sc) xs) (\<lambda>ys. Inr (PList ys)))
          else if kind = ''map'' then
            rbind (child_items fs ''entries'') (\<lambda>es. rbind (eval_entries (eval_value E sc) [] es) (\<lambda>gs. Inr (PDict gs)))
          else if kind = ''record'' then
            rbind (child_dict fs ''fields'') (\<lambda>gs. rbind (eval_fields (eval_value E sc) gs) (\<lambda>hs. Inr (PDict hs)))
          else if kind = ''json'' then Inr (child fs ''value'')
          else if kind = ''compare'' then
            rbind (eval_value E sc (child fs ''left'')) (\<lambda>l. rbind (eval_value E sc (child fs ''right''))
              (\<lambda>r. compare_values E (child_text E fs ''operator'') (child_text E fs ''operand_type'') l r))
          else if kind = ''condition_group'' then
            (if child fs ''operator'' = PStr ''all'' then
               rbind (child_items fs ''conditions'') (\<lambda>cs. rbind (eval_all (eval_value E sc) cs) (\<lambda>b. Inr (PBool b)))
             else if child fs ''operator'' = PStr ''any'' then
               rbind (child_items fs ''conditions'') (\<lambda>cs. rbind (eval_any (eval_value E sc) cs) (\<lambda>b. Inr (PBool b)))
             else fail_with ''runtime.operation_unsupported'')
          else if kind = ''not'' then
            rbind (eval_value E sc (child fs ''condition'')) (\<lambda>v. Inr (PBool (\<not> py_truthy v)))
          else if kind = ''operation'' then
            pure_operation E (sc_cancelled sc) (child_text E fs ''operation_id'') (child fs ''result_type'')
              (\<lambda>n. case matching_input fs n of
                 None \<Rightarrow> fail_with ''runtime.operation_input''
               | Some v \<Rightarrow> eval_value E sc v)
              (\<lambda>n given. case matching_input fs n of
                 None \<Rightarrow> fail_with ''runtime.operation_input''
               | Some (PDict sel) \<Rightarrow>
                   if child sel ''kind'' \<noteq> PStr ''selector'' then fail_with ''runtime.operation_invalid''
                   else rbind (child_items sel ''bindings'') (\<lambda>bs. rbind (bind_selector E given bs sc)
                     (\<lambda>sc'. eval_value E sc' (child sel ''expression'')))
               | Some v \<Rightarrow> fail_with ''runtime.operation_invalid'')
          else if kind = ''selector'' then fail_with ''runtime.selector_scope''
          else if kind \<in> {''date'', ''datetime'', ''time''} then Inr (PStr (child_text E fs ''value''))
          else if kind \<in> reference_kinds then
            rbind (eval_fields (eval_value E sc) (dict_delete fs (PStr ''kind'')))
              (\<lambda>gs. Inr (PDict (gs @ [(PStr ''kind'', PStr kind)])))
          else if kind = ''member'' then
            rbind (eval_value E sc (child fs ''owner'')) (\<lambda>owner. legacy_member E owner (child fs ''name''))
          else if kind = ''subscript'' then
            rbind (eval_value E sc (child fs ''owner'')) (\<lambda>owner.
              rbind (eval_value E sc (child fs ''key'')) (py_subscript owner))
          else if kind = ''unary'' then
            rbind (eval_value E sc (child fs ''operand'')) (legacy_unary (child fs ''operator''))
          else if kind = ''boolean'' then
            rbind (child_items fs ''values'') (\<lambda>vs.
              if child fs ''operator'' = PStr ''and'' then rbind (eval_all (eval_value E sc) vs) (\<lambda>b. Inr (PBool b))
              else rbind (eval_any (eval_value E sc) vs) (\<lambda>b. Inr (PBool b)))
          else if kind = ''binary'' then
            rbind (eval_value E sc (child fs ''left'')) (\<lambda>l. rbind (eval_value E sc (child fs ''right''))
              (legacy_binary E (child fs ''operator'') l))
          else if kind = ''call'' \<and> child fs ''function'' = PStr (ev_resource_function E) then
            rbind (child_items fs ''positional'') (\<lambda>ps. case ps of
                [] \<Rightarrow> fail_with ''runtime.failure''
              | p # _ \<Rightarrow> rbind (eval_value E sc p) (\<lambda>v. Inr (PDict [(PStr ''resource_name'', v)])))
          else if kind \<in> {''call'', ''expression''} then fail_with ''runtime.failure''
          else plain
      | Some k \<Rightarrow> if hashable k then plain else py_raise ''TypeError''
      | None \<Rightarrow> plain)"
| "eval_value E sc PNone = Inr PNone"
| "eval_value E sc (PBool b) = Inr (PBool b)"
| "eval_value E sc (PInt i) = Inr (PInt i)"
| "eval_value E sc (PFloat q) = Inr (PFloat q)"
| "eval_value E sc (PStr s) = Inr (PStr s)"
  by pat_completeness auto
termination
  by (relation "measure (\<lambda>(E, sc, v). size v)")
    (auto simp: dict_delete_def dest: eval_sizes intro: child_smaller)

declare eval_value.simps(2) [simp del]

end
