(* ===== verification/Value_Semantics.thy ===== *)
theory Value_Semantics
  imports Runtime_Eval Scope_Soundness
begin

text \<open>
  What a typed value means, stated on its constructors, and the proof that lowering it and
  evaluating the dictionary gives that meaning. The locals a value reads are what decides
  whether its evaluation can meet an unset variable.
\<close>

section \<open>The meaning of a value\<close>

definition node_input :: "(stable_id \<times> value_node) list \<Rightarrow> string \<Rightarrow> value_node option" where
  "node_input inputs n =
     (case filter (\<lambda>(k, v). ends_with (''.input.'' @ n) k) inputs of [(k, v)] \<Rightarrow> Some v | _ \<Rightarrow> None)"

text \<open>The locals of a selector, or the first binding that has no value or no name.\<close>

fun node_bindings ::
  "(string \<times> pyval) list \<Rightarrow> selector_binding list \<Rightarrow> scope \<Rightarrow> scope py" where
  "node_bindings given [] sc = Inr sc"
| "node_bindings given (b # bs) sc =
     (case map_of given (role_name (sb_role b)) of
        None \<Rightarrow> fail_with ''runtime.operation_invalid''
      | Some v \<Rightarrow> if sb_symbol_id b = [] then fail_with ''runtime.operation_invalid''
          else node_bindings given bs (sc\<lparr>sc_locals := (sc_locals sc)(sb_symbol_id b \<mapsto> v)\<rparr>))"

definition tagged :: "string \<Rightarrow> (string \<times> pyval) list \<Rightarrow> pyval" where
  "tagged kind fs = ecir (fs @ [(''kind'', PStr kind)])"

fun node_entries :: "(value_node \<Rightarrow> pyval py) \<Rightarrow> pydict \<Rightarrow> (value_node \<times> value_node) list \<Rightarrow> pydict py" where
  "node_entries f acc [] = Inr acc"
| "node_entries f acc ((kn, vn) # es) =
     rbind (f kn) (\<lambda>k.
       if \<not> hashable k then py_raise ''TypeError''
       else if dict_get acc k \<noteq> None then fail_with ''runtime.map_duplicate_key''
       else rbind (f vn) (\<lambda>v. node_entries f (dict_put acc k v) es))"

lemma node_entries_cong [fundef_cong]:
  assumes "acc = acc'" "es = es'" "\<And>kn vn. (kn, vn) \<in> set es' \<Longrightarrow> f kn = g kn"
    "\<And>kn vn. (kn, vn) \<in> set es' \<Longrightarrow> f vn = g vn"
  shows "node_entries f acc es = node_entries g acc' es'"
proof -
  have "(\<And>kn vn. (kn, vn) \<in> set es' \<Longrightarrow> f kn = g kn \<and> f vn = g vn) \<Longrightarrow> node_entries f acc' es' = node_entries g acc' es'"
  proof (induction es' arbitrary: acc')
    case (Cons e es)
    obtain kn vn where e: "e = (kn, vn)" by (cases e)
    have "f kn = g kn" "f vn = g vn" using Cons.prems [of kn vn] e by simp_all
    moreover have "node_entries f a es = node_entries g a es" for a
      using Cons.prems by (intro Cons.IH) (meson list.set_intros(2))
    ultimately show ?case using e by (auto intro!: rbind_cong)
  qed simp
  with assms show ?thesis by simp
qed

lemma node_input_member: "node_input inputs n = Some v \<Longrightarrow> \<exists>k. (k, v) \<in> set inputs"
  by (auto simp: node_input_def split: list.splits dest!: filter_eq_ConsD)

lemma node_input_size: "node_input inputs n = Some v \<Longrightarrow> size v < Suc (size_list (size_prod (\<lambda>_. 0) size) inputs)"
  by (auto dest!: node_input_member entry_size1)

lemma node_selector_size:
  "node_input inputs n = Some (SelectorValue i bs t e) \<Longrightarrow> size e < Suc (size_list (size_prod (\<lambda>_. 0) size) inputs)"
  by (drule node_input_size) simp

function eval_node :: "eval_env \<Rightarrow> scope \<Rightarrow> value_node \<Rightarrow> pyval py" where
  "eval_node E sc (UnsetValue i t) = fail_with ''runtime.failure''"
| "eval_node E sc (NullValue i) = Inr PNone"
| "eval_node E sc (StringValue i s) = Inr (PStr s)"
| "eval_node E sc (IntValue i n) = Inr (PInt n)"
| "eval_node E sc (FloatValue i q) = Inr (PFloat q)"
| "eval_node E sc (BoolValue i b) = Inr (PBool b)"
| "eval_node E sc (DateValue i s) = Inr (PStr s)"
| "eval_node E sc (DateTimeValue i s) = Inr (PStr s)"
| "eval_node E sc (TimeValue i s) = Inr (PStr s)"
| "eval_node E sc (DurationValue i ms) = Inr (PInt ms)"
| "eval_node E sc (SymbolReferenceValue i s t) =
     (case sc_locals sc s of None \<Rightarrow> fail_with ''runtime.variable_unset'' | Some v \<Rightarrow> Inr v)"
| "eval_node E sc (ProjectVariableReferenceValue i s t) =
     (case sc_project sc s of None \<Rightarrow> fail_with ''runtime.variable_unset'' | Some v \<Rightarrow> Inr v)"
| "eval_node E sc (AssetReferenceValue i a k) =
     Inr (tagged ''asset_ref'' [(''asset_id'', PStr a), (''asset_kind'', PStr k)])"
| "eval_node E sc (TargetReferenceValue i t) = Inr (tagged ''target_ref'' [(''target_id'', PStr t)])"
| "eval_node E sc (EntityReferenceValue i r t) =
     Inr (tagged ''entity_ref'' [(''reference_id'', PStr r), (''reference_type'', PStr t)])"
| "eval_node E sc (PointValue i x y) = Inr (tagged ''point'' [(''x'', lower_number x), (''y'', lower_number y)])"
| "eval_node E sc (RectValue i x y w h) =
     Inr (tagged ''rect'' [(''x'', lower_number x), (''y'', lower_number y),
       (''width'', lower_number w), (''height'', lower_number h)])"
| "eval_node E sc (PathValue i ps) =
     Inr (tagged ''path'' [(''points'', PList (map (\<lambda>p.
       ecir [(''x'', lower_number (pl_x p)), (''y'', lower_number (pl_y p))]) ps))])"
| "eval_node E sc (MemberAccessValue i source f t) =
     rbind (eval_node E sc source) (\<lambda>owner. member_of E owner f)"
| "eval_node E sc (ListValue i t items) = rbind (rmap (eval_node E sc) items) (\<lambda>xs. Inr (PList xs))"
| "eval_node E sc (MapValue i kt vt entries) =
     rbind (node_entries (eval_node E sc) [] entries) (\<lambda>fs. Inr (PDict fs))"
| "eval_node E sc (RecordValue i t flds) =
     rbind (rmap (\<lambda>(k, v). rbind (eval_node E sc v) (\<lambda>w. Inr (PStr k, w))) (sort_key fst flds))
       (\<lambda>fs. Inr (PDict fs))"
| "eval_node E sc (JsonValue i j) = Inr (lower_json j)"
| "eval_node E sc (PureOperationValue i op t inputs) =
     pure_operation E (sc_cancelled sc) op (PStr t)
       (\<lambda>n. case node_input inputs n of
          None \<Rightarrow> fail_with ''runtime.operation_input''
        | Some v \<Rightarrow> eval_node E sc v)
       (\<lambda>n given. case node_input inputs n of
          None \<Rightarrow> fail_with ''runtime.operation_input''
        | Some (SelectorValue i bs t e) \<Rightarrow> rbind (node_bindings given bs sc) (\<lambda>sc'. eval_node E sc' e)
        | Some v \<Rightarrow> fail_with ''runtime.operation_invalid'')"
| "eval_node E sc (SelectorValue i bs t e) = fail_with ''runtime.selector_scope''"
| "eval_node E sc (ComparisonValue i op l r) =
     rbind (eval_node E sc l) (\<lambda>a. rbind (eval_node E sc r)
       (\<lambda>b. compare_values E (operator_name op) (value_type l) a b))"
| "eval_node E sc (ConditionGroupValue i op cs) =
     rbind (case op of GroupAll \<Rightarrow> eval_all (eval_node E sc) cs | GroupAny \<Rightarrow> eval_any (eval_node E sc) cs)
       (\<lambda>b. Inr (PBool b))"
| "eval_node E sc (NotValue i c) = rbind (eval_node E sc c) (\<lambda>v. Inr (PBool (\<not> py_truthy v)))"
  by pat_completeness auto
termination
  by (relation "measure (\<lambda>(E, sc, v). size v)")
    (auto simp: less_Suc_eq_le dest: entry_size1 entry_size2 node_input_size node_selector_size
      size_list_estimation' [where f = size, OF _ order_refl])

section \<open>Lowering keeps the meaning\<close>

lemma text_get_ecir [simp]:
  "text_get [] k = None"
  "text_get ((PStr a, v) # fs) k = (if a = k then Some v else text_get fs k)"
  by (simp_all add: text_get_def key_eq_def)

lemma child_ecir [simp]:
  "child ((PStr a, v) # fs) k = (if a = k then v else child fs k)"
  "child [] k = PNone"
  by (simp_all add: child_def or_none_def)

lemma ecir_simp: "ecir fs = PDict (map (\<lambda>(k, v). (PStr k, v)) fs)"
  by (simp add: ecir_def)

lemma rmap_fuse:
  "rmap f xs = Inr ys \<Longrightarrow> (\<And>x y. x \<in> set xs \<Longrightarrow> f x = Inr y \<Longrightarrow> g y = h x) \<Longrightarrow> rmap g ys = rmap h xs"
proof (induction xs arbitrary: ys)
  case (Cons x xs)
  from Cons.prems(1) obtain y ys' where y: "f x = Inr y" "ys = y # ys'" "rmap f xs = Inr ys'"
    by (auto simp: rbind_Inr_iff)
  have "g y = h x" using Cons.prems(2) y(1) by simp
  moreover have "rmap g ys' = rmap h xs"
    by (rule Cons.IH [OF y(3)]) (simp add: Cons.prems(2))
  ultimately show ?case using y(2) by simp
qed simp

lemma eval_all_fuse:
  "rmap f xs = Inr ys \<Longrightarrow> (\<And>x y. x \<in> set xs \<Longrightarrow> f x = Inr y \<Longrightarrow> g y = h x) \<Longrightarrow> eval_all g ys = eval_all h xs"
  by (induction xs arbitrary: ys) (auto simp: rbind_Inr_iff intro!: rbind_cong)

lemma eval_any_fuse:
  "rmap f xs = Inr ys \<Longrightarrow> (\<And>x y. x \<in> set xs \<Longrightarrow> f x = Inr y \<Longrightarrow> g y = h x) \<Longrightarrow> eval_any g ys = eval_any h xs"
  by (induction xs arbitrary: ys) (auto simp: rbind_Inr_iff intro!: rbind_cong)

lemma rmap_length: "rmap f xs = Inr ys \<Longrightarrow> length ys = length xs"
  by (induction xs arbitrary: ys) (auto simp: rbind_Inr_iff)

lemma rmap_Nil_iff: "rmap f xs = Inr ys \<Longrightarrow> ys = [] \<longleftrightarrow> xs = []"
  using rmap_length by fastforce

lemma child_items_list: "child fs k = PList xs \<Longrightarrow> child_items fs k = Inr xs"
  by (simp add: child_items_def py_list_def)

lemma child_text_str: "child fs k = PStr s \<Longrightarrow> child_text E fs k = s"
  by (simp add: child_text_def)

lemma child_dict_ecir: "child fs k = ecir gs \<Longrightarrow> child_dict fs k = Inr (map (\<lambda>(k, v). (PStr k, v)) gs)"
  by (simp add: child_dict_def ecir_def)

abbreviation lower_entry :: "value_node \<times> value_node \<Rightarrow> stable_id + pyval" where
  "lower_entry \<equiv> \<lambda>(k, v). rbind (lower_value k) (\<lambda>k'. rbind (lower_value v) (\<lambda>v'.
     Inr (ecir [(''key'', k'), (''value'', v')])))"

abbreviation lower_field :: "stable_id \<times> value_node \<Rightarrow> stable_id + stable_id \<times> pyval" where
  "lower_field \<equiv> \<lambda>(k, v). rbind (lower_value v) (\<lambda>w. Inr (k, w))"

lemma entries_fuse:
  "rmap lower_entry es = Inr ws \<Longrightarrow>
    (\<And>k v w. (k, v) \<in> set es \<Longrightarrow> lower_value k = Inr w \<Longrightarrow> f w = g k) \<Longrightarrow>
    (\<And>k v w. (k, v) \<in> set es \<Longrightarrow> lower_value v = Inr w \<Longrightarrow> f w = g v) \<Longrightarrow>
    eval_entries f acc ws = node_entries g acc es"
proof (induction es arbitrary: ws acc)
  case (Cons e es)
  obtain kn vn where e: "e = (kn, vn)" by (cases e)
  from Cons.prems(1) e obtain k v ws' where w: "lower_value kn = Inr k" "lower_value vn = Inr v"
    "ws = ecir [(''key'', k), (''value'', v)] # ws'" "rmap lower_entry es = Inr ws'"
    by (auto simp: rbind_Inr_iff)
  have ih: "eval_entries f a ws' = node_entries g a es" for a
    by (rule Cons.IH [OF w(4)]) (meson Cons.prems(2,3) list.set_intros(2))+
  have "(kn, vn) \<in> set (e # es)" using e by simp
  from Cons.prems(2) [OF this w(1)] Cons.prems(3) [OF this w(2)] have "f k = g kn" "f v = g vn" .
  then show ?case using e w(3) ih by (auto simp: ecir_simp intro!: rbind_cong)
qed simp

lemma fields_fuse:
  "rmap lower_field fs = Inr ws \<Longrightarrow> (\<And>k v w. (k, v) \<in> set fs \<Longrightarrow> lower_value v = Inr w \<Longrightarrow> f w = g v) \<Longrightarrow>
    eval_fields f (map (\<lambda>(k, v). (PStr k, v)) ws) = rmap (\<lambda>(k, v). rbind (g v) (\<lambda>w. Inr (PStr k, w))) fs"
proof (induction fs arbitrary: ws)
  case (Cons e fs)
  obtain k v where e: "e = (k, v)" by (cases e)
  from Cons.prems(1) e obtain w ws' where w: "lower_value v = Inr w" "ws = (k, w) # ws'"
    "rmap lower_field fs = Inr ws'" by (auto simp: rbind_Inr_iff)
  have "f w = g v" using Cons.prems(2) e w(1) by auto
  moreover have "eval_fields f (map (\<lambda>(k, v). (PStr k, v)) ws') = rmap (\<lambda>(k, v). rbind (g v) (\<lambda>w. Inr (PStr k, w))) fs"
    using Cons.prems(2) by (intro Cons.IH [OF w(3)]) auto
  ultimately show ?case using e w(2) by (simp add: eval_fields_def)
qed (simp add: eval_fields_def)

lemma bindings_fuse: "bind_selector E given (map lower_binding bs) sc = node_bindings given bs sc"
proof (induction bs arbitrary: sc)
  case (Cons b bs)
  have "role_name r \<noteq> []" for r by (cases r) simp_all
  then show ?case using Cons
    by (auto simp: lower_binding_def ecir_simp child_text_def Let_def split: option.split)
qed simp

lemma filter_fields:
  "rmap lower_field fs = Inr ws \<Longrightarrow>
    rmap lower_field (filter (\<lambda>(k, v). P k) fs) = Inr (filter (\<lambda>(k, v). P k) ws)"
  by (induction fs arbitrary: ws) (auto simp: rbind_Inr_iff)

lemma filter_sorted_single: "filter P (sort_key f xs) = [x] \<longleftrightarrow> filter P xs = [x]"
proof -
  have "filter P (sort_key f xs) = sort_key f (filter P xs)" by (rule filter_sort)
  moreover have "sort_key f ys = [x] \<longleftrightarrow> ys = [x]" for ys
  proof
    assume s: "sort_key f ys = [x]"
    then have "length ys = 1" "set ys = {x}" by (metis length_sort length_Cons list.size(3) One_nat_def, metis list.set(1) list.set(2) set_sort)
    then show "ys = [x]" by (cases ys) auto
  qed simp
  ultimately show ?thesis by simp
qed

lemma matching_lowered:
  assumes "rmap lower_field (sort_key fst inputs) = Inr ws" "child fs ''inputs'' = ecir ws"
  shows "case node_input inputs n of
      None \<Rightarrow> matching_input fs n = None
    | Some v \<Rightarrow> \<exists>w. lower_value v = Inr w \<and> matching_input fs n = Some w"
proof -
  let ?P = "\<lambda>k :: string. ends_with (''.input.'' @ n) k"
  have f: "rmap lower_field (filter (\<lambda>(k, v). ?P k) (sort_key fst inputs)) = Inr (filter (\<lambda>(k, v). ?P k) ws)"
    by (rule filter_fields [OF assms(1)])
  have c: "child_dict fs ''inputs'' = Inr (map (\<lambda>(k, v). (PStr k, v)) ws)"
    by (rule child_dict_ecir [OF assms(2)])
  have "filter (\<lambda>(k, v). input_key n k) (map (\<lambda>(k, v). (PStr k, v)) ws) =
      map (\<lambda>(k, v). (PStr k, v)) (filter (\<lambda>(k, v). ?P k) ws)"
    by (simp add: filter_map comp_def case_prod_unfold input_key_def)
  then have m: "matching_input fs n =
      (case filter (\<lambda>(k, v). ?P k) ws of [(k, v)] \<Rightarrow> Some v | _ \<Rightarrow> None)"
    using c by (auto simp: matching_input_def split: list.split)
  let ?xs = "filter (\<lambda>(k, v). ?P k) (sort_key fst inputs)" and ?ys = "filter (\<lambda>(k, v). ?P k) ws"
  consider k v where "?xs = [(k, v)]" | "\<And>k v. ?xs \<noteq> [(k, v)]" by blast
  then show ?thesis
  proof cases
    case (1 k v)
    with f obtain w where w: "lower_value v = Inr w" "?ys = [(k, w)]" by (auto simp: rbind_Inr_iff)
    have "filter (\<lambda>(k, v). ?P k) inputs = [(k, v)]" using 1 by (simp add: filter_sorted_single)
    then show ?thesis using m w by (simp add: node_input_def)
  next
    case 2
    have "\<And>k v. filter (\<lambda>(k, v). ?P k) inputs \<noteq> [(k, v)]" using 2 by (simp add: filter_sorted_single)
    then have "node_input inputs n = None" by (auto simp: node_input_def split: list.split)
    moreover have "length ?ys \<noteq> 1" using 2 rmap_length [OF f] by (auto simp: length_Suc_conv)
    then have "matching_input fs n = None" unfolding m by (auto split: list.split)
    ultimately show ?thesis by simp
  qed
qed

text \<open>A dictionary of one of the reference kinds keeps its kind and evaluates its other fields.\<close>

lemma eval_reference:
  assumes "eval_fields (eval_value E sc) fs = Inr gs" "kind \<in> reference_kinds"
    "dict_delete fs (PStr ''kind'') = fs"
  shows "eval_value E sc (PDict ((PStr ''kind'', PStr kind) # fs)) = Inr (PDict (gs @ [(PStr ''kind'', PStr kind)]))"
proof -
  have "dict_delete ((PStr ''kind'', PStr kind) # fs) (PStr ''kind'') = fs"
    using assms(3) by (simp add: dict_delete_def key_eq_def)
  moreover have "kind \<in> {''asset_ref'', ''target_ref'', ''entity_ref'', ''point'', ''rect'', ''path''}"
    using assms(2) by (simp add: reference_kinds_def)
  ultimately show ?thesis using assms(1)
    unfolding insert_iff empty_iff
    by (elim disjE) (simp_all add: eval_value.simps(2) reference_kinds_def)
qed

lemma lower_number_eval [simp]: "eval_value E sc (lower_number x) = Inr (lower_number x)"
  by (cases x) simp_all

lemma lowered_not_selector:
  "lower_value v = Inr (PDict sel) \<Longrightarrow> child sel ''kind'' = PStr ''selector'' \<Longrightarrow> value_kind v = ''selector''"
  by (cases v) (auto simp: rbind_Inr_iff ecir_simp)

lemma lowered_operation:
  assumes ih: "\<And>x w sc. size x < Suc (size_list (size_prod (\<lambda>_. 0) size) inputs) \<Longrightarrow> lower_value x = Inr w \<Longrightarrow>
      eval_value E sc w = eval_node E sc x"
    and low: "lower_value (PureOperationValue i op t inputs) = Inr w"
  shows "eval_value E sc w = eval_node E sc (PureOperationValue i op t inputs)"
proof -
  from low obtain ws where ws: "rmap lower_field (sort_key fst inputs) = Inr ws"
    and w: "w = ecir [(''kind'', PStr ''operation''), (''operation_id'', PStr op), (''result_type'', PStr t), (''inputs'', ecir ws)]"
    by (auto simp: rbind_Inr_iff)
  define d where "d = ecir ws"
  let ?fs = "[(PStr ''kind'', PStr ''operation''), (PStr ''operation_id'', PStr op), (PStr ''result_type'', PStr t), (PStr ''inputs'', d)]"
  have c: "child ?fs ''inputs'' = ecir ws" by (simp add: d_def)
  have inp: "(case matching_input ?fs n of None \<Rightarrow> fail_with ''runtime.operation_input'' | Some v \<Rightarrow> eval_value E sc v) =
      (case node_input inputs n of None \<Rightarrow> fail_with ''runtime.operation_input'' | Some v \<Rightarrow> eval_node E sc v)" for n
    using matching_lowered [OF ws c, of n] ih node_input_size [of inputs n]
    by (cases "node_input inputs n") auto
  have sel: "(case matching_input ?fs n of
        None \<Rightarrow> fail_with ''runtime.operation_input''
      | Some (PDict sel) \<Rightarrow>
          if child sel ''kind'' \<noteq> PStr ''selector'' then fail_with ''runtime.operation_invalid''
          else rbind (child_items sel ''bindings'') (\<lambda>bs. rbind (bind_selector E given bs sc)
            (\<lambda>sc'. eval_value E sc' (child sel ''expression'')))
      | Some v \<Rightarrow> fail_with ''runtime.operation_invalid'') =
      (case node_input inputs n of
         None \<Rightarrow> fail_with ''runtime.operation_input''
       | Some (SelectorValue i bs t e) \<Rightarrow> rbind (node_bindings given bs sc) (\<lambda>sc'. eval_node E sc' e)
       | Some v \<Rightarrow> fail_with ''runtime.operation_invalid'')" for n given
  proof (cases "node_input inputs n")
    case None
    then show ?thesis using matching_lowered [OF ws c, of n] by simp
  next
    case (Some v)
    then obtain x where x: "lower_value v = Inr x" "matching_input ?fs n = Some x"
      using matching_lowered [OF ws c, of n] by auto
    show ?thesis
    proof (cases "value_kind v = ''selector''")
      case True
      then obtain j bs u e where v: "v = SelectorValue j bs u e" by (cases v) simp_all
      then obtain e' where e': "lower_value e = Inr e'" "x = ecir [(''kind'', PStr ''selector''),
          (''bindings'', PList (map lower_binding bs)), (''result_type'', PStr u), (''expression'', e')]"
        using x(1) by (auto simp: rbind_Inr_iff)
      have e: "eval_value E s e' = eval_node E s e" for s
        using ih [OF _ e'(1)] node_input_size [OF Some] v by simp
      show ?thesis using Some x(2) v e'(2) e by (simp add: ecir_simp child_items_list bindings_fuse)
    next
      case False
      have "(case v of SelectorValue i bs t e \<Rightarrow> rbind (node_bindings given bs sc) (\<lambda>sc'. eval_node E sc' e)
          | _ \<Rightarrow> fail_with ''runtime.operation_invalid'') = fail_with ''runtime.operation_invalid''"
        using False by (cases v) simp_all
      moreover have "child d ''kind'' \<noteq> PStr ''selector''" if "x = PDict d" for d
        using lowered_not_selector [of v d] that x(1) False by blast
      ultimately show ?thesis using Some x(2) by (cases x) simp_all
    qed
  qed
  have "w = PDict ?fs" unfolding w d_def by (simp add: ecir_def)
  then show ?thesis by (simp add: eval_value.simps(2) inp sel child_text_str)
qed

lemma eval_path_points:
  "rmap (eval_value E sc) (map (\<lambda>p. PDict [(PStr ''x'', lower_number (pl_x p)), (PStr ''y'', lower_number (pl_y p))]) ps) =
     Inr (map (\<lambda>p. PDict [(PStr ''x'', lower_number (pl_x p)), (PStr ''y'', lower_number (pl_y p))]) ps)"
  by (induction ps) (simp_all add: eval_value.simps(2) eval_fields_def)

lemma dict_delete_ecir [simp]:
  "dict_delete [] key = []"
  "dict_delete ((PStr a, v) # fs) (PStr k) = (if a = k then dict_delete fs (PStr k) else (PStr a, v) # dict_delete fs (PStr k))"
  by (simp_all add: dict_delete_def key_eq_def)

text \<open>Compiling a value and running the interpreter on the result gives the value's meaning.\<close>

lemma lowered_means:
  "lower_value v = Inr w \<Longrightarrow> eval_value E sc w = eval_node E sc v"
proof (induction v arbitrary: w sc rule: measure_induct_rule [of size])
  case (less v)
  note refs = ecir_simp eval_reference reference_kinds_def eval_fields_def tagged_def
  note basic = ecir_simp eval_value.simps(2)
  show ?case
  proof (cases v)
    case (PathValue i ps)
    then show ?thesis using less.prems by (auto simp: refs eval_path_points)
  next
    case (MemberAccessValue i source f t)
    with less.prems obtain s where s: "lower_value source = Inr s" "w = ecir [(''kind'', PStr ''member_access''),
        (''source'', s), (''field_id'', PStr f), (''result_type'', PStr t)]" by (auto simp: rbind_Inr_iff)
    have "eval_value E sc s = eval_node E sc source" using less.IH [OF _ s(1)] MemberAccessValue by simp
    then show ?thesis using MemberAccessValue s(2) by (simp add: basic child_text_str)
  next
    case (ListValue i t items)
    with less.prems obtain xs where xs: "rmap lower_value items = Inr xs" "w = ecir [(''kind'', PStr ''list''),
        (''item_type'', PStr t), (''items'', PList xs)]" by (auto simp: rbind_Inr_iff)
    have "rmap (eval_value E sc) xs = rmap (eval_node E sc) items"
      by (rule rmap_fuse [OF xs(1)], rule less.IH)
        (auto simp: ListValue less_Suc_eq_le intro: size_list_estimation' [where f = size, OF _ order_refl])
    then show ?thesis using ListValue xs(2) by (simp add: basic child_items_list)
  next
    case (MapValue i kt vt es)
    with less.prems obtain xs where xs: "rmap lower_entry es = Inr xs" "w = ecir [(''kind'', PStr ''map''),
        (''key_type'', PStr kt), (''value_type'', PStr vt), (''duplicate_policy'', PStr ''error''), (''entries'', PList xs)]"
      by (auto simp: rbind_Inr_iff)
    have "eval_entries (eval_value E sc) [] xs = node_entries (eval_node E sc) [] es"
      by (rule entries_fuse [OF xs(1)]; rule less.IH; assumption?)
        (auto simp: MapValue dest: entry_size2)
    then show ?thesis using MapValue xs(2) by (simp add: basic child_items_list)
  next
    case (RecordValue i t fs)
    with less.prems obtain ws where ws: "rmap lower_field (sort_key fst fs) = Inr ws" "w = ecir [(''kind'', PStr ''record''),
        (''record_type'', PStr t), (''fields'', ecir ws)]" by (auto simp: rbind_Inr_iff)
    have "eval_fields (eval_value E sc) (map (\<lambda>(k, v). (PStr k, v)) ws) =
        rmap (\<lambda>(k, v). rbind (eval_node E sc v) (\<lambda>w. Inr (PStr k, w))) (sort_key fst fs)"
      by (rule fields_fuse [OF ws(1)]; rule less.IH; assumption?) (auto simp: RecordValue dest: entry_size1)
    then show ?thesis using RecordValue ws(2) by (auto simp: basic child_dict_def)
  next
    case (PureOperationValue i op t inputs)
    show ?thesis unfolding PureOperationValue
      by (rule lowered_operation [OF less.IH]) (use less.prems PureOperationValue in simp_all)
  next
    case (ComparisonValue i op l r)
    with less.prems obtain a b where ab: "lower_value l = Inr a" "lower_value r = Inr b"
      "w = ecir [(''kind'', PStr ''compare''), (''operator'', PStr (operator_name op)),
         (''operand_type'', PStr (value_type l)), (''left'', a), (''right'', b)]" by (auto simp: rbind_Inr_iff)
    have "eval_value E sc a = eval_node E sc l" "eval_value E sc b = eval_node E sc r"
      using less.IH [OF _ ab(1)] less.IH [OF _ ab(2)] ComparisonValue by simp_all
    then show ?thesis using ComparisonValue ab(3) by (simp add: basic child_text_str)
  next
    case (ConditionGroupValue i op cs)
    with less.prems obtain xs where xs: "rmap lower_value cs = Inr xs" "w = ecir [(''kind'', PStr ''condition_group''),
        (''operator'', PStr (group_name op)), (''conditions'', PList xs)]" by (auto simp: rbind_Inr_iff)
    have ih: "eval_value E sc b = eval_node E sc a" if "a \<in> set cs" "lower_value a = Inr b" for a b
      using less.IH [OF _ that(2)] that(1) ConditionGroupValue size_list_estimation' [OF that(1), of "size a" size]
      by simp
    have "eval_all (eval_value E sc) xs = eval_all (eval_node E sc) cs"
      by (rule eval_all_fuse [OF xs(1) ih])
    moreover have "eval_any (eval_value E sc) xs = eval_any (eval_node E sc) cs"
      by (rule eval_any_fuse [OF xs(1) ih])
    ultimately show ?thesis using ConditionGroupValue xs(2) by (cases op) (simp_all add: basic child_items_list)
  next
    case (NotValue i c)
    with less.prems obtain a where a: "lower_value c = Inr a" "w = ecir [(''kind'', PStr ''not''), (''condition'', a)]"
      by (auto simp: rbind_Inr_iff)
    have "eval_value E sc a = eval_node E sc c" using less.IH [OF _ a(1)] NotValue by simp
    then show ?thesis using NotValue a(2) by (simp add: basic)
  next
    case (AssetReferenceValue i a k)
    then show ?thesis using less.prems by (auto simp: refs)
  next
    case (TargetReferenceValue i a)
    then show ?thesis using less.prems by (auto simp: refs)
  next
    case (EntityReferenceValue i a k)
    then show ?thesis using less.prems by (auto simp: refs)
  next
    case (PointValue i a k)
    then show ?thesis using less.prems by (auto simp: refs)
  next
    case (RectValue i x y w h)
    then show ?thesis using less.prems by (auto simp: refs)
  next
    case (SelectorValue i bs t e)
    then show ?thesis using less.prems by (auto simp: basic rbind_Inr_iff)
  next
    case (SymbolReferenceValue i s t)
    then show ?thesis using less.prems by (auto simp: basic lookup_name_def reference_scope_def reference_name_def child_text_def)
  next
    case (ProjectVariableReferenceValue i s t)
    then show ?thesis using less.prems by (auto simp: basic lookup_name_def reference_scope_def reference_name_def child_text_def)
  next
    case (DateValue i s)
    then show ?thesis using less.prems by (auto simp: basic child_text_def)
  next
    case (DateTimeValue i s)
    then show ?thesis using less.prems by (auto simp: basic child_text_def)
  next
    case (TimeValue i s)
    then show ?thesis using less.prems by (auto simp: basic child_text_def)
  next
    case (DurationValue i s)
    then show ?thesis using less.prems by (auto simp: basic)
  next
    case (JsonValue i j)
    then show ?thesis using less.prems by (auto simp: basic)
  qed (use less.prems in auto)
qed

end
