(* ===== verification/Runtime_Types.thy ===== *)
theory Runtime_Types
  imports Value_Semantics
begin

text \<open>
  The defensive checks the runtime makes on values: \<^verbatim>\<open>runtime_project_value_conforms\<close> and
  \<^verbatim>\<open>validate_runtime_constraints\<close> of \<^verbatim>\<open>core/vnext/project_variables_v6.py\<close>. A check can raise a
  \<^verbatim>\<open>TypeError\<close> itself, when a field it looks up in a set is not hashable. The facts about it say
  which values conform to which types, and that the validator's assignability agrees with it.
\<close>

section \<open>Tests on values\<close>

fun py_all :: "('a \<Rightarrow> bool py) \<Rightarrow> 'a list \<Rightarrow> bool py" where
  "py_all f [] = Inr True"
| "py_all f (x # xs) = rbind (f x) (\<lambda>b. if b then py_all f xs else Inr False)"

lemma py_all_cong [fundef_cong]: "xs = ys \<Longrightarrow> (\<And>x. x \<in> set ys \<Longrightarrow> f x = g x) \<Longrightarrow> py_all f xs = py_all g ys"
proof -
  assume "xs = ys" "\<And>x. x \<in> set ys \<Longrightarrow> f x = g x"
  moreover have "(\<And>x. x \<in> set ys \<Longrightarrow> f x = g x) \<Longrightarrow> py_all f ys = py_all g ys"
    by (induction ys) (auto intro: rbind_cong)
  ultimately show ?thesis by simp
qed

lemma py_all_True: "py_all f xs = Inr True \<longleftrightarrow> (\<forall>x \<in> set xs. f x = Inr True)"
  by (induction xs) (auto simp: rbind_Inr_iff)

text \<open>\<^verbatim>\<open>isinstance(v, int)\<close>, \<^verbatim>\<open>isinstance(v, (int, float))\<close>, both without booleans.\<close>

fun is_int :: "pyval \<Rightarrow> bool" where
  "is_int (PInt i) = True"
| "is_int v = False"

fun is_number :: "pyval \<Rightarrow> bool" where
  "is_number (PInt i) = True"
| "is_number (PFloat q) = True"
| "is_number v = False"

fun is_text :: "pyval \<Rightarrow> bool" where
  "is_text (PStr s) = True"
| "is_text v = False"

fun is_dict :: "pyval \<Rightarrow> bool" where
  "is_dict (PDict fs) = True"
| "is_dict v = False"

text \<open>\<^verbatim>\<open>v.get(key)\<close> of a dictionary.\<close>

fun field :: "pyval \<Rightarrow> string \<Rightarrow> pyval" where
  "field (PDict fs) k = child fs k"
| "field v k = PNone"

definition is_channel :: "pyval \<Rightarrow> bool" where
  "is_channel v = (case v of PInt i \<Rightarrow> 0 \<le> i \<and> i \<le> 255 | _ \<Rightarrow> False)"

text \<open>\<^verbatim>\<open>value.get('color.field.' + name, value.get(name))\<close>.\<close>

definition channel :: "pydict \<Rightarrow> string \<Rightarrow> pyval" where
  "channel fs n = (case text_get fs (''color.field.'' @ n) of None \<Rightarrow> child fs n | Some v \<Rightarrow> v)"

text \<open>\<^verbatim>\<open>x in {...}\<close> for a set of texts.\<close>

definition in_texts :: "pyval \<Rightarrow> string set \<Rightarrow> bool py" where
  "in_texts v S = (if hashable v then Inr (\<exists>s \<in> S. v = PStr s) else py_raise ''TypeError'')"

section \<open>Conformance\<close>

text \<open>\<^verbatim>\<open>_split_map_type\<close>: the first comma outside angle brackets.\<close>

fun split_outside :: "int \<Rightarrow> string \<Rightarrow> (string \<times> string) option" where
  "split_outside d [] = None"
| "split_outside d (c # s) =
     (let step = map_option (\<lambda>(l, r). (c # l, r)) in
      if c = CHR ''<'' then step (split_outside (d + 1) s)
      else if c = CHR ''>'' then step (split_outside (d - 1) s)
      else if c = CHR '','' \<and> d = 0 then Some ([], s)
      else step (split_outside d s))"

definition split_map_type :: "type_id \<Rightarrow> (type_id \<times> type_id) option" where
  "split_map_type t = (case generic_inner t ''map'' of None \<Rightarrow> None | Some inner \<Rightarrow> split_outside 0 inner)"

lemma split_outside_length: "split_outside d s = Some (l, r) \<Longrightarrow> length l + length r < length s"
  by (induction d s arbitrary: l r rule: split_outside.induct)
    (auto simp: Let_def split: if_splits)

lemma split_map_type_length:
  "split_map_type t = Some (k, v) \<Longrightarrow> length k < length t \<and> length v < length t"
  by (auto simp: split_map_type_def dest!: generic_inner_Some_length split_outside_length split: option.splits)

fun json_shaped :: "pyval \<Rightarrow> bool" where
  "json_shaped (PList xs) = list_all json_shaped xs"
| "json_shaped (PDict fs) = list_all (\<lambda>(k, v). is_text k \<and> json_shaped v) fs"
| "json_shaped v = True"

definition is_point :: "pyval \<Rightarrow> bool" where
  "is_point v \<longleftrightarrow> is_dict v \<and> is_number (field v ''x'') \<and> is_number (field v ''y'')"

definition is_rect :: "pyval \<Rightarrow> bool" where
  "is_rect v \<longleftrightarrow> is_point v \<and> is_number (field v ''width'') \<and> is_number (field v ''height'')"

definition is_color :: "pyval \<Rightarrow> bool" where
  "is_color v = (case v of
     PDict fs \<Rightarrow> list_all (\<lambda>n. is_channel (channel fs n)) [''red'', ''green'', ''blue'', ''alpha'']
   | _ \<Rightarrow> False)"

text \<open>A calendar value: a text, or a dictionary with the type as its kind and a text as its value.\<close>

definition calendar_conforms :: "pyval \<Rightarrow> type_id \<Rightarrow> bool py" where
  "calendar_conforms v t =
     (if is_text v then Inr True
      else if \<not> is_dict v then Inr False
      else rbind (in_texts (field v ''kind'') {t, if t = ''time_of_day'' then ''time'' else t})
        (\<lambda>b. Inr (b \<and> is_text (field v ''value''))))"

text \<open>The file and directory references, with the access they grant.\<close>

definition file_conforms :: "eval_env \<Rightarrow> pyval \<Rightarrow> type_id \<Rightarrow> string \<Rightarrow> bool py" where
  "file_conforms E v t kind =
     (if \<not> is_dict v \<or> field v ''kind'' \<noteq> PStr kind then Inr False
      else case generic_inner t kind of
          None \<Rightarrow> Inr True
        | Some access \<Rightarrow>
            rbind (if py_truthy (field v ''access'') then py_list (field v ''access'') else Inr [])
              (\<lambda>xs. Inr (access \<in> set (map (py_str E) xs))))"

definition is_file_type :: "type_id \<Rightarrow> string \<Rightarrow> bool" where
  "is_file_type t kind \<longleftrightarrow> t = kind \<or> generic_inner t kind \<noteq> None"

definition text_types :: "string set" where
  "text_types = {''string'', ''relative_path'', ''url'', ''timezone''}"

fun contains :: "string \<Rightarrow> string \<Rightarrow> bool" where
  "contains p [] \<longleftrightarrow> p = []"
| "contains p (c # s) \<longleftrightarrow> starts_with p (c # s) \<or> contains p s"

function conforms :: "eval_env \<Rightarrow> pyval \<Rightarrow> type_id \<Rightarrow> bool py" where
  "conforms E v t =
     (if t = ''any'' then Inr True
      else case generic_inner t ''optional'' of
        Some inner \<Rightarrow> if v = PNone then Inr True else conforms E v inner
      | None \<Rightarrow>
        if t \<in> {''null'', ''unit''} then Inr (v = PNone)
        else if t \<in> text_types \<or> starts_with ''enum<'' t then Inr (is_text v)
        else if t = ''int64'' then Inr (is_int v)
        else if t \<in> {''float64'', ''percentage''} then Inr (is_number v)
        else if t = ''bool'' then Inr (\<exists>b. v = PBool b)
        else if t = ''duration'' then
          Inr (is_number v \<and> (case py_number v of None \<Rightarrow> False | Some q \<Rightarrow> 0 \<le> q))
        else if t \<in> {''date'', ''datetime'', ''time'', ''time_of_day''} then calendar_conforms v t
        else if t = ''point'' then Inr (is_point v)
        else if t = ''rect'' then Inr (is_rect v)
        else if t = ''color'' then Inr (is_color v)
        else if t = ''path'' then
          Inr (case v of PList xs \<Rightarrow> xs \<noteq> [] \<and> list_all is_point xs | _ \<Rightarrow> False)
        else if starts_with ''asset_ref'' t then Inr (is_dict v \<and> py_truthy (field v ''asset_id''))
        else if t = ''target_ref'' then Inr (is_dict v \<and> py_truthy (field v ''target_id''))
        else if is_file_type t ''file_ref'' then file_conforms E v t ''file_ref''
        else if is_file_type t ''directory_ref'' then file_conforms E v t ''directory_ref''
        else if ends_with ''_ref'' t \<or> contains ''_ref<'' t then
          Inr (is_dict v \<and> (field v ''reference_type'' = PStr t \<or> py_truthy (field v ''reference_id'')))
        else case generic_inner t ''list'' of
          Some item \<Rightarrow>
            (case v of PList xs \<Rightarrow> py_all (\<lambda>x. conforms E x item) xs | _ \<Rightarrow> Inr False)
        | None \<Rightarrow> (case split_map_type t of
          Some (kt, vt) \<Rightarrow>
            (case v of
               PDict fs \<Rightarrow> py_all (\<lambda>(k, w). rbind (conforms E k kt)
                 (\<lambda>b. if b then conforms E w vt else Inr False)) fs
             | _ \<Rightarrow> Inr False)
        | None \<Rightarrow>
            if t \<in> {''json'', ''json_value'', ''message_value''} then Inr (json_shaped v)
            else Inr (is_dict v)))"
  by pat_completeness auto
termination
  by (relation "measure (\<lambda>(E, v, t). length t)")
    (auto dest: generic_inner_Some_length split_map_type_length)

declare conforms.simps [simp del]

section \<open>Constraints\<close>

text \<open>What the checks take from Python's \<^verbatim>\<open>re\<close> and \<^verbatim>\<open>json\<close>.\<close>

record text_env =
  tx_pattern_ok :: "string \<Rightarrow> bool"
  tx_fullmatch :: "string \<Rightarrow> string \<Rightarrow> bool"
  tx_dumps :: "pyval \<Rightarrow> string py"

definition violation :: "unit py" where
  "violation = py_raise ''ValueError''"

definition require :: "bool \<Rightarrow> unit py" where
  "require b = (if b then Inr () else violation)"

definition constraint_keys :: "string set" where
  "constraint_keys = {''minimum'', ''maximum'', ''step'', ''min_length'', ''max_length'', ''min_items'',
     ''max_items'', ''unique_items'', ''choices'', ''pattern''}"

text \<open>\<^verbatim>\<open>_number_constraint\<close>, \<^verbatim>\<open>_length_constraint\<close>: absent, or of the right kind.\<close>

definition number_constraint :: "pyval \<Rightarrow> rat option py" where
  "number_constraint v =
     (if v = PNone then Inr None else if is_number v then Inr (py_number v) else py_raise ''ValueError'')"

definition length_constraint :: "pyval \<Rightarrow> int option py" where
  "length_constraint v =
     (case v of PNone \<Rightarrow> Inr None | PInt i \<Rightarrow> if 0 \<le> i then Inr (Some i) else py_raise ''ValueError''
      | _ \<Rightarrow> py_raise ''ValueError'')"

definition ordered_bounds :: "'a::linorder option \<Rightarrow> 'a option \<Rightarrow> bool" where
  "ordered_bounds lo hi = (case (lo, hi) of (Some a, Some b) \<Rightarrow> a \<le> b | _ \<Rightarrow> True)"

definition validate_constraint_definition :: "text_env \<Rightarrow> pydict \<Rightarrow> unit py" where
  "validate_constraint_definition T cs =
     rbind (require (json_shaped (PDict cs))) (\<lambda>_.
     rbind (require (list_all (\<lambda>(k, v). \<exists>s \<in> constraint_keys. k = PStr s) cs)) (\<lambda>_.
     rbind (number_constraint (child cs ''minimum'')) (\<lambda>lo.
     rbind (number_constraint (child cs ''maximum'')) (\<lambda>hi.
     rbind (require (ordered_bounds lo hi)) (\<lambda>_.
     rbind (number_constraint (child cs ''step'')) (\<lambda>st.
     rbind (require (case st of None \<Rightarrow> True | Some q \<Rightarrow> 0 < q)) (\<lambda>_.
     rbind (length_constraint (child cs ''min_length'')) (\<lambda>ml.
     rbind (length_constraint (child cs ''max_length'')) (\<lambda>xl.
     rbind (require (ordered_bounds ml xl)) (\<lambda>_.
     rbind (length_constraint (child cs ''min_items'')) (\<lambda>mi.
     rbind (length_constraint (child cs ''max_items'')) (\<lambda>xi.
     rbind (require (ordered_bounds mi xi)) (\<lambda>_.
     rbind (require (case child cs ''unique_items'' of PNone \<Rightarrow> True | PBool b \<Rightarrow> True | _ \<Rightarrow> False)) (\<lambda>_.
     rbind (require (case child cs ''choices'' of PNone \<Rightarrow> True | PList xs \<Rightarrow> True | _ \<Rightarrow> False)) (\<lambda>_.
     require (case child cs ''pattern'' of PNone \<Rightarrow> True | PStr p \<Rightarrow> tx_pattern_ok T p | _ \<Rightarrow> False))))))))))))))))"

text \<open>\<^verbatim>\<open>round(q)\<close>, half to even, and \<^verbatim>\<open>math.isclose\<close> with both tolerances \<^verbatim>\<open>1e-9\<close>.\<close>

definition round_half_even :: "rat \<Rightarrow> int" where
  "round_half_even q =
     (let f = \<lfloor>q\<rfloor>; r = q - of_int f in
      if r < 1 / 2 \<or> (r = 1 / 2 \<and> even f) then f else f + 1)"

definition is_close :: "rat \<Rightarrow> rat \<Rightarrow> bool" where
  "is_close a b \<longleftrightarrow> \<bar>a - b\<bar> \<le> max (max \<bar>a\<bar> \<bar>b\<bar> / 1000000000) (1 / 1000000000)"

text \<open>A bound that applies when it is given and the value is of its kind.\<close>

definition number_bound :: "(rat \<Rightarrow> rat \<Rightarrow> bool) \<Rightarrow> pyval \<Rightarrow> pyval \<Rightarrow> unit py" where
  "number_bound ok v bound =
     require (case (py_number v, py_number bound) of (Some x, Some b) \<Rightarrow> ok x b | _ \<Rightarrow> True)"

definition length_bound :: "(int \<Rightarrow> int \<Rightarrow> bool) \<Rightarrow> int option \<Rightarrow> pyval \<Rightarrow> unit py" where
  "length_bound ok n bound =
     require (case (n, bound) of (Some x, PInt b) \<Rightarrow> ok x b | _ \<Rightarrow> True)"

fun text_size :: "pyval \<Rightarrow> int option" where
  "text_size (PStr s) = Some (int (length s))"
| "text_size v = None"

fun items_size :: "pyval \<Rightarrow> int option" where
  "items_size (PList xs) = Some (int (length xs))"
| "items_size (PDict fs) = Some (int (length fs))"
| "items_size v = None"

text \<open>The value, its distance from the minimum in steps, is a whole number of steps.\<close>

definition step_check :: "eval_env \<Rightarrow> pyval \<Rightarrow> pyval \<Rightarrow> pyval \<Rightarrow> unit py" where
  "step_check E v minimum st =
     (if st = PNone \<or> py_number v = None then Inr ()
      else rbind (py_sub E v (if py_truthy minimum then minimum else PInt 0)) (\<lambda>d.
        rbind (py_divide E d st) (\<lambda>q.
          require (case py_number q of None \<Rightarrow> True | Some x \<Rightarrow> is_close x (of_int (round_half_even x))))))"

definition unique_check :: "text_env \<Rightarrow> pyval \<Rightarrow> pyval \<Rightarrow> unit py" where
  "unique_check T v unique =
     (case v of
        PList xs \<Rightarrow> if py_truthy unique then rbind (rmap (tx_dumps T) xs) (\<lambda>ts. require (distinct ts)) else Inr ()
      | _ \<Rightarrow> Inr ())"

definition validate_runtime_constraints :: "eval_env \<Rightarrow> text_env \<Rightarrow> pyval \<Rightarrow> pydict \<Rightarrow> unit py" where
  "validate_runtime_constraints E T v cs =
     rbind (validate_constraint_definition T cs) (\<lambda>_.
       if v = PNone then Inr ()
       else
         rbind (number_bound (\<lambda>x b. b \<le> x) v (child cs ''minimum'')) (\<lambda>_.
         rbind (number_bound (\<lambda>x b. x \<le> b) v (child cs ''maximum'')) (\<lambda>_.
         rbind (step_check E v (child cs ''minimum'') (child cs ''step'')) (\<lambda>_.
         rbind (length_bound (\<lambda>n b. b \<le> n) (text_size v) (child cs ''min_length'')) (\<lambda>_.
         rbind (length_bound (\<lambda>n b. n \<le> b) (text_size v) (child cs ''max_length'')) (\<lambda>_.
         rbind (length_bound (\<lambda>n b. b \<le> n) (items_size v) (child cs ''min_items'')) (\<lambda>_.
         rbind (length_bound (\<lambda>n b. n \<le> b) (items_size v) (child cs ''max_items'')) (\<lambda>_.
         rbind (unique_check T v (child cs ''unique_items'')) (\<lambda>_.
         rbind (require (case child cs ''choices'' of PList xs \<Rightarrow> py_in v xs | _ \<Rightarrow> True)) (\<lambda>_.
         require (case (child cs ''pattern'', v) of (PStr p, PStr s) \<Rightarrow> tx_fullmatch T p s | _ \<Rightarrow> True)))))))))))"

section \<open>The types the runtime tests\<close>

lemma ends_with_iff: "ends_with p s \<longleftrightarrow> (\<exists>r. s = r @ p)"
proof
  assume "ends_with p s"
  then show "\<exists>r. s = r @ p" using append_take_drop_id [of "length s - length p" s] unfolding ends_with_def by metis
next
  assume "\<exists>r. s = r @ p"
  then show "ends_with p s" by (auto simp: ends_with_def)
qed

lemma generic_inner_iff: "generic_inner t p = Some u \<longleftrightarrow> t = p @ ''<'' @ u @ ''>''"
proof
  assume "generic_inner t p = Some u"
  then have pre: "starts_with (p @ ''<'') t" "ends_with ''>'' t" "u = slice_to_last (Suc (length p)) t"
    by (simp_all add: generic_inner_def Let_def split: if_splits)
  obtain r where r: "t = p @ ''<'' @ r" using pre(1) unfolding starts_with_iff by auto
  obtain l where l: "t = l @ ''>''" using pre(2) unfolding ends_with_iff by auto
  have "r \<noteq> []"
  proof
    assume "r = []"
    with r l have "p @ ''<'' = l @ ''>''" by simp
    then show False by simp
  qed
  then obtain r' c where rc: "r = r' @ [c]" by (cases r rule: rev_cases) simp_all
  have "(p @ ''<'' @ r') @ [c] = l @ [CHR ''>'']" using r l rc by simp
  then have "r = r' @ ''>''" using rc by simp
  then show "t = p @ ''<'' @ u @ ''>''" using r pre(3) by (simp add: slice_to_last_def butlast_append)
next
  assume "t = p @ ''<'' @ u @ ''>''"
  then show "generic_inner t p = Some u" using generic_inner_angle [of p u] by (simp add: angle_def)
qed

lemma contains_iff: "contains p s \<longleftrightarrow> (\<exists>a b. s = a @ p @ b)"
proof (induction s)
  case (Cons c s)
  have "(\<exists>a b. c # s = a @ p @ b) \<longleftrightarrow> (\<exists>b. c # s = p @ b) \<or> (\<exists>a b. s = a @ p @ b)"
  proof
    assume "\<exists>a b. c # s = a @ p @ b"
    then obtain a b where "c # s = a @ p @ b" by blast
    then show "(\<exists>b. c # s = p @ b) \<or> (\<exists>a b. s = a @ p @ b)" by (cases a) auto
  next
    assume "(\<exists>b. c # s = p @ b) \<or> (\<exists>a b. s = a @ p @ b)"
    then show "\<exists>a b. c # s = a @ p @ b" by (metis append_Nil append_Cons)
  qed
  then show ?case using Cons by (simp add: starts_with_iff)
qed simp

text \<open>An occurrence of a text that starts and ends inside the middle part.\<close>

lemma contains_prefix: "hd p \<notin> set a \<Longrightarrow> p \<noteq> [] \<Longrightarrow> contains p (a @ s) \<longleftrightarrow> contains p s"
  by (induction a) (auto simp: starts_with_def take_Suc_conv_app_nth neq_Nil_conv)

lemma contains_snoc: "c \<notin> set p \<Longrightarrow> p \<noteq> [] \<Longrightarrow> contains p (s @ [c]) \<longleftrightarrow> contains p s"
proof
  assume c: "c \<notin> set p" "p \<noteq> []" "contains p (s @ [c])"
  then obtain a b where ab: "s @ [c] = a @ p @ b" by (auto simp: contains_iff)
  have "b \<noteq> []"
  proof
    assume "b = []"
    with ab c(2) have "last p = c" by (metis append_Nil2 last_appendR last_snoc)
    then show False using c(1,2) by (metis last_in_set)
  qed
  then obtain b' where "b = b' @ [c]" using ab by (metis append_assoc append_butlast_last_id last_appendR last_snoc)
  then show "contains p s" using ab by (auto simp: contains_iff)
next
  assume "contains p s"
  then obtain a b where "s = a @ p @ b" by (auto simp: contains_iff)
  then have "s @ [c] = a @ p @ (b @ [c])" by simp
  then show "contains p (s @ [c])" unfolding contains_iff by blast
qed

named_theorems type_tests \<open>unfolding the tests on concrete type names\<close>

lemmas [type_tests] = starts_with_def ends_with_def generic_inner_def Let_def slice_to_last_def text_types_def
  is_file_type_def

lemma conforms_basic [simp]:
  "conforms E v ''any'' = Inr True"
  "conforms E v ''null'' = Inr (v = PNone)"
  "conforms E v ''string'' = Inr (is_text v)"
  "conforms E v ''relative_path'' = Inr (is_text v)"
  "conforms E v ''url'' = Inr (is_text v)"
  "conforms E v ''timezone'' = Inr (is_text v)"
  "conforms E v ''int64'' = Inr (is_int v)"
  "conforms E v ''float64'' = Inr (is_number v)"
  "conforms E v ''percentage'' = Inr (is_number v)"
  "conforms E v ''bool'' = Inr (\<exists>b. v = PBool b)"
  "conforms E v ''duration'' = Inr (is_number v \<and> (case py_number v of None \<Rightarrow> False | Some q \<Rightarrow> 0 \<le> q))"
  "conforms E v ''date'' = calendar_conforms v ''date''"
  "conforms E v ''datetime'' = calendar_conforms v ''datetime''"
  "conforms E v ''time'' = calendar_conforms v ''time''"
  "conforms E v ''point'' = Inr (is_point v)"
  "conforms E v ''rect'' = Inr (is_rect v)"
  "conforms E v ''path'' = Inr (case v of PList xs \<Rightarrow> xs \<noteq> [] \<and> list_all is_point xs | _ \<Rightarrow> False)"
  "conforms E v ''target_ref'' = Inr (is_dict v \<and> py_truthy (field v ''target_id''))"
  by (subst conforms.simps, simp add: type_tests)+

lemma conforms_json [simp]:
  "conforms E v ''json'' = Inr (json_shaped v)"
  "conforms E v ''json_value'' = Inr (json_shaped v)"
  "conforms E v ''message_value'' = Inr (json_shaped v)"
  by (subst conforms.simps, simp add: type_tests split_map_type_def)+

lemma conforms_enum:
  assumes "starts_with ''enum<'' t"
  shows "conforms E v t = Inr (is_text v)"
proof -
  obtain r where "t = ''enum<'' @ r" using assms by (auto simp: starts_with_iff)
  then show ?thesis by (subst conforms.simps) (simp add: type_tests)
qed

lemma conforms_asset:
  assumes "starts_with ''asset_ref'' t"
  shows "conforms E v t = Inr (is_dict v \<and> py_truthy (field v ''asset_id''))"
proof -
  obtain r where "t = ''asset_ref'' @ r" using assms by (auto simp: starts_with_iff)
  then show ?thesis by (subst conforms.simps) (simp add: type_tests)
qed

lemma conforms_optional:
  "conforms E v (angle ''optional'' t) = (if v = PNone then Inr True else conforms E v t)"
proof -
  have "generic_inner (angle ''optional'' t) ''optional'' = Some t" by simp
  moreover have "angle ''optional'' t \<noteq> ''any''" by (simp add: angle_def)
  ultimately show ?thesis by (subst conforms.simps) simp
qed

text \<open>A generic type whose arguments hold no reference is tested as the container it is.\<close>

lemma generic_tests:
  assumes "\<not> contains ''_ref<'' t" "p \<in> {''list'', ''map''}"
  shows "\<not> contains ''_ref<'' (angle p t)" "\<not> ends_with ''_ref'' (angle p t)"
    "\<not> is_file_type (angle p t) ''file_ref''" "\<not> is_file_type (angle p t) ''directory_ref''"
    "\<not> starts_with ''asset_ref'' (angle p t)" "\<not> starts_with ''enum<'' (angle p t)"
    "generic_inner (angle p t) ''optional'' = None"
proof -
  have "contains ''_ref<'' ((p @ ''<'') @ t @ ''>'') = contains ''_ref<'' (t @ ''>'')"
    using assms(2) by (intro contains_prefix) auto
  then show "\<not> contains ''_ref<'' (angle p t)"
    using contains_snoc [of "CHR ''>''" "''_ref<''" t] assms(1) by (simp add: angle_def)
  have no_ref: "\<not> ends_with ''_ref'' (s @ ''>'')" for s
    unfolding ends_with_iff by (auto dest: arg_cong [where f = last])
  show "\<not> ends_with ''_ref'' (angle p t)" using no_ref [of "p @ ''<'' @ t"] by (simp add: angle_def)
qed (use assms(2) in \<open>auto simp: angle_def type_tests\<close>)

lemma conforms_list:
  assumes "\<not> contains ''_ref<'' t"
  shows "conforms E v (angle ''list'' t) =
    (case v of PList xs \<Rightarrow> py_all (\<lambda>x. conforms E x t) xs | _ \<Rightarrow> Inr False)"
proof -
  note tests = generic_tests [OF assms, of "''list''", simplified]
  have "generic_inner (angle ''list'' t) ''list'' = Some t" by simp
  moreover have "angle ''list'' t \<notin> S" if "\<forall>s \<in> S. hd s \<noteq> CHR ''l''" for S
    using that by (auto simp: angle_def)
  ultimately show ?thesis using tests
    by (subst conforms.simps) (simp add: text_types_def angle_def)
qed

lemma conforms_map:
  assumes "\<not> contains ''_ref<'' t" "split_outside 0 t = Some (kt, vt)"
  shows "conforms E v (angle ''map'' t) =
    (case v of
       PDict fs \<Rightarrow> py_all (\<lambda>(k, w). rbind (conforms E k kt) (\<lambda>b. if b then conforms E w vt else Inr False)) fs
     | _ \<Rightarrow> Inr False)"
proof -
  note tests = generic_tests [OF assms(1), of "''map''", simplified]
  have "split_map_type (angle ''map'' t) = Some (kt, vt)" by (simp add: split_map_type_def assms(2))
  moreover have "generic_inner (angle ''map'' t) ''list'' = None" by (simp add: angle_def type_tests)
  ultimately show ?thesis using tests
    by (subst conforms.simps) (simp add: text_types_def angle_def)
qed

section \<open>Assignability is sound at run time\<close>

text \<open>
  The types at which the runtime's test reads a declared type as the validator does: an
  \<^verbatim>\<open>optional<\<close> is closed, and a \<^verbatim>\<open>gesture_path\<close> is not asked for (the validator assigns a
  path to it, the runtime expects a dictionary there and a list for a path).
\<close>

function runtime_checked :: "type_id \<Rightarrow> bool" where
  "runtime_checked t \<longleftrightarrow>
     (case generic_inner t ''optional'' of
        Some inner \<Rightarrow> runtime_checked inner
      | None \<Rightarrow> \<not> starts_with ''optional<'' t \<and> t \<noteq> ''gesture_path'')"
  by pat_completeness auto
termination by (relation "measure length") (auto dest: generic_inner_Some_length)

declare runtime_checked.simps [simp del]

lemma split_comma_string:
  "split_comma t = Some (''string'', v) \<Longrightarrow> t = ''string,'' @ v"
proof -
  have "split_comma t = Some (k, v) \<Longrightarrow> t = k @ '','' @ v" for k
    by (induction t arbitrary: k) (auto split: if_splits)
  then show "split_comma t = Some (''string'', v) \<Longrightarrow> t = ''string,'' @ v" by auto
qed

lemma generic_angle: "generic_inner t p = Some u \<Longrightarrow> t = angle p u"
  by (simp add: generic_inner_iff angle_def)

lemma message_cases:
  assumes "types_compatible a ''message_value''"
  obtains (atom) "a \<in> set message_atoms"
    | (list) t where "a = angle ''list'' t" "types_compatible t ''message_value''"
    | (map) t where "a = angle ''map'' (''string,'' @ t)" "types_compatible t ''message_value''"
proof (cases "a \<in> set message_atoms")
  case True
  then show ?thesis by (rule atom)
next
  case False
  show ?thesis
  proof (cases "generic_inner a ''list''")
    case (Some t)
    with False assms generic_angle show ?thesis
      by (intro list) (auto simp: types_compatible_message [of a])
  next
    case None
    with False assms obtain t where t: "map_types a = Some (''string'', t)" "types_compatible t ''message_value''"
      by (auto simp: types_compatible_message [of a] split: option.splits)
    then obtain inner where "generic_inner a ''map'' = Some inner" "split_comma inner = Some (''string'', t)"
      by (auto simp: map_types_def split: option.splits)
    then show ?thesis using t(2) by (intro map) (auto dest!: generic_angle split_comma_string)
  qed
qed

text \<open>A message type holds no reference, and its values are JSON.\<close>

lemma message_plain: "types_compatible a ''message_value'' \<Longrightarrow> \<not> contains ''_ref<'' a"
proof (induction a rule: measure_induct_rule [of length])
  case (less a)
  from less.prems show ?case
  proof (cases rule: message_cases)
    case atom
    then show ?thesis by (auto simp: message_atoms_def starts_with_def)
  next
    case (list t)
    then show ?thesis using less.IH [of t] generic_tests(1) [of t "''list''"] by (simp add: angle_def)
  next
    case (map t)
    have "\<not> contains ''_ref<'' (''string,'' @ t)"
      using less.IH [of t] map contains_prefix [of "''_ref<''" "''string,''" t] by (simp add: angle_def)
    then show ?thesis using map generic_tests(1) [of "''string,'' @ t" "''map''"] by simp
  qed
qed

lemma message_json:
  "types_compatible a ''message_value'' \<Longrightarrow> conforms E v a = Inr True \<Longrightarrow> json_shaped v"
proof (induction a arbitrary: v rule: measure_induct_rule [of length])
  case (less a)
  from less.prems(1) show ?case
  proof (cases rule: message_cases)
    case atom
    then show ?thesis using less.prems(2) by (cases v) (auto simp: message_atoms_def)
  next
    case (list t)
    then obtain xs where "v = PList xs" "\<forall>x \<in> set xs. conforms E x t = Inr True"
      using less.prems(2) message_plain [of t] by (auto simp: conforms_list py_all_True split: pyval.splits)
    then show ?thesis using less.IH [of t] list by (auto simp: list_all_iff angle_def)
  next
    case (map t)
    have "\<not> contains ''_ref<'' (''string,'' @ t)"
      using message_plain [of t] map contains_prefix [of "''_ref<''" "''string,''" t] by simp
    from conforms_map [OF this, of "''string''" t E v] map(1) less.prems(2)
    have "(case v of
       PDict fs \<Rightarrow> py_all (\<lambda>(k, w). rbind (conforms E k ''string'') (\<lambda>b. if b then conforms E w t else Inr False)) fs
     | _ \<Rightarrow> Inr False) = Inr True" by simp
    then obtain fs where fs: "v = PDict fs"
      "\<forall>x \<in> set fs. (case x of (k, w) \<Rightarrow> rbind (conforms E k ''string'') (\<lambda>b. if b then conforms E w t else Inr False)) = Inr True"
      by (cases v) (auto simp: py_all_True)
    have "is_text k \<and> json_shaped w" if "(k, w) \<in> set fs" for k w
      using bspec [OF fs(2) that] less.IH [of t w] map by (auto simp: angle_def split: if_splits)
    then show ?thesis using fs(1) by (auto simp: list_all_iff)
  qed
qed

lemma number_int: "is_int v \<Longrightarrow> is_number v"
  by (cases v) simp_all

lemma if_chain:
  assumes "if p0 then True else if p1 then x else if p2 then True else if p3 then True else if p4 then True
      else if p5 then True else if p6 then y else if p7 then True else p8" "\<not> p0" "\<not> p1" "\<not> p6"
  shows "p2 \<or> p3 \<or> p4 \<or> p5 \<or> p7 \<or> p8"
  using assms by argo

lemma compat_cases:
  assumes "types_compatible a e" "e \<noteq> ''any'' \<and> a \<noteq> e" "e \<noteq> ''message_value''" "\<not> starts_with ''optional<'' e" 
  shows "(starts_with ''enum<'' e \<and> a = ''string'') \<or> (e = ''gesture_path'' \<and> a = ''path'') \<or>
    (e = ''percentage'' \<and> a \<in> {''int64'', ''float64''}) \<or>
    (e \<in> {''relative_path'', ''url'', ''timezone''} \<and> a = ''string'') \<or>
    (e = ''asset_ref'' \<and> starts_with ''asset_ref<'' a) \<or> (e = ''float64'' \<and> a = ''int64'')"
  by (rule if_chain [OF iffD1 [OF types_compatible.simps assms(1)]]) (use assms(2-4) in simp_all)
lemma types_conform:
  "types_compatible a e \<Longrightarrow> runtime_checked e \<Longrightarrow> conforms E v a = Inr True \<Longrightarrow> conforms E v e = Inr True"
proof (induction e rule: measure_induct_rule [of length])
  case (less e)
  note compat = less.prems(1) and conf = less.prems(3)
  show ?case
  proof (cases "e = ''any'' \<or> a = e")
    case True
    then show ?thesis using conf by auto
  next
    case neq: False
    show ?thesis
    proof (cases "starts_with ''optional<'' e")
      case True
      then obtain t where t: "e = angle ''optional'' t" "runtime_checked t"
        using less.prems(2) by (subst (asm) runtime_checked.simps) (auto split: option.splits dest: generic_angle)
      have "slice_to_last 9 e = t" unfolding t(1) by (simp add: angle_def slice_to_last_def butlast_append)
      then have "a = ''null'' \<or> types_compatible a t" using compat neq types_compatible_optional [OF True] by auto
      then show ?thesis using less.IH [of t] t conf unfolding t(1) conforms_optional by (auto simp: angle_def)
    next
      case no: False
      have ng: "e \<noteq> ''gesture_path''"
        using less.prems(2) runtime_checked.simps [of "''gesture_path''"] by (auto simp: type_tests)
      consider "e = ''message_value''" | "starts_with ''enum<'' e" "a = ''string''"
        | "e = ''percentage''" "a = ''int64'' \<or> a = ''float64''"
        | "e = ''relative_path'' \<or> e = ''url'' \<or> e = ''timezone''" "a = ''string''"
        | "e = ''asset_ref''" "starts_with ''asset_ref<'' a" | "e = ''float64''" "a = ''int64''"
        using compat_cases [OF compat _ _ no] neq ng by (fastforce simp only: insert_iff empty_iff)
      then show ?thesis
      proof cases
        case 1
        then show ?thesis using compat conf message_json by simp
      next
        case 2
        then show ?thesis using conf by (simp add: conforms_enum)
      next
        case 3
        then show ?thesis using conf number_int by auto
      next
        case 4
        then show ?thesis using conf by auto
      next
        case 5
        then have "starts_with ''asset_ref'' a" by (auto simp: starts_with_iff)
        then show ?thesis using conf 5(1) conforms_asset [of a] conforms_asset [of "''asset_ref''"] by (simp add: starts_with_def)
      next
        case 6
        then show ?thesis using conf number_int by simp
      qed
    qed
  qed
qed

section \<open>Literals\<close>

text \<open>The literals whose type alone decides the shape of their value.\<close>

fun plain_literal :: "value_node \<Rightarrow> bool" where
  "plain_literal (NullValue i) = True"
| "plain_literal (StringValue i s) = True"
| "plain_literal (IntValue i n) = True"
| "plain_literal (FloatValue i q) = True"
| "plain_literal (BoolValue i b) = True"
| "plain_literal (DateValue i s) = True"
| "plain_literal (DateTimeValue i s) = True"
| "plain_literal (TimeValue i s) = True"
| "plain_literal (DurationValue i ms) = (0 \<le> ms)"
| "plain_literal (PointValue i x y) = True"
| "plain_literal (RectValue i x y w h) = True"
| "plain_literal (AssetReferenceValue i a k) = (a \<noteq> [])"
| "plain_literal (TargetReferenceValue i t) = (t \<noteq> [])"
| "plain_literal v = False"

lemma tagged_field [simp]: "field (tagged k fs) n = child (map (\<lambda>(k, v). (PStr k, v)) (fs @ [(''kind'', PStr k)])) n"
  by (simp add: tagged_def ecir_def)

lemma tagged_dict [simp]: "is_dict (tagged k fs)"
  by (simp add: tagged_def ecir_def)

lemma lower_number_is_number [simp]: "is_number (lower_number x)"
  by (cases x) simp_all

lemma literal_value_conforms:
  "plain_literal v \<Longrightarrow> \<exists>x. eval_node E sc v = Inr x \<and> conforms E x (value_type v) = Inr True"
proof (cases v)
  case (AssetReferenceValue i a k)
  moreover have "starts_with ''asset_ref'' (angle ''asset_ref'' k)" by (simp add: angle_def starts_with_def)
  ultimately show "plain_literal v \<Longrightarrow> ?thesis" by (simp add: conforms_asset)
qed (simp_all add: calendar_conforms_def is_point_def is_rect_def)

text \<open>
  A path literal evaluates to a dictionary of kind \<^verbatim>\<open>path\<close>, and the runtime's test for \<^verbatim>\<open>path\<close>
  wants a list. A list of parametrised references is tested as one reference, so no list is one.
\<close>

lemma path_literal_rejected:
  "eval_node E sc (PathValue i ps) = Inr x \<Longrightarrow> conforms E x (value_type (PathValue i ps)) = Inr False"
  by (auto simp: tagged_def ecir_def)

lemma reference_list_rejected:
  assumes "contains ''_ref<'' t"
  shows "conforms E (PList xs) (angle ''list'' t) = Inr False"
proof -
  have c: "contains ''_ref<'' (angle ''list'' t)"
  proof -
    obtain a b where "t = a @ ''_ref<'' @ b" using assms by (auto simp: contains_iff)
    then have "angle ''list'' t = (''list<'' @ a) @ ''_ref<'' @ (b @ ''>'')" by (simp add: angle_def)
    then show ?thesis unfolding contains_iff by blast
  qed
  have "\<not> is_file_type (angle ''list'' t) k" if "k \<in> {''file_ref'', ''directory_ref''}" for k
    using that by (auto simp: angle_def type_tests)
  moreover have "\<not> starts_with ''asset_ref'' (angle ''list'' t)" "\<not> starts_with ''enum<'' (angle ''list'' t)"
    "generic_inner (angle ''list'' t) ''optional'' = None" by (simp_all add: angle_def type_tests)
  ultimately show ?thesis using c by (subst conforms.simps) (simp add: text_types_def angle_def)
qed

end
