(* ===== verification/Runtime_Session.thy ===== *)
theory Runtime_Session
  imports Runtime_Types
begin

text \<open>
  The state of a run and the host it runs on. \<^verbatim>\<open>RuntimeSession\<close> of \<^verbatim>\<open>core/vnext/runtime.py\<close> as a
  record: the frames hold the local slots of the calls made so far, in the order the calls
  began, and a listener keeps the number of the frame it was registered in, as the code keeps
  the dictionary itself. A compiled program is a list of \<open>instruction\<close>s.

  Other threads reach a session through three flags (cancel, pause, step); every place that
  reads \<^verbatim>\<open>cancel_requested\<close> polls the host first, so a request may arrive between any two steps.
\<close>

section \<open>Compiled instructions\<close>

text \<open>One constructor per shape \<^verbatim>\<open>compile_block\<close> gives an instruction; the identifier comes first.\<close>

datatype instruction =
    ICall (ins_id: string) string string "(string \<times> pyval) list" "string list" "string option" "string option"
  | IAssignLocal (ins_id: string) string pyval
  | IAssignProject (ins_id: string) string pyval
  | IIf (ins_id: string) pyval "instruction list" "if_branch list" "instruction list"
  | IRepeat (ins_id: string) pyval "instruction list"
  | IWhile (ins_id: string) pyval "instruction list"
  | IForEach (ins_id: string) pyval "string option" "string option" "instruction list"
  | IForEachMap (ins_id: string) pyval "string option" "string option" "string option" "instruction list"
  | IBreak (ins_id: string)
  | IContinue (ins_id: string)
  | IReturn (ins_id: string) "pyval option"
  | IFail (ins_id: string) string pyval "pyval option"
  | ITry (ins_id: string) "instruction list" "(pyval \<times> pyval) option" "catcher list" "instruction list"
  | ITargetScope (ins_id: string) pyval "instruction list"
  | IListen (ins_id: string) pyval "pyval option" string "pyval option" string "(string \<times> pyval) list"
and if_branch = IfBranch (ib_condition: pyval) (ib_body: "instruction list")
and catcher =
    Catcher (ct_error_ids: "string list") (ct_error_slot: "string option") (ct_body: "instruction list")

text \<open>An entry of \<^verbatim>\<open>functions\<close> and of its \<^verbatim>\<open>parameter_definitions\<close>.\<close>

record parameter_definition =
  pd_parameter_id :: string
  pd_name :: string
  pd_value_type :: string
  pd_required :: bool
  pd_default :: pyval

record function_definition =
  fd_parameters :: "parameter_definition list"
  fd_return_type :: string
  fd_instructions :: "instruction list"

section \<open>The session\<close>

datatype run_status = Queued | Running | Paused | Completed | Failed | Cancelled

record listener =
  ln_id :: string
  ln_name :: string
  ln_sender :: pyval
  ln_receive :: string
  ln_condition :: "pyval option"
  ln_handler :: string
  ln_arguments :: "(string \<times> pyval) list"
  ln_frame :: nat

text \<open>An event by its level, its category and the instruction; the text is presentation.\<close>

record run_event =
  re_level :: string
  re_category :: string
  re_instruction :: string

text \<open>A driver: the identifier of its target, and which of the drivers made so far it is.\<close>

type_synonym driver = "string \<times> nat"
type_synonym slots = "string \<Rightarrow> pyval option"

record 'w session =
  rs_world :: 'w
  rs_cancel :: bool
  rs_pause :: bool
  rs_step :: bool
  rs_breakpoints :: "string set"
  rs_status :: run_status
  rs_events :: "run_event list"
  rs_current :: string
  rs_variables :: slots
  rs_project :: slots
  rs_frames :: "slots list"
  rs_listeners :: "listener list"
  rs_dispatching :: bool
  rs_listener :: string
  rs_message :: string
  rs_failed_listener :: string
  rs_failed_message :: string
  rs_calls :: "(string \<times> nat) list"
  rs_drivers :: "driver option list"
  rs_owned :: "string set"
  rs_home :: string
  rs_made :: nat

text \<open>How a step ends: on to the next one, out of the block (\<^verbatim>\<open>return\<close>), or by an exception.\<close>

datatype flow = Next | Leave | Returned pyval | Broke | Continued | Raised rt_error

text \<open>
  What lies outside: the clock and the other threads, the message store, the target drivers,
  the operations of the host. An operation makes some number of safe checkpoints and then ends.
\<close>

record 'w host =
  h_tick :: "'w \<Rightarrow> 'w"
  h_cancelled :: "'w \<Rightarrow> bool"
  h_paused :: "'w \<Rightarrow> bool"
  h_wait :: "'w \<Rightarrow> 'w \<times> bool"
  h_rounds :: "'w \<Rightarrow> string \<Rightarrow> (string \<times> pyval) list \<Rightarrow> nat"
  h_call :: "'w \<Rightarrow> driver option \<Rightarrow> string \<Rightarrow> string \<Rightarrow> (string \<times> pyval) list \<Rightarrow> 'w \<times> pyval py"
  h_extension :: "'w \<Rightarrow> string \<Rightarrow> (string \<times> pyval) list \<Rightarrow> slots \<Rightarrow> 'w \<times> pyval py"
  h_until :: "'w \<Rightarrow> pyval \<Rightarrow> string \<Rightarrow> nat py"
  h_random :: "'w \<Rightarrow> int \<Rightarrow> int \<Rightarrow> 'w \<times> int py"
  h_supports :: "driver \<Rightarrow> string \<Rightarrow> bool"
  h_platform :: "driver \<Rightarrow> string"
  h_busy :: "'w \<Rightarrow> string \<Rightarrow> bool"
  h_create :: "'w \<Rightarrow> string \<Rightarrow> 'w \<times> bool py"
  h_capture :: "'w \<Rightarrow> driver \<Rightarrow> 'w \<times> unit py"
  h_close :: "'w \<Rightarrow> driver \<Rightarrow> 'w"
  h_cursor :: "'w \<Rightarrow> nat"
  h_check :: "'w \<Rightarrow> pyval \<Rightarrow> pyval \<Rightarrow> unit py"
  h_peek :: "'w \<Rightarrow> string \<Rightarrow> pyval \<Rightarrow> nat \<Rightarrow> pydict option py"
  h_claim :: "'w \<Rightarrow> string \<Rightarrow> string \<Rightarrow> pyval \<Rightarrow> 'w \<times> pydict option py"

text \<open>What a run is given: the library, the host, and the plan (\<^verbatim>\<open>ecir\<close>) it executes.\<close>

record 'w machine =
  m_eval :: eval_env
  m_text :: text_env
  m_host :: "'w host"
  m_message_text :: "rt_error \<Rightarrow> string"
  m_float_text :: "string \<Rightarrow> rat option"
  m_messaging :: bool
  m_targets :: "string \<Rightarrow> string option"
  m_variables :: "string \<Rightarrow> (string \<times> pydict) option"
  m_functions :: "string \<Rightarrow> function_definition option"

section \<open>Steps on the session\<close>

definition poll :: "'w machine \<Rightarrow> 'w session \<Rightarrow> 'w session" where
  "poll X s =
     (let w = h_tick (m_host X) (rs_world s) in
      s\<lparr>rs_world := w, rs_cancel := rs_cancel s \<or> h_cancelled (m_host X) w,
        rs_pause := rs_pause s \<or> h_paused (m_host X) w\<rparr>)"

definition event :: "string \<Rightarrow> string \<Rightarrow> string \<Rightarrow> 'w session \<Rightarrow> 'w session" where
  "event level category i s =
     s\<lparr>rs_events := rs_events s @ [\<lparr>re_level = level, re_category = category, re_instruction = i\<rparr>]\<rparr>"

definition mark_cancelled :: "'w session \<Rightarrow> 'w session" where
  "mark_cancelled s = s\<lparr>rs_status := Cancelled\<rparr>"

definition set_slot :: "nat \<Rightarrow> string \<Rightarrow> pyval \<Rightarrow> 'w session \<Rightarrow> 'w session" where
  "set_slot f k v s = s\<lparr>rs_frames := (rs_frames s)[f := (rs_frames s ! f)(k \<mapsto> v)]\<rparr>"

definition scope_of :: "slots \<Rightarrow> 'w session \<Rightarrow> scope" where
  "scope_of locals s = \<lparr>sc_locals = locals, sc_project = rs_project s, sc_cancelled = rs_cancel s\<rparr>"

text \<open>\<^verbatim>\<open>self._value(value, slots)\<close> with the slots of a frame.\<close>

definition value_in :: "'w machine \<Rightarrow> nat \<Rightarrow> 'w session \<Rightarrow> pyval \<Rightarrow> pyval py" where
  "value_in X f s v = eval_value (m_eval X) (scope_of (rs_frames s ! f) s) v"

definition show_variables :: "nat \<Rightarrow> 'w session \<Rightarrow> 'w session" where
  "show_variables f s = s\<lparr>rs_variables := rs_frames s ! f\<rparr>"

text \<open>A value that is needed to go on.\<close>

definition with_value :: "'a py \<Rightarrow> 'w session \<Rightarrow> ('a \<Rightarrow> 'w session \<times> flow) \<Rightarrow> 'w session \<times> flow" where
  "with_value r s k = (case r of Inl e \<Rightarrow> (s, Raised e) | Inr x \<Rightarrow> k x)"

lemma with_value_simps [simp]:
  "with_value (Inl e) s k = (s, Raised e)"
  "with_value (Inr x) s k = k x"
  by (simp_all add: with_value_def)

lemma with_value_cong [fundef_cong]:
  "r = r' \<Longrightarrow> s = s' \<Longrightarrow> (\<And>x. r' = Inr x \<Longrightarrow> k x = k' x) \<Longrightarrow> with_value r s k = with_value r' s' k'"
  by (cases r') simp_all

text \<open>The next step, when the one before ended with \<open>Next\<close>.\<close>

definition and_then :: "'w session \<times> flow \<Rightarrow> ('w session \<Rightarrow> 'w session \<times> flow) \<Rightarrow> 'w session \<times> flow" where
  "and_then r k = (case r of (s, Next) \<Rightarrow> k s | _ \<Rightarrow> r)"

lemma and_then_cong [fundef_cong]:
  "r = r' \<Longrightarrow> (\<And>s. r' = (s, Next) \<Longrightarrow> k s = k' s) \<Longrightarrow> and_then r k = and_then r' k'"
  by (auto simp: and_then_def split: prod.split flow.split)

lemma and_then_simps [simp]:
  "and_then (s, Next) k = k s" "fl \<noteq> Next \<Longrightarrow> and_then (s, fl) k = (s, fl)"
  by (simp_all add: and_then_def split: flow.split)

text \<open>What the host gives back: its new state, and a value that is needed to go on.\<close>

definition with_host ::
  "'w \<times> 'a py \<Rightarrow> 'w session \<Rightarrow> ('a \<Rightarrow> 'w session \<Rightarrow> 'w session \<times> flow) \<Rightarrow> 'w session \<times> flow" where
  "with_host r s k =
     with_value (snd r) (s\<lparr>rs_world := fst r\<rparr>) (\<lambda>x. k x (s\<lparr>rs_world := fst r\<rparr>))"

lemma with_host_cong [fundef_cong]:
  "r = r' \<Longrightarrow> s = s' \<Longrightarrow> (\<And>x t. snd r' = Inr x \<Longrightarrow> k x t = k' x t) \<Longrightarrow> with_host r s k = with_host r' s' k'"
  by (simp add: with_host_def cong: with_value_cong)

definition current_driver :: "'w session \<Rightarrow> driver option" where
  "current_driver s = (case rs_drivers s of [] \<Rightarrow> None | d # _ \<Rightarrow> d)"

end
