(* ===== verification/Program_Compile.thy ===== *)
theory Program_Compile
  imports Runtime_Session Program_Json Scope_Soundness
begin

text \<open>
  The compiler of one document, \<^verbatim>\<open>compile_program_document\<close> of
  \<^verbatim>\<open>core/vnext/program_compiler.py\<close>: the diagnostics it adds to those of the validator (targets,
  project variables, network, platforms, competing message consumers), and the translation of
  statements into instructions. Debug maps, override slots and revisions are presentation of the
  result and left out.
\<close>

section \<open>The environment of a compilation\<close>

text \<open>
  The validator's environment, the project's variables with their types and default values, what \<^verbatim>\<open>contract_platforms\<close> and \<^verbatim>\<open>contract_platform_detail\<close> read off a
  contract (the platforms, and whether a support entry exists and is not \<^verbatim>\<open>unsupported\<close>), the
  arguments of the call, the network module (whether policies were given, whether they are valid,
  and whether a literal URL, merged with the policies, is), and whether the check for competing
  message consumers is left to the caller.
\<close>

record compile_env =
  ce_validation :: validation_env
  ce_platforms :: "function_contract \<Rightarrow> string list"
  ce_supported :: "function_contract \<Rightarrow> string \<Rightarrow> bool option"
  ce_project_functions :: "stable_id set"
  ce_platform :: "string option"
  ce_variables :: "(stable_id \<times> type_id) list option"
  ce_defaults :: "(stable_id \<times> value_node) list"
  ce_targets :: "(stable_id \<times> string) list"
  ce_default_target :: "stable_id option"
  ce_policies :: bool
  ce_policies_valid :: bool
  ce_url_valid :: "string \<Rightarrow> bool"
  ce_skip_conflicts :: bool

definition core_platforms :: "string list" where
  "core_platforms = [''android_adb'', ''no_target'', ''windows'']"

section \<open>Diagnostics\<close>

definition statement_values :: "statement \<Rightarrow> value_node list" where
  "statement_values s = concat (map iter_value_tree (statement_value_roots s))"

fun targets_table :: "(stable_id \<times> string) list \<Rightarrow> (stable_id \<times> string) list \<Rightarrow> diagnostic list \<times> (stable_id \<times> string) list" where
  "targets_table table [] = ([], table)"
| "targets_table table ((t, kind) # rest) =
     (if t = [] \<or> map_of table t \<noteq> None
      then (let (ds, table') = targets_table table rest in (emit True ''PGM-TARGET-002'' [] [] @ ds, table'))
      else targets_table (table @ [(t, kind)]) rest)"

abbreviation target_kind :: "compile_env \<Rightarrow> stable_id \<Rightarrow> string option" where
  "target_kind C \<equiv> map_of (snd (targets_table [] (ce_targets C)))"

fun target_reference :: "compile_env \<Rightarrow> stable_id \<Rightarrow> value_node \<Rightarrow> diagnostic list" where
  "target_reference C sid (TargetReferenceValue i t) = emit (target_kind C t = None) ''PGM-TARGET-001'' sid i"
| "target_reference C sid _ = []"

fun target_id_of :: "value_node \<Rightarrow> stable_id" where
  "target_id_of (TargetReferenceValue i t) = t"
| "target_id_of _ = []"

fun scope_target :: "compile_env \<Rightarrow> statement \<Rightarrow> diagnostic list" where
  "scope_target C (TargetScopeStatement sid v body l) =
     emit (target_kind C (target_id_of v) = Some ''android_local'') ''PGM-TARGET-003'' sid (value_id v)"
| "scope_target C _ = []"

definition target_diagnostics :: "compile_env \<Rightarrow> statement list \<Rightarrow> diagnostic list" where
  "target_diagnostics C ss =
     fst (targets_table [] (ce_targets C)) @
     concat (map (\<lambda>s. concat (map (target_reference C (statement_id s)) (statement_values s))) (iter_statement_tree ss)) @
     (case ce_default_target C of
        None \<Rightarrow> []
      | Some t \<Rightarrow> emit (t \<noteq> [] \<and> target_kind C t = None) ''PGM-TARGET-001'' [] []) @
     concat (map (scope_target C) (iter_statement_tree ss))"

fun variable_target :: "(stable_id \<times> type_id) list \<Rightarrow> statement \<Rightarrow> diagnostic list" where
  "variable_target defs (AssignmentStatement sid (ProjectVariableAssignmentTarget k t) v l) =
     (case map_of defs k of
        None \<Rightarrow> emit True ''PGM-VAR-001'' sid []
      | Some declared \<Rightarrow> emit (\<not> types_compatible t declared) ''PGM-VAR-002'' sid [])"
| "variable_target defs _ = []"

fun variable_reference :: "(stable_id \<times> type_id) list \<Rightarrow> stable_id \<Rightarrow> value_node \<Rightarrow> diagnostic list" where
  "variable_reference defs sid (ProjectVariableReferenceValue i k t) =
     (case map_of defs k of
        None \<Rightarrow> emit True ''PGM-VAR-001'' sid i
      | Some declared \<Rightarrow> emit (\<not> types_compatible declared t) ''PGM-VAR-002'' sid i)"
| "variable_reference defs sid _ = []"

definition variable_diagnostics :: "compile_env \<Rightarrow> statement list \<Rightarrow> diagnostic list" where
  "variable_diagnostics C ss =
     (case ce_variables C of
        None \<Rightarrow> []
      | Some defs \<Rightarrow> concat (map (\<lambda>s. variable_target (rev defs) s @
          concat (map (variable_reference (rev defs) (statement_id s)) (statement_values s))) (iter_statement_tree ss)))"

text \<open>A call: a contract without a platform, and the authorization of a network request.\<close>

definition network_diagnostics :: "compile_env \<Rightarrow> stable_id \<Rightarrow> value_node option \<Rightarrow> diagnostic list" where
  "network_diagnostics C sid url =
     (let project = ce_policies C \<and> ce_policies_valid C in
      case url of
        Some (StringValue i u) \<Rightarrow> emit (\<not> ce_url_valid C u) ''PGM-NET-002'' sid []
      | _ \<Rightarrow> emit (\<not> project) ''PGM-NET-001'' sid [])"

fun call_diagnostics :: "compile_env \<Rightarrow> statement \<Rightarrow> diagnostic list" where
  "call_diagnostics C (CallStatement sid f args rb review l) =
     (case get_contract (ce_validation C) f of
        None \<Rightarrow> []
      | Some c \<Rightarrow> emit (ce_platforms C c = []) ''PGM-CALL-006'' sid [] @
          (if starts_with ''network.'' (fc_opcode c)
           then network_diagnostics C sid (map_of args (fc_function_id c @ ''.parameter.url''))
           else []))"
| "call_diagnostics C _ = []"

text \<open>The platform a statement runs on: a target scope changes it for its body.\<close>

definition scope_platform :: "compile_env \<Rightarrow> statement \<Rightarrow> string \<Rightarrow> string" where
  "scope_platform C s platform =
     (case s of
        TargetScopeStatement sid v body l \<Rightarrow>
          (case target_kind C (target_id_of v) of
             None \<Rightarrow> platform | Some k \<Rightarrow> if k = [] then platform else k)
      | _ \<Rightarrow> platform)"

function walk_platform :: "compile_env \<Rightarrow> statement list \<Rightarrow> string \<Rightarrow> (statement \<times> string) list" where
  "walk_platform C [] platform = []"
| "walk_platform C (s # rest) platform =
     (s, scope_platform C s platform) #
     concat (map (\<lambda>b. walk_platform C b (scope_platform C s platform)) (statement_child_blocks s)) @
     walk_platform C rest platform"
  by pat_completeness auto
termination
  by (relation "measure (\<lambda>(C, b, p). size_list size b)") (auto dest!: child_block_size)

definition choice_value :: "json \<Rightarrow> json" where
  "choice_value c = (case c of JObject fs \<Rightarrow> (case map_of fs ''value'' of None \<Rightarrow> JNull | Some v \<Rightarrow> v) | _ \<Rightarrow> c)"

text \<open>The platforms of the choice a text argument selects, or none.\<close>

definition choice_platforms :: "json list \<Rightarrow> string \<Rightarrow> json list" where
  "choice_platforms choices t =
     (case List.find (\<lambda>c. choice_value c = JString t) choices of
        Some (JObject fs) \<Rightarrow> (case map_of fs ''platforms'' of Some (JList ps) \<Rightarrow> ps | _ \<Rightarrow> [])
      | _ \<Rightarrow> [])"

fun argument_platform :: "function_contract \<Rightarrow> stable_id \<Rightarrow> string \<Rightarrow> stable_id \<times> value_node \<Rightarrow> diagnostic list" where
  "argument_platform c sid platform (p, StringValue i t) =
     (case contract_parameter c p of
        None \<Rightarrow> []
      | Some q \<Rightarrow>
          (let ps = choice_platforms (pc_choices q) t in
           emit (ps \<noteq> [] \<and> JString platform \<notin> set ps) ''PGM-PLATFORM-003'' sid i))"
| "argument_platform c sid platform _ = []"

fun statement_platform :: "compile_env \<Rightarrow> statement \<times> string \<Rightarrow> diagnostic list" where
  "statement_platform C (CallStatement sid f args rb review l, platform) =
     (case get_contract (ce_validation C) f of
        None \<Rightarrow> []
      | Some c \<Rightarrow>
          if platform \<notin> set (ce_platforms C c)
          then emit True (if platform \<noteq> ''no_target'' \<and> ce_supported C c platform = Some True
            then ''PGM-PLATFORM-002'' else ''PGM-PLATFORM-001'') sid []
          else concat (map (argument_platform c sid platform) args))"
| "statement_platform C _ = []"

definition initial_platform :: "compile_env \<Rightarrow> string \<Rightarrow> string" where
  "initial_platform C platform =
     (case ce_default_target C of
        None \<Rightarrow> platform
      | Some t \<Rightarrow> (case target_kind C t of None \<Rightarrow> platform | Some k \<Rightarrow> if k = [] then platform else k))"

definition platform_diagnostics :: "compile_env \<Rightarrow> statement list \<Rightarrow> diagnostic list" where
  "platform_diagnostics C ss =
     (case ce_platform C of
        None \<Rightarrow> []
      | Some platform \<Rightarrow>
          (let ds = concat (map (statement_platform C) (walk_platform C ss (initial_platform C platform)))
           in ds @ emit (platform \<notin> set core_platforms \<and> ds = []) ''PGM-PLATFORM-002'' [] []))"

section \<open>Competing message consumers\<close>

text \<open>A filter on the name or the sender of a message: one text, any, or known only at run time.\<close>

datatype message_filter = Exact string | Wildcard | Dynamic

fun static_message_name :: "value_node option \<Rightarrow> message_filter" where
  "static_message_name (Some (StringValue i s)) = Exact s"
| "static_message_name _ = Dynamic"

fun static_message_sender :: "value_node option \<Rightarrow> message_filter" where
  "static_message_sender None = Wildcard"
| "static_message_sender (Some (NullValue i)) = Wildcard"
| "static_message_sender (Some (EntityReferenceValue i r t)) = (if t = ''instance_ref'' then Exact r else Dynamic)"
| "static_message_sender _ = Dynamic"

fun filters_differ :: "message_filter \<Rightarrow> message_filter \<Rightarrow> bool" where
  "filters_differ (Exact a) (Exact b) = (a \<noteq> b)"
| "filters_differ _ _ = False"

definition proven_disjoint :: "message_filter \<times> message_filter \<Rightarrow> message_filter \<times> message_filter \<Rightarrow> bool" where
  "proven_disjoint l r \<longleftrightarrow> filters_differ (fst l) (fst r) \<or> filters_differ (snd l) (snd r)"

definition wait_receive :: string where
  "wait_receive = ''official.message.wait_receive''"

fun message_wait :: "statement \<Rightarrow> (stable_id \<times> message_filter \<times> message_filter) list" where
  "message_wait (CallStatement sid f args rb review l) =
     (if f = wait_receive
      then [(sid, static_message_name (map_of args (wait_receive @ ''.parameter.name'')),
        static_message_sender (map_of args (wait_receive @ ''.parameter.sender'')))]
      else [])"
| "message_wait _ = []"

fun message_listener :: "statement \<Rightarrow> (stable_id \<times> message_filter \<times> message_filter) list" where
  "message_listener (ListenStatement sid src rb c h args l) =
     [(sid, static_message_name (Some (es_name src)), static_message_sender (es_sender src))]"
| "message_listener _ = []"

definition conflict_diagnostic ::
  "stable_id \<times> message_filter \<times> message_filter \<Rightarrow> stable_id \<times> message_filter \<times> message_filter \<Rightarrow> diagnostic list" where
  "conflict_diagnostic w l =
     emit (\<not> proven_disjoint (snd w) (snd l))
       (if Dynamic \<in> {fst (snd w), snd (snd w), fst (snd l), snd (snd l)} then ''PGM-MSG-002'' else ''PGM-MSG-001'')
       (fst w) []"

definition message_conflicts :: "program_document list \<Rightarrow> diagnostic list" where
  "message_conflicts ds =
     (let ss = concat (map (\<lambda>d. iter_statement_tree (doc_statements d)) ds);
          waits = concat (map message_wait ss);
          listeners = concat (map message_listener ss)
      in concat (map (\<lambda>w. concat (map (conflict_diagnostic w) listeners)) waits))"

section \<open>Instructions\<close>

text \<open>
  How a compilation ends without a result: a value that was not set (\<^verbatim>\<open>_LoweringError\<close>), a
  contract that is gone (\<^verbatim>\<open>KeyError\<close>), or an attribute the code takes for granted.
\<close>

datatype compile_error = LoweringError stable_id | ContractError stable_id | AttributeError stable_id

definition lowered :: "value_node \<Rightarrow> compile_error + pyval" where
  "lowered v = (case lower_value v of Inl i \<Rightarrow> Inl (LoweringError i) | Inr w \<Rightarrow> Inr w)"

definition lowered_option :: "value_node option \<Rightarrow> compile_error + pyval option" where
  "lowered_option v = (case v of None \<Rightarrow> Inr None | Some w \<Rightarrow> rbind (lowered w) (\<lambda>x. Inr (Some x)))"

definition lowered_pairs :: "(stable_id \<times> value_node) list \<Rightarrow> compile_error + (string \<times> pyval) list" where
  "lowered_pairs args = rmap (\<lambda>(k, v). rbind (lowered v) (\<lambda>w. Inr (k, w))) args"

text \<open>The arguments of a call, in the order of the contract's parameters.\<close>

definition given_arguments :: "function_contract \<Rightarrow> (stable_id \<times> value_node) list \<Rightarrow> (stable_id \<times> value_node) list" where
  "given_arguments c args =
     concat (map (\<lambda>p. case map_of args p of None \<Rightarrow> [] | Some v \<Rightarrow> [(p, v)]) (remdups (map pc_parameter_id (fc_parameters c))))"

definition compile_call ::
  "compile_env \<Rightarrow> stable_id \<Rightarrow> stable_id \<Rightarrow> (stable_id \<times> value_node) list \<Rightarrow> result_binding option \<Rightarrow>
     compile_error + instruction" where
  "compile_call C sid f args rb =
     rbind (of_option (ContractError f) (get_contract (ce_validation C) f)) (\<lambda>c.
     rbind (lowered_pairs (given_arguments c args)) (\<lambda>as.
       Inr (ICall sid (fc_opcode c) (fc_function_id c) as (ce_platforms C c)
         (if fc_function_id c \<in> ce_project_functions C \<or> fc_opcode c = ''call.extension''
          then Some (fc_function_id c) else None)
         (map_option rb_symbol_id rb))))"

fun compile_assignment :: "stable_id \<Rightarrow> assignment_target \<Rightarrow> pyval \<Rightarrow> instruction" where
  "compile_assignment sid (LocalAssignmentTarget s n t d) w = IAssignLocal sid s w"
| "compile_assignment sid (ProjectVariableAssignmentTarget k t) w = IAssignProject sid k w"

definition compile_loop ::
  "stable_id \<Rightarrow> loop_mode \<Rightarrow> pyval \<Rightarrow> loop_binding option \<Rightarrow> loop_binding option \<Rightarrow> loop_binding option \<Rightarrow>
     loop_binding option \<Rightarrow> instruction list \<Rightarrow> instruction" where
  "compile_loop sid m w item idx key val body =
     (case m of
        ModeRepeat \<Rightarrow> IRepeat sid w body
      | ModeWhile \<Rightarrow> IWhile sid w body
      | ModeForEach \<Rightarrow> IForEach sid w (map_option lb_symbol_id item) (map_option lb_symbol_id idx) body
      | ModeForEachMap \<Rightarrow> IForEachMap sid w (map_option lb_symbol_id key) (map_option lb_symbol_id val)
          (map_option lb_symbol_id idx) body)"

definition compile_retry :: "retry_policy option \<Rightarrow> compile_error + (pyval \<times> pyval) option" where
  "compile_retry policy =
     (case policy of
        None \<Rightarrow> Inr None
      | Some p \<Rightarrow> rbind (lowered (rp_max_retries p)) (\<lambda>n. rbind (lowered (rp_interval p)) (\<lambda>q. Inr (Some (n, q)))))"

definition compile_listen ::
  "stable_id \<Rightarrow> message_event_source \<Rightarrow> loop_binding \<Rightarrow> value_node option \<Rightarrow> stable_id \<Rightarrow>
     (stable_id \<times> value_node) list \<Rightarrow> compile_error + instruction" where
  "compile_listen sid src rb c h args =
     rbind (lowered (es_name src)) (\<lambda>n.
     rbind (lowered_option (es_sender src)) (\<lambda>who.
     rbind (lowered_option c) (\<lambda>cond.
     rbind (lowered_pairs (sort_key fst args)) (\<lambda>as.
       Inr (IListen sid n who (lb_symbol_id rb) cond h as)))))"

lemma compiled_sizes:
  "x \<in> set b \<Longrightarrow> b \<in> set (statement_child_blocks s) \<Longrightarrow> size x < size s"
  by (rule child_statement_size) auto

function compile_statement :: "compile_env \<Rightarrow> statement \<Rightarrow> compile_error + instruction" where
  "compile_statement C s =
     (case s of
        CallStatement sid f args rb review l \<Rightarrow> compile_call C sid f args rb
      | AssignmentStatement sid t v l \<Rightarrow> rbind (lowered v) (\<lambda>w. Inr (compile_assignment sid t w))
      | IfStatement sid c th branches oth l \<Rightarrow>
          rbind (lowered c) (\<lambda>w.
          rbind (rmap (compile_statement C) th) (\<lambda>th'.
          rbind (rmap (\<lambda>b. rbind (lowered (branch_condition b)) (\<lambda>bc.
              rbind (rmap (compile_statement C) (branch_statements b)) (\<lambda>body. Inr (IfBranch bc body)))) branches) (\<lambda>bs.
          rbind (rmap (compile_statement C) oth) (\<lambda>oth'. Inr (IIf sid w th' bs oth')))))
      | LoopStatement sid m source body item idx key val l \<Rightarrow>
          rbind (lowered source) (\<lambda>w.
          rbind (rmap (compile_statement C) body) (\<lambda>body'. Inr (compile_loop sid m w item idx key val body')))
      | BreakStatement sid l \<Rightarrow> Inr (IBreak sid)
      | ContinueStatement sid l \<Rightarrow> Inr (IContinue sid)
      | ReturnStatement sid v l \<Rightarrow> rbind (lowered_option v) (\<lambda>w. Inr (IReturn sid w))
      | FailStatement sid error_id message details l \<Rightarrow>
          rbind (lowered message) (\<lambda>w. rbind (lowered_option details) (\<lambda>d. Inr (IFail sid error_id w d)))
      | TryStatement sid body policy catches fin l \<Rightarrow>
          rbind (compile_retry policy) (\<lambda>retry.
          rbind (rmap (compile_statement C) body) (\<lambda>body'.
          rbind (rmap (\<lambda>c. rbind (rmap (compile_statement C) (catch_statements c)) (\<lambda>b.
              Inr (Catcher (catch_error_ids c) (map_option lb_symbol_id (catch_error_binding c)) b))) catches) (\<lambda>cs.
          rbind (rmap (compile_statement C) fin) (\<lambda>fin'. Inr (ITry sid body' retry cs fin')))))
      | TargetScopeStatement sid v body l \<Rightarrow>
          rbind (lowered v) (\<lambda>w.
          rbind (rmap (compile_statement C) body) (\<lambda>body'. Inr (ITargetScope sid w body')))
      | ListenStatement sid src rb c h args l \<Rightarrow> compile_listen sid src rb c h args)"
  by pat_completeness auto
termination
  by (relation "measure (\<lambda>(C, s). size s)"; (simp only: in_measure wf_measure prod.case)?)
    (rule child_statement_size, force)+

declare compile_statement.simps [simp del]

lemmas compile_simps =
  compile_statement.simps [of C "CallStatement sid f args rb review l" for C sid f args rb review l, simplified]
  compile_statement.simps [of C "AssignmentStatement sid t v l" for C sid t v l, simplified]
  compile_statement.simps [of C "IfStatement sid c th branches oth l" for C sid c th branches oth l, simplified]
  compile_statement.simps [of C "LoopStatement sid m source body item idx key val l" for C sid m source body item idx key val l, simplified]
  compile_statement.simps [of C "BreakStatement sid l" for C sid l, simplified]
  compile_statement.simps [of C "ContinueStatement sid l" for C sid l, simplified]
  compile_statement.simps [of C "ReturnStatement sid v l" for C sid v l, simplified]
  compile_statement.simps [of C "FailStatement sid e m d l" for C sid e m d l, simplified]
  compile_statement.simps [of C "TryStatement sid body policy catches fin l" for C sid body policy catches fin l, simplified]
  compile_statement.simps [of C "TargetScopeStatement sid v body l" for C sid v body l, simplified]
  compile_statement.simps [of C "ListenStatement sid src rb c h args l" for C sid src rb c h args l, simplified]

definition compile_block :: "compile_env \<Rightarrow> statement list \<Rightarrow> compile_error + instruction list" where
  "compile_block C ss = rmap (compile_statement C) ss"

section \<open>Documents\<close>

definition compile_parameter :: "program_parameter \<Rightarrow> compile_error + parameter_definition" where
  "compile_parameter p =
     rbind (lowered_option (pp_default_value p)) (\<lambda>d.
       Inr \<lparr>pd_parameter_id = pp_parameter_id p, pd_name = pp_symbol_id p, pd_value_type = pp_value_type p,
         pd_required = pp_required p, pd_default = or_none d\<rparr>)"

definition document_diagnostics :: "compile_env \<Rightarrow> program_document \<Rightarrow> diagnostic list" where
  "document_diagnostics C d =
     (let ss = doc_statements d in
      validate_program_document ((ce_validation C)\<lparr>ve_require_configured := True\<rparr>) d @
      (if ce_skip_conflicts C then [] else message_conflicts [d]) @ target_diagnostics C ss @ variable_diagnostics C ss @
      emit (ce_policies C \<and> \<not> ce_policies_valid C) ''PGM-NET-002'' [] [] @
      concat (map (call_diagnostics C) (iter_statement_tree ss)) @ platform_diagnostics C ss)"

text \<open>A target scope whose target is not a literal reference stops the compiler.\<close>

fun odd_target :: "statement \<Rightarrow> stable_id option" where
  "odd_target (TargetScopeStatement sid (TargetReferenceValue i t) body l) = None"
| "odd_target (TargetScopeStatement sid v body l) = Some (value_id v)"
| "odd_target _ = None"

text \<open>The result: the diagnostics, or the function's definition.\<close>

definition compile_document ::
  "compile_env \<Rightarrow> program_document \<Rightarrow> compile_error + diagnostic list + function_definition" where
  "compile_document C d =
     (let ss = doc_statements d in
      case first_some (map odd_target (iter_statement_tree ss)) of
        Some i \<Rightarrow> Inl (AttributeError i)
      | None \<Rightarrow>
          if document_diagnostics C d \<noteq> [] then Inr (Inl (document_diagnostics C d))
          else case compile_block C ss of
              Inl (LoweringError i) \<Rightarrow> Inr (Inl (emit True ''PGM-COMPILE-001'' [] i))
            | Inl e \<Rightarrow> Inl e
            | Inr ins \<Rightarrow>
                rbind (rmap compile_parameter (fn_parameters (doc_function d))) (\<lambda>ps.
                rbind (lowered_pairs (ce_defaults C)) (\<lambda>_.
                  Inr (Inr \<lparr>fd_parameters = ps, fd_return_type = fn_return_type (doc_function d),
                    fd_instructions = ins\<rparr>))))"

end
