(* ===== verification/Compile_Properties.thy ===== *)
theory Compile_Properties
  imports Program_Compile
begin

text \<open>
  A document without diagnostics always compiles: the validator reports every value that is not
  set and every missing contract, so lowering has nothing left to fail on.
\<close>

section \<open>Values that are set\<close>

lemma rbind_Inl_iff: "rbind m f = Inl e \<longleftrightarrow> m = Inl e \<or> (\<exists>x. m = Inr x \<and> f x = Inl e)"
  by (cases m) simp_all

lemma rmap_InlD: "rmap f xs = Inl e \<Longrightarrow> \<exists>x \<in> set xs. f x = Inl e"
  by (induction xs) (auto simp: rbind_Inl_iff)

lemma rmap_total: "(\<And>x. x \<in> set xs \<Longrightarrow> \<exists>y. f x = Inr y) \<Longrightarrow> \<exists>ys. rmap f xs = Inr ys"
  by (induction xs) (auto simp: rbind_Inr_iff)

definition unset_in :: "stable_id \<Rightarrow> value_node \<Rightarrow> bool" where
  "unset_in i v \<longleftrightarrow> (\<exists>t. UnsetValue i t \<in> set (iter_value_tree v))"

lemma unset_tree: "unset_in i v \<longleftrightarrow> (\<exists>t. v = UnsetValue i t) \<or> (\<exists>c \<in> set (iter_value_children v). unset_in i c)"
  unfolding unset_in_def by (subst set_iter_value_tree) auto

lemma unset_child: "c \<in> set (iter_value_children v) \<Longrightarrow> unset_in i c \<Longrightarrow> unset_in i v"
  using unset_tree [of i v] by blast

lemma lower_value_child:
  "lower_value v = Inl i \<Longrightarrow> (\<exists>t. v = UnsetValue i t) \<or> (\<exists>c \<in> set (iter_value_children v). lower_value c = Inl i)"
proof (cases v)
  case (MapValue j kt vt entries)
  assume "lower_value v = Inl i"
  then obtain k w where "(k, w) \<in> set entries" "lower_value k = Inl i \<or> lower_value w = Inl i"
    using MapValue by (auto simp: rbind_Inl_iff dest!: rmap_InlD)
  then show ?thesis using MapValue by auto
next
  case (RecordValue j t flds)
  assume "lower_value v = Inl i"
  then show ?thesis using RecordValue by (force simp: rbind_Inl_iff dest!: rmap_InlD)
next
  case (PureOperationValue j op t inputs)
  assume "lower_value v = Inl i"
  then show ?thesis using PureOperationValue by (force simp: rbind_Inl_iff dest!: rmap_InlD)
qed (auto simp: rbind_Inl_iff dest!: rmap_InlD)

lemma lower_value_unset: "lower_value v = Inl i \<Longrightarrow> unset_in i v"
proof (induction v rule: measure_induct_rule [of size])
  case (less v)
  from lower_value_child [OF less.prems] show ?case
  proof (elim disjE bexE)
    fix c
    assume c: "c \<in> set (iter_value_children v)" "lower_value c = Inl i"
    then show ?thesis using less.IH [OF value_child_size [OF c(1)] c(2)] by (simp add: unset_child [OF c(1)])
  qed (subst unset_tree, blast)
qed

lemma validated_value_set:
  "validate_value E sid a ex syms v = [] \<Longrightarrow> ve_require_configured E \<Longrightarrow> \<not> unset_in i v"
proof (induction E sid a ex syms v rule: validate_value.induct)
  case (1 E sid a ex syms v)
  have own: "v \<noteq> UnsetValue i t" for t
    using 1(2,3) by (auto simp: validate_value.simps [of E sid a ex syms v])
  have child: "\<not> unset_in i c" if kid: "c \<in> set (iter_value_children v)" for c
  proof -
    obtain a' e y where c: "(a', e, y, c) \<in> set (child_contexts syms v)"
      by (rule child_contexts_cover [OF kid])
    then have "validate_value E sid a' e y c = []"
      using 1(2) by (auto simp: validate_value.simps [of E sid a ex syms v])
    then show ?thesis using 1(1) [OF c refl refl refl] 1(3) by blast
  qed
  show ?case using own child by (subst unset_tree) blast
qed

lemma validated_lowers:
  assumes "validate_value E sid a ex syms v = []" "ve_require_configured E"
  shows "\<exists>w. lowered v = Inr w"
  using validated_value_set [OF assms] lower_value_unset [of v]
  by (auto simp: lowered_def split: sum.split)

section \<open>Statements\<close>

text \<open>Every root of a statement has been validated, each in the table of its own scope.\<close>

lemma validated_roots:
  assumes "clean (segments_of E R depth syms s)" "v \<in> set (statement_value_roots s)"
  shows "\<exists>ex y. validate_root E (statement_id s) ex y v = []"
proof (cases s)
  case (CallStatement sid f args rb review l)
  with assms obtain p where "(p, v) \<in> set args" by auto
  moreover have "clean (fst (call_plan E syms sid f args rb review))" using assms(1) CallStatement by simp
  ultimately have "validate_root E sid (map_option pc_value_type (argument_parameter (get_contract E f) p)) syms v = []"
    by (auto simp: call_plan_def Let_def case_prod_unfold split: option.splits dest!: bspec)
  then show ?thesis using CallStatement by auto
next
  case (AssignmentStatement sid t w l)
  with assms obtain ex where "validate_root E sid ex syms v = []" using assignment_plan_values [of E syms sid t w] by auto
  then show ?thesis using AssignmentStatement by auto
next
  case (IfStatement sid c th branches oth l)
  with assms show ?thesis by (auto simp: if_plan_def clean_map)
next
  case (ReturnStatement sid w l)
  with assms show ?thesis by (cases w) (auto simp: return_plan_def split: if_splits)
next
  case (ListenStatement sid src rb c h args l)
  show ?thesis
  proof (cases "\<exists>p. (p, v) \<in> set args")
    case True
    then obtain p where "(p, v) \<in> set args" by blast
    then have "validate_root E sid (map_option pc_value_type (argument_parameter (get_contract E h) p))
      (syms(lb_symbol_id rb \<mapsto> lb_value_type rb)) v = []"
      using assms(1) ListenStatement by (auto simp: listen_plan_def Let_def case_prod_unfold dest!: bspec)
    then show ?thesis using ListenStatement by auto
  next
    case False
    then show ?thesis using assms ListenStatement
      by (auto simp: listen_plan_def Let_def case_prod_unfold split: option.splits)
  qed
qed (use assms in \<open>auto simp: loop_plan_def fail_plan_def try_plan_def scope_plan_def
      retry_diagnostics_def clean_map Let_def case_prod_unfold split: option.splits dest!: bspec\<close>)

lemma call_contract:
  assumes "clean (segments_of E R depth syms (CallStatement sid f args rb review l))" "ve_registry E \<noteq> None"
  shows "get_contract E f \<noteq> None"
  using assms by (auto simp: call_plan_def Let_def case_prod_unfold split: option.splits)

definition lowers :: "statement \<Rightarrow> bool" where
  "lowers s \<longleftrightarrow> (\<forall>v \<in> set (statement_value_roots s). \<exists>w. lowered v = Inr w)"

lemma lowered_option_total: "(\<And>v. x = Some v \<Longrightarrow> \<exists>w. lowered v = Inr w) \<Longrightarrow> \<exists>w. lowered_option x = Inr w"
  by (cases x) (auto simp: lowered_option_def rbind_Inr_iff)

lemma lowered_pairs_total: "(\<And>k v. (k, v) \<in> set xs \<Longrightarrow> \<exists>w. lowered v = Inr w) \<Longrightarrow> \<exists>ys. lowered_pairs xs = Inr ys"
  unfolding lowered_pairs_def by (rule rmap_total) (auto simp: rbind_Inr_iff)

text \<open>A statement compiles when its values lower, its contract is known and its blocks compile.\<close>

lemma compiles:
  assumes "lowers s"
    and "\<And>sid f args rb review l. s = CallStatement sid f args rb review l \<Longrightarrow> get_contract (ce_validation C) f \<noteq> None"
    and "\<And>b. b \<in> set (statement_child_blocks s) \<Longrightarrow> \<exists>ins. rmap (compile_statement C) b = Inr ins"
  shows "\<exists>i. compile_statement C s = Inr i"
proof (cases s)
  case (CallStatement sid f args rb review l)
  then obtain c where c: "get_contract (ce_validation C) f = Some c" using assms(2) by blast
  have "\<exists>w. lowered v = Inr w" if "(k, v) \<in> set (given_arguments c args)" for k v
  proof -
    from that have "(k, v) \<in> set args" by (auto simp: given_arguments_def split: option.splits dest: map_of_SomeD [OF sym])
    then show ?thesis using assms(1) CallStatement by (force simp: lowers_def)
  qed
  then have "\<exists>ys. lowered_pairs (given_arguments c args) = Inr ys" by (rule lowered_pairs_total)
  then show ?thesis using c unfolding CallStatement
    by (auto simp: compile_simps compile_call_def rbind_Inr_iff)
next
  case (IfStatement sid c th branches oth l)
  have "\<exists>bs. rmap (\<lambda>b. rbind (lowered (branch_condition b)) (\<lambda>bc.
      rbind (rmap (compile_statement C) (branch_statements b)) (\<lambda>body. Inr (IfBranch bc body)))) branches = Inr bs"
    using assms(1,3) IfStatement by (intro rmap_total) (auto simp: lowers_def rbind_Inr_iff)
  moreover obtain th' oth' where "rmap (compile_statement C) th = Inr th'" "rmap (compile_statement C) oth = Inr oth'"
    using assms(3) [of th] assms(3) [of oth] IfStatement by auto
  ultimately show ?thesis using assms(1) unfolding IfStatement
    by (auto simp: compile_simps lowers_def rbind_Inr_iff)
next
  case (TryStatement sid body policy catches fin l)
  have cs: "\<exists>cs. rmap (\<lambda>c. rbind (rmap (compile_statement C) (catch_statements c)) (\<lambda>b.
      Inr (Catcher (catch_error_ids c) (map_option lb_symbol_id (catch_error_binding c)) b))) catches = Inr cs"
    using assms(3) TryStatement by (intro rmap_total) (auto simp: rbind_Inr_iff)
  have "\<exists>r. compile_retry policy = Inr r"
    using assms(1) TryStatement by (cases policy) (auto simp: compile_retry_def lowers_def rbind_Inr_iff)
  moreover obtain body' fin' where "rmap (compile_statement C) body = Inr body'" "rmap (compile_statement C) fin = Inr fin'"
    using assms(3) [of body] assms(3) [of fin] TryStatement by auto
  ultimately show ?thesis using cs unfolding TryStatement
    by (auto simp: compile_simps rbind_Inr_iff)
next
  case (ListenStatement sid src rb c h args l)
  have "\<exists>ys. lowered_pairs (sort_key fst args) = Inr ys"
    using assms(1) ListenStatement by (intro lowered_pairs_total) (force simp: lowers_def)
  moreover have "\<exists>w. lowered_option (es_sender src) = Inr w" "\<exists>w. lowered_option c = Inr w"
    using assms(1) ListenStatement by (auto intro!: lowered_option_total simp: lowers_def)
  ultimately show ?thesis using assms(1) unfolding ListenStatement
    by (auto simp: compile_simps compile_listen_def lowers_def rbind_Inr_iff)
next
  case (FailStatement sid e m d l)
  have "\<exists>w. lowered_option d = Inr w"
    using assms(1) FailStatement by (auto intro!: lowered_option_total simp: lowers_def)
  then show ?thesis using assms(1) unfolding FailStatement
    by (auto simp: compile_simps lowers_def rbind_Inr_iff)
next
  case (ReturnStatement sid v l)
  have "\<exists>w. lowered_option v = Inr w"
    using assms(1) ReturnStatement by (auto intro!: lowered_option_total simp: lowers_def)
  then show ?thesis unfolding ReturnStatement by (auto simp: compile_simps rbind_Inr_iff)
qed (use assms(1,3) in \<open>auto simp: compile_simps lowers_def rbind_Inr_iff\<close>)

lemma block_compiles:
  assumes "ve_registry (ce_validation C) \<noteq> None"
  shows "block_diagnostics ((ce_validation C)\<lparr>ve_require_configured := True\<rparr>) R depth syms b = [] \<Longrightarrow> \<exists>ins. rmap (compile_statement C) b = Inr ins"
proof (induction b arbitrary: depth syms rule: forest_induct)
  case (Cons s rest)
  note plan = block_diagnostics_clean [OF Cons.prems]
  have "\<exists>i. compile_statement C s = Inr i"
  proof (rule compiles)
    show "lowers s" using validated_roots [OF plan(1)] validated_lowers unfolding lowers_def by fastforce
    show "get_contract (ce_validation C) f \<noteq> None" if "s = CallStatement sid f args rb review l" for sid f args rb review l
      using call_contract [OF plan(1) [unfolded that]] assms by (simp add: get_contract_def)
    show "\<exists>ins. rmap (compile_statement C) b = Inr ins" if "b \<in> set (statement_child_blocks s)" for b
    proof -
      from that obtain B where "(B, b) \<in> set (block_scopes s)" by (auto simp flip: block_scopes_blocks)
      then obtain ds d y where "(ds, d, y, b) \<in> set (segments_of ((ce_validation C)\<lparr>ve_require_configured := True\<rparr>) R depth syms s)"
        using statement_plan_scopes [OF plan(1)] by blast
      from Cons.IH(1) [OF that plan(2) [OF this]] show ?thesis .
    qed
  qed
  moreover have "\<exists>ins. rmap (compile_statement C) rest = Inr ins" using Cons.IH(2) [OF plan(3)] .
  ultimately show ?case by auto
qed simp

section \<open>Documents\<close>

lemma parameters_compile:
  assumes "ve_require_configured E" "concat (map (default_diagnostics E syms) ps) = []"
  shows "\<exists>qs. rmap compile_parameter ps = Inr qs"
proof (rule rmap_total)
  fix p
  assume p: "p \<in> set ps"
  have "\<exists>w. lowered v = Inr w" if "pp_default_value p = Some v" for v
    using assms p that validated_lowers by (fastforce simp: default_diagnostics_def)
  then show "\<exists>q. compile_parameter p = Inr q"
    using lowered_option_total [of "pp_default_value p"] by (auto simp: compile_parameter_def rbind_Inr_iff)
qed

lemma document_compiles:
  assumes E: "ve_registry (ce_validation C) \<noteq> None" "lowered_pairs (ce_defaults C) = Inr vs"
    and d: "document_diagnostics C d = []" "first_some (map odd_target (iter_statement_tree (doc_statements d))) = None"
  shows "\<exists>fd. compile_document C d = Inr (Inr fd)"
proof -
  have v: "validate_program_document ((ce_validation C)\<lparr>ve_require_configured := True\<rparr>) d = []" using d(1) by (simp add: document_diagnostics_def Let_def)
  obtain ins where ins: "compile_block C (doc_statements d) = Inr ins"
    using block_compiles [OF E(1) document_block_clean [OF v]] by (auto simp: compile_block_def)
  obtain ps where ps: "rmap compile_parameter (fn_parameters (doc_function d)) = Inr ps"
    using parameters_compile [of "(ce_validation C)\<lparr>ve_require_configured := True\<rparr>" "initial_symbols d"] v
    by (auto simp: validate_program_document_def)
  show ?thesis using d ins ps E(2) by (simp add: compile_document_def Let_def)
qed

end
