(* ===== verification/Error_Sources.thy ===== *)
theory Error_Sources
  imports Runtime_Session
begin

text \<open>
  Where an error can come from. Two identifiers of the runtime are followed: the unset variable
  and the call depth. No operation on values makes up either of them; an unset variable comes
  only from a reference to a name that is not there, and the depth error from no value at all.
\<close>

definition never :: "string \<Rightarrow> 'a py \<Rightarrow> bool" where
  "never b r \<longleftrightarrow> (\<forall>e. r = Inl e \<longrightarrow> rt_error_id e \<noteq> b)"

text \<open>What the host computes with values keeps the law: it passes on the errors of its inputs at most.\<close>

definition honest_env :: "string \<Rightarrow> eval_env \<Rightarrow> bool" where
  "honest_env b E \<longleftrightarrow> (\<forall>s v. never b (ev_percent E s v)) \<and>
     (\<forall>op t inp. (\<forall>n. never b (inp n)) \<longrightarrow> never b (ev_operation E op t inp))"

named_theorems never_intros \<open>results that are never a followed error\<close>

lemma never_Inr [never_intros, simp]: "never b (Inr x)"
  by (simp add: never_def)

lemma never_rbind [never_intros]: "never b m \<Longrightarrow> (\<And>x. never b (f x)) \<Longrightarrow> never b (rbind m f)"
  by (cases m) (auto simp: never_def)

lemma never_bind: "never b m \<Longrightarrow> (\<And>x. m = Inr x \<Longrightarrow> never b (f x)) \<Longrightarrow> never b (rbind m f)"
  by (cases m) (auto simp: never_def)

lemma never_if [never_intros]: "never b x \<Longrightarrow> never b y \<Longrightarrow> never b (if c then x else y)"
  by simp

lemma never_rmap: "(\<And>x. x \<in> set xs \<Longrightarrow> never b (f x)) \<Longrightarrow> never b (rmap f xs)"
  by (induction xs) (auto intro!: never_rbind)

lemma never_option [never_intros]: "never b n \<Longrightarrow> (\<And>x. never b (f x)) \<Longrightarrow> never b (case v of None \<Rightarrow> n | Some x \<Rightarrow> f x)"
  by (cases v) simp_all

lemma never_prod [never_intros]: "(\<And>x y. never b (f x y)) \<Longrightarrow> never b (case p of (x, y) \<Rightarrow> f x y)"
  by (cases p) simp

lemma never_let [never_intros]: "never b (f x) \<Longrightarrow> never b (Let x f)"
  by simp

lemma never_pyval [never_intros]:
  "never b n \<Longrightarrow> (\<And>x. never b (fb x)) \<Longrightarrow> (\<And>x. never b (fi x)) \<Longrightarrow> (\<And>x. never b (ff x)) \<Longrightarrow> (\<And>x. never b (fs x)) \<Longrightarrow>
   (\<And>x. never b (fl x)) \<Longrightarrow> (\<And>x. never b (fd x)) \<Longrightarrow>
   never b (case v of PNone \<Rightarrow> n | PBool x \<Rightarrow> fb x | PInt x \<Rightarrow> fi x | PFloat x \<Rightarrow> ff x | PStr x \<Rightarrow> fs x
     | PList x \<Rightarrow> fl x | PDict x \<Rightarrow> fd x)"
  by (cases v) simp_all

lemma never_list_case [never_intros]:
  "never b n \<Longrightarrow> (\<And>x xs. never b (f x xs)) \<Longrightarrow> never b (case v of [] \<Rightarrow> n | x # xs \<Rightarrow> f x xs)"
  by (cases v) simp_all

text \<open>A scope in which every name the value reads is there; for another error nothing is asked.\<close>

definition project_reads :: "value_node \<Rightarrow> string set" where
  "project_reads v = {k. \<exists>i t. ProjectVariableReferenceValue i k t \<in> set (iter_value_tree v)}"

definition readable :: "string \<Rightarrow> slots \<Rightarrow> slots \<Rightarrow> value_node \<Rightarrow> bool" where
  "readable b locals vars v \<longleftrightarrow>
     (b = ''runtime.variable_unset'' \<longrightarrow> value_reads v \<subseteq> dom locals \<and> project_reads v \<subseteq> dom vars)"

lemma project_reads_child: "c \<in> set (iter_value_children v) \<Longrightarrow> project_reads c \<subseteq> project_reads v"
  unfolding project_reads_def by (subst (2) set_iter_value_tree) blast

lemma value_reads_child:
  "c \<in> set (iter_value_children v) \<Longrightarrow> value_reads c \<subseteq> value_reads v \<union> selector_bound v"
  unfolding value_reads_def by (subst (2) typed_reads.simps) force

lemma readable_child:
  "readable b locals vars v \<Longrightarrow> c \<in> set (iter_value_children v) \<Longrightarrow> selector_bound v = {} \<Longrightarrow> readable b locals vars c"
  using value_reads_child [of c v] project_reads_child [of c v] by (auto simp: readable_def)

lemma node_bindings_dom:
  "node_bindings given bs sc = Inr sc' \<Longrightarrow>
     dom (sc_locals sc') = dom (sc_locals sc) \<union> set (map sb_symbol_id bs) \<and> sc_project sc' = sc_project sc"
  by (induction bs arbitrary: sc) (auto simp: fail_with_def split: option.splits if_splits)

lemma readable_selector:
  assumes "readable b (sc_locals sc) (sc_project sc) (SelectorValue i bs t e)" "node_bindings given bs sc = Inr sc'"
  shows "readable b (sc_locals sc') (sc_project sc') e"
  using assms(1) node_bindings_dom [OF assms(2)] value_reads_child [of e "SelectorValue i bs t e"]
    project_reads_child [of e "SelectorValue i bs t e"]
  by (auto simp: readable_def)

text \<open>The two identifiers that are followed; every other error of the value operations has another one.\<close>

locale followed_error =
  fixes b :: string
  assumes followed: "b = ''runtime.variable_unset'' \<or> b = ''runtime.call_depth_exceeded''"
begin

lemma never_raise [never_intros, simp]: "never b (py_raise c)"
  using followed by (auto simp: never_def py_raise_def)

lemma never_fail_iff: "never b (fail_with i) \<longleftrightarrow> i \<noteq> b"
  by (simp add: never_def fail_with_def)

lemma never_fails [never_intros]:
  "never b (fail_with ''runtime.cancelled'')" "never b (fail_with ''runtime.collection_sort_key'')"
  "never b (fail_with ''runtime.divide_by_zero'')" "never b (fail_with ''runtime.operation_invalid'')"
  "never b (fail_with ''runtime.argument_type'')" "never b (fail_with ''runtime.collection_index'')"
  "never b (fail_with ''runtime.map_key_invalid'')" "never b (fail_with ''runtime.collection_budget'')"
  "never b (fail_with ''runtime.map_duplicate_key'')" "never b (fail_with ''runtime.operation_input'')"
  "never b (fail_with ''runtime.optional_empty'')" "never b (fail_with ''runtime.member_missing'')"
  "never b (fail_with ''time.value_invalid'')" "never b (fail_with ''time.timezone_mismatch'')"
  "never b (fail_with ''runtime.operation_unsupported'')" "never b (fail_with ''runtime.selector_scope'')"
  "never b (fail_with ''runtime.failure'')" "never b (fail_with ''target.host_unsupported'')"
  using followed by (auto simp: never_fail_iff)

section \<open>Values\<close>

lemma never_py_less: "never b (py_less v w)" "never b (py_less_list vs ws)"
  by (induction v w and vs ws rule: py_less_py_less_list.induct)
    (auto split: pyval.splits option.splits)

lemma never_basic [never_intros]:
  "never b (py_compare op v w)" "never b (numeric E f g v w)" "never b (py_negative v)" "never b (py_positive v)"
  "never b (py_item xs k)" "never b (py_int v)" "never b (py_list v)" "never b (py_dict v)"
  "never b (child_items fs n)" "never b (child_dict fs n)" "never b (py_divide E v w)" "never b (py_floor_divide E v w)"
  unfolding py_compare_def numeric_def py_negative_def py_positive_def py_item_def py_int_def py_list_def
    py_dict_def child_items_def child_dict_def py_divide_def py_floor_divide_def nonzero_def Let_def
  by (intro never_intros never_py_less)+

lemma never_arithmetic [never_intros]:
  "never b (py_add E v w)" "never b (py_sub E v w)" "honest_env b E \<Longrightarrow> never b (py_mul E v w)"
  "honest_env b E \<Longrightarrow> never b (py_modulo E v w)" "never b (py_min v w)" "never b (py_max v w)"
  "never b (py_subscript v w)" "never b (list_index n allow raw)" "never b (append_group k x groups)"
  "never b (cancellation_checkpoint c i)" "never b (hashed k (Inr x))" "never b (map_merge fs gs policy)"
  unfolding py_add_def py_sub_def py_mul_def py_modulo_def py_min_def py_max_def py_subscript_def nonzero_def
    list_index_def append_group_def cancellation_checkpoint_def hashed_def map_merge_def
  by ((intro never_intros never_py_less)?; simp add: honest_env_def)+

section \<open>Operations\<close>

lemma never_select_fold [never_intros]:
  "(\<And>i x acc. never b (f i x acc)) \<Longrightarrow> never b (select_fold c i f acc xs)"
  by (induction xs arbitrary: i acc) (simp_all, intro never_intros)

lemma never_select_until [never_intros]: "(\<And>i x. never b (f i x)) \<Longrightarrow> never b (select_until c i f xs)"
  by (induction xs arbitrary: i) (simp_all, intro never_intros)

lemma never_fold: "(\<And>x y. never b (f x y)) \<Longrightarrow> never b acc \<Longrightarrow> never b (fold (\<lambda>x acc. rbind acc (f x)) xs acc)"
  by (induction xs arbitrary: acc) (auto intro: never_rbind)

lemma never_folds [never_intros]:
  "never b (py_sum E xs)" "(\<And>x y. never b (f x y)) \<Longrightarrow> never b (py_extreme f xs)"
  unfolding py_sum_def by (intro never_fold never_intros) (cases xs; simp add: never_fold)

lemma never_insert_row: "never b (insert_row r rows)"
  by (induction rows) (simp_all, intro never_intros never_py_less)

lemma never_sort_by [never_intros]: "never b (sort_by d rows)"
proof -
  have "never b (sort_rows rows)" for rows :: "(pyval \<times> 'a) list"
    by (induction rows) (auto intro: never_rbind never_insert_row)
  then show ?thesis unfolding sort_by_def by (intro never_intros)
qed

lemma never_operation: "honest_env b E \<Longrightarrow> (\<And>n. never b (inp n)) \<Longrightarrow> never b (ev_operation E op rt inp)"
  by (simp add: honest_env_def)

lemma never_with [never_intros]:
  "(\<And>n. never b (inp n)) \<Longrightarrow> (\<And>v. never b (f v)) \<Longrightarrow> never b (with_input inp n f)"
  "(\<And>n. never b (inp n)) \<Longrightarrow> (\<And>v w. never b (g v w)) \<Longrightarrow> never b (with_inputs inp m n g)"
  "(\<And>n. never b (inp n)) \<Longrightarrow> (\<And>s. never b (h s)) \<Longrightarrow> never b (text_input E inp n h)"
  unfolding with_input_def with_inputs_def text_input_def by (intro never_intros; simp)+

lemma never_number:
  assumes E: "honest_env b E" and inp: "\<And>n. never b (inp n)"
  shows "never b (number_operation E op rt inp)"
  unfolding number_operation_def by (intro never_intros never_py_less never_operation E inp)

lemma never_text:
  assumes E: "honest_env b E" and inp: "\<And>n. never b (inp n)"
  shows "never b (text_operation E op rt inp)"
  unfolding text_operation_def by (intro never_intros never_operation E inp)

lemma never_list_plain:
  assumes E: "honest_env b E" and inp: "\<And>n. never b (inp n)"
  shows "never b (list_plain E op rt inp items)"
  unfolding list_plain_def by (intro never_intros never_operation E inp)

lemma never_list:
  assumes E: "honest_env b E" and inp: "\<And>n. never b (inp n)" and sel: "\<And>n given. never b (sel n given)"
  shows "never b (list_operation E c op rt inp sel items)"
  unfolding list_operation_def list_flatten_def list_zip_def
  by (intro never_intros never_list_plain E inp sel)

lemma never_map:
  assumes E: "honest_env b E" and inp: "\<And>n. never b (inp n)" and sel: "\<And>n given. never b (sel n given)"
  shows "never b (map_operation E c op rt inp sel source)"
  unfolding map_operation_def by (intro never_intros never_operation E inp sel)

lemma never_pure_operation:
  assumes E: "honest_env b E" and inp: "\<And>n. never b (inp n)" and sel: "\<And>n given. never b (sel n given)"
  shows "never b (pure_operation E c op rt inp sel)"
  unfolding pure_operation_def json_operation_def
  by (intro never_intros never_number never_text never_list never_map never_operation E inp sel)

lemma never_member [never_intros]: "never b (member_of E v f)" "never b (legacy_member E v w)"
  unfolding member_of_def legacy_member_def by (intro never_intros)+

lemma never_compare [never_intros]: "never b (compare_values E op t v w)"
  unfolding compare_values_def instant_def by (intro never_intros)

lemma never_legacy [never_intros]: "never b (legacy_unary v w)" "honest_env b E \<Longrightarrow> never b (legacy_binary E v w u)"
  unfolding legacy_unary_def legacy_binary_def by (intro never_intros; assumption?)+

lemma never_bind_selector [never_intros]: "never b (bind_selector E given bs sc)"
  by (induction bs arbitrary: sc) (simp_all, intro never_intros)

lemma never_node_bindings [never_intros]: "never b (node_bindings given bs sc)"
  by (induction bs arbitrary: sc) (simp_all, intro never_intros)

lemma never_eval_all: "(\<And>x. x \<in> set xs \<Longrightarrow> never b (f x)) \<Longrightarrow> never b (eval_all f xs)"
  by (induction xs) (auto intro!: never_rbind)

lemma never_eval_any: "(\<And>x. x \<in> set xs \<Longrightarrow> never b (f x)) \<Longrightarrow> never b (eval_any f xs)"
  by (induction xs) (auto intro!: never_rbind)

lemma never_node_entries:
  "(\<And>k v. (k, v) \<in> set es \<Longrightarrow> never b (f k) \<and> never b (f v)) \<Longrightarrow> never b (node_entries f acc es)"
proof (induction es arbitrary: acc)
  case (Cons e es)
  obtain k v where e: "e = (k, v)" by (cases e)
  have "never b (node_entries f acc es)" for acc by (rule Cons.IH) (meson Cons.prems list.set_intros(2))
  moreover have "never b (f k)" "never b (f v)" using Cons.prems [of k v] e by simp_all
  ultimately show ?case using e by (auto intro!: never_rbind simp: never_fails)
qed simp

lemma never_eval_fields: "(\<And>k v. (k, v) \<in> set fs \<Longrightarrow> never b (f v)) \<Longrightarrow> never b (eval_fields f fs)"
  unfolding eval_fields_def by (rule never_rmap) (auto intro!: never_rbind)

lemma never_eval_entries:
  "(\<And>en k. PDict en \<in> set es \<Longrightarrow> never b (f (child en k))) \<Longrightarrow> never b (eval_entries f acc es)"
proof (induction es arbitrary: acc)
  case (Cons e es)
  have "never b (eval_entries f acc es)" for acc by (rule Cons.IH) (simp add: Cons.prems)
  then show ?case using Cons.prems by (cases e) (auto intro!: never_rbind simp: never_fails)
qed simp

section \<open>Any value, when the error is not that of a reference\<close>

lemma never_eval_value:
  assumes E: "honest_env b E" and b: "b \<noteq> ''runtime.variable_unset''"
  shows "never b (eval_value E sc v)"
proof (induction v arbitrary: sc rule: measure_induct_rule [of size])
  case (less v)
  show ?case
  proof (cases v)
    case (PList xs)
    have "never b (eval_value E sc x)" if "x \<in> set xs" for x
      using less.IH [of x sc] PList eval_sizes(1) [OF that] by simp
    then show ?thesis using PList by (auto intro!: never_rbind never_rmap)
  next
    case (PDict fs)
    have kid: "never b (eval_value E sc (child fs k))" for k
      using less.IH [of "child fs k" sc] PDict child_smaller by simp
    have items: "never b (rbind (child_items fs n) f)"
      if "\<And>xs. (\<And>x. x \<in> set xs \<Longrightarrow> never b (eval_value E sc x)) \<Longrightarrow> never b (f xs)" for n and f :: "pyval list \<Rightarrow> pyval py"
      using less.IH PDict eval_sizes(3) that by (intro never_bind [OF never_basic(9)]) simp
    have first: "never b (rbind (child_items fs n) (\<lambda>ps. case ps of
        [] \<Rightarrow> fail_with ''runtime.failure'' | p # _ \<Rightarrow> rbind (eval_value E sc p) (\<lambda>w. Inr (g w))))" for n and g :: "pyval \<Rightarrow> pyval"
      by (rule items) (auto intro: never_intros split: list.split)
    have entries: "never b (rbind (child_items fs n) (\<lambda>es. rbind (eval_entries (eval_value E sc) [] es) f))"
      if "\<And>x. never b (f x)" for n and f :: "pydict \<Rightarrow> pyval py"
    proof (rule never_bind [OF never_basic(9)])
      fix es
      assume es: "child_items fs n = Inr es"
      have "never b (eval_value E sc (child en k))" if "PDict en \<in> set es" for en k
        using less.IH [of "child en k" sc] PDict child_size eval_sizes(4) [OF es that] by simp
      then show "never b (rbind (eval_entries (eval_value E sc) [] es) f)"
        using that by (intro never_rbind never_eval_entries)
    qed
    have fields: "never b (rbind (eval_fields (eval_value E sc) gs) f)"
      if gs: "set gs \<subseteq> set fs" and f: "\<And>x. never b (f x)" for gs and f :: "pydict \<Rightarrow> pyval py"
    proof (intro never_rbind never_eval_fields f)
      fix k w
      assume "(k, w) \<in> set gs"
      then have "size w < size v" using gs PDict eval_sizes(2) [of k w fs] by auto
      then show "never b (eval_value E sc w)" by (rule less.IH)
    qed
    have dict: "never b (rbind (child_dict fs n) (\<lambda>gs. rbind (eval_fields (eval_value E sc) gs) f))"
      if f: "\<And>x. never b (f x)" for n and f :: "pydict \<Rightarrow> pyval py"
    proof (intro never_bind [OF never_basic(10)] never_rbind never_eval_fields f)
      fix gs k w
      assume "child_dict fs n = Inr gs" "(k, w) \<in> set gs"
      then have "size w < size v" using PDict eval_sizes(6) [of fs n gs k w] by simp
      then show "never b (eval_value E sc w)" by (rule less.IH)
    qed
    have look: "never b (lookup_name sc w n)" for w n
      using b by (simp add: lookup_name_def never_fail_iff split: option.split)
    have inp: "never b (case matching_input fs n of None \<Rightarrow> fail_with ''runtime.operation_input'' | Some v \<Rightarrow> eval_value E sc v)" for n
      using less.IH PDict eval_sizes(7) by (auto simp: never_fails split: option.split)
    have sel: "never b (case matching_input fs n of
          None \<Rightarrow> fail_with ''runtime.operation_input''
        | Some (PDict s) \<Rightarrow> if child s ''kind'' \<noteq> PStr ''selector'' then fail_with ''runtime.operation_invalid''
            else rbind (child_items s ''bindings'') (\<lambda>bs. rbind (bind_selector E given bs sc)
              (\<lambda>sc'. eval_value E sc' (child s ''expression'')))
        | Some v \<Rightarrow> fail_with ''runtime.operation_invalid'')" for n given
    proof (cases "matching_input fs n")
      case (Some w)
      show ?thesis
      proof (cases w)
        fix s
        assume s: "w = PDict s"
        have "never b (eval_value E sc' (child s ''expression''))" for sc'
          using less.IH [of "child s ''expression''" sc'] PDict eval_sizes(8) [of fs n s] Some s by simp
        then show ?thesis using Some s by (auto intro!: never_intros)
      qed (use Some in \<open>auto intro: never_intros\<close>)
    qed (auto intro: never_intros)
    show ?thesis
      unfolding PDict eval_value.simps(2) Let_def
      by (rule kid entries first items dict fields look never_pure_operation [OF E inp sel] E
          | rule never_rmap never_eval_all never_eval_any, assumption
          | rule never_intros
          | simp add: dict_delete_def)+
  qed simp_all
qed

section \<open>Typed values, by what they read\<close>

lemma never_eval_node:
  assumes E: "honest_env b E"
  shows "readable b (sc_locals sc) (sc_project sc) v \<Longrightarrow> never b (eval_node E sc v)"
proof (induction v arbitrary: sc rule: measure_induct_rule [of size])
  case (less v)
  have kid: "never b (eval_node E sc c)" if "c \<in> set (iter_value_children v)" "selector_bound v = {}" for c
    using less.IH [OF value_child_size [OF that(1)]] readable_child [OF less.prems that] .
  show ?case
  proof (cases v)
    case (SymbolReferenceValue i s t)
    have "s \<in> value_reads v" unfolding SymbolReferenceValue value_reads_def by (subst typed_reads.simps) force
    then show ?thesis using less.prems followed SymbolReferenceValue
      by (auto simp: readable_def never_fail_iff split: option.split)
  next
    case (ProjectVariableReferenceValue i s t)
    have "s \<in> project_reads v" using ProjectVariableReferenceValue by (auto simp: project_reads_def)
    then show ?thesis using less.prems followed ProjectVariableReferenceValue
      by (auto simp: readable_def never_fail_iff split: option.split)
  next
    case (PureOperationValue i op t inputs)
    have inp: "never b (case node_input inputs n of None \<Rightarrow> fail_with ''runtime.operation_input'' | Some v \<Rightarrow> eval_node E sc v)" for n
      using kid PureOperationValue by (force simp: never_fails dest: node_input_member split: option.split)
    have sel: "never b (case node_input inputs n of
          None \<Rightarrow> fail_with ''runtime.operation_input''
        | Some (SelectorValue i bs t e) \<Rightarrow> rbind (node_bindings given bs sc) (\<lambda>sc'. eval_node E sc' e)
        | Some v \<Rightarrow> fail_with ''runtime.operation_invalid'')" for n given
    proof (cases "node_input inputs n")
      case (Some w)
      show ?thesis
      proof (cases w)
        case (SelectorValue j bs u e)
        have w: "w \<in> set (iter_value_children v)"
          using node_input_member [OF Some] PureOperationValue by force
        have r: "readable b (sc_locals sc) (sc_project sc) w"
          using readable_child [OF less.prems w] PureOperationValue by simp
        have "size e < size v" using value_child_size [OF w] SelectorValue by simp
        then have "never b (eval_node E sc' e)" if "node_bindings given bs sc = Inr sc'" for sc'
          using less.IH readable_selector [OF r [unfolded SelectorValue] that] by blast
        then show ?thesis using Some SelectorValue by (auto intro!: never_bind never_node_bindings)
      qed (use Some in \<open>auto intro: never_intros\<close>)
    qed (auto intro: never_intros)
    show ?thesis unfolding PureOperationValue eval_node.simps by (rule never_pure_operation [OF E inp sel])
  next
    case (MapValue i kt vt entries)
    have "never b (eval_node E sc k) \<and> never b (eval_node E sc w)" if "(k, w) \<in> set entries" for k w
      using kid [of k] kid [of w] that MapValue by force
    then show ?thesis using MapValue by (auto intro!: never_rbind never_node_entries)
  next
    case (RecordValue i t flds)
    have "never b (eval_node E sc w)" if "(k, w) \<in> set flds" for k w
      using kid [of w] that RecordValue by force
    then show ?thesis using RecordValue by (auto intro!: never_rbind never_rmap)
  next
    case (ConditionGroupValue i op cs)
    then show ?thesis using kid by (cases op) (auto intro!: never_rbind never_eval_all never_eval_any)
  qed (use kid in \<open>auto intro!: never_intros never_rmap\<close>)
qed

text \<open>The same for the dictionaries the compiler makes of a value.\<close>

lemma never_lowered:
  "honest_env b E \<Longrightarrow> lower_value v = Inr w \<Longrightarrow> readable b (sc_locals sc) (sc_project sc) v \<Longrightarrow>
     never b (eval_value E sc w)"
  by (simp add: lowered_means never_eval_node)

section \<open>Types and constraints\<close>

lemma never_py_all: "(\<And>x. x \<in> set xs \<Longrightarrow> never b (f x)) \<Longrightarrow> never b (py_all f xs)"
  by (induction xs) (auto intro!: never_rbind)

lemma never_type_tests [never_intros]:
  "never b (calendar_conforms v t)" "never b (file_conforms E v t kind)"
  unfolding calendar_conforms_def file_conforms_def in_texts_def by (intro never_intros)+

lemma never_conforms [never_intros]: "never b (conforms E v t)"
proof (induction t arbitrary: v rule: measure_induct_rule [of length])
  case (less t)
  have opt: "never b (conforms E v u)" if "generic_inner t p = Some u" for p u
    using less.IH generic_inner_Some_length [OF that] by blast
  have entry: "never b (case split_map_type t of None \<Rightarrow> r | Some (kt, vt) \<Rightarrow>
      (case v of PDict fs \<Rightarrow> py_all (\<lambda>(k, w). rbind (conforms E k kt)
         (\<lambda>q. if q then conforms E w vt else Inr False)) fs | _ \<Rightarrow> Inr False))" if "never b r" for r :: "bool py"
  proof (cases "split_map_type t")
    case (Some p)
    obtain kt vt where p: "p = (kt, vt)" by (cases p)
    have "never b (conforms E w kt)" "never b (conforms E w vt)" for w
      using less.IH split_map_type_length [of t kt vt] Some p by auto
    then show ?thesis using Some p by (auto intro!: never_py_all never_rbind split: pyval.split)
  qed (simp add: that)
  have items: "never b (case generic_inner t ''list'' of None \<Rightarrow> r | Some item \<Rightarrow>
      (case v of PList xs \<Rightarrow> py_all (\<lambda>x. conforms E x item) xs | _ \<Rightarrow> Inr False))" if "never b r" for r
    using that less.IH generic_inner_Some_length
    by (auto intro!: never_py_all split: option.split pyval.split)
  have inner: "never b (case generic_inner t ''optional'' of None \<Rightarrow> r | Some u \<Rightarrow> if v = PNone then Inr True else conforms E v u)"
    if "never b r" for r using that opt by (auto split: option.split)
  show ?case
    by (subst conforms.simps) (intro never_if never_Inr inner items entry never_type_tests)
qed

lemma never_constraints:
  assumes E: "honest_env b E" and T: "\<And>v. never b (tx_dumps T v)"
  shows "never b (validate_runtime_constraints E T v cs)"
proof -
  have req: "never b (require c)" for c by (simp add: require_def violation_def)
  have "never b (unique_check T v u)" for v u
    unfolding unique_check_def using T by (intro never_intros req never_rmap)
  moreover have "never b (step_check E v lo st)" for v lo st
    unfolding step_check_def by (intro never_intros req)
  moreover have "never b (validate_constraint_definition T cs)"
    unfolding validate_constraint_definition_def number_constraint_def length_constraint_def
    by (intro never_intros req)
  ultimately show ?thesis
    unfolding validate_runtime_constraints_def number_bound_def length_bound_def by (intro never_intros req)
qed

end

text \<open>The two errors that are followed.\<close>

interpretation unset: followed_error "''runtime.variable_unset''"
  by unfold_locales simp

interpretation deep: followed_error "''runtime.call_depth_exceeded''"
  by unfold_locales simp

end
