(* ===== verification/Runtime_Exec.thy ===== *)
theory Runtime_Exec
  imports Runtime_Session
begin

text \<open>
  The interpreter of \<^verbatim>\<open>core/vnext/runtime.py\<close>: checkpoints with the pause and the dispatch of
  message listeners, the calls of the host, the control instructions, and the calls of project
  functions. A \<open>caller\<close> executes a function one level deeper; \<open>call_at\<close> ties the knot over the
  depths the code allows.
\<close>

type_synonym 'w caller = "string \<Rightarrow> (string \<times> pyval) list \<Rightarrow> 'w session \<Rightarrow> 'w session \<times> flow"

section \<open>Checkpoints\<close>

text \<open>\<^verbatim>\<open>_checkpoint\<close>, the pause: the second component is whether the checkpoint goes on.\<close>

definition pause_point :: "'w machine \<Rightarrow> nat \<Rightarrow> string \<Rightarrow> bool \<Rightarrow> 'w session \<Rightarrow> 'w session \<times> bool" where
  "pause_point X f i allow s =
     (let stop = rs_pause s \<or> (allow \<and> (rs_step s \<or> i \<in> rs_breakpoints s));
          s1 = (if allow then s\<lparr>rs_step := False\<rparr> else s)
      in if \<not> stop then (s1, True)
         else
           let s2 = event ''info'' ''debug'' i
                 (show_variables f (s1\<lparr>rs_pause := False, rs_status := Paused, rs_current := i\<rparr>));
               (w, step) = h_wait (m_host X) (rs_world s2);
               s3 = s2\<lparr>rs_world := w, rs_cancel := rs_cancel s2 \<or> h_cancelled (m_host X) w,
                 rs_step := rs_step s2 \<or> step\<rparr>
           in if rs_cancel s3 then (mark_cancelled s3, False) else (s3\<lparr>rs_status := Running\<rparr>, True))"

text \<open>\<^verbatim>\<open>_dispatch_ready_listeners\<close>: the slots an event runs in, and whether its condition holds.\<close>

definition event_slots :: "listener \<Rightarrow> pydict \<Rightarrow> 'w session \<Rightarrow> slots" where
  "event_slots l m s = (rs_frames s ! ln_frame l)(ln_receive l \<mapsto> PDict m)"

definition listener_ready :: "'w machine \<Rightarrow> listener \<Rightarrow> pydict \<Rightarrow> 'w session \<Rightarrow> bool py" where
  "listener_ready X l m s =
     (case ln_condition l of
        None \<Rightarrow> Inr True
      | Some c \<Rightarrow> rbind (eval_value (m_eval X) (scope_of (event_slots l m s) s) c) (\<lambda>v. Inr (py_truthy v)))"

definition eval_arguments :: "'w machine \<Rightarrow> slots \<Rightarrow> 'w session \<Rightarrow> (string \<times> pyval) list \<Rightarrow> (string \<times> pyval) list py" where
  "eval_arguments X locals s args =
     rmap (\<lambda>(k, v). rbind (eval_value (m_eval X) (scope_of locals s) v) (\<lambda>w. Inr (k, w))) args"

text \<open>A claimed message: its handler runs as a function call, and the session says whose turn it is.\<close>

definition handle_message :: "'w machine \<Rightarrow> 'w caller \<Rightarrow> listener \<Rightarrow> pydict \<Rightarrow> 'w session \<Rightarrow> 'w session \<times> flow" where
  "handle_message X call l m s =
     (let mid = child_text (m_eval X) m ''message_id'';
          s1 = event ''info'' ''message'' (ln_id l)
            (s\<lparr>rs_failed_listener := [], rs_failed_message := [], rs_listener := ln_id l, rs_message := mid\<rparr>);
          s2 = s1\<lparr>rs_dispatching := True\<rparr>
      in case with_value (eval_arguments X (event_slots l m s2) s2 (ln_arguments l)) s2
             (\<lambda>args. call (ln_handler l) args s2) of
           (s3, Returned v) \<Rightarrow>
             (let s4 = poll X s3 in
              if rs_cancel s4 \<or> rs_status s4 = Cancelled
              then ((event ''warning'' ''message'' (ln_id l) s4)\<lparr>rs_dispatching := False\<rparr>, Leave)
              else ((event ''info'' ''message'' (ln_id l) s4)
                \<lparr>rs_dispatching := False, rs_listener := [], rs_message := []\<rparr>, Next))
         | (s3, r) \<Rightarrow>
             ((event ''error'' ''message'' (ln_id l) (s3\<lparr>rs_failed_listener := ln_id l, rs_failed_message := mid\<rparr>))
                \<lparr>rs_dispatching := False, rs_listener := [], rs_message := []\<rparr>, r))"

text \<open>
  The messages of one listener, at most \<open>n\<close> of them. A round claims a message no later than
  the cursor, or finds it claimed by another; the caller passes the cursor as the bound.
\<close>

fun dispatch_one ::
  "'w machine \<Rightarrow> 'w caller \<Rightarrow> listener \<Rightarrow> nat \<Rightarrow> nat \<Rightarrow> 'w session \<Rightarrow> 'w session \<times> flow" where
  "dispatch_one X call l cursor 0 s = (s, Next)"
| "dispatch_one X call l cursor (Suc n) s0 =
     (let s = poll X s0 in
      if rs_cancel s then (mark_cancelled s, Leave)
      else with_value (h_peek (m_host X) (rs_world s) (ln_name l) (ln_sender l) cursor) s (\<lambda>found.
        case found of
          None \<Rightarrow> (s, Next)
        | Some candidate \<Rightarrow>
            with_value (listener_ready X l candidate s) s (\<lambda>ready.
              if \<not> ready then (s, Next)
              else
                with_host (h_claim (m_host X) (rs_world s)
                    (child_text (m_eval X) candidate ''message_id'') (ln_name l) (ln_sender l)) s (\<lambda>got s1.
                  case got of
                    None \<Rightarrow> dispatch_one X call l cursor n s1
                  | Some m \<Rightarrow> and_then (handle_message X call l m s1) (dispatch_one X call l cursor n)))))"

fun dispatch_all :: "'w machine \<Rightarrow> 'w caller \<Rightarrow> nat \<Rightarrow> listener list \<Rightarrow> 'w session \<Rightarrow> 'w session \<times> flow" where
  "dispatch_all X call cursor [] s = (s, Next)"
| "dispatch_all X call cursor (l # ls) s =
     (case dispatch_one X call l cursor cursor s of
        (s1, Next) \<Rightarrow> dispatch_all X call cursor ls s1
      | (s1, Leave) \<Rightarrow> (s1, Next)
      | r \<Rightarrow> r)"

definition dispatch_ready_listeners :: "'w machine \<Rightarrow> 'w caller \<Rightarrow> 'w session \<Rightarrow> 'w session \<times> flow" where
  "dispatch_ready_listeners X call s =
     (if \<not> m_messaging X then (s, Next)
      else dispatch_all X call (h_cursor (m_host X) (rs_world s)) (rs_listeners s) s)"

definition checkpoint :: "'w machine \<Rightarrow> 'w caller \<Rightarrow> nat \<Rightarrow> string \<Rightarrow> bool \<Rightarrow> 'w session \<Rightarrow> 'w session \<times> flow" where
  "checkpoint X call f i allow s0 =
     (case pause_point X f i allow (poll X s0) of
        (s, on) \<Rightarrow>
          if \<not> on \<or> rs_cancel s \<or> rs_listeners s = [] \<or> rs_dispatching s then (s, Next)
          else and_then (dispatch_ready_listeners X call s) (\<lambda>s1.
            (if rs_listener s1 = [] then show_variables f (s1\<lparr>rs_current := i\<rparr>) else s1, Next)))"

text \<open>The checkpoints an operation of the host makes; those of a wait, which looks for a cancel.\<close>

fun checkpoints :: "'w machine \<Rightarrow> 'w caller \<Rightarrow> nat \<Rightarrow> string \<Rightarrow> nat \<Rightarrow> 'w session \<Rightarrow> 'w session \<times> flow" where
  "checkpoints X call f i 0 s = (s, Next)"
| "checkpoints X call f i (Suc n) s =
     and_then (checkpoint X call f i False s) (checkpoints X call f i n)"

fun wait_rounds :: "'w machine \<Rightarrow> 'w caller \<Rightarrow> bool \<Rightarrow> nat \<Rightarrow> string \<Rightarrow> nat \<Rightarrow> 'w session \<Rightarrow> 'w session \<times> flow" where
  "wait_rounds X call say f i 0 s = (s, Next)"
| "wait_rounds X call say f i (Suc n) s =
     and_then (checkpoint X call f i False s) (\<lambda>s1.
       let s2 = poll X s1 in
       if rs_cancel s2
       then (if say then event ''warning'' ''runtime'' i (mark_cancelled s2) else mark_cancelled s2, Leave)
       else wait_rounds X call say f i n s2)"

section \<open>Calls of the host\<close>

text \<open>In this section \<open>Returned\<close> is the result of the instruction.\<close>

definition arg :: "(string \<times> pyval) list \<Rightarrow> string \<Rightarrow> pyval" where
  "arg args k = (case map_of args k of None \<Rightarrow> PNone | Some v \<Rightarrow> v)"

text \<open>\<^verbatim>\<open>str(value or default)\<close>.\<close>

definition text_or :: "'w machine \<Rightarrow> pyval \<Rightarrow> string \<Rightarrow> string" where
  "text_or X v fallback = (if py_truthy v then py_str (m_eval X) v else fallback)"

definition is_space :: "char \<Rightarrow> bool" where
  "is_space c \<longleftrightarrow> (of_char c :: nat) \<in> {9, 10, 11, 12, 13, 28, 29, 30, 31, 32}"

definition strip_text :: "string \<Rightarrow> string" where
  "strip_text t = rev (dropWhile is_space (rev (dropWhile is_space t)))"

definition run_log :: "'w machine \<Rightarrow> nat \<Rightarrow> string \<Rightarrow> (string \<times> pyval) list \<Rightarrow> 'w session \<Rightarrow> 'w session \<times> flow" where
  "run_log X f i args s =
     with_value (value_in X f s (arg args ''official.log.output.parameter.level'')) s (\<lambda>lv.
       let level = text_or X lv ''info'' in
       if level \<notin> {''info'', ''warning'', ''error''} then (s, Raised (RuntimeFailure ''runtime.failure'' False PNone))
       else with_value (value_in X f s (arg args ''official.log.output.parameter.category'')) s (\<lambda>cv.
         let stripped = strip_text (text_or X cv ''script'');
             category = (if stripped = [] then ''script'' else stripped) in
         with_value (value_in X f s (arg args ''official.log.output.parameter.content'')) s (\<lambda>_.
           (event level category i s, Returned PNone))))"

definition failure :: "string \<Rightarrow> flow" where
  "failure i = Raised (RuntimeFailure i False PNone)"

definition run_wait ::
  "'w machine \<Rightarrow> 'w caller \<Rightarrow> nat \<Rightarrow> string \<Rightarrow> (string \<times> pyval) list \<Rightarrow> 'w session \<Rightarrow> 'w session \<times> flow" where
  "run_wait X call f i args s =
     with_value (value_in X f s (arg args ''official.wait.duration.parameter.duration'')) s (\<lambda>ms.
       if \<not> is_number ms \<or> (case py_number ms of None \<Rightarrow> True | Some q \<Rightarrow> q < 0)
       then (s, failure ''runtime.failure'')
       else and_then (wait_rounds X call True f i (h_rounds (m_host X) (rs_world s) ''wait.duration'' [([], ms)]) s)
         (\<lambda>s1. (s1, Returned PNone)))"

definition run_wait_until ::
  "'w machine \<Rightarrow> 'w caller \<Rightarrow> nat \<Rightarrow> string \<Rightarrow> (string \<times> pyval) list \<Rightarrow> 'w session \<Rightarrow> 'w session \<times> flow" where
  "run_wait_until X call f i args s =
     with_value (value_in X f s (arg args ''official.wait.until.parameter.time'')) s (\<lambda>t.
     with_value (value_in X f s (arg args ''official.wait.until.parameter.past_policy'')) s (\<lambda>p.
     with_value (h_until (m_host X) (rs_world s) t (text_or X p ''next_day'')) s (\<lambda>n.
       and_then (wait_rounds X call True f i n (event ''info'' ''script'' i s)) (\<lambda>s1. (s1, Returned PNone)))))"

definition run_random :: "'w machine \<Rightarrow> nat \<Rightarrow> (string \<times> pyval) list \<Rightarrow> 'w session \<Rightarrow> 'w session \<times> flow" where
  "run_random X f args s =
     with_value (value_in X f s (case map_of args ''official.random.integer.parameter.minimum'' of
         None \<Rightarrow> PInt 0 | Some v \<Rightarrow> v)) s (\<lambda>lo.
     with_value (value_in X f s (case map_of args ''official.random.integer.parameter.maximum'' of
         None \<Rightarrow> PInt 100 | Some v \<Rightarrow> v)) s (\<lambda>hi.
       case (lo, hi) of
         (PInt a, PInt b) \<Rightarrow>
           if b < a then (s, failure ''random.range_invalid'')
           else with_host (h_random (m_host X) (rs_world s) a b) s (\<lambda>r s1. (s1, Returned (PInt r)))
       | _ \<Rightarrow> (s, failure ''random.range_invalid'')))"

text \<open>An operation of the host: its arguments, its checkpoints, its result.\<close>

definition finish_host :: "'w \<times> pyval py \<Rightarrow> 'w session \<Rightarrow> 'w session \<times> flow" where
  "finish_host r s = with_host r s (\<lambda>x s1. (s1, Returned x))"

definition run_operation ::
  "'w machine \<Rightarrow> 'w caller \<Rightarrow> bool \<Rightarrow> nat \<Rightarrow> string \<Rightarrow> string \<Rightarrow> string \<Rightarrow> (string \<times> pyval) list \<Rightarrow>
     'w session \<Rightarrow> 'w session \<times> flow" where
  "run_operation X call safe f i op fn args s =
     with_value (eval_arguments X (rs_frames s ! f) s args) s (\<lambda>vs.
       and_then (checkpoints X call f i (if safe then h_rounds (m_host X) (rs_world s) op vs else 0) s)
         (\<lambda>s1. finish_host (h_call (m_host X) (rs_world s1) (current_driver s1) op fn vs) s1))"

definition platform_allowed :: "'w machine \<Rightarrow> string list \<Rightarrow> 'w session \<Rightarrow> bool" where
  "platform_allowed X platforms s =
     (case current_driver s of
        None \<Rightarrow> True
      | Some d \<Rightarrow> h_platform (m_host X) d = [] \<or> platforms = [] \<or> h_platform (m_host X) d \<in> set platforms)"

definition platform_opcodes :: "string set" where
  "platform_opcodes = {''target.wait_online'', ''target.status'', ''host.app.start'', ''host.app.wait_exit'',
     ''host.app.is_running'', ''host.app.stop'', ''clipboard.read_text'', ''clipboard.write_text''}"

definition one_of :: "string list \<Rightarrow> string \<Rightarrow> bool" where
  "one_of prefixes op = list_ex (\<lambda>p. starts_with p op) prefixes"

definition run_target_operation ::
  "'w machine \<Rightarrow> 'w caller \<Rightarrow> nat \<Rightarrow> string \<Rightarrow> string \<Rightarrow> string \<Rightarrow> (string \<times> pyval) list \<Rightarrow> string list \<Rightarrow>
     'w session \<Rightarrow> 'w session \<times> flow" where
  "run_target_operation X call f i op fn args platforms s =
     (case current_driver s of
        None \<Rightarrow> (s, failure (if one_of [''target.'', ''frame.'', ''vision.'', ''input.'', ''text.''] op
            then ''target.missing'' else ''target.capability_unsupported''))
      | Some d \<Rightarrow>
          if \<not> h_supports (m_host X) d op then (s, failure ''target.capability_unsupported'')
          else if \<not> platform_allowed X platforms s then (s, failure ''target.platform_unsupported'')
          else run_operation X call False f i op fn args s)"

definition run_host ::
  "'w machine \<Rightarrow> 'w caller \<Rightarrow> nat \<Rightarrow> string \<Rightarrow> string \<Rightarrow> string \<Rightarrow> (string \<times> pyval) list \<Rightarrow> string list \<Rightarrow>
     'w session \<Rightarrow> 'w session \<times> flow" where
  "run_host X call f i op fn args platforms s =
     (if starts_with ''standard.'' op then
        (if platform_allowed X platforms s then run_operation X call True f i op fn args s
         else (s, failure ''target.platform_unsupported''))
      else if one_of [''file.'', ''directory.''] op then run_operation X call False f i op fn args s
      else if starts_with ''message.'' op then
        (if m_messaging X then run_operation X call True f i op fn args s
         else (s, failure ''message.instance_unknown''))
      else if starts_with ''network.'' op then run_operation X call False f i op fn args s
      else if op \<in> platform_opcodes then run_operation X call True f i op fn args s
      else run_target_operation X call f i op fn args platforms s)"

text \<open>The opcodes of \<^verbatim>\<open>_execute_block\<close> that a call statement can compile to.\<close>

definition exec_call ::
  "'w machine \<Rightarrow> 'w caller \<Rightarrow> nat \<Rightarrow> string \<Rightarrow> string \<Rightarrow> string \<Rightarrow> (string \<times> pyval) list \<Rightarrow> string list \<Rightarrow>
     string option \<Rightarrow> 'w session \<Rightarrow> 'w session \<times> flow" where
  "exec_call X call f i op fn args platforms callee s =
     (let target = (case callee of None \<Rightarrow> [] | Some g \<Rightarrow> g);
          host_value = (\<lambda>ks. with_value (eval_arguments X (rs_frames s ! f) s (map (\<lambda>k. (k, arg args k)) ks)) s
            (\<lambda>vs. finish_host (h_call (m_host X) (rs_world s) (current_driver s) op fn vs) s))
      in if op = ''log.write'' then run_log X f i args s
      else if op = ''wait.duration'' then run_wait X call f i args s
      else if op = ''wait.until'' then run_wait_until X call f i args s
      else if op = ''random.integer'' then run_random X f args s
      else if op = ''time.now'' then host_value [''official.time.now.parameter.timezone'']
      else if op = ''time.today'' then host_value [''official.time.today.parameter.timezone'']
      else if op = ''project.data_directory'' then host_value []
      else if op = ''data.assign'' then
        with_value (value_in X f s (arg args ''value'')) s (\<lambda>v. (s, Returned v))
      else if op = ''call.project'' then
        with_value (eval_arguments X (rs_frames s ! f) s args) s (\<lambda>vs. call target vs s)
      else if op = ''call.extension'' then
        with_value (eval_arguments X (rs_frames s ! f) s args) s
          (\<lambda>vs. finish_host (h_extension (m_host X) (rs_world s) target vs (rs_frames s ! f)) s)
      else run_host X call f i op fn args platforms s)"

text \<open>\<^verbatim>\<open>result_slot\<close>.\<close>

definition store_result :: "nat \<Rightarrow> string option \<Rightarrow> 'w session \<times> flow \<Rightarrow> 'w session \<times> flow" where
  "store_result f slot r =
     (case r of
        (s, Returned v) \<Rightarrow> ((case slot of Some k \<Rightarrow> if k = [] then s else set_slot f k v s | None \<Rightarrow> s), Next)
      | _ \<Rightarrow> r)"

section \<open>Control\<close>

text \<open>\<^verbatim>\<open>data.assign_local\<close> and \<^verbatim>\<open>data.assign_project\<close>.\<close>

definition assign_local :: "'w machine \<Rightarrow> nat \<Rightarrow> string \<Rightarrow> pyval \<Rightarrow> 'w session \<Rightarrow> 'w session \<times> flow" where
  "assign_local X f k v s =
     with_value (value_in X f s v) s (\<lambda>x.
       if k = [] then (s, failure ''runtime.failure'') else (set_slot f k x s, Next))"

definition assign_project :: "'w machine \<Rightarrow> nat \<Rightarrow> string \<Rightarrow> pyval \<Rightarrow> 'w session \<Rightarrow> 'w session \<times> flow" where
  "assign_project X f k v s =
     with_value (value_in X f s v) s (\<lambda>x.
       if k = [] then (s, failure ''runtime.failure'')
       else case m_variables X k of
           None \<Rightarrow> (s, failure ''runtime.project_variable_unknown'')
         | Some (t, cs) \<Rightarrow>
             with_value (conforms (m_eval X) x t) s (\<lambda>ok.
               if \<not> ok then (s, failure ''runtime.project_variable_assignment_type'')
               else case validate_runtime_constraints (m_eval X) (m_text X) x cs of
                   Inl e \<Rightarrow> (s, if e = PythonError ''ValueError''
                      then failure ''runtime.project_variable_assignment_constraint'' else Raised e)
                 | Inr _ \<Rightarrow> (s\<lparr>rs_project := (rs_project s)(k \<mapsto> x)\<rparr>, Next)))"

text \<open>The loops, over the body as a step. A \<^verbatim>\<open>continue\<close> ends one round, a \<^verbatim>\<open>break\<close> the loop.\<close>

fun run_times :: "nat \<Rightarrow> ('w session \<Rightarrow> 'w session \<times> flow) \<Rightarrow> 'w session \<Rightarrow> 'w session \<times> flow" where
  "run_times n body s =
     (if n = 0 then (s, Next)
      else case body s of
          (s1, Next) \<Rightarrow> run_times (n - 1) body s1
        | (s1, Continued) \<Rightarrow> run_times (n - 1) body s1
        | (s1, Broke) \<Rightarrow> (s1, Next)
        | r \<Rightarrow> r)"

declare run_times.simps [simp del]

definition loop_limit :: nat where
  "loop_limit = 1000000"

text \<open>\<open>n\<close> is the number of rounds left before the safety limit.\<close>

fun run_while ::
  "'w machine \<Rightarrow> nat \<Rightarrow> ('w session \<Rightarrow> bool py) \<Rightarrow> ('w session \<Rightarrow> 'w session \<times> flow) \<Rightarrow> 'w session \<Rightarrow> 'w session \<times> flow" where
  "run_while X n cond body s =
     with_value (cond s) s (\<lambda>go.
       if \<not> go then (s, Next)
       else
         let s1 = poll X s in
         if rs_cancel s1 then (mark_cancelled s1, Leave)
         else if n = 0 then (s1, failure ''runtime.failure'')
         else case body s1 of
             (s2, Next) \<Rightarrow> run_while X (n - 1) cond body s2
           | (s2, Continued) \<Rightarrow> run_while X (n - 1) cond body s2
           | (s2, Broke) \<Rightarrow> (s2, Next)
           | r \<Rightarrow> r)"

declare run_while.simps [simp del]

text \<open>A loop over items: what each round binds, and whether it looks for a cancel first.\<close>

fun run_items ::
  "'w machine \<Rightarrow> bool \<Rightarrow> (nat \<Rightarrow> 'a \<Rightarrow> 'w session \<Rightarrow> 'w session) \<Rightarrow> ('w session \<Rightarrow> 'w session \<times> flow) \<Rightarrow>
     nat \<Rightarrow> 'a list \<Rightarrow> 'w session \<Rightarrow> 'w session \<times> flow" where
  "run_items X look bind body i [] s = (s, Next)"
| "run_items X look bind body i (x # xs) s =
     (if loop_limit \<le> i then (s, failure ''runtime.failure'')
      else
        let s1 = (if look then poll X s else s) in
        if look \<and> rs_cancel s1 then (mark_cancelled s1, Leave)
        else case body (bind i x s1) of
            (s2, Next) \<Rightarrow> run_items X look bind body (Suc i) xs s2
          | (s2, Continued) \<Rightarrow> run_items X look bind body (Suc i) xs s2
          | (s2, Broke) \<Rightarrow> (s2, Next)
          | r \<Rightarrow> r)"

definition bind_slot :: "nat \<Rightarrow> string option \<Rightarrow> pyval \<Rightarrow> 'w session \<Rightarrow> 'w session" where
  "bind_slot f slot v s = (case slot of None \<Rightarrow> s | Some k \<Rightarrow> if k = [] then s else set_slot f k v s)"

definition bind_item :: "nat \<Rightarrow> string option \<Rightarrow> string option \<Rightarrow> nat \<Rightarrow> pyval \<Rightarrow> 'w session \<Rightarrow> 'w session" where
  "bind_item f item index i x s = bind_slot f index (PInt (int i)) (bind_slot f item x s)"

definition bind_entry ::
  "nat \<Rightarrow> string option \<Rightarrow> string option \<Rightarrow> string option \<Rightarrow> nat \<Rightarrow> pyval \<times> pyval \<Rightarrow> 'w session \<Rightarrow> 'w session" where
  "bind_entry f key val index i x s =
     bind_slot f index (PInt (int i)) (bind_slot f val (snd x) (bind_slot f key (fst x) s))"

definition slot_missing :: "string option \<Rightarrow> bool" where
  "slot_missing slot \<longleftrightarrow> slot = None \<or> slot = Some []"

definition run_repeat :: "'w machine \<Rightarrow> nat \<Rightarrow> pyval \<Rightarrow> ('w session \<Rightarrow> 'w session \<times> flow) \<Rightarrow> 'w session \<Rightarrow> 'w session \<times> flow" where
  "run_repeat X f source body s =
     with_value (value_in X f s source) s (\<lambda>v.
       case v of
         PInt n \<Rightarrow> if n < 0 then (s, failure ''runtime.failure'') else run_times (nat n) body s
       | _ \<Rightarrow> (s, failure ''runtime.failure''))"

definition run_for_each ::
  "'w machine \<Rightarrow> nat \<Rightarrow> pyval \<Rightarrow> string option \<Rightarrow> string option \<Rightarrow> ('w session \<Rightarrow> 'w session \<times> flow) \<Rightarrow>
     'w session \<Rightarrow> 'w session \<times> flow" where
  "run_for_each X f source item index body s =
     with_value (value_in X f s source) s (\<lambda>v.
       with_value (py_list v) s (\<lambda>xs.
         if slot_missing item then (s, failure ''runtime.failure'')
         else run_items X False (bind_item f item index) body 0 xs s))"

definition run_for_each_map ::
  "'w machine \<Rightarrow> nat \<Rightarrow> pyval \<Rightarrow> string option \<Rightarrow> string option \<Rightarrow> string option \<Rightarrow>
     ('w session \<Rightarrow> 'w session \<times> flow) \<Rightarrow> 'w session \<Rightarrow> 'w session \<times> flow" where
  "run_for_each_map X f source key val index body s =
     with_value (value_in X f s source) s (\<lambda>v.
       case v of
         PDict fs \<Rightarrow>
           if slot_missing key \<or> slot_missing val then (s, failure ''runtime.failure'')
           else run_items X True (bind_entry f key val index) body 0 fs s
       | _ \<Rightarrow> (s, failure ''runtime.failure''))"

definition run_fail :: "'w machine \<Rightarrow> nat \<Rightarrow> string \<Rightarrow> pyval \<Rightarrow> pyval option \<Rightarrow> 'w session \<Rightarrow> 'w session \<times> flow" where
  "run_fail X f error_id message details s =
     with_value (value_in X f s message) s (\<lambda>_.
       with_value (value_in X f s (or_none details)) s (\<lambda>d.
         (s, Raised (RuntimeFailure (if error_id = [] then ''project.explicit_failure'' else error_id) False d))))"

text \<open>\<^verbatim>\<open>_safe_diagnostic_value\<close>; the non-ASCII markers and texts are their UTF-8 bytes.\<close>

definition secret_markers :: "string list" where
  "secret_markers = [''password'', ''token'', ''secret'',
     map char_of [0xE5::nat, 0xAF, 0x86, 0xE7, 0xA0, 0x81],
     map char_of [0xE4::nat, 0xBB, 0xA4, 0xE7, 0x89, 0x8C],
     map char_of [0xE5::nat, 0xAF, 0x86, 0xE9, 0x92, 0xA5]]"

definition lower_char :: "char \<Rightarrow> char" where
  "lower_char c = (let n = of_char c :: nat in if 65 \<le> n \<and> n \<le> 90 then char_of (n + 32) else c)"

definition secret_key :: "string \<Rightarrow> bool" where
  "secret_key k = list_ex (\<lambda>m. contains m (map lower_char k)) secret_markers"

definition hidden_text :: string where
  "hidden_text = ''<'' @ map char_of [0xE5::nat, 0xB7, 0xB2, 0xE9, 0x9A, 0x90, 0xE8, 0x97, 0x8F] @ ''>''"

definition hidden_message :: string where
  "hidden_message = ''<'' @ map char_of [0xE6::nat, 0xB6, 0x88, 0xE6, 0x81, 0xAF, 0xE6, 0xAD, 0xA3, 0xE6, 0x96, 0x87,
     0xE5, 0xB7, 0xB2, 0xE9, 0x9A, 0x90, 0xE8, 0x97, 0x8F] @ ''>''"

function safe_value :: "eval_env \<Rightarrow> string \<Rightarrow> pyval \<Rightarrow> pyval" where
  "safe_value E key v =
     (if secret_key key then PStr hidden_text
      else case v of
        PDict fs \<Rightarrow>
          let message = (child fs ''record_type'' = PStr ''received_message'') in
          PDict (fold (\<lambda>(k, w) acc. dict_put acc (PStr k) w) (map (\<lambda>(k, w). (py_str E k,
            if message \<and> py_str E k = ''content'' then PStr hidden_message else safe_value E (py_str E k) w)) fs) [])
      | PList xs \<Rightarrow> PList (map (safe_value E []) (take 200 xs))
      | _ \<Rightarrow> v)"
  by pat_completeness auto
termination
  by (relation "measure (\<lambda>(E, k, v). size v)")
    (auto dest!: in_set_takeD simp: dict_entry_size(1) [simplified] list_item_size [simplified])

declare safe_value.simps [simp del]

text \<open>\<^verbatim>\<open>control.try\<close>: the attempts, the catcher, and the block that always runs.\<close>

definition error_record :: "'w machine \<Rightarrow> rt_error \<Rightarrow> pyval" where
  "error_record X e = PDict [(PStr ''error_id'', PStr (rt_error_id e)), (PStr ''message'', PStr (m_message_text X e)),
     (PStr ''details'', safe_value (m_eval X) [] (rt_details e))]"

definition py_float :: "'w machine \<Rightarrow> pyval \<Rightarrow> rat py" where
  "py_float X v =
     (case v of
        PStr t \<Rightarrow> (case m_float_text X t of None \<Rightarrow> py_raise ''ValueError'' | Some q \<Rightarrow> Inr q)
      | _ \<Rightarrow> (case py_number v of None \<Rightarrow> py_raise ''TypeError'' | Some q \<Rightarrow> Inr q))"

text \<open>\<open>n\<close> is how many retries are left; \<open>wait\<close> is the pause before the next attempt.\<close>

fun run_attempts ::
  "nat \<Rightarrow> ('w session \<Rightarrow> 'w session \<times> flow) \<Rightarrow> ('w session \<Rightarrow> 'w session \<times> flow) \<Rightarrow> 'w session \<Rightarrow> 'w session \<times> flow" where
  "run_attempts n wait body s =
     (case body s of
        (s1, Raised e) \<Rightarrow>
          if n = 0 \<or> \<not> rt_transient e then (s1, Raised e)
          else and_then (wait s1) (run_attempts (n - 1) wait body)
      | r \<Rightarrow> r)"

declare run_attempts.simps [simp del]

definition retry_plan :: "'w machine \<Rightarrow> nat \<Rightarrow> (pyval \<times> pyval) option \<Rightarrow> 'w session \<Rightarrow> (int \<times> rat) py" where
  "retry_plan X f retry s =
     (case retry of
        None \<Rightarrow> Inr (0, 0)
      | Some (m, i) \<Rightarrow>
          rbind (rbind (value_in X f s m) py_int) (\<lambda>n.
          rbind (rbind (value_in X f s i) (py_float X)) (\<lambda>q. Inr (n, q))))"

definition retry_pause ::
  "'w machine \<Rightarrow> 'w caller \<Rightarrow> nat \<Rightarrow> string \<Rightarrow> rat \<Rightarrow> 'w session \<Rightarrow> 'w session \<times> flow" where
  "retry_pause X call f i q s =
     (let s1 = event ''warning'' ''runtime'' i s in
      wait_rounds X call False f i (h_rounds (m_host X) (rs_world s1) ''control.try'' [([], PFloat (max 0 q))]) s1)"

definition finally_block :: "('w session \<Rightarrow> 'w session \<times> flow) \<Rightarrow> 'w session \<times> flow \<Rightarrow> 'w session \<times> flow" where
  "finally_block fin r =
     (case r of (s, fl) \<Rightarrow> (case fin s of (s1, Next) \<Rightarrow> (s1, fl) | r1 \<Rightarrow> r1))"

definition catches :: "string list \<Rightarrow> rt_error \<Rightarrow> bool" where
  "catches ids e \<longleftrightarrow> ids = [] \<or> rt_error_id e \<in> set ids"

section \<open>Target scopes and listeners\<close>

definition target_key :: "string \<Rightarrow> string" where
  "target_key t = ''target:'' @ t"

text \<open>\<^verbatim>\<open>_acquire_target\<close>, \<^verbatim>\<open>_create\<close> and the proof of life: the driver a switch would use.\<close>

definition make_driver :: "'w machine \<Rightarrow> string \<Rightarrow> string \<Rightarrow> 'w session \<Rightarrow> 'w session \<times> driver py" where
  "make_driver X t kind s =
     (if kind = ''android_local'' then (s, fail_with ''target.host_unsupported'')
      else
        let r = h_create (m_host X) (rs_world s) t; s1 = s\<lparr>rs_world := fst r\<rparr> in
        case snd r of
          Inl e \<Rightarrow> (s1, Inl e)
        | Inr False \<Rightarrow> (s1, fail_with ''target.driver_unavailable'')
        | Inr True \<Rightarrow> (s1\<lparr>rs_made := rs_made s1 + 1\<rparr>, Inr (t, rs_made s1)))"

definition capture :: "'w machine \<Rightarrow> driver \<Rightarrow> 'w session \<Rightarrow> 'w session \<times> unit py" where
  "capture X d s =
     (let r = h_capture (m_host X) (rs_world s) d in (s\<lparr>rs_world := fst r\<rparr>, snd r))"

text \<open>
  The body of a scope on a driver that answered; an exception out of it, a jump included, is
  logged as a failed switch. Then the driver leaves the stack and the previous target is current.
\<close>

definition scoped_body ::
  "driver \<Rightarrow> string \<Rightarrow> ('w session \<Rightarrow> 'w session \<times> flow) \<Rightarrow> 'w session \<Rightarrow> 'w session \<times> flow" where
  "scoped_body d i body s =
     (case body (event ''info'' ''target'' i (s\<lparr>rs_drivers := Some d # rs_drivers s\<rparr>)) of
        (s1, fl) \<Rightarrow>
          let s2 = (if fl = Next then s1 else event ''error'' ''target'' i s1) in
          (if 1 < length (rs_drivers s2) \<and> hd (rs_drivers s2) = Some d
           then event ''info'' ''target'' i (s2\<lparr>rs_drivers := tl (rs_drivers s2)\<rparr>) else s2, fl))"

definition capture_then ::
  "'w machine \<Rightarrow> driver \<Rightarrow> string \<Rightarrow> ('w session \<Rightarrow> 'w session \<times> flow) \<Rightarrow> 'w session \<Rightarrow> 'w session \<times> flow" where
  "capture_then X d i body s =
     (case capture X d s of
        (s1, Inl e) \<Rightarrow> (event ''error'' ''target'' i s1, Raised e)
      | (s1, Inr _) \<Rightarrow> scoped_body d i body s1)"

definition find_driver :: "string \<Rightarrow> 'w session \<Rightarrow> driver option" where
  "find_driver t s = (case filter (\<lambda>d. \<exists>n. d = Some (t, n)) (rs_drivers s) of [] \<Rightarrow> None | d # _ \<Rightarrow> d)"

text \<open>A target no driver of the stack serves: acquired, driven, closed and released.\<close>

definition fresh_scope ::
  "'w machine \<Rightarrow> string \<Rightarrow> string \<Rightarrow> string \<Rightarrow> ('w session \<Rightarrow> 'w session \<times> flow) \<Rightarrow> 'w session \<Rightarrow> 'w session \<times> flow" where
  "fresh_scope X t kind i body s =
     (if target_key t \<notin> rs_owned s \<and> h_busy (m_host X) (rs_world s) (target_key t)
      then (event ''error'' ''target'' i s, failure ''target.busy'')
      else
        let s1 = s\<lparr>rs_owned := insert (target_key t) (rs_owned s)\<rparr>;
            release = (\<lambda>s. s\<lparr>rs_owned := rs_owned s - {target_key t}\<rparr>)
        in case make_driver X t kind s1 of
             (s2, Inl e) \<Rightarrow> (release (event ''error'' ''target'' i s2), Raised e)
           | (s2, Inr d) \<Rightarrow>
               (case capture_then X d i body s2 of
                  (s3, fl) \<Rightarrow> (release (s3\<lparr>rs_world := h_close (m_host X) (rs_world s3) d\<rparr>), fl)))"

definition enter_target ::
  "'w machine \<Rightarrow> string \<Rightarrow> string \<Rightarrow> ('w session \<Rightarrow> 'w session \<times> flow) \<Rightarrow> 'w session \<Rightarrow> 'w session \<times> flow" where
  "enter_target X t i body s0 =
     (let s = poll X s0 in
      if rs_cancel s then (s, failure ''runtime.cancelled'')
      else case m_targets X t of
        None \<Rightarrow> (s, failure ''target.reference_missing'')
      | Some kind \<Rightarrow>
          if map_option fst (current_driver s) = Some t then body (event ''info'' ''target'' i s)
          else case find_driver t s of
            Some d \<Rightarrow> capture_then X d i body s
          | None \<Rightarrow> fresh_scope X t kind i body s)"

definition run_target_scope ::
  "'w machine \<Rightarrow> nat \<Rightarrow> string \<Rightarrow> pyval \<Rightarrow> ('w session \<Rightarrow> 'w session \<times> flow) \<Rightarrow> 'w session \<Rightarrow> 'w session \<times> flow" where
  "run_target_scope X f i target body s =
     with_value (value_in X f s target) s (\<lambda>v.
       let t = (case v of PDict fs \<Rightarrow> child_text (m_eval X) fs ''target_id'' | _ \<Rightarrow> []) in
       if t = [] then (s, failure ''target.reference_invalid'') else enter_target X t i body s)"

text \<open>\<^verbatim>\<open>_register_listener\<close>: a registration with the same identifier is replaced where it stands.\<close>

fun put_listener :: "listener \<Rightarrow> listener list \<Rightarrow> listener list" where
  "put_listener l [] = [l]"
| "put_listener l (k # ks) = (if ln_id k = ln_id l then l # ks else k # put_listener l ks)"

definition register_listener ::
  "'w machine \<Rightarrow> nat \<Rightarrow> string \<Rightarrow> pyval \<Rightarrow> pyval option \<Rightarrow> string \<Rightarrow> pyval option \<Rightarrow> string \<Rightarrow>
     (string \<times> pyval) list \<Rightarrow> 'w session \<Rightarrow> 'w session \<times> flow" where
  "register_listener X f i name sender receive condition handler args s =
     (if \<not> m_messaging X then (s, failure ''message.instance_unknown'')
      else if i = [] \<or> receive = [] \<or> handler = [] \<or> m_functions X handler = None
      then (s, failure ''runtime.listener_contract_invalid'')
      else with_value (value_in X f s name) s (\<lambda>n.
        with_value (value_in X f s (or_none sender)) s (\<lambda>who.
          with_value (h_check (m_host X) (rs_world s) n who) s (\<lambda>_.
            (event ''info'' ''message'' i (s\<lparr>rs_listeners := put_listener
               \<lparr>ln_id = i, ln_name = py_str (m_eval X) n, ln_sender = who, ln_receive = receive,
                ln_condition = condition, ln_handler = handler, ln_arguments = args, ln_frame = f\<rparr>
               (rs_listeners s)\<rparr>), Next)))))"

section \<open>Blocks\<close>

text \<open>The end of a block: a last checkpoint, unless the block was left.\<close>

definition block_end ::
  "'w machine \<Rightarrow> 'w caller \<Rightarrow> nat \<Rightarrow> instruction list \<Rightarrow> 'w session \<times> flow \<Rightarrow> 'w session \<times> flow" where
  "block_end X call f ins r =
     (case r of
        (s, Leave) \<Rightarrow> (s, Next)
      | (s, Next) \<Rightarrow>
          (let s1 = poll X s in
           if rs_cancel s1 then (mark_cancelled s1, Next)
           else checkpoint X call f (if ins = [] then rs_current s1 else ins_id (last ins)) False s1)
      | _ \<Rightarrow> r)"

lemma branch_body_size: "2 * size_list size (ib_body b) \<le> Suc (Suc (2 * size b + m + n))"
  by (cases b) simp

lemma catcher_body_size: "2 * size_list size (ct_body c) \<le> Suc (Suc (2 * size c + m))"
  by (cases c) simp

function exec_items :: "'w machine \<Rightarrow> 'w caller \<Rightarrow> nat \<Rightarrow> instruction list \<Rightarrow> 'w session \<Rightarrow> 'w session \<times> flow"
and exec_instruction :: "'w machine \<Rightarrow> 'w caller \<Rightarrow> nat \<Rightarrow> instruction \<Rightarrow> 'w session \<Rightarrow> 'w session \<times> flow"
and exec_branches ::
  "'w machine \<Rightarrow> 'w caller \<Rightarrow> nat \<Rightarrow> if_branch list \<Rightarrow> instruction list \<Rightarrow> 'w session \<Rightarrow> 'w session \<times> flow"
and exec_catch ::
  "'w machine \<Rightarrow> 'w caller \<Rightarrow> nat \<Rightarrow> rt_error \<Rightarrow> catcher list \<Rightarrow> 'w session \<Rightarrow> 'w session \<times> flow" where
  "exec_items X call f [] s = (s, Next)"
| "exec_items X call f (ins # rest) s0 =
     (let s = poll X s0 in
      if rs_cancel s then (event ''warning'' ''runtime'' [] (mark_cancelled s), Leave)
      else and_then (checkpoint X call f (ins_id ins) True s) (\<lambda>s1.
        let s2 = poll X s1 in
        if rs_cancel s2 then (mark_cancelled s2, Leave)
        else and_then (exec_instruction X call f ins (s2\<lparr>rs_current := ins_id ins\<rparr>))
          (\<lambda>s3. exec_items X call f rest (show_variables f s3))))"
| "exec_instruction X call f (ICall i op fn args platforms callee slot) s =
     store_result f slot (exec_call X call f i op fn args platforms callee s)"
| "exec_instruction X call f (IAssignLocal i k v) s = assign_local X f k v s"
| "exec_instruction X call f (IAssignProject i k v) s = assign_project X f k v s"
| "exec_instruction X call f (IIf i c th branches oth) s =
     with_value (value_in X f s c) s (\<lambda>v.
       if py_truthy v then block_end X call f th (exec_items X call f th s)
       else exec_branches X call f branches oth s)"
| "exec_instruction X call f (IRepeat i source body) s =
     run_repeat X f source (\<lambda>s. block_end X call f body (exec_items X call f body s)) s"
| "exec_instruction X call f (IWhile i source body) s =
     run_while X loop_limit (\<lambda>s. rbind (value_in X f s source) (\<lambda>v. Inr (py_truthy v)))
       (\<lambda>s. block_end X call f body (exec_items X call f body s)) s"
| "exec_instruction X call f (IForEach i source item index body) s =
     run_for_each X f source item index (\<lambda>s. block_end X call f body (exec_items X call f body s)) s"
| "exec_instruction X call f (IForEachMap i source key val index body) s =
     run_for_each_map X f source key val index (\<lambda>s. block_end X call f body (exec_items X call f body s)) s"
| "exec_instruction X call f (IBreak i) s = (s, Broke)"
| "exec_instruction X call f (IContinue i) s = (s, Continued)"
| "exec_instruction X call f (IReturn i v) s =
     with_value (case v of None \<Rightarrow> Inr PNone | Some w \<Rightarrow> value_in X f s w) s (\<lambda>x. (s, Returned x))"
| "exec_instruction X call f (IFail i error_id message details) s = run_fail X f error_id message details s"
| "exec_instruction X call f (ITry i body retry catchers fin) s =
     with_value (retry_plan X f retry s) s (\<lambda>(n, q).
       finally_block (\<lambda>s. block_end X call f fin (exec_items X call f fin s))
         (case run_attempts (nat n) (retry_pause X call f i q)
             (\<lambda>s. block_end X call f body (exec_items X call f body s)) s of
            (s1, Raised e) \<Rightarrow> exec_catch X call f e catchers s1
          | r \<Rightarrow> r))"
| "exec_instruction X call f (ITargetScope i target body) s =
     run_target_scope X f i target (\<lambda>s. block_end X call f body (exec_items X call f body s)) s"
| "exec_instruction X call f (IListen i name sender receive condition handler args) s =
     register_listener X f i name sender receive condition handler args s"
| "exec_branches X call f [] oth s = block_end X call f oth (exec_items X call f oth s)"
| "exec_branches X call f (b # bs) oth s =
     with_value (value_in X f s (ib_condition b)) s (\<lambda>v.
       if py_truthy v then block_end X call f (ib_body b) (exec_items X call f (ib_body b) s)
       else exec_branches X call f bs oth s)"
| "exec_catch X call f e [] s = (s, Raised e)"
| "exec_catch X call f e (c # cs) s =
     (if catches (ct_error_ids c) e
      then block_end X call f (ct_body c)
        (exec_items X call f (ct_body c) (bind_slot f (ct_error_slot c) (error_record X e) s))
      else exec_catch X call f e cs s)"
  by pat_completeness auto

termination
  by (relation "measure (\<lambda>p. case p of
      Inl (Inl (X, call, f, ins, s)) \<Rightarrow> 2 * size_list size ins
    | Inl (Inr (X, call, f, i, s)) \<Rightarrow> 2 * size i
    | Inr (Inl (X, call, f, bs, oth, s)) \<Rightarrow> 2 * (size_list size bs + size_list size oth) + 1
    | Inr (Inr (X, call, f, e, cs, s)) \<Rightarrow> 2 * size_list size cs + 1)")
    (auto simp: less_Suc_eq_le branch_body_size catcher_body_size)

definition exec_block :: "'w machine \<Rightarrow> 'w caller \<Rightarrow> nat \<Rightarrow> instruction list \<Rightarrow> 'w session \<Rightarrow> 'w session \<times> flow" where
  "exec_block X call f ins s = block_end X call f ins (exec_items X call f ins s)"

section \<open>Functions\<close>

text \<open>\<^verbatim>\<open>_execute_function_body\<close>: the parameters in order, each default evaluated in the slots so far.\<close>

definition bind_parameter ::
  "'w machine \<Rightarrow> 'w session \<Rightarrow> (string \<times> pyval) list \<Rightarrow> parameter_definition \<Rightarrow> slots \<Rightarrow> slots py" where
  "bind_parameter X s args p locals =
     (if pd_parameter_id p = [] \<or> pd_name p = [] then fail_with ''runtime.function_contract_invalid''
      else
        rbind (case map_of args (pd_parameter_id p) of
            Some v \<Rightarrow> eval_value (m_eval X) (scope_of locals s) v
          | None \<Rightarrow> if pd_required p then fail_with ''runtime.argument_missing''
              else eval_value (m_eval X) (scope_of locals s) (pd_default p)) (\<lambda>v.
        rbind (conforms (m_eval X) v (if pd_value_type p = [] then ''any'' else pd_value_type p)) (\<lambda>ok.
          if ok then Inr (locals(pd_name p \<mapsto> v)) else fail_with ''runtime.argument_type'')))"

fun bind_parameters ::
  "'w machine \<Rightarrow> 'w session \<Rightarrow> (string \<times> pyval) list \<Rightarrow> parameter_definition list \<Rightarrow> slots \<Rightarrow> slots py" where
  "bind_parameters X s args [] locals = Inr locals"
| "bind_parameters X s args (p # ps) locals =
     rbind (bind_parameter X s args p locals) (bind_parameters X s args ps)"

definition known_arguments :: "function_definition \<Rightarrow> (string \<times> pyval) list \<Rightarrow> bool" where
  "known_arguments d args \<longleftrightarrow> set (map fst args) \<subseteq> set (map pd_parameter_id (fd_parameters d))"

definition silent_return :: "string \<Rightarrow> bool" where
  "silent_return t \<longleftrightarrow> t = ''null'' \<or> t = ''unit''"

text \<open>What the body's end means for the caller: the declared return type is checked.\<close>

definition function_result :: "'w machine \<Rightarrow> string \<Rightarrow> 'w session \<times> flow \<Rightarrow> 'w session \<times> flow" where
  "function_result X t r =
     (case r of
        (s, Returned v) \<Rightarrow>
          if v = PNone \<and> silent_return t then (s, Returned v)
          else with_value (conforms (m_eval X) v t) s (\<lambda>ok. (s, if ok then Returned v else failure ''runtime.failure''))
      | (s, Next) \<Rightarrow>
          (let s1 = poll X s in
           if rs_cancel s1 \<or> rs_status s1 = Cancelled \<or> silent_return t then (s1, Returned PNone)
           else with_value (conforms (m_eval X) PNone t) s1
             (\<lambda>ok. (s1, if ok then Returned PNone else failure ''runtime.failure'')))
      | _ \<Rightarrow> r)"

definition function_body ::
  "'w machine \<Rightarrow> 'w caller \<Rightarrow> string \<Rightarrow> (string \<times> pyval) list \<Rightarrow> 'w session \<Rightarrow> 'w session \<times> flow" where
  "function_body X call g args s =
     (case m_functions X g of
        None \<Rightarrow> (s, failure ''runtime.failure'')
      | Some d \<Rightarrow>
          with_value (bind_parameters X s args (fd_parameters d) Map.empty) s (\<lambda>locals.
            if \<not> known_arguments d args then (s, failure ''runtime.argument_unknown'')
            else
              let f = length (rs_frames s) in
              function_result X (if fd_return_type d = [] then ''any'' else fd_return_type d)
                (exec_block X call f (fd_instructions d) (s\<lparr>rs_frames := rs_frames s @ [locals]\<rparr>))))"

text \<open>\<^verbatim>\<open>_execute_function\<close> at a depth of at most 100: the call stack grows for the body alone.\<close>

definition enter_function ::
  "'w machine \<Rightarrow> 'w caller \<Rightarrow> nat \<Rightarrow> string \<Rightarrow> (string \<times> pyval) list \<Rightarrow> 'w session \<Rightarrow> 'w session \<times> flow" where
  "enter_function X call depth g args s =
     (case function_body X call g args (s\<lparr>rs_calls := (g, depth) # rs_calls s\<rparr>) of
        (s1, r) \<Rightarrow> (s1\<lparr>rs_calls := tl (rs_calls s1)\<rparr>, r))"

definition max_depth :: nat where
  "max_depth = 100"

text \<open>With \<open>n\<close> levels left the depth is \<open>101 - n\<close>; none left is a depth over 100.\<close>

fun call_at :: "'w machine \<Rightarrow> nat \<Rightarrow> 'w caller" where
  "call_at X 0 g args s = (s, failure ''runtime.call_depth_exceeded'')"
| "call_at X (Suc n) g args s = enter_function X (call_at X n) (max_depth - n) g args s"

definition execute_function :: "'w machine \<Rightarrow> nat \<Rightarrow> 'w caller" where
  "execute_function X depth = call_at X (Suc max_depth - depth)"

text \<open>
  \<^verbatim>\<open>_run\<close> on a session whose default target's driver is at the bottom of the stack: the status it
  ends with, and the close of the target manager and the release of the session's own target.
\<close>

definition close_session :: "'w machine \<Rightarrow> 'w session \<Rightarrow> 'w session" where
  "close_session X s =
     s\<lparr>rs_world := (case rs_drivers s of
          [] \<Rightarrow> rs_world s
        | d # ds \<Rightarrow> (case last (d # ds) of None \<Rightarrow> rs_world s | Some b \<Rightarrow> h_close (m_host X) (rs_world s) b)),
       rs_drivers := [], rs_owned := rs_owned s - {rs_home s}\<rparr>"

definition run_session :: "'w machine \<Rightarrow> string \<Rightarrow> (string \<times> pyval) list \<Rightarrow> 'w session \<Rightarrow> 'w session" where
  "run_session X entry args s0 =
     close_session X
      (case execute_function X 0 entry args (event ''info'' ''runtime'' [] (s0\<lparr>rs_status := Running\<rparr>)) of
        (s, Returned v) \<Rightarrow>
          if rs_status s = Cancelled then s
          else event ''info'' ''runtime'' [] (s\<lparr>rs_status := Completed\<rparr>)
      | (s, r) \<Rightarrow>
          (let s1 = poll X s in
           if rs_cancel s1 \<or> (\<exists>t d. r = Raised (RuntimeFailure ''runtime.cancelled'' t d))
           then event ''warning'' ''runtime'' (rs_current s1) (s1\<lparr>rs_status := Cancelled\<rparr>)
           else event ''error'' ''runtime'' (rs_current s1) (s1\<lparr>rs_status := Failed\<rparr>)))"

end
