(* ===== verification/Runtime_Laws.thy ===== *)
theory Runtime_Laws
  imports Runtime_Exec "HOL-Library.Sublist"
begin

text \<open>
  What every step of the interpreter keeps, whatever the program: the slots a frame has are not
  lost, the call stack, the stack of targets, their owners and the dispatch flag are as they
  were, a cancel request stays, events are only added. The interpreter relies on its caller for
  project functions; the law is stated for any caller that keeps it and then shown for the calls
  of the model, at every depth.
\<close>

section \<open>The law\<close>

text \<open>A session at rest: listeners have their frames, and an owned target has a driver.\<close>

definition driver_keys :: "driver option list \<Rightarrow> string set" where
  "driver_keys ds = {target_key t | t. \<exists>n. Some (t, n) \<in> set ds}"

definition well_formed :: "'w session \<Rightarrow> bool" where
  "well_formed s \<longleftrightarrow>
     (\<forall>l \<in> set (rs_listeners s). ln_frame l < length (rs_frames s)) \<and>
     rs_drivers s \<noteq> [] \<and> rs_owned s \<subseteq> driver_keys (rs_drivers s)"

text \<open>What is compared before and after: the parts a step restores.\<close>

definition same_stacks :: "'w session \<Rightarrow> 'w session \<Rightarrow> bool" where
  "same_stacks s t \<longleftrightarrow> rs_calls t = rs_calls s \<and> rs_drivers t = rs_drivers s \<and> rs_owned t = rs_owned s \<and>
     rs_dispatching t = rs_dispatching s \<and> rs_breakpoints t = rs_breakpoints s \<and> rs_home t = rs_home s"

definition frames_grow :: "slots list \<Rightarrow> slots list \<Rightarrow> bool" where
  "frames_grow fs gs \<longleftrightarrow> length fs \<le> length gs \<and> (\<forall>i < length fs. dom (fs ! i) \<subseteq> dom (gs ! i))"

definition keeps :: "'w session \<Rightarrow> 'w session \<Rightarrow> bool" where
  "keeps s t \<longleftrightarrow> well_formed t \<and> same_stacks s t \<and> frames_grow (rs_frames s) (rs_frames t) \<and>
     dom (rs_project s) \<subseteq> dom (rs_project t) \<and> (rs_cancel s \<longrightarrow> rs_cancel t) \<and> prefix (rs_events s) (rs_events t)"

text \<open>The law of a step that may rely on the first \<open>n\<close> frames being there.\<close>

definition runs :: "nat \<Rightarrow> 'w session \<Rightarrow> 'w session \<times> 'a \<Rightarrow> bool" where
  "runs n s r \<longleftrightarrow> (well_formed s \<and> n \<le> length (rs_frames s) \<longrightarrow> keeps s (fst r))"

lemma frames_grow_refl [simp]: "frames_grow fs fs"
  by (simp add: frames_grow_def)

lemma frames_grow_trans: "frames_grow fs gs \<Longrightarrow> frames_grow gs hs \<Longrightarrow> frames_grow fs hs"
  unfolding frames_grow_def by (meson less_le_trans order_trans)

lemma keeps_refl: "well_formed s \<Longrightarrow> keeps s s"
  by (simp add: keeps_def same_stacks_def)

lemma keeps_trans: "keeps s t \<Longrightarrow> keeps t u \<Longrightarrow> keeps s u"
  unfolding keeps_def same_stacks_def
  using frames_grow_trans prefix_order.trans by (metis (no_types, lifting) order_trans)

lemma runs_here [simp, intro]: "runs n s (s, r)"
  by (simp add: runs_def keeps_refl)

lemma keeps_frames: "keeps s t \<Longrightarrow> length (rs_frames s) \<le> length (rs_frames t)"
  by (simp add: keeps_def frames_grow_def)

lemma runs_trans:
  assumes "runs n s (t, r)" "runs n t q"
  shows "runs n s q"
  unfolding runs_def
proof (intro impI, elim conjE)
  assume s: "well_formed s" "n \<le> length (rs_frames s)"
  then have k: "keeps s t" using assms(1) by (simp add: runs_def)
  then have "keeps t (fst q)" using assms(2) s(2) keeps_frames [OF k] by (simp add: runs_def keeps_def)
  with k show "keeps s (fst q)" by (rule keeps_trans)
qed

text \<open>A step that touches nothing the law compares.\<close>

definition quiet_step :: "'w session \<Rightarrow> 'w session \<Rightarrow> bool" where
  "quiet_step s t \<longleftrightarrow> same_stacks s t \<and> rs_frames t = rs_frames s \<and> rs_project t = rs_project s \<and>
     rs_listeners t = rs_listeners s \<and> (rs_cancel s \<longrightarrow> rs_cancel t) \<and> prefix (rs_events s) (rs_events t)"

lemma runs_quiet: "quiet_step s t \<Longrightarrow> runs n s (t, r)"
  by (auto simp: quiet_step_def runs_def keeps_def same_stacks_def well_formed_def)

lemma keeps_quiet:
  assumes "keeps s t" "quiet_step t u"
  shows "keeps s u"
proof -
  have "well_formed t" using assms(1) by (simp add: keeps_def)
  then have "keeps t u" using runs_quiet [OF assms(2), of 0] by (simp add: runs_def)
  with assms(1) show ?thesis by (rule keeps_trans)
qed

lemma runs_after_quiet: "quiet_step s t \<Longrightarrow> runs n t q \<Longrightarrow> runs n s q"
  by (rule runs_trans [OF runs_quiet])

named_theorems quiet \<open>steps that touch nothing the law compares\<close>

lemma quiet_refl [quiet]: "quiet_step s s"
  by (simp add: quiet_step_def same_stacks_def)

lemma quiet_trans: "quiet_step s t \<Longrightarrow> quiet_step t u \<Longrightarrow> quiet_step s u"
  by (auto simp: quiet_step_def same_stacks_def)

lemma quiet_poll [quiet]: "quiet_step s (poll X s)"
  by (simp add: quiet_step_def same_stacks_def poll_def Let_def)

lemma quiet_event [quiet]: "quiet_step s (event l c i s)"
  by (simp add: quiet_step_def same_stacks_def event_def)

lemma quiet_mark [quiet]: "quiet_step s (mark_cancelled s)"
  by (simp add: quiet_step_def same_stacks_def mark_cancelled_def)

lemma quiet_show [quiet]: "quiet_step s (show_variables f s)"
  by (simp add: quiet_step_def same_stacks_def show_variables_def)

lemma quiet_updates [quiet]:
  "quiet_step s (s\<lparr>rs_world := w\<rparr>)" "quiet_step s (s\<lparr>rs_current := i\<rparr>)"
  "quiet_step s (s\<lparr>rs_made := n\<rparr>)" "quiet_step s (s\<lparr>rs_status := st\<rparr>)"
  by (simp_all add: quiet_step_def same_stacks_def)

lemma runs_with_value:
  "(\<And>x. r = Inr x \<Longrightarrow> runs n s (k x)) \<Longrightarrow> runs n s (with_value r s k)"
  by (cases r) simp_all

lemma runs_set_slot: "runs n s (set_slot f k v s, r)"
proof -
  have "dom (rs_frames s ! i) \<subseteq> dom ((rs_frames s)[f := (rs_frames s ! f)(k \<mapsto> v)] ! i)"
    if "i < length (rs_frames s)" for i
    using that by (cases "i = f") auto
  then have "frames_grow (rs_frames s) ((rs_frames s)[f := (rs_frames s ! f)(k \<mapsto> v)])"
    by (simp add: frames_grow_def)
  then show ?thesis by (simp add: runs_def keeps_def same_stacks_def well_formed_def set_slot_def)
qed

text \<open>Sequencing: the rest of a step runs only after \<open>Next\<close>.\<close>

lemma runs_next:
  assumes "runs n s r" "\<And>s1. r = (s1, Next) \<Longrightarrow> runs n s1 (k s1)"
  shows "runs n s (and_then r k)"
proof -
  obtain s1 fl where r: "r = (s1, fl)" by (cases r)
  show ?thesis
    using assms r runs_trans [of n s s1 Next "k s1"] by (cases "fl = Next") simp_all
qed

lemma runs_with_host:
  "(\<And>x t. quiet_step s t \<Longrightarrow> runs n t (k x t)) \<Longrightarrow> runs n s (with_host r s k)"
  unfolding with_host_def
  by (rule runs_after_quiet [OF quiet_updates(1)], rule runs_with_value) (simp add: quiet_updates)

lemma runs_fst: "runs n s (t, x) \<Longrightarrow> runs n s (t, y)"
  by (simp add: runs_def)

section \<open>The interpreter under a lawful caller\<close>

locale lawful_caller =
  fixes X :: "'w machine" and call :: "'w caller"
  assumes call_runs: "runs 0 s (call g args s)"
begin

lemma call_any: "runs n s (call g args s)"
  using call_runs [of s g args] by (simp add: runs_def)

lemma handle_runs:
  assumes "\<not> rs_dispatching s"
  shows "runs n s (handle_message X call l m s)"
proof -
  define s2 where "s2 = (event ''info'' ''message'' (ln_id l) (s\<lparr>rs_failed_listener := [], rs_failed_message := [],
    rs_listener := ln_id l, rs_message := child_text (m_eval X) m ''message_id''\<rparr>))\<lparr>rs_dispatching := True\<rparr>"
  define r where "r = with_value (eval_arguments X (event_slots l m s2) s2 (ln_arguments l)) s2
    (\<lambda>args. call (ln_handler l) args s2)"
  have "runs n s2 r" unfolding r_def by (intro runs_with_value call_any)
  then have k: "well_formed s \<Longrightarrow> n \<le> length (rs_frames s) \<Longrightarrow> keeps s2 (fst r)"
    by (simp add: runs_def s2_def well_formed_def event_def)
  have restored: "keeps s t" if "keeps s2 u" "quiet_step (u\<lparr>rs_dispatching := False\<rparr>) t" for t u
    using that assms unfolding keeps_def quiet_step_def same_stacks_def s2_def event_def
    by (auto simp: well_formed_def prefix_def)
  show ?thesis
    unfolding handle_message_def Let_def s2_def [symmetric] r_def [symmetric] runs_def
    using k
    by (cases r; cases "snd r")
      (auto intro!: restored simp: quiet_step_def same_stacks_def event_def poll_def Let_def)
qed

lemma dispatching_kept:
  assumes "runs n s (t, r)" "well_formed s" "n \<le> length (rs_frames s)"
  shows "rs_dispatching t = rs_dispatching s"
  using assms by (simp add: runs_def keeps_def same_stacks_def)

lemma runs_guarded:
  "(well_formed s \<Longrightarrow> n \<le> length (rs_frames s) \<Longrightarrow> runs n s r) \<Longrightarrow> runs n s r"
  by (auto simp: runs_def)

lemma dispatch_one_runs: "\<not> rs_dispatching s \<Longrightarrow> runs n s (dispatch_one X call l cursor m s)"
proof (induction m arbitrary: s)
  case (Suc m)
  let ?s = "poll X s"
  have d: "\<not> rs_dispatching ?s" using Suc.prems by (simp add: poll_def Let_def)
  have loop: "runs n t (dispatch_one X call l cursor m t)" if "\<not> rs_dispatching t" for t
    by (rule Suc.IH [OF that])
  have handled: "runs n t (and_then (handle_message X call l x t) (dispatch_one X call l cursor m))"
    if t: "\<not> rs_dispatching t" for t x
  proof (rule runs_guarded, rule runs_next [OF handle_runs [OF t]])
    fix s1 assume h: "handle_message X call l x t = (s1, Next)" and w: "well_formed t" "n \<le> length (rs_frames t)"
    then have "rs_dispatching s1 = rs_dispatching t"
      using handle_runs [OF t, of n l x] by (intro dispatching_kept [OF _ w]) simp
    then show "runs n s1 (dispatch_one X call l cursor m s1)" using t loop by simp
  qed
  have claimed: "runs n ?s (with_host r ?s (\<lambda>got s1. case got of
        None \<Rightarrow> dispatch_one X call l cursor m s1
      | Some x \<Rightarrow> and_then (handle_message X call l x s1) (dispatch_one X call l cursor m)))" for r
  proof (rule runs_with_host)
    fix got t assume "quiet_step ?s t"
    then have "\<not> rs_dispatching t" using d by (simp add: quiet_step_def same_stacks_def)
    then show "runs n t (case got of
        None \<Rightarrow> dispatch_one X call l cursor m t
      | Some x \<Rightarrow> and_then (handle_message X call l x t) (dispatch_one X call l cursor m))"
      by (cases got) (simp_all add: loop handled)
  qed
  show ?case
    unfolding dispatch_one.simps Let_def
    by (rule runs_after_quiet [OF quiet_poll])
      (auto intro!: runs_with_value claimed runs_quiet [OF quiet_mark] split: if_split option.split)
qed simp

lemma dispatch_all_runs: "\<not> rs_dispatching s \<Longrightarrow> runs n s (dispatch_all X call cursor ls s)"
proof (induction ls arbitrary: s)
  case (Cons l ls)
  obtain t fl where r: "dispatch_one X call l cursor cursor s = (t, fl)" by fastforce
  have o: "runs n s (t, fl)" using dispatch_one_runs [OF Cons.prems, of n l cursor cursor] r by simp
  show ?case
  proof (rule runs_guarded)
    assume "well_formed s" "n \<le> length (rs_frames s)"
    then have "\<not> rs_dispatching t" using dispatching_kept [OF o] Cons.prems by simp
    then show "runs n s (dispatch_all X call cursor (l # ls) s)"
      using runs_trans [OF o Cons.IH [of t]] o r by (cases fl) (auto intro: runs_fst)
  qed
qed simp

lemma dispatch_runs: "\<not> rs_dispatching s \<Longrightarrow> runs n s (dispatch_ready_listeners X call s)"
  by (simp add: dispatch_ready_listeners_def dispatch_all_runs)

end

lemma quiet_pause_point: "pause_point X f i allow s = (t, go) \<Longrightarrow> quiet_step s t"
  by (auto simp: pause_point_def Let_def quiet_step_def same_stacks_def event_def show_variables_def
      mark_cancelled_def split: if_splits prod.splits)

context lawful_caller begin

lemma checkpoint_runs: "runs n s (checkpoint X call f i allow s)"
proof -
  obtain t go where p: "pause_point X f i allow (poll X s) = (t, go)" by fastforce
  have q: "quiet_step s t" using quiet_trans [OF quiet_poll quiet_pause_point [OF p]] .
  have "runs n t (and_then (dispatch_ready_listeners X call t) (\<lambda>s1.
      (if rs_listener s1 = [] then show_variables f (s1\<lparr>rs_current := i\<rparr>) else s1, Next)))" if "\<not> rs_dispatching t"
    by (rule runs_next [OF dispatch_runs [OF that]])
      (auto intro!: runs_quiet quiet_trans [OF quiet_updates(2) quiet_show] quiet_refl)
  then show ?thesis using p
    by (auto simp: checkpoint_def intro!: runs_after_quiet [OF q])
qed

lemma checkpoints_runs: "runs n s (checkpoints X call f i m s)"
  by (induction m arbitrary: s) (auto intro!: runs_next checkpoint_runs)

lemma wait_rounds_runs: "runs n s (wait_rounds X call say f i m s)"
proof (induction m arbitrary: s)
  case (Suc m)
  have "runs n t (let s2 = poll X t in
       if rs_cancel s2 then (if say then event ''warning'' ''runtime'' i (mark_cancelled s2) else mark_cancelled s2, Leave)
       else wait_rounds X call say f i m s2)" for t
    unfolding Let_def
    by (rule runs_after_quiet [OF quiet_poll [of t X]], cases "rs_cancel (poll X t)")
      (simp_all add: Suc.IH runs_quiet quiet_mark quiet_trans [OF quiet_mark quiet_event])
  then show ?case unfolding wait_rounds.simps by (intro runs_next checkpoint_runs)
qed simp

lemma run_log_runs: "runs n s (run_log X f i args s)"
  unfolding run_log_def Let_def
  by (auto intro!: runs_with_value runs_quiet quiet_event split: if_split)

lemma run_wait_runs: "runs n s (run_wait X call f i args s)"
  unfolding run_wait_def by (auto intro!: runs_with_value runs_next wait_rounds_runs)

lemma run_wait_until_runs: "runs n s (run_wait_until X call f i args s)"
  unfolding run_wait_until_def
  by (intro runs_with_value runs_next runs_after_quiet [OF quiet_event wait_rounds_runs] runs_here)

lemma run_random_runs: "runs n s (run_random X f args s)"
  unfolding run_random_def by (auto intro!: runs_with_value runs_with_host split: pyval.split)

lemma finish_host_runs: "runs n s (finish_host r s)"
  unfolding finish_host_def by (intro runs_with_host runs_here)

lemma run_operation_runs: "runs n s (run_operation X call safe f i op fn args s)"
  unfolding run_operation_def by (intro runs_with_value runs_next checkpoints_runs finish_host_runs)

lemma run_host_runs: "runs n s (run_host X call f i op fn args platforms s)"
  unfolding run_host_def run_target_operation_def
  by (auto simp: run_operation_runs split: option.split)

lemma exec_call_runs: "runs n s (exec_call X call f i op fn args platforms callee s)"
  unfolding exec_call_def Let_def
  by (auto intro!: runs_with_value finish_host_runs call_any run_log_runs run_wait_runs run_wait_until_runs
      run_random_runs run_host_runs split: if_split)

end

lemma store_result_runs: "runs n s r \<Longrightarrow> runs n s (store_result f slot r)"
proof -
  assume r: "runs n s r"
  obtain t fl where t: "r = (t, fl)" by (cases r)
  have "runs n t ((case slot of Some k \<Rightarrow> if k = [] then t else set_slot f k v t | None \<Rightarrow> t), Next)" for v
    by (auto intro: runs_set_slot split: option.split)
  then have "runs n s ((case slot of Some k \<Rightarrow> if k = [] then t else set_slot f k v t | None \<Rightarrow> t), Next)" for v
    using runs_trans [of n s t fl] r t by blast
  then show ?thesis using r t by (cases fl) (simp_all add: store_result_def)
qed

lemma assign_local_runs: "runs n s (assign_local X f k v s)"
  unfolding assign_local_def by (auto intro!: runs_with_value runs_set_slot)

lemma runs_project: "runs n s (s\<lparr>rs_project := (rs_project s)(k \<mapsto> x)\<rparr>, r)"
  by (auto simp: runs_def keeps_def same_stacks_def well_formed_def)

lemma assign_project_runs: "runs n s (assign_project X f k v s)"
  unfolding assign_project_def
  by (auto intro!: runs_with_value runs_project split: option.split sum.split)

lemma run_times_runs: "(\<And>s. runs n s (body s)) \<Longrightarrow> runs n s (run_times m body s)"
proof (induction m arbitrary: s)
  case (Suc m)
  obtain t fl where r: "body s = (t, fl)" by fastforce
  have b: "runs n s (t, fl')" for fl' :: flow using Suc.prems [of s] r runs_fst by metis
  have "runs n s (run_times m body t)" by (rule runs_trans [OF b Suc.IH [OF Suc.prems]])
  then show ?case using b r by (subst run_times.simps) (cases fl; simp)
qed (simp add: run_times.simps)

lemma run_while_runs: "(\<And>s. runs n s (body s)) \<Longrightarrow> runs n s (run_while X m cond body s)"
proof (induction m arbitrary: s)
  case 0
  then show ?case
    by (subst run_while.simps) (auto intro!: runs_with_value runs_quiet quiet_poll quiet_trans [OF quiet_poll quiet_mark] simp: Let_def)
next
  case (Suc m)
  let ?s = "poll X s"
  obtain t fl where r: "body ?s = (t, fl)" by fastforce
  have b: "runs n s (t, fl')" for fl' :: flow
    using runs_after_quiet [OF quiet_poll Suc.prems [of ?s]] r runs_fst by metis
  have "runs n s (run_while X m cond body t)" by (rule runs_trans [OF b Suc.IH [OF Suc.prems]])
  moreover have "runs n s (mark_cancelled ?s, Leave)"
    by (rule runs_quiet [OF quiet_trans [OF quiet_poll quiet_mark]])
  ultimately show ?case using b r
    by (subst run_while.simps) (cases fl; intro runs_with_value; simp add: Let_def)
qed

lemma run_items_runs:
  assumes body: "\<And>s. runs n s (body s)" and bind: "\<And>i x s. runs n s (bind i x s, Next)"
  shows "runs n s (run_items X look bind body i xs s)"
proof (induction xs arbitrary: i s)
  case (Cons x xs)
  define s1 where "s1 = (if look then poll X s else s)"
  have q: "quiet_step s s1" by (simp add: s1_def quiet_poll quiet_refl)
  obtain t fl where r: "body (bind i x s1) = (t, fl)" by fastforce
  have "runs n s1 (body (bind i x s1))" by (rule runs_trans [OF bind body])
  then have b: "runs n s (t, fl')" for fl' :: flow
    using runs_after_quiet [OF q] r runs_fst by metis
  have "runs n s (run_items X look bind body (Suc i) xs t)" by (rule runs_trans [OF b Cons.IH])
  moreover have "runs n s (mark_cancelled s1, Leave)" by (rule runs_quiet [OF quiet_trans [OF q quiet_mark]])
  ultimately show ?case using b r
    by (cases fl) (simp_all add: Let_def s1_def [symmetric])
qed simp

lemma bind_slot_runs: "runs n s (bind_slot f slot v s, r)"
  by (auto simp: bind_slot_def intro: runs_set_slot split: option.split)

lemma bind_item_runs: "runs n s (bind_item f item index i x s, r)"
  unfolding bind_item_def by (rule runs_trans [OF bind_slot_runs bind_slot_runs])

lemma bind_entry_runs: "runs n s (bind_entry f key val index i x s, r)"
  unfolding bind_entry_def by (rule runs_trans [OF bind_slot_runs runs_trans [OF bind_slot_runs bind_slot_runs]])

lemma run_fail_runs: "runs n s (run_fail X f e m d s)"
  unfolding run_fail_def by (intro runs_with_value runs_here)

lemma run_attempts_runs:
  "(\<And>s. runs n s (body s)) \<Longrightarrow> (\<And>s. runs n s (wait s)) \<Longrightarrow> runs n s (run_attempts m wait body s)"
proof (induction m arbitrary: s)
  case 0
  obtain t fl where r: "body s = (t, fl)" by fastforce
  then have "runs n s (t, fl)" using "0.prems"(1) [of s] by simp
  then show ?case using r by (subst run_attempts.simps) (cases fl; simp)
next
  case (Suc m)
  obtain t fl where r: "body s = (t, fl)" by fastforce
  have b: "runs n s (t, fl)" using Suc.prems(1) [of s] r by simp
  have "runs n t (and_then (wait t) (run_attempts m wait body))"
    by (rule runs_next [OF Suc.prems(2)]) (rule Suc.IH [OF Suc.prems])
  then have "runs n s (and_then (wait t) (run_attempts m wait body))" by (rule runs_trans [OF b])
  then show ?case using b r by (subst run_attempts.simps) (cases fl; simp)
qed

lemma finally_runs: "runs n s r \<Longrightarrow> (\<And>s. runs n s (fin s)) \<Longrightarrow> runs n s (finally_block fin r)"
proof -
  assume r: "runs n s r" and fin: "\<And>s. runs n s (fin s)"
  obtain t fl where t: "r = (t, fl)" by (cases r)
  obtain u gl where u: "fin t = (u, gl)" by fastforce
  have "runs n s (u, gl)" using runs_trans [of n s t fl "fin t"] r t fin [of t] u by simp
  then show ?thesis using t u runs_fst by (cases gl) (auto simp: finally_block_def)
qed

lemma error_event_runs: "runs n s (t, x) \<Longrightarrow> runs n s (event l c i t, y)"
  using runs_trans [OF _ runs_quiet [OF quiet_event]] runs_fst by metis

text \<open>A scope: the driver is pushed for the body, and popped as it is still on top.\<close>

definition pushed :: "driver \<Rightarrow> 'w session \<Rightarrow> 'w session" where
  "pushed d s = s\<lparr>rs_drivers := Some d # rs_drivers s\<rparr>"

lemma scoped_core:
  assumes body: "\<And>s. runs n s (body s)"
    and s: "well_formed (pushed d s)" "n \<le> length (rs_frames s)" "rs_drivers s \<noteq> []"
  shows "\<exists>u. keeps (pushed d s) u \<and> fst (scoped_body d i body s) = u\<lparr>rs_drivers := rs_drivers s\<rparr>"
proof -
  define s0 where "s0 = event ''info'' ''target'' i (pushed d s)"
  have q0: "quiet_step (pushed d s) s0" unfolding s0_def by (rule quiet_event)
  obtain s1 fl where b: "body s0 = (s1, fl)" by fastforce
  have "runs n (pushed d s) (s1, fl)" using runs_after_quiet [OF q0 body] b by simp
  then have r2: "runs n (pushed d s) (if fl = Next then s1 else event ''error'' ''target'' i s1, ())"
    using error_event_runs runs_fst by (cases "fl = Next") auto
  define s2 where "s2 = (if fl = Next then s1 else event ''error'' ''target'' i s1)"
  have k: "keeps (pushed d s) s2" using r2 s unfolding runs_def s2_def by (simp add: pushed_def)
  then have "rs_drivers s2 = Some d # rs_drivers s" by (simp add: keeps_def same_stacks_def pushed_def)
  then have f: "fst (scoped_body d i body s) = event ''info'' ''target'' i (s2\<lparr>rs_drivers := rs_drivers s\<rparr>)"
    using b s(3) by (simp add: scoped_body_def s0_def s2_def pushed_def)
  have "keeps (pushed d s) (event ''info'' ''target'' i s2)"
    by (rule keeps_quiet [OF k quiet_event])
  moreover have "fst (scoped_body d i body s) = (event ''info'' ''target'' i s2)\<lparr>rs_drivers := rs_drivers s\<rparr>"
    using f by (simp add: event_def)
  ultimately show ?thesis by blast
qed

lemma driver_keys_Cons: "driver_keys (Some (t, n) # ds) = insert (target_key t) (driver_keys ds)"
  by (auto simp: driver_keys_def)

lemma pushed_well_formed: "well_formed s \<Longrightarrow> well_formed (pushed d s)"
  by (cases d) (auto simp: well_formed_def pushed_def driver_keys_Cons)

lemma scoped_runs:
  assumes body: "\<And>s. runs n s (body s)"
  shows "runs n s (scoped_body d i body s)"
  unfolding runs_def
proof (intro impI, elim conjE)
  assume s: "well_formed s" "n \<le> length (rs_frames s)"
  then have "rs_drivers s \<noteq> []" by (simp add: well_formed_def)
  with scoped_core [OF body pushed_well_formed [OF s(1)] s(2)] obtain u where
    "keeps (pushed d s) u" "fst (scoped_body d i body s) = u\<lparr>rs_drivers := rs_drivers s\<rparr>" by blast
  then show "keeps s (fst (scoped_body d i body s))"
    using s(1) by (simp add: keeps_def same_stacks_def well_formed_def pushed_def)
qed

lemma capture_runs:
  assumes body: "\<And>s. runs n s (body s)"
  shows "runs n s (capture_then X d i body s)"
  unfolding capture_then_def capture_def Let_def prod.case
  by (rule runs_after_quiet [OF quiet_updates(1)], split sum.split)
    (auto intro: runs_quiet [OF quiet_event] scoped_runs [OF body])

text \<open>A fresh target is owned for the scope alone.\<close>

lemma find_driver_None: "find_driver t s = None \<Longrightarrow> target_key t \<notin> driver_keys (rs_drivers s)"
proof
  assume "find_driver t s = None" "target_key t \<in> driver_keys (rs_drivers s)"
  then obtain n where "Some (t, n) \<in> set (rs_drivers s)" by (auto simp: driver_keys_def target_key_def)
  then have "filter (\<lambda>d. \<exists>n. d = Some (t, n)) (rs_drivers s) \<noteq> []" by (auto simp: filter_empty_conv)
  moreover have "\<forall>d \<in> set (filter (\<lambda>d. \<exists>n. d = Some (t, n)) (rs_drivers s)). d \<noteq> None" by auto
  ultimately show False using \<open>find_driver t s = None\<close>
    unfolding find_driver_def by (cases "filter (\<lambda>d. \<exists>n. d = Some (t, n)) (rs_drivers s)") auto
qed

lemma make_driver_quiet:
  assumes "make_driver X t kind s = (u, r)"
  shows "quiet_step s u"
  using assms by (auto simp: make_driver_def Let_def quiet_step_def same_stacks_def split: if_splits sum.splits bool.splits)

lemma make_driver_target: "make_driver X t kind s = (u, Inr d) \<Longrightarrow> fst d = t"
  by (auto simp: make_driver_def Let_def fail_with_def split: if_splits sum.splits bool.splits)

lemma fresh_runs:
  fixes s :: "'w session"
  assumes body: "\<And>s. runs n s (body s)" and none: "find_driver t s = None"
  shows "runs n s (fresh_scope X t kind i body s)"
  unfolding runs_def
proof (intro impI, elim conjE)
  assume s: "well_formed s" "n \<le> length (rs_frames s)"
  have new: "target_key t \<notin> rs_owned s" using find_driver_None [OF none] s(1) by (auto simp: well_formed_def)
  define own where "own = (\<lambda>u :: 'w session. u\<lparr>rs_owned := insert (target_key t) (rs_owned s)\<rparr>)"
  define release where "release = (\<lambda>u :: 'w session. u\<lparr>rs_owned := rs_owned u - {target_key t}\<rparr>)"
  obtain s2 r where m: "make_driver X t kind (own s) = (s2, r)" by fastforce
  have q2: "quiet_step (own s) s2" by (rule make_driver_quiet [OF m])
  have released: "keeps s (release u)" if "quiet_step s2 u" for u
    using quiet_trans [OF q2 that] s(1) new
    by (auto simp: quiet_step_def keeps_def same_stacks_def own_def release_def well_formed_def)
  show "keeps s (fst (fresh_scope X t kind i body s))"
  proof (cases "h_busy (m_host X) (rs_world s) (target_key t)")
    case True
    then show ?thesis using new keeps_quiet [OF keeps_refl [OF s(1)] quiet_event] by (simp add: fresh_scope_def)
  next
    case False
    then have free: "\<not> (target_key t \<notin> rs_owned s \<and> h_busy (m_host X) (rs_world s) (target_key t))" by simp
    have f: "fresh_scope X t kind i body s =
      (case make_driver X t kind (own s) of
         (s2, Inl e) \<Rightarrow> (release (event ''error'' ''target'' i s2), Raised e)
       | (s2, Inr d) \<Rightarrow>
           (case capture_then X d i body s2 of
              (s3, fl) \<Rightarrow> (release (s3\<lparr>rs_world := h_close (m_host X) (rs_world s3) d\<rparr>), fl)))"
      unfolding fresh_scope_def if_not_P [OF free] own_def release_def Let_def ..
    show ?thesis
    proof (cases r)
      case (Inl e)
      then show ?thesis using f m released [OF quiet_event] by simp
    next
      case (Inr d)
      then have d: "fst d = t" using make_driver_target m by simp
      obtain s3 c where c: "capture X d s2 = (s3, c)" by fastforce
      have q3: "quiet_step s2 s3" using c quiet_updates(1) by (auto simp: capture_def Let_def)
      show ?thesis
      proof (cases c)
        case (Inl e)
        then show ?thesis using f m Inr c released [OF quiet_trans [OF quiet_trans [OF q3 quiet_event] quiet_updates(1)]]
          by (simp add: capture_then_def)
      next
        case (Inr u)
        have o: "quiet_step (own s) s3" by (rule quiet_trans [OF q2 q3])
        then have w: "well_formed (pushed d s3)" "n \<le> length (rs_frames s3)" "rs_drivers s3 = rs_drivers s"
          "rs_owned s3 = insert (target_key t) (rs_owned s)"
          using s d by (cases d; auto simp: quiet_step_def same_stacks_def own_def well_formed_def pushed_def driver_keys_Cons)+
        then obtain v where v: "keeps (pushed d s3) v" "fst (scoped_body d i body s3) = v\<lparr>rs_drivers := rs_drivers s\<rparr>"
          using scoped_core [OF body w(1,2), of i] s(1) by (auto simp: well_formed_def)
        have "fst (fresh_scope X t kind i body s) =
          release ((v\<lparr>rs_drivers := rs_drivers s\<rparr>)\<lparr>rs_world := h_close (m_host X) (rs_world v) d\<rparr>)"
          using f m \<open>r = Inr d\<close> c Inr v(2) by (simp add: capture_then_def case_prod_unfold)
        then show ?thesis using v(1) o s(1) new
          by (auto simp: keeps_def quiet_step_def same_stacks_def own_def release_def well_formed_def pushed_def
              intro: frames_grow_trans prefix_order.trans)
      qed
    qed
  qed
qed

lemma enter_target_runs:
  assumes body: "\<And>s. runs n s (body s)"
  shows "runs n s (enter_target X t i body s)"
  unfolding enter_target_def Let_def
  by (rule runs_after_quiet [OF quiet_poll])
    (auto intro!: runs_after_quiet [OF quiet_event body] capture_runs [OF body] fresh_runs [OF body]
      split: if_split option.split)

lemma run_target_scope_runs: "(\<And>s. runs n s (body s)) \<Longrightarrow> runs n s (run_target_scope X f i v body s)"
  unfolding run_target_scope_def Let_def by (auto intro!: runs_with_value enter_target_runs)

lemma set_put_listener: "set (put_listener l ls) \<subseteq> insert l (set ls)"
  by (induction ls) auto

lemma register_runs: "Suc f \<le> n \<Longrightarrow> runs n s (register_listener X f i name sender receive c h args s)"
proof -
  assume f: "Suc f \<le> n"
  have "runs n s (event ''info'' ''message'' i (s\<lparr>rs_listeners := put_listener l (rs_listeners s)\<rparr>), Next)"
    if "ln_frame l = f" for l
    using that f set_put_listener [of l "rs_listeners s"]
    by (auto simp: runs_def keeps_def same_stacks_def well_formed_def event_def)
  then show ?thesis unfolding register_listener_def by (auto intro!: runs_with_value)
qed

section \<open>Every program keeps the law\<close>

context lawful_caller begin

lemma block_end_runs: "runs n s r \<Longrightarrow> runs n s (block_end X call f ins r)"
proof -
  assume r: "runs n s r"
  obtain t fl where t: "r = (t, fl)" by (cases r)
  have "runs n t (let s1 = poll X t in
      if rs_cancel s1 then (mark_cancelled s1, Next)
      else checkpoint X call f (if ins = [] then rs_current s1 else ins_id (last ins)) False s1)"
    unfolding Let_def
    by (rule runs_after_quiet [OF quiet_poll]) (auto intro: checkpoint_runs runs_quiet [OF quiet_mark])
  then have "runs n s (let s1 = poll X t in
      if rs_cancel s1 then (mark_cancelled s1, Next)
      else checkpoint X call f (if ins = [] then rs_current s1 else ins_id (last ins)) False s1)"
    using runs_trans [of n s t fl] r t by blast
  moreover have "runs n s (t, Next)" using runs_fst [of n s t fl Next] r t by simp
  ultimately show ?thesis using r t by (cases fl) (simp_all add: block_end_def)
qed

lemma items_runs:
  "(\<And>i s. i \<in> set ins \<Longrightarrow> runs n s (exec_instruction X call f i s)) \<Longrightarrow> runs n s (exec_items X call f ins s)"
proof (induction ins arbitrary: s)
  case (Cons i ins)
  have rest: "runs n t (exec_items X call f ins (show_variables f t))" for t
    by (rule runs_after_quiet [OF quiet_show Cons.IH]) (simp add: Cons.prems)
  have first: "runs n t (and_then (exec_instruction X call f i (t\<lparr>rs_current := ins_id i\<rparr>))
      (\<lambda>s3. exec_items X call f ins (show_variables f s3)))" for t
    by (rule runs_after_quiet [OF quiet_updates(2)], rule runs_next [OF Cons.prems rest]) simp
  have polled: "runs n t (let s2 = poll X t in
      if rs_cancel s2 then (mark_cancelled s2, Leave)
      else and_then (exec_instruction X call f i (s2\<lparr>rs_current := ins_id i\<rparr>))
        (\<lambda>s3. exec_items X call f ins (show_variables f s3)))" for t
    unfolding Let_def
    by (rule runs_after_quiet [OF quiet_poll [of t X]]) (simp add: first runs_quiet [OF quiet_mark])
  have "runs n t (and_then (checkpoint X call f (ins_id i) True t) (\<lambda>s1.
      let s2 = poll X s1 in
      if rs_cancel s2 then (mark_cancelled s2, Leave)
      else and_then (exec_instruction X call f i (s2\<lparr>rs_current := ins_id i\<rparr>))
        (\<lambda>s3. exec_items X call f ins (show_variables f s3))))" for t
    by (rule runs_next [OF checkpoint_runs polled])
  then show ?case
    unfolding exec_items.simps Let_def
    by (intro runs_after_quiet [OF quiet_poll [of s X]])
      (auto intro: runs_quiet [OF quiet_trans [OF quiet_mark quiet_event]])
qed simp

lemma block_runs:
  "(\<And>i s. i \<in> set ins \<Longrightarrow> runs n s (exec_instruction X call f i s)) \<Longrightarrow>
     runs n s (block_end X call f ins (exec_items X call f ins s))"
  by (intro block_end_runs items_runs)

lemma branches_runs:
  "\<forall>b \<in> set bs. \<forall>i \<in> set (ib_body b). \<forall>s. runs n s (exec_instruction X call f i s) \<Longrightarrow>
   \<forall>i \<in> set oth. \<forall>s. runs n s (exec_instruction X call f i s) \<Longrightarrow>
     runs n s (exec_branches X call f bs oth s)"
  by (induction bs) (auto intro!: runs_with_value block_runs)

lemma catch_runs:
  "\<forall>c \<in> set cs. \<forall>i \<in> set (ct_body c). \<forall>s. runs n s (exec_instruction X call f i s) \<Longrightarrow>
     runs n s (exec_catch X call f e cs s)"
  by (induction cs) (auto intro!: block_end_runs runs_trans [OF bind_slot_runs items_runs])

lemma try_runs:
  assumes body: "\<And>s. runs n s (body s)" and fin: "\<And>s. runs n s (fin s)" and handler: "\<And>e s. runs n s (handler e s)"
  shows "runs n s (finally_block fin (case run_attempts m (retry_pause X call f i q) body s of
      (s1, Raised e) \<Rightarrow> handler e s1 | r \<Rightarrow> r))"
proof (rule finally_runs [OF _ fin])
  obtain t fl where r: "run_attempts m (retry_pause X call f i q) body s = (t, fl)" by fastforce
  have "runs n t (retry_pause X call f i q t)" for t
    unfolding retry_pause_def Let_def by (rule runs_after_quiet [OF quiet_event wait_rounds_runs])
  then have a: "runs n s (t, fl)" using run_attempts_runs [of n body, OF body] r by metis
  have "runs n s (handler e t)" for e using runs_trans [OF a handler] .
  then show "runs n s (case run_attempts m (retry_pause X call f i q) body s of
      (s1, Raised e) \<Rightarrow> handler e s1 | r \<Rightarrow> r)" using a r by (cases fl) simp_all
qed

lemma instruction_runs:
  assumes f: "Suc f \<le> n"
  shows "\<forall>s. runs n s (exec_instruction X call f i s)"
    "\<forall>i \<in> set (ib_body b). \<forall>s. runs n s (exec_instruction X call f i s)"
    "\<forall>i \<in> set (ct_body c). \<forall>s. runs n s (exec_instruction X call f i s)"
proof (induction i and b and c)
  case (ITry i body retry catchers fin)
  have "runs n s (finally_block (\<lambda>s. block_end X call f fin (exec_items X call f fin s))
      (case run_attempts (nat m) (retry_pause X call f i q)
          (\<lambda>s. block_end X call f body (exec_items X call f body s)) s of
         (s1, Raised e) \<Rightarrow> exec_catch X call f e catchers s1 | r \<Rightarrow> r))" for s m q
    using ITry by (intro try_runs block_runs catch_runs) blast+
  then show ?case by (auto intro!: runs_with_value)
qed (auto intro!: runs_with_value assign_local_runs assign_project_runs run_fail_runs store_result_runs
    exec_call_runs register_runs [OF f] run_target_scope_runs block_runs branches_runs run_while_runs
    run_times_runs run_items_runs bind_item_runs bind_entry_runs
    simp: run_repeat_def run_for_each_def run_for_each_map_def split: pyval.split)

lemma exec_block_runs: "Suc f \<le> n \<Longrightarrow> runs n s (exec_block X call f ins s)"
  unfolding exec_block_def using instruction_runs(1) by (intro block_runs) blast

lemma function_result_runs: "runs n s r \<Longrightarrow> runs n s (function_result X t r)"
proof -
  assume r: "runs n s r"
  obtain u fl where u: "r = (u, fl)" by (cases r)
  have polled: "runs n u (let s1 = poll X u in
      if rs_cancel s1 \<or> rs_status s1 = Cancelled \<or> silent_return t then (s1, Returned PNone)
      else with_value (conforms (m_eval X) PNone t) s1
        (\<lambda>ok. (s1, if ok then Returned PNone else failure ''runtime.failure'')))"
    unfolding Let_def
    by (rule runs_after_quiet [OF quiet_poll [of u X]]) (auto intro!: runs_with_value)
  have "runs n u (function_result X t r)"
    unfolding function_result_def u prod.case by (cases fl) (auto intro!: runs_with_value polled)
  then show ?thesis using runs_trans [of n s u fl] r u by blast
qed

lemma new_frame: "keeps s t" if "well_formed s" "t = s\<lparr>rs_frames := rs_frames s @ [locals]\<rparr>"
  using that by (auto simp: keeps_def same_stacks_def well_formed_def frames_grow_def nth_append)

lemma function_body_runs: "runs 0 s (function_body X call g args s)"
proof -
  have "runs 0 s (function_result X t (exec_block X call (length (rs_frames s)) ins
      (s\<lparr>rs_frames := rs_frames s @ [locals]\<rparr>)))" for t ins locals
  proof (unfold runs_def, intro impI, elim conjE)
    assume w: "well_formed s"
    let ?t = "s\<lparr>rs_frames := rs_frames s @ [locals]\<rparr>" and ?f = "length (rs_frames s)"
    have k: "keeps s ?t" by (rule new_frame [OF w refl])
    have "runs (Suc ?f) ?t (function_result X t (exec_block X call ?f ins ?t))"
      by (intro function_result_runs exec_block_runs) simp
    then have "keeps ?t (fst (function_result X t (exec_block X call ?f ins ?t)))"
      using k by (simp add: runs_def keeps_def)
    with k show "keeps s (fst (function_result X t (exec_block X call ?f ins ?t)))" by (rule keeps_trans)
  qed
  then show ?thesis
    unfolding function_body_def Let_def by (auto intro!: runs_with_value split: option.split)
qed

lemma enter_function_runs: "runs 0 s (enter_function X call depth g args s)"
proof (unfold runs_def, intro impI, elim conjE)
  assume w: "well_formed s"
  let ?s = "s\<lparr>rs_calls := (g, depth) # rs_calls s\<rparr>"
  obtain t r where b: "function_body X call g args ?s = (t, r)" by fastforce
  have "well_formed ?s" using w by (simp add: well_formed_def)
  then have "keeps ?s t" using function_body_runs [of ?s g args] b by (simp add: runs_def)
  then show "keeps s (fst (enter_function X call depth g args s))"
    using b w by (simp add: enter_function_def keeps_def same_stacks_def well_formed_def)
qed

end

text \<open>The calls of the model keep the law at every depth.\<close>

lemma call_at_runs: "runs 0 s (call_at X n g args s)"
proof (induction n arbitrary: g args s)
  case (Suc n)
  then show ?case by (simp add: lawful_caller.enter_function_runs lawful_caller.intro)
qed simp

interpretation calls: lawful_caller X "call_at X n" for X n
  by unfold_locales (rule call_at_runs)

lemma execute_function_keeps:
  "well_formed s \<Longrightarrow> keeps s (fst (execute_function X depth g args s))"
  using calls.call_any [of 0 s X "Suc max_depth - depth" g args] by (simp add: execute_function_def runs_def)

text \<open>A call deeper than the limit fails at once and changes nothing.\<close>

lemma too_deep: "max_depth < depth \<Longrightarrow> execute_function X depth g args s = (s, failure ''runtime.call_depth_exceeded'')"
  by (simp add: execute_function_def Suc_le_eq [symmetric])

section \<open>Whole runs\<close>

lemma run_session_terminal: "rs_status (run_session X entry args s) \<in> {Completed, Failed, Cancelled}"
  by (auto simp: run_session_def close_session_def event_def Let_def split: prod.split flow.split if_splits)

lemma run_session_closes:
  assumes "well_formed s"
  shows "rs_drivers (run_session X entry args s) = [] \<and> rs_owned (run_session X entry args s) = rs_owned s - {rs_home s} \<and>
    rs_calls (run_session X entry args s) = rs_calls s"
proof -
  let ?s = "event ''info'' ''runtime'' [] (s\<lparr>rs_status := Running\<rparr>)"
  obtain t r where e: "execute_function X 0 entry args ?s = (t, r)" by fastforce
  have "well_formed ?s" using assms by (simp add: well_formed_def event_def)
  then have "keeps ?s t" using execute_function_keeps [of ?s X 0 entry args] e by simp
  then have "rs_owned t = rs_owned s \<and> rs_home t = rs_home s \<and> rs_calls t = rs_calls s"
    by (simp add: keeps_def same_stacks_def event_def)
  then show ?thesis using e
    by (cases r) (simp_all add: run_session_def close_session_def event_def Let_def poll_def)
qed

end
