(* ===== verification/Runtime_Safety.thy ===== *)
theory Runtime_Safety
  imports Error_Sources Runtime_Laws
begin

text \<open>
  When a run cannot fail with a followed error: every value of the program is evaluated in a
  frame that has the names it reads, every call and every listener's handler is one the caller
  may make. The condition is stated on instructions (\<open>safe_items\<close>), the guarantee for any caller
  that keeps it (\<open>guarded_caller\<close>); jumps outside a loop are excluded along the way.
\<close>

section \<open>The condition on instructions\<close>

text \<open>
  What is followed and allowed: the error, the evaluator, the project variables that are set, the
  functions a call may name and those a listener may name.
\<close>

record policy =
  pl_error :: string
  pl_env :: eval_env
  pl_vars :: "string set"
  pl_callee :: "string \<Rightarrow> bool"
  pl_handler :: "string \<Rightarrow> bool"

definition covers :: "policy \<Rightarrow> string set \<Rightarrow> pyval \<Rightarrow> bool" where
  "covers K A w \<longleftrightarrow> (\<forall>sc. A \<subseteq> dom (sc_locals sc) \<longrightarrow> pl_vars K \<subseteq> dom (sc_project sc) \<longrightarrow>
     never (pl_error K) (eval_value (pl_env K) sc w))"

lemma covers_mono: "covers K A w \<Longrightarrow> A \<subseteq> A' \<Longrightarrow> covers K A' w"
  by (auto simp: covers_def)

definition covers_all :: "policy \<Rightarrow> string set \<Rightarrow> (string \<times> pyval) list \<Rightarrow> bool" where
  "covers_all K A args \<longleftrightarrow> (\<forall>(k, v) \<in> set args. covers K A v)"

definition slot_names :: "string option \<Rightarrow> string set" where
  "slot_names slot = set_option slot - {[]}"

fun ins_writes :: "instruction \<Rightarrow> string set" where
  "ins_writes (ICall i op fn args platforms callee slot) = slot_names slot"
| "ins_writes (IAssignLocal i k v) = {k}"
| "ins_writes _ = {}"

lemma branch_sizes: "b \<in> set bs \<Longrightarrow> size_list size (ib_body b) < size_list size bs"
  by (erule size_list_estimation) (cases b, simp)

lemma catcher_sizes: "c \<in> set cs \<Longrightarrow> size_list size (ct_body c) < size_list size cs"
  by (erule size_list_estimation) (cases c, simp)

function safe_items :: "policy \<Rightarrow> bool \<Rightarrow> string set \<Rightarrow> instruction list \<Rightarrow> bool"
and safe_instruction :: "policy \<Rightarrow> bool \<Rightarrow> string set \<Rightarrow> instruction \<Rightarrow> bool" where
  "safe_items K l A [] \<longleftrightarrow> True"
| "safe_items K l A (i # is) \<longleftrightarrow> safe_instruction K l A i \<and> safe_items K l (A \<union> ins_writes i) is"
| "safe_instruction K l A (ICall i op fn args platforms callee slot) \<longleftrightarrow>
     covers_all K A args \<and>
     (op = ''call.project'' \<longrightarrow> pl_callee K (case callee of None \<Rightarrow> [] | Some g \<Rightarrow> g))"
| "safe_instruction K l A (IAssignLocal i k v) \<longleftrightarrow> covers K A v"
| "safe_instruction K l A (IAssignProject i k v) \<longleftrightarrow> covers K A v"
| "safe_instruction K l A (IIf i c th bs oth) \<longleftrightarrow>
     covers K A c \<and> safe_items K l A th \<and> safe_items K l A oth \<and>
     (\<forall>b \<in> set bs. covers K A (ib_condition b) \<and> safe_items K l A (ib_body b))"
| "safe_instruction K l A (IRepeat i v body) \<longleftrightarrow> covers K A v \<and> safe_items K True A body"
| "safe_instruction K l A (IWhile i v body) \<longleftrightarrow> covers K A v \<and> safe_items K True A body"
| "safe_instruction K l A (IForEach i v item index body) \<longleftrightarrow>
     covers K A v \<and> safe_items K True (A \<union> slot_names item \<union> slot_names index) body"
| "safe_instruction K l A (IForEachMap i v key val index body) \<longleftrightarrow>
     covers K A v \<and> safe_items K True (A \<union> slot_names key \<union> slot_names val \<union> slot_names index) body"
| "safe_instruction K l A (IBreak i) \<longleftrightarrow> l"
| "safe_instruction K l A (IContinue i) \<longleftrightarrow> l"
| "safe_instruction K l A (IReturn i v) \<longleftrightarrow> (\<forall>w \<in> set_option v. covers K A w)"
| "safe_instruction K l A (IFail i error_id m d) \<longleftrightarrow>
     error_id \<noteq> pl_error K \<and> covers K A m \<and> (\<forall>w \<in> set_option d. covers K A w)"
| "safe_instruction K l A (ITry i body retry catchers fin) \<longleftrightarrow>
     (\<forall>(m, q) \<in> set_option retry. covers K A m \<and> covers K A q) \<and> safe_items K l A body \<and> safe_items K l A fin \<and>
     (\<forall>c \<in> set catchers. safe_items K l (A \<union> slot_names (ct_error_slot c)) (ct_body c))"
| "safe_instruction K l A (ITargetScope i v body) \<longleftrightarrow> covers K A v \<and> safe_items K l A body"
| "safe_instruction K l A (IListen i name sender receive condition handler args) \<longleftrightarrow>
     covers K A name \<and> (\<forall>w \<in> set_option sender. covers K A w) \<and>
     (\<forall>w \<in> set_option condition. covers K (insert receive A) w) \<and> covers_all K (insert receive A) args \<and>
     pl_handler K handler"
  by pat_completeness auto
termination
  by (relation "measure (\<lambda>p. case p of
      Inl (K, l, A, ins) \<Rightarrow> size_list size ins
    | Inr (K, l, A, i) \<Rightarrow> size i)")
    (auto dest!: branch_sizes catcher_sizes)

section \<open>The guarantee\<close>

text \<open>The listeners a session has registered evaluate in their frames.\<close>

definition sound_listener :: "policy \<Rightarrow> 'w session \<Rightarrow> listener \<Rightarrow> bool" where
  "sound_listener K s l \<longleftrightarrow> ln_frame l < length (rs_frames s) \<and>
     (\<forall>c \<in> set_option (ln_condition l). covers K (insert (ln_receive l) (dom (rs_frames s ! ln_frame l))) c) \<and>
     covers_all K (insert (ln_receive l) (dom (rs_frames s ! ln_frame l))) (ln_arguments l) \<and>
     pl_handler K (ln_handler l)"

definition heard :: "policy \<Rightarrow> 'w session \<Rightarrow> bool" where
  "heard K s \<longleftrightarrow> (\<forall>l \<in> set (rs_listeners s). sound_listener K s l)"

definition at_rest :: "policy \<Rightarrow> bool \<Rightarrow> 'w session \<Rightarrow> bool" where
  "at_rest K D s \<longleftrightarrow> well_formed s \<and> pl_vars K \<subseteq> dom (rs_project s) \<and> rs_dispatching s = D \<and> heard K s"

definition fit :: "policy \<Rightarrow> bool \<Rightarrow> nat \<Rightarrow> string set \<Rightarrow> 'w session \<Rightarrow> bool" where
  "fit K D f A s \<longleftrightarrow> at_rest K D s \<and> f < length (rs_frames s) \<and> A \<subseteq> dom (rs_frames s ! f)"

text \<open>How a step may end: no followed error but a blamed one, and a jump only inside a loop.\<close>

definition flow_ok :: "policy \<Rightarrow> (rt_error \<Rightarrow> bool) \<Rightarrow> bool \<Rightarrow> flow \<Rightarrow> bool" where
  "flow_ok K B l fl \<longleftrightarrow> (\<forall>e. fl = Raised e \<longrightarrow> rt_error_id e = pl_error K \<longrightarrow> B e) \<and> (fl = Broke \<or> fl = Continued \<longrightarrow> l)"

definition guarded :: "policy \<Rightarrow> (rt_error \<Rightarrow> bool) \<Rightarrow> bool \<Rightarrow> 'w session \<times> flow \<Rightarrow> bool" where
  "guarded K B l r \<longleftrightarrow> heard K (fst r) \<and> flow_ok K B l (snd r)"

text \<open>The judgement for a step in frame \<open>f\<close>, where the locals \<open>A\<close> are bound.\<close>

definition safe ::
  "policy \<Rightarrow> (rt_error \<Rightarrow> bool) \<Rightarrow> bool \<Rightarrow> nat \<Rightarrow> string set \<Rightarrow> bool \<Rightarrow> 'w session \<Rightarrow> 'w session \<times> flow \<Rightarrow> bool" where
  "safe K B D f A l s r \<longleftrightarrow> (fit K D f A s \<longrightarrow> keeps s (fst r) \<and> guarded K B l r)"

text \<open>What the host does is not one of the followed errors.\<close>

definition honest_machine :: "string \<Rightarrow> 'w machine \<Rightarrow> bool" where
  "honest_machine b X \<longleftrightarrow> honest_env b (m_eval X) \<and> (\<forall>v. never b (tx_dumps (m_text X) v)) \<and>
     (\<forall>w d op fn vs. never b (snd (h_call (m_host X) w d op fn vs))) \<and>
     (\<forall>w g vs locals. never b (snd (h_extension (m_host X) w g vs locals))) \<and>
     (\<forall>w v p. never b (h_until (m_host X) w v p)) \<and> (\<forall>w i j. never b (snd (h_random (m_host X) w i j))) \<and>
     (\<forall>w t. never b (snd (h_create (m_host X) w t))) \<and> (\<forall>w d. never b (snd (h_capture (m_host X) w d))) \<and>
     (\<forall>w n who. never b (h_check (m_host X) w n who)) \<and> (\<forall>w n who c. never b (h_peek (m_host X) w n who c)) \<and>
     (\<forall>w m n who. never b (snd (h_claim (m_host X) w m n who)))"

lemma flow_ok_plain [simp]:
  "flow_ok K B l Next" "flow_ok K B l Leave" "flow_ok K B l (Returned v)" "flow_ok K B True Broke" "flow_ok K B True Continued"
  "flow_ok K B l Broke \<longleftrightarrow> l" "flow_ok K B l Continued \<longleftrightarrow> l"
  "flow_ok K B l (Raised e) \<longleftrightarrow> (rt_error_id e = pl_error K \<longrightarrow> B e)"
  by (auto simp: flow_ok_def)

lemma flow_ok_mono: "flow_ok K B l fl \<Longrightarrow> l \<longrightarrow> l' \<Longrightarrow> flow_ok K B l' fl"
  by (auto simp: flow_ok_def)

lemma covers_all_mono: "covers_all K A args \<Longrightarrow> A \<subseteq> A' \<Longrightarrow> covers_all K A' args"
  using covers_mono unfolding covers_all_def by fastforce

lemma sound_later:
  assumes "sound_listener K s l" "frames_grow (rs_frames s) (rs_frames t)"
  shows "sound_listener K t l"
proof -
  have "insert (ln_receive l) (dom (rs_frames s ! ln_frame l)) \<subseteq> insert (ln_receive l) (dom (rs_frames t ! ln_frame l))"
    using assms by (simp add: sound_listener_def frames_grow_def insert_mono subset_insertI2)
  then show ?thesis
    using assms covers_mono covers_all_mono unfolding sound_listener_def frames_grow_def by (meson less_le_trans)
qed

lemma heard_later:
  "heard K s \<Longrightarrow> rs_listeners t = rs_listeners s \<Longrightarrow> frames_grow (rs_frames s) (rs_frames t) \<Longrightarrow> heard K t"
  unfolding heard_def using sound_later [of K s _ t] by simp

lemma fit_later:
  assumes "fit K D f A s" "keeps s t" "heard K t"
  shows "fit K D f A t"
proof -
  have g: "frames_grow (rs_frames s) (rs_frames t)" using assms(2) by (simp add: keeps_def)
  have f: "f < length (rs_frames s)" "A \<subseteq> dom (rs_frames s ! f)" using assms(1) by (simp_all add: fit_def)
  then have "f < length (rs_frames t)" "A \<subseteq> dom (rs_frames t ! f)"
    using g unfolding frames_grow_def by (meson less_le_trans order_trans)+
  moreover have "pl_vars K \<subseteq> dom (rs_project t)"
    using assms by (meson fit_def at_rest_def keeps_def order_trans)
  then have "at_rest K D t" using assms by (simp add: fit_def at_rest_def keeps_def same_stacks_def)
  ultimately show ?thesis by (simp add: fit_def)
qed

lemma safe_keeps:
  assumes "runs (Suc f) s r" "fit K D f A s \<Longrightarrow> guarded K B l r"
  shows "safe K B D f A l s r"
  using assms by (simp add: safe_def runs_def fit_def at_rest_def)

lemma guarded_quiet:
  assumes "quiet_step s t" "heard K s" "flow_ok K B l fl"
  shows "guarded K B l (t, fl)"
  using assms heard_later [of K s t] by (simp add: guarded_def quiet_step_def)

lemma safe_quiet: "quiet_step s t \<Longrightarrow> flow_ok K B l fl \<Longrightarrow> safe K B D f A l s (t, fl)"
  by (rule safe_keeps [OF runs_quiet]) (auto simp: fit_def at_rest_def intro: guarded_quiet)

lemma safe_here: "flow_ok K B l fl \<Longrightarrow> safe K B D f A l s (s, fl)"
  by (rule safe_quiet [OF quiet_refl])

lemma safe_choice: "safe K B D f A l s x \<Longrightarrow> safe K B D f A l s y \<Longrightarrow> safe K B D f A l s (if c then x else y)"
  by simp

text \<open>After a step that ended as it may, the next one starts where it is fit to.\<close>

lemma safe_then:
  assumes "safe K B D f A l' s (t, fl)" "flow_ok K B l' fl \<Longrightarrow> safe K B D f A l t q"
  shows "safe K B D f A l s q"
  using assms fit_later keeps_trans unfolding safe_def guarded_def by (metis fst_conv snd_conv)

lemma safe_guarded: "(fit K D f A s \<Longrightarrow> safe K B D f A l s r) \<Longrightarrow> safe K B D f A l s r"
  by (auto simp: safe_def)

lemma safe_after_quiet: "quiet_step s t \<Longrightarrow> safe K B D f A l t q \<Longrightarrow> safe K B D f A l s q"
  using safe_then [OF safe_quiet [of s t K B l Next]] by simp

lemma safe_next:
  assumes "safe K B D f A l s r" "\<And>s1. r = (s1, Next) \<Longrightarrow> safe K B D f A l s1 (k s1)"
  shows "safe K B D f A l s (and_then r k)"
proof -
  obtain t fl where r: "r = (t, fl)" by (cases r)
  show ?thesis
  proof (cases "fl = Next")
    case True
    then show ?thesis using safe_then [of K B D f A l s t Next] assms r by simp
  qed (use assms(1) r in simp)
qed

lemma safe_flow: "safe K B D f A l s (t, fl) \<Longrightarrow> (flow_ok K B l fl \<Longrightarrow> flow_ok K B l' fl') \<Longrightarrow> safe K B D f A l' s (t, fl')"
  by (simp add: safe_def guarded_def)

lemma safe_with_value:
  assumes "fit K D f A s \<Longrightarrow> never (pl_error K) r" "\<And>x. r = Inr x \<Longrightarrow> safe K B D f A l s (k x)"
  shows "safe K B D f A l s (with_value r s k)"
proof (rule safe_guarded)
  assume "fit K D f A s"
  then show "safe K B D f A l s (with_value r s k)"
    using assms by (cases r) (auto simp: never_def intro: safe_here)
qed

lemma safe_with_host:
  assumes "never (pl_error K) (snd r)" "\<And>x t. quiet_step s t \<Longrightarrow> safe K B D f A l t (k x t)"
  shows "safe K B D f A l s (with_host r s k)"
  unfolding with_host_def
  by (rule safe_after_quiet [OF quiet_updates(1)], rule safe_with_value [OF assms(1)], rule assms(2) [OF quiet_updates(1)])

text \<open>Binding more locals: what runs with them bound is safe where they were not.\<close>

lemma fit_slot:
  assumes "fit K D f A s"
  shows "fit K D f (insert k A) (set_slot f k v s)"
proof -
  have k: "keeps s (set_slot f k v s)" using runs_set_slot [of "Suc f" s f k v "()"] assms by (simp add: runs_def fit_def at_rest_def)
  have s: "heard K s" "f < length (rs_frames s)" using assms by (simp_all add: fit_def at_rest_def)
  have "rs_listeners (set_slot f k v s) = rs_listeners s" by (simp add: set_slot_def)
  moreover have "frames_grow (rs_frames s) (rs_frames (set_slot f k v s))" using k by (simp add: keeps_def)
  ultimately have "fit K D f A (set_slot f k v s)" by (intro fit_later [OF assms k] heard_later [OF s(1)])
  moreover have "k \<in> dom (rs_frames (set_slot f k v s) ! f)" using s(2) by (simp add: set_slot_def)
  ultimately show ?thesis by (simp add: fit_def)
qed

lemma safe_set_slot:
  assumes "safe K B D f (insert k A) l (set_slot f k v s) q"
  shows "safe K B D f A l s q"
proof (rule safe_guarded)
  assume s: "fit K D f A s"
  have "keeps s (set_slot f k v s)" using runs_set_slot [of "Suc f" s f k v "()"] s by (simp add: runs_def fit_def at_rest_def)
  then show "safe K B D f A l s q" using assms fit_slot [OF s] keeps_trans unfolding safe_def by blast
qed

lemma safe_subset: "safe K B D f A l s q \<Longrightarrow> A \<subseteq> A' \<Longrightarrow> safe K B D f A' l s q"
  unfolding safe_def fit_def by blast

lemma safe_bind_slot:
  assumes "safe K B D f (A \<union> slot_names slot) l (bind_slot f slot v s) q"
  shows "safe K B D f A l s q"
proof (cases "slot_missing slot")
  case True
  then show ?thesis using assms by (auto simp: bind_slot_def slot_missing_def slot_names_def)
next
  case False
  then obtain k where "slot = Some k" "k \<noteq> []" by (auto simp: slot_missing_def)
  then show ?thesis using assms safe_set_slot [of K B D f k A l v s q]
    by (simp add: bind_slot_def slot_names_def)
qed

section \<open>The interpreter under a guarded caller\<close>

text \<open>
  \<open>D\<close> is whether a message is being handled while the step runs. Then no other is dispatched;
  otherwise the handlers of the registered listeners may be called, as part of a dispatch.
\<close>

locale guarded_caller = lawful_caller X call for X :: "'w machine" and call :: "'w caller" +
  fixes K :: policy and B :: "rt_error \<Rightarrow> bool" and D :: bool
  assumes error: "pl_error K = ''runtime.variable_unset'' \<or> pl_error K = ''runtime.call_depth_exceeded''"
    and env: "pl_env K = m_eval X"
    and honest: "honest_machine (pl_error K) X"
    and call_guarded: "at_rest K D s \<Longrightarrow> pl_callee K g \<Longrightarrow> guarded K B False (call g args s)"
    and handler_guarded: "\<not> D \<Longrightarrow> at_rest K True s \<Longrightarrow> pl_handler K g \<Longrightarrow> guarded K B False (call g args s)"
    and call_ends: "snd (call g args s) \<noteq> Next"

sublocale guarded_caller \<subseteq> followed_error "pl_error K"
  by unfold_locales (rule error)

context guarded_caller begin

abbreviation ok where
  "ok \<equiv> safe K B D"

lemma failure_ok [simp]:
  "flow_ok K B l (failure i) \<longleftrightarrow> (i = pl_error K \<longrightarrow> B (RuntimeFailure i False PNone))"
  by (simp add: failure_def)

lemma failures [simp]:
  "pl_error K \<noteq> ''runtime.failure''" "pl_error K \<noteq> ''runtime.cancelled''" "pl_error K \<noteq> ''random.range_invalid''"
  "pl_error K \<noteq> ''target.missing''" "pl_error K \<noteq> ''target.capability_unsupported''"
  "pl_error K \<noteq> ''target.platform_unsupported''" "pl_error K \<noteq> ''message.instance_unknown''"
  "pl_error K \<noteq> ''runtime.project_variable_unknown''" "pl_error K \<noteq> ''runtime.project_variable_assignment_type''"
  "pl_error K \<noteq> ''runtime.project_variable_assignment_constraint''" "pl_error K \<noteq> ''target.busy''"
  "pl_error K \<noteq> ''target.reference_missing''" "pl_error K \<noteq> ''target.reference_invalid''"
  "pl_error K \<noteq> ''runtime.listener_contract_invalid''" "pl_error K \<noteq> ''target.driver_unavailable''"
  "pl_error K \<noteq> ''target.host_unsupported''" "pl_error K \<noteq> ''project.explicit_failure''"
  using error by auto

lemmas failures_sym [simp] = failures [symmetric]

lemma honest_env [simp]: "honest_env (pl_error K) (m_eval X)"
  using honest by (simp add: honest_machine_def)

lemma covered: "fit K D f A s \<Longrightarrow> covers K A w \<Longrightarrow> never (pl_error K) (value_in X f s w)"
  by (simp add: value_in_def covers_def env fit_def at_rest_def scope_of_def)

lemma covered_arguments:
  assumes "fit K D f A s" "covers_all K A args"
  shows "never (pl_error K) (eval_arguments X (rs_frames s ! f) s args)"
  unfolding eval_arguments_def
proof (rule never_rmap)
  fix p
  assume "p \<in> set args"
  then show "never (pl_error K) (case p of (k, v) \<Rightarrow>
      rbind (eval_value (m_eval X) (scope_of (rs_frames s ! f) s) v) (\<lambda>w. Inr (k, w)))"
    using assms covered [OF assms(1)] by (auto simp: covers_all_def value_in_def intro!: never_rbind)
qed

lemma covered_event:
  assumes l: "sound_listener K s l" and s: "pl_vars K \<subseteq> dom (rs_project s)"
    and t: "rs_frames t = rs_frames s" "rs_project t = rs_project s"
  shows "never (pl_error K) (listener_ready X l m t)"
    "never (pl_error K) (eval_arguments X (event_slots l m t) t (ln_arguments l))"
proof -
  have dom: "dom (event_slots l m t) = insert (ln_receive l) (dom (rs_frames s ! ln_frame l))"
    by (simp add: event_slots_def t)
  then have v: "never (pl_error K) (eval_value (m_eval X) (scope_of (event_slots l m t) t) w)"
    if "covers K (insert (ln_receive l) (dom (rs_frames s ! ln_frame l))) w" for w
    using that [unfolded covers_def, rule_format, of "scope_of (event_slots l m t) t"] dom s t
    by (simp add: env scope_of_def)
  show "never (pl_error K) (listener_ready X l m t)"
    using l v unfolding listener_ready_def sound_listener_def by (auto intro!: never_rbind split: option.split)
  show "never (pl_error K) (eval_arguments X (event_slots l m t) t (ln_arguments l))"
    unfolding eval_arguments_def
  proof (rule never_rmap)
    fix p
    assume p: "p \<in> set (ln_arguments l)"
    obtain k w where w: "p = (k, w)" by (cases p)
    then have "covers K (insert (ln_receive l) (dom (rs_frames s ! ln_frame l))) w"
      using l p by (auto simp: sound_listener_def covers_all_def)
    then show "never (pl_error K) (case p of (k, v) \<Rightarrow>
        rbind (eval_value (m_eval X) (scope_of (event_slots l m t) t) v) (\<lambda>w. Inr (k, w)))"
      using v w by (auto intro!: never_rbind)
  qed
qed

text \<open>A dispatch: only while no message is being handled.\<close>

lemma handle_ok:
  assumes D: "\<not> D" and l: "sound_listener K s l"
  shows "ok f A lo s (handle_message X call l m s)"
proof (rule safe_guarded)
  assume s: "fit K D f A s"
  then have d: "\<not> rs_dispatching s" using D by (simp add: fit_def at_rest_def)
  define s2 where "s2 = (event ''info'' ''message'' (ln_id l) (s\<lparr>rs_failed_listener := [], rs_failed_message := [],
    rs_listener := ln_id l, rs_message := child_text (m_eval X) m ''message_id''\<rparr>))\<lparr>rs_dispatching := True\<rparr>"
  define r where "r = with_value (eval_arguments X (event_slots l m s2) s2 (ln_arguments l)) s2
    (\<lambda>args. call (ln_handler l) args s2)"
  have same: "rs_frames s2 = rs_frames s" "rs_project s2 = rs_project s" "rs_listeners s2 = rs_listeners s"
    by (simp_all add: s2_def event_def)
  have h2: "heard K s2" using s heard_later [of K s s2] same by (simp add: fit_def at_rest_def)
  have "at_rest K True s2" using s h2 same
    by (simp add: fit_def at_rest_def well_formed_def s2_def event_def)
  moreover have "never (pl_error K) (eval_arguments X (event_slots l m s2) s2 (ln_arguments l))"
    using covered_event(2) [OF l _ same(1,2)] s by (simp add: fit_def at_rest_def)
  ultimately have g: "guarded K B False r"
    unfolding r_def using handler_guarded [OF D] l h2
    by (cases "eval_arguments X (event_slots l m s2) s2 (ln_arguments l)")
      (auto simp: guarded_def never_def sound_listener_def)
  have grow: "heard K u \<Longrightarrow> rs_frames t = rs_frames u \<Longrightarrow> rs_listeners t = rs_listeners u \<Longrightarrow> heard K t" for t u :: "'w session"
    using heard_later [of K u t] by simp
  have "guarded K B lo (handle_message X call l m s)"
    unfolding handle_message_def Let_def s2_def [symmetric] r_def [symmetric]
    using g by (cases r; cases "snd r") (auto simp: guarded_def event_def poll_def Let_def intro: grow)
  then show "ok f A lo s (handle_message X call l m s)"
    by (intro safe_keeps handle_runs [OF d])
qed

lemma dispatch_one_ok:
  assumes D: "\<not> D"
  shows "sound_listener K s l \<Longrightarrow> ok f A lo s (dispatch_one X call l cursor m s)"
proof (induction m arbitrary: s)
  case (Suc m)
  let ?s = "poll X s"
  have sound: "sound_listener K t l" if "quiet_step u t" "sound_listener K u l" for t u :: "'w session"
    using sound_later [OF that(2), of t] that(1) by (simp add: quiet_step_def)
  have l: "sound_listener K ?s l" by (rule sound [OF quiet_poll Suc.prems])
  have handled: "ok f A lo t (and_then (handle_message X call l x t) (dispatch_one X call l cursor m))"
    if t: "sound_listener K t l" for t x
  proof (rule safe_guarded, rule safe_next [OF handle_ok [OF D t]])
    fix u
    assume f: "fit K D f A t" and u: "handle_message X call l x t = (u, Next)"
    have "keeps t u" using handle_ok [OF D t, of f A lo x] f u by (simp add: safe_def)
    then show "ok f A lo u (dispatch_one X call l cursor m u)"
      by (intro Suc.IH sound_later [OF t]) (simp add: keeps_def)
  qed
  have "ok f A lo ?s (with_host r ?s (\<lambda>got s1. case got of
        None \<Rightarrow> dispatch_one X call l cursor m s1
      | Some x \<Rightarrow> and_then (handle_message X call l x s1) (dispatch_one X call l cursor m)))"
    if "never (pl_error K) (snd r)" for r
  proof (rule safe_with_host [OF that])
    fix got t
    assume "quiet_step ?s t"
    then have "sound_listener K t l" using sound l by blast
    then show "ok f A lo t (case got of
        None \<Rightarrow> dispatch_one X call l cursor m t
      | Some x \<Rightarrow> and_then (handle_message X call l x t) (dispatch_one X call l cursor m))"
      by (cases got) (simp_all add: Suc.IH handled)
  qed
  note claimed = this
  have ready: "never (pl_error K) (listener_ready X l c ?s)" if "fit K D f A ?s" for c
    using covered_event(1) [OF l] that by (simp add: fit_def at_rest_def)
  have peek: "never (pl_error K) (h_peek (m_host X) w n who c)" "never (pl_error K) (snd (h_claim (m_host X) w i n who))"
    for w n who c i using honest by (simp_all add: honest_machine_def)
  have "ok f A lo ?s (case found of
      None \<Rightarrow> (?s, Next)
    | Some c \<Rightarrow> with_value (listener_ready X l c ?s) ?s (\<lambda>go.
        if \<not> go then (?s, Next)
        else with_host (h_claim (m_host X) (rs_world ?s) (child_text (m_eval X) c ''message_id'') (ln_name l) (ln_sender l)) ?s
          (\<lambda>got s1. case got of
             None \<Rightarrow> dispatch_one X call l cursor m s1
           | Some x \<Rightarrow> and_then (handle_message X call l x s1) (dispatch_one X call l cursor m))))" for found
    by (cases found) (auto intro!: safe_with_value ready claimed peek safe_here)
  note found = this
  show ?case
    unfolding dispatch_one.simps Let_def
  proof (rule safe_after_quiet [OF quiet_poll])
    show "ok f A lo ?s (if rs_cancel ?s then (mark_cancelled ?s, Leave)
      else with_value (h_peek (m_host X) (rs_world ?s) (ln_name l) (ln_sender l) cursor) ?s (\<lambda>found. case found of
          None \<Rightarrow> (?s, Next)
        | Some c \<Rightarrow> with_value (listener_ready X l c ?s) ?s (\<lambda>go.
            if \<not> go then (?s, Next)
            else with_host (h_claim (m_host X) (rs_world ?s) (child_text (m_eval X) c ''message_id'') (ln_name l) (ln_sender l)) ?s
              (\<lambda>got s1. case got of
                 None \<Rightarrow> dispatch_one X call l cursor m s1
               | Some x \<Rightarrow> and_then (handle_message X call l x s1) (dispatch_one X call l cursor m)))))"
      by (auto intro!: safe_with_value found peek safe_quiet [OF quiet_mark])
  qed
qed (simp add: safe_here)

lemma dispatch_ok:
  assumes D: "\<not> D"
  shows "ok f A lo s (dispatch_ready_listeners X call s)"
proof (rule safe_guarded)
  have all: "\<forall>l \<in> set ls. sound_listener K s l \<Longrightarrow> ok f A lo s (dispatch_all X call cursor ls s)" for ls cursor s
  proof (induction ls arbitrary: s)
    case (Cons l ls)
    obtain t fl where r: "dispatch_one X call l cursor cursor s = (t, fl)" by fastforce
    have o: "ok f A lo s (t, fl)" using dispatch_one_ok [OF D, of s l f A lo cursor cursor] Cons.prems r by simp
    show ?case
    proof (rule safe_guarded)
      assume s: "fit K D f A s"
      then have "frames_grow (rs_frames s) (rs_frames t)" using o by (simp add: safe_def keeps_def)
      then have "\<forall>l \<in> set ls. sound_listener K t l" using Cons.prems sound_later by (metis list.set_intros(2))
      then show "ok f A lo s (dispatch_all X call cursor (l # ls) s)"
        using safe_then [OF o Cons.IH] o r by (cases fl) (auto intro: safe_flow)
    qed
  qed (simp add: safe_here)
  assume "fit K D f A s"
  then have "\<forall>l \<in> set (rs_listeners s). sound_listener K s l" by (simp add: fit_def at_rest_def heard_def)
  then show "ok f A lo s (dispatch_ready_listeners X call s)"
    by (simp add: dispatch_ready_listeners_def all safe_here)
qed

lemma checkpoint_ok: "ok f A lo s (checkpoint X call f i allow s)"
proof (rule safe_guarded)
  assume s: "fit K D f A s"
  obtain t go where p: "pause_point X f i allow (poll X s) = (t, go)" by fastforce
  have q: "quiet_step s t" using quiet_trans [OF quiet_poll quiet_pause_point [OF p]] .
  then have d: "rs_dispatching t = D" using s by (simp add: quiet_step_def same_stacks_def fit_def at_rest_def)
  have "ok f A lo t (and_then (dispatch_ready_listeners X call t) (\<lambda>s1.
      (if rs_listener s1 = [] then show_variables f (s1\<lparr>rs_current := i\<rparr>) else s1, Next)))" if "\<not> D"
    by (rule safe_next [OF dispatch_ok [OF that]])
      (auto intro!: safe_quiet quiet_trans [OF quiet_updates(2) quiet_show] quiet_refl)
  then show "ok f A lo s (checkpoint X call f i allow s)" using p d
    by (auto simp: checkpoint_def intro!: safe_after_quiet [OF q] safe_here)
qed

lemma checkpoints_ok: "ok f A lo s (checkpoints X call f i m s)"
  by (induction m arbitrary: s) (auto intro!: safe_next checkpoint_ok safe_here)

lemma wait_rounds_ok: "ok f A lo s (wait_rounds X call say f i m s)"
proof (induction m arbitrary: s)
  case (Suc m)
  have "ok f A lo t (let s2 = poll X t in
       if rs_cancel s2 then (if say then event ''warning'' ''runtime'' i (mark_cancelled s2) else mark_cancelled s2, Leave)
       else wait_rounds X call say f i m s2)" for t
    unfolding Let_def
    by (rule safe_after_quiet [OF quiet_poll [of t X]], cases "rs_cancel (poll X t)")
      (simp_all add: Suc.IH safe_quiet quiet_mark quiet_trans [OF quiet_mark quiet_event])
  then show ?case unfolding wait_rounds.simps by (intro safe_next checkpoint_ok)
qed (simp add: safe_here)

section \<open>Calls\<close>

lemma covered_arg: "covers_all K A args \<Longrightarrow> covers K A (arg args k)"
  by (auto simp: arg_def covers_all_def covers_def dest!: map_of_SomeD split: option.split)

lemma covered_default:
  "covers_all K A args \<Longrightarrow> covers K A (case map_of args k of None \<Rightarrow> PInt n | Some v \<Rightarrow> v)"
  by (auto simp: covers_all_def covers_def dest!: map_of_SomeD split: option.split)

lemma value_ok:
  "covers K A w \<Longrightarrow> (\<And>x. ok f A lo s (k x)) \<Longrightarrow> ok f A lo s (with_value (value_in X f s w) s k)"
  by (rule safe_with_value [OF covered])

lemma run_log_ok: "covers_all K A args \<Longrightarrow> ok f A lo s (run_log X f i args s)"
  unfolding run_log_def Let_def
  by (auto intro!: value_ok covered_arg safe_here safe_quiet [OF quiet_event])

lemma run_wait_ok: "covers_all K A args \<Longrightarrow> ok f A lo s (run_wait X call f i args s)"
  unfolding run_wait_def by (auto intro!: value_ok covered_arg safe_here safe_next wait_rounds_ok)

lemma run_wait_until_ok: "covers_all K A args \<Longrightarrow> ok f A lo s (run_wait_until X call f i args s)"
proof -
  have "never (pl_error K) (h_until (m_host X) w v q)" for w v q using honest by (simp add: honest_machine_def)
  then show "covers_all K A args \<Longrightarrow> ok f A lo s (run_wait_until X call f i args s)"
    unfolding run_wait_until_def
    by (intro value_ok covered_arg safe_with_value safe_next safe_after_quiet [OF quiet_event wait_rounds_ok] safe_here) simp_all
qed

lemma run_random_ok: "covers_all K A args \<Longrightarrow> ok f A lo s (run_random X f args s)"
proof -
  have "never (pl_error K) (snd (h_random (m_host X) w x y))" for w x y using honest by (simp add: honest_machine_def)
  then show "covers_all K A args \<Longrightarrow> ok f A lo s (run_random X f args s)"
    unfolding run_random_def
    by (intro value_ok covered_default) (auto intro!: safe_here safe_with_host split: pyval.split)
qed

lemma finish_host_ok: "never (pl_error K) (snd r) \<Longrightarrow> ok f A lo s (finish_host r s)"
  unfolding finish_host_def by (auto intro!: safe_with_host safe_here)

lemma honest_calls: "never (pl_error K) (snd (h_call (m_host X) w d op fn vs))"
  "never (pl_error K) (snd (h_extension (m_host X) w g vs locals))"
  using honest by (simp_all add: honest_machine_def)

lemma arguments_ok:
  "covers_all K A args \<Longrightarrow> (\<And>vs. ok f A lo s (k vs)) \<Longrightarrow>
     ok f A lo s (with_value (eval_arguments X (rs_frames s ! f) s args) s k)"
  by (rule safe_with_value [OF covered_arguments])

lemma run_operation_ok: "covers_all K A args \<Longrightarrow> ok f A lo s (run_operation X call sf f i op fn args s)"
  unfolding run_operation_def by (intro arguments_ok safe_next checkpoints_ok finish_host_ok honest_calls)

lemma run_host_ok: "covers_all K A args \<Longrightarrow> ok f A lo s (run_host X call f i op fn args platforms s)"
  unfolding run_host_def run_target_operation_def
  by (auto simp: run_operation_ok intro!: safe_here split: option.split)

lemma call_ok:
  assumes "pl_callee K g"
  shows "ok f A lo s (call g args s)"
proof (rule safe_keeps [OF call_any])
  assume "fit K D f A s"
  then have "guarded K B False (call g args s)" using call_guarded assms by (simp add: fit_def)
  then show "guarded K B lo (call g args s)" unfolding guarded_def using flow_ok_mono by blast
qed

lemma exec_call_ok:
  assumes "covers_all K A args" "op = ''call.project'' \<longrightarrow> pl_callee K (case callee of None \<Rightarrow> [] | Some g \<Rightarrow> g)"
  shows "ok f A lo s (exec_call X call f i op fn args platforms callee s)"
proof -
  have listed: "covers_all K A (map (\<lambda>k. (k, arg args k)) ks)" for ks
    using covered_arg [OF assms(1)] by (auto simp: covers_all_def)
  show ?thesis
  proof (cases "op = ''call.project''")
    case True
    then have "ok f A lo s (call (case callee of None \<Rightarrow> [] | Some g \<Rightarrow> g) vs s)" for vs
      using assms(2) by (intro call_ok) simp
    then show ?thesis unfolding True exec_call_def Let_def by (simp add: arguments_ok [OF assms(1)])
  next
    case False
    show ?thesis
      unfolding exec_call_def Let_def False [THEN Eq_FalseI] if_False
      by (intro safe_choice arguments_ok listed assms(1) value_ok covered_arg finish_host_ok honest_calls run_log_ok
          run_wait_ok run_wait_until_ok run_random_ok run_host_ok safe_here flow_ok_plain)
  qed
qed

end

lemma store_result_safe:
  assumes "safe K B D f A lo s r"
  shows "safe K B D f A lo s (store_result f slot r)"
proof -
  obtain t fl where r: "r = (t, fl)" by (cases r)
  have "safe K B D f A lo t (bind_slot f slot v t, Next)" for v
    by (rule safe_bind_slot [where slot = slot and v = v]) (simp add: safe_here)
  then have "safe K B D f A lo s (bind_slot f slot v t, Next)" for v
    using safe_then assms r by metis
  then show ?thesis using assms r by (cases fl) (auto simp: store_result_def bind_slot_def split: option.splits)
qed

section \<open>Control\<close>

lemma safe_project:
  "safe K B D f A lo s (s\<lparr>rs_project := (rs_project s)(k \<mapsto> x)\<rparr>, Next)"
  by (rule safe_keeps [OF runs_project]) (auto simp: fit_def at_rest_def guarded_def intro: heard_later)

lemma run_times_safe:
  "(\<And>s. safe K B D f A True s (body s)) \<Longrightarrow> safe K B D f A lo s (run_times m body s)"
proof (induction m arbitrary: s)
  case (Suc m)
  obtain t fl where r: "body s = (t, fl)" by fastforce
  have b: "safe K B D f A True s (t, fl)" using Suc.prems [of s] r by simp
  have "safe K B D f A lo s (run_times m body t)" by (rule safe_then [OF b Suc.IH [OF Suc.prems]])
  then show ?case using b r by (subst run_times.simps) (cases fl; auto intro: safe_flow)
qed (simp add: run_times.simps safe_here)

lemma run_items_safe:
  assumes body: "\<And>i x s. safe K B D f A True s (body (bind i x s))"
    and too_many: "flow_ok K B lo (failure ''runtime.failure'')"
  shows "safe K B D f A lo s (run_items X look bind body i xs s)"
proof (induction xs arbitrary: i s)
  case (Cons x xs)
  define s1 where "s1 = (if look then poll X s else s)"
  have q: "quiet_step s s1" by (simp add: s1_def quiet_poll quiet_refl)
  obtain t fl where r: "body (bind i x s1) = (t, fl)" by fastforce
  have b: "safe K B D f A True s (t, fl)" using safe_after_quiet [OF q body] r by metis
  have "safe K B D f A lo s (run_items X look bind body (Suc i) xs t)" by (rule safe_then [OF b Cons.IH])
  moreover have "safe K B D f A lo s (mark_cancelled s1, Leave)" by (rule safe_quiet [OF quiet_trans [OF q quiet_mark]]) simp
  moreover have "safe K B D f A lo s (s, failure ''runtime.failure'')" by (rule safe_here [OF too_many])
  ultimately show ?case using b r
    by (cases fl) (auto simp: Let_def s1_def [symmetric] intro: safe_flow)
qed (simp add: safe_here)

lemma safe_bind_item:
  "safe K B D f (A \<union> slot_names item \<union> slot_names index) lo (bind_item f item index i x s) q \<Longrightarrow> safe K B D f A lo s q"
  unfolding bind_item_def by (rule safe_bind_slot [OF safe_bind_slot])

lemma safe_bind_entry:
  "safe K B D f (A \<union> slot_names key \<union> slot_names val \<union> slot_names index) lo (bind_entry f key val index i x s) q \<Longrightarrow>
     safe K B D f A lo s q"
  unfolding bind_entry_def by (rule safe_bind_slot [OF safe_bind_slot [OF safe_bind_slot]])

lemma run_attempts_safe:
  "(\<And>s. safe K B D f A lo s (body s)) \<Longrightarrow> (\<And>s. safe K B D f A lo s (wait s)) \<Longrightarrow>
     safe K B D f A lo s (run_attempts m wait body s)"
proof (induction m arbitrary: s)
  case 0
  obtain t fl where r: "body s = (t, fl)" by fastforce
  then have "safe K B D f A lo s (t, fl)" using "0.prems"(1) [of s] by simp
  then show ?case using r by (subst run_attempts.simps) (cases fl; simp)
next
  case (Suc m)
  obtain t fl where r: "body s = (t, fl)" by fastforce
  have b: "safe K B D f A lo s (t, fl)" using Suc.prems(1) [of s] r by simp
  have "safe K B D f A lo t (and_then (wait t) (run_attempts m wait body))"
    by (rule safe_next [OF Suc.prems(2)]) (rule Suc.IH [OF Suc.prems])
  then have "safe K B D f A lo s (and_then (wait t) (run_attempts m wait body))" by (rule safe_then [OF b])
  then show ?case using b r by (subst run_attempts.simps) (cases fl; simp)
qed

lemma finally_safe:
  assumes r: "safe K B D f A lo s r" and fin: "\<And>s. safe K B D f A lo s (fin s)"
  shows "safe K B D f A lo s (finally_block fin r)"
proof -
  obtain t fl where t: "r = (t, fl)" by (cases r)
  obtain u gl where u: "fin t = (u, gl)" by fastforce
  have a: "safe K B D f A lo s (u, gl)" using safe_then [of K B D f A lo s t fl lo "fin t"] r t fin [of t] u by simp
  have "safe K B D f A lo s (u, fl)"
    using a r t unfolding safe_def guarded_def by simp
  then show ?thesis using a t u by (cases gl) (auto simp: finally_block_def)
qed

context guarded_caller begin

lemma assign_local_ok: "covers K A v \<Longrightarrow> ok f A lo s (assign_local X f k v s)"
proof -
  have "ok f A lo s (set_slot f k x s, Next)" for x
    by (rule safe_set_slot [where k = k and v = x]) (simp add: safe_here)
  then show "covers K A v \<Longrightarrow> ok f A lo s (assign_local X f k v s)"
    unfolding assign_local_def by (intro value_ok safe_choice safe_here) simp_all
qed

lemma constraints_ok: "never (pl_error K) (validate_runtime_constraints (m_eval X) (m_text X) v cs)"
  using honest by (intro never_constraints) (simp_all add: honest_machine_def)

lemma assign_project_ok: "covers K A v \<Longrightarrow> ok f A lo s (assign_project X f k v s)"
proof -
  have c: "rt_error_id e \<noteq> pl_error K" if "validate_runtime_constraints (m_eval X) (m_text X) x cs = Inl e" for x cs e
    using constraints_ok [of x cs] that by (simp add: never_def)
  have checked: "ok f A lo s (case validate_runtime_constraints (m_eval X) (m_text X) x cs of
      Inl e \<Rightarrow> (s, if e = PythonError ''ValueError''
        then failure ''runtime.project_variable_assignment_constraint'' else Raised e)
    | Inr _ \<Rightarrow> (s\<lparr>rs_project := (rs_project s)(k \<mapsto> x)\<rparr>, Next))" for x cs
  proof (cases "validate_runtime_constraints (m_eval X) (m_text X) x cs")
    case (Inl e)
    then show ?thesis using c [OF Inl] by (simp add: safe_here)
  qed (simp add: safe_project)
  show "covers K A v \<Longrightarrow> ok f A lo s (assign_project X f k v s)"
    unfolding assign_project_def
    by (intro value_ok safe_choice safe_here)
      (auto intro!: safe_with_value never_conforms safe_here checked split: option.split)
qed

lemma run_while_ok:
  assumes v: "covers K A v" and body: "\<And>s. ok f A True s (body s)"
  shows "ok f A lo s (run_while X m (\<lambda>s. rbind (value_in X f s v) (\<lambda>w. Inr (py_truthy w))) body s)"
proof (induction m arbitrary: s)
  case 0
  have cond: "ok f A lo s (with_value (rbind (value_in X f s v) (\<lambda>w. Inr (py_truthy w))) s k)"
    if "\<And>x. ok f A lo s (k x)" for k s
    by (rule safe_with_value) (auto intro!: never_rbind covered v that)
  show ?case
    by (subst run_while.simps, intro cond safe_choice safe_here)
      (auto simp: Let_def intro!: safe_quiet quiet_poll quiet_trans [OF quiet_poll quiet_mark])
next
  case (Suc m)
  have cond: "ok f A lo s (with_value (rbind (value_in X f s v) (\<lambda>w. Inr (py_truthy w))) s k)"
    if "\<And>x. ok f A lo s (k x)" for k s
    by (rule safe_with_value) (auto intro!: never_rbind covered v that)
  let ?s = "poll X s"
  let ?loop = "run_while X m (\<lambda>s. rbind (value_in X f s v) (\<lambda>w. Inr (py_truthy w))) body"
  obtain t fl where r: "body ?s = (t, fl)" by fastforce
  have b: "ok f A True s (t, fl)" using safe_after_quiet [OF quiet_poll body [of ?s]] r by metis
  have "ok f A lo s (?loop t)" by (rule safe_then [OF b Suc.IH])
  moreover have "ok f A lo s (mark_cancelled ?s, Leave)"
    by (rule safe_quiet [OF quiet_trans [OF quiet_poll quiet_mark]]) simp
  ultimately have "ok f A lo s (let s1 = poll X s in
      if rs_cancel s1 then (mark_cancelled s1, Leave)
      else if Suc m = 0 then (s1, failure ''runtime.failure'')
      else case body s1 of
          (s2, Next) \<Rightarrow> run_while X (Suc m - 1) (\<lambda>s. rbind (value_in X f s v) (\<lambda>w. Inr (py_truthy w))) body s2
        | (s2, Continued) \<Rightarrow> run_while X (Suc m - 1) (\<lambda>s. rbind (value_in X f s v) (\<lambda>w. Inr (py_truthy w))) body s2
        | (s2, Broke) \<Rightarrow> (s2, Next)
        | r \<Rightarrow> r)"
    using b r by (cases fl) (auto simp: Let_def intro: safe_flow)
  then show ?case
    by (subst run_while.simps, intro cond safe_choice safe_here flow_ok_plain) assumption
qed

lemma run_fail_ok:
  "error_id \<noteq> pl_error K \<Longrightarrow> covers K A m \<Longrightarrow> (\<forall>w \<in> set_option d. covers K A w) \<Longrightarrow>
     ok f A lo s (run_fail X f error_id m d s)"
  unfolding run_fail_def
  by (intro value_ok safe_here) (auto simp: or_none_def covers_def split: option.splits)

lemma retry_plan_ok:
  assumes "\<forall>(m, q) \<in> set_option retry. covers K A m \<and> covers K A q" "fit K D f A s"
  shows "never (pl_error K) (retry_plan X f retry s)"
proof -
  have "never (pl_error K) (py_float X v)" for v
    unfolding py_float_def by (intro never_intros)
  then show ?thesis
    using assms by (cases retry) (auto simp: retry_plan_def intro!: never_rbind covered never_basic)
qed

lemma retry_pause_ok: "ok f A lo s (retry_pause X call f i q s)"
  unfolding retry_pause_def Let_def by (rule safe_after_quiet [OF quiet_event wait_rounds_ok])

section \<open>Target scopes and listeners\<close>

text \<open>A body, with what is known of it in every state.\<close>

definition ok_body where
  "ok_body f A lo body \<longleftrightarrow> (\<forall>s. runs (Suc f) s (body s)) \<and> (\<forall>s. ok f A lo s (body s))"

lemma heard_same:
  "heard K u \<Longrightarrow> rs_frames t = rs_frames u \<Longrightarrow> rs_listeners t = rs_listeners u \<Longrightarrow> heard K t"
  using heard_later [of K u t] by simp

lemma heard_event: "heard K u \<Longrightarrow> heard K (event level category i u)"
  by (rule heard_same) (simp_all add: event_def)

lemma scoped_guarded:
  assumes body: "ok_body f A lo body" and s: "fit K D f A (pushed d s)"
  shows "guarded K B lo (scoped_body d i body s)"
proof -
  have "ok f A lo (pushed d s) (body (event ''info'' ''target'' i (pushed d s)))"
    by (rule safe_after_quiet [OF quiet_event [of "pushed d s" "''info''" "''target''" i]])
      (use body in \<open>simp add: ok_body_def\<close>)
  moreover obtain u fl where u: "body (event ''info'' ''target'' i (pushed d s)) = (u, fl)" by fastforce
  ultimately have h: "heard K u" and fl: "flow_ok K B lo fl" using s by (simp_all add: safe_def guarded_def)
  define u2 where "u2 = (if fl = Next then u else event ''error'' ''target'' i u)"
  have h2: "heard K u2" using h by (simp add: u2_def heard_event)
  have "heard K (u2\<lparr>rs_drivers := tl (rs_drivers u2)\<rparr>)" by (rule heard_same [OF h2]) simp_all
  then have "heard K (if 1 < length (rs_drivers u2) \<and> hd (rs_drivers u2) = Some d
      then event ''info'' ''target'' i (u2\<lparr>rs_drivers := tl (rs_drivers u2)\<rparr>) else u2)"
    using h2 by (simp only: heard_event split: if_split) simp
  then show ?thesis
    using u fl by (simp add: scoped_body_def pushed_def guarded_def Let_def u2_def cong: if_cong split del: if_split)
qed

lemma fit_pushed: "fit K D f A s \<Longrightarrow> fit K D f A (pushed d s)"
  using pushed_well_formed [of s d] heard_same [of s "pushed d s"]
  by (simp add: fit_def at_rest_def pushed_def)

lemma honest_targets: "never (pl_error K) (snd (h_create (m_host X) w t))" "never (pl_error K) (snd (h_capture (m_host X) w d))"
  using honest unfolding honest_machine_def by blast+

lemma capture_then_ok:
  assumes body: "ok_body f A lo body"
  shows "ok f A lo s (capture_then X d i body s)"
proof (rule safe_keeps)
  show "runs (Suc f) s (capture_then X d i body s)" using body by (intro capture_runs) (simp add: ok_body_def)
  assume s: "fit K D f A s"
  obtain u r where c: "capture X d s = (u, r)" by fastforce
  have q: "quiet_step s u" using c quiet_updates(1) by (auto simp: capture_def Let_def)
  have e: "never (pl_error K) r" using c honest_targets(2) [of "rs_world s" d] by (auto simp: capture_def Let_def)
  have u: "fit K D f A u"
    using fit_later [OF s, of u] keeps_quiet [OF keeps_refl q] guarded_quiet [OF q, of K B lo Next] s
    by (simp add: fit_def at_rest_def guarded_def)
  show "guarded K B lo (capture_then X d i body s)"
  proof (cases r)
    case (Inl x)
    then show ?thesis
      using c e u guarded_quiet [OF quiet_event, of K u B lo] by (simp add: capture_then_def never_def fit_def at_rest_def)
  next
    case (Inr x)
    then show ?thesis using c scoped_guarded [OF body fit_pushed [OF u]] by (simp add: capture_then_def)
  qed
qed

lemma fresh_ok:
  assumes body: "ok_body f A lo body" and none: "find_driver t s = None"
  shows "ok f A lo s (fresh_scope X t kind i body s)"
proof (rule safe_keeps)
  show "runs (Suc f) s (fresh_scope X t kind i body s)"
    using body by (intro fresh_runs [OF _ none]) (simp add: ok_body_def)
  assume s: "fit K D f A s"
  define own where "own = s\<lparr>rs_owned := insert (target_key t) (rs_owned s)\<rparr>"
  obtain s2 r where m: "make_driver X t kind own = (s2, r)" by fastforce
  have q2: "quiet_step own s2" by (rule make_driver_quiet [OF m])
  have r: "never (pl_error K) r"
    using m honest_targets(1) failures
    by (auto simp: make_driver_def Let_def never_def fail_with_def split: if_splits sum.splits bool.splits)
  have same: "rs_frames s2 = rs_frames s" "rs_listeners s2 = rs_listeners s" "rs_project s2 = rs_project s"
      "rs_dispatching s2 = rs_dispatching s" "rs_owned s2 = insert (target_key t) (rs_owned s)" "rs_drivers s2 = rs_drivers s"
    using q2 by (simp_all add: quiet_step_def same_stacks_def own_def)
  have heard: "heard K s" using s by (simp add: fit_def at_rest_def)
  show "guarded K B lo (fresh_scope X t kind i body s)"
  proof (cases "target_key t \<notin> rs_owned s \<and> h_busy (m_host X) (rs_world s) (target_key t)")
    case True
    then show ?thesis using guarded_quiet [OF quiet_event heard] by (simp add: fresh_scope_def)
  next
    case False
    show ?thesis
    proof (cases r)
      case (Inl e)
      then show ?thesis using m r False heard same
        by (auto simp: fresh_scope_def own_def [symmetric] guarded_def never_def event_def Let_def intro: heard_same)
    next
      case (Inr d)
      have d: "fst d = t" using make_driver_target m Inr by simp
      obtain s3 c where c: "capture X d s2 = (s3, c)" by fastforce
      then have s3: "s3 = s2\<lparr>rs_world := rs_world s3\<rparr>" "never (pl_error K) c"
        using honest_targets(2) [of "rs_world s2" d] by (auto simp: capture_def Let_def)
      have "well_formed (pushed d s3)"
        using s d same by (cases d) (subst s3(1), auto simp: fit_def at_rest_def well_formed_def pushed_def driver_keys_Cons)
      moreover have "heard K (pushed d s3)"
        using heard same by (subst s3(1)) (auto simp: pushed_def intro: heard_same)
      ultimately have p: "fit K D f A (pushed d s3)"
        using s same by (subst s3(1), subst (asm) (1 2) s3(1)) (simp add: fit_def at_rest_def pushed_def)
      have "guarded K B lo (capture_then X d i body s2)"
      proof (cases c)
        case (Inl e)
        have "heard K s3" using heard same by (subst s3(1)) (auto intro: heard_same)
        then show ?thesis using c s3(2) Inl
          by (auto simp: capture_then_def guarded_def never_def event_def intro: heard_same)
      next
        case (Inr x)
        then show ?thesis using c scoped_guarded [OF body p] by (simp add: capture_then_def)
      qed
      then show ?thesis using m Inr False
        by (cases "capture_then X d i body s2")
          (auto simp: fresh_scope_def own_def [symmetric] guarded_def Let_def intro: heard_same)
    qed
  qed
qed

lemma enter_target_ok:
  assumes body: "ok_body f A lo body"
  shows "ok f A lo s (enter_target X t i body s)"
proof -
  have b: "ok f A lo u (body u)" for u using body by (simp add: ok_body_def)
  show ?thesis
    unfolding enter_target_def Let_def
    by (rule safe_after_quiet [OF quiet_poll])
      (auto intro!: safe_after_quiet [OF quiet_event b] capture_then_ok [OF body] fresh_ok [OF body] safe_here
        split: if_split option.split)
qed

lemma run_target_scope_ok:
  "covers K A v \<Longrightarrow> ok_body f A lo body \<Longrightarrow> ok f A lo s (run_target_scope X f i v body s)"
  unfolding run_target_scope_def Let_def by (intro value_ok safe_choice safe_here enter_target_ok) simp_all

lemma register_ok:
  assumes "covers K A name" "\<forall>w \<in> set_option sender. covers K A w" "\<forall>w \<in> set_option c. covers K (insert receive A) w"
    "covers_all K (insert receive A) args" "pl_handler K h"
  shows "ok f A lo s (register_listener X f i name sender receive c h args s)"
proof -
  have "ok f A lo s (event ''info'' ''message'' i (s\<lparr>rs_listeners := put_listener
     \<lparr>ln_id = i, ln_name = n, ln_sender = who, ln_receive = receive, ln_condition = c, ln_handler = h,
      ln_arguments = args, ln_frame = f\<rparr> (rs_listeners s)\<rparr>), Next)" (is "ok f A lo s (?t, Next)") for n who
  proof (rule safe_guarded)
    let ?l = "\<lparr>ln_id = i, ln_name = n, ln_sender = who, ln_receive = receive, ln_condition = c, ln_handler = h,
      ln_arguments = args, ln_frame = f\<rparr>"
    assume s: "fit K D f A s"
    then have "insert receive A \<subseteq> insert receive (dom (rs_frames s ! f))" by (auto simp: fit_def)
    then have "sound_listener K ?t ?l"
      using assms s covers_mono covers_all_mono by (fastforce simp: sound_listener_def event_def fit_def)
    moreover have "sound_listener K ?t l" if "l \<in> set (rs_listeners s)" for l
      using s that sound_later [of K s l ?t] by (simp add: fit_def at_rest_def heard_def event_def)
    ultimately have h: "heard K ?t"
      using set_put_listener [of ?l "rs_listeners s"] by (auto simp: heard_def event_def)
    have "keeps s ?t"
      using s set_put_listener [of ?l "rs_listeners s"]
      by (auto simp: fit_def at_rest_def keeps_def same_stacks_def well_formed_def event_def)
    with h show "ok f A lo s (?t, Next)" by (simp add: safe_def guarded_def)
  qed
  moreover have "never (pl_error K) (h_check (m_host X) w n who)" for w n who
    using honest by (simp add: honest_machine_def)
  moreover have "covers K A (or_none sender)" using assms(2) by (auto simp: or_none_def covers_def split: option.split)
  ultimately show ?thesis
    unfolding register_listener_def using assms(1)
    by (intro value_ok safe_choice safe_here safe_with_value) simp_all
qed

section \<open>Blocks\<close>

lemma block_end_ok: "ok f A l s r \<Longrightarrow> ok f A l s (block_end X call f ins r)"
proof -
  assume r: "ok f A l s r"
  obtain t fl where t: "r = (t, fl)" by (cases r)
  have "ok f A l t (let s1 = poll X t in
      if rs_cancel s1 then (mark_cancelled s1, Next)
      else checkpoint X call f (if ins = [] then rs_current s1 else ins_id (last ins)) False s1)"
    unfolding Let_def
    by (rule safe_after_quiet [OF quiet_poll [of t X]]) (intro safe_choice checkpoint_ok safe_quiet [OF quiet_mark] flow_ok_plain)
  then have "ok f A l s (let s1 = poll X t in
      if rs_cancel s1 then (mark_cancelled s1, Next)
      else checkpoint X call f (if ins = [] then rs_current s1 else ins_id (last ins)) False s1)"
    using safe_then r t by metis
  moreover have "ok f A l s (t, Next)" using r t by (auto intro: safe_flow)
  ultimately show ?thesis using r t by (cases fl) (simp_all add: block_end_def)
qed

text \<open>A result of a call is never the plain end of a step, so a stored result is there for the next one.\<close>

lemma ends_and_then: "(\<And>t. snd (k t) \<noteq> Next) \<Longrightarrow> snd (and_then r k) \<noteq> Next"
  by (cases r; cases "snd r") auto

lemma ends_with_value: "(\<And>x. snd (k x) \<noteq> Next) \<Longrightarrow> snd (with_value r s k) \<noteq> Next"
  by (cases r) auto

lemma ends_with_host: "(\<And>x t. snd (k x t) \<noteq> Next) \<Longrightarrow> snd (with_host r s k) \<noteq> Next"
  unfolding with_host_def by (intro ends_with_value)

lemma ends_choice: "snd x \<noteq> Next \<Longrightarrow> snd y \<noteq> Next \<Longrightarrow> snd (if c then x else y) \<noteq> Next"
  by simp

lemma ends_plain: "snd (s, Returned v) \<noteq> Next" "snd (s, failure i) \<noteq> Next" "snd (s, Raised e) \<noteq> Next"
  by (simp_all add: failure_def)

lemma failure_ends [simp]: "failure i \<noteq> Next"
  by (simp add: failure_def)

lemma ends_finish: "snd (finish_host r s) \<noteq> Next"
  unfolding finish_host_def by (intro ends_with_host ends_plain)

lemma ends_operation: "snd (run_operation X call sf f i op fn args s) \<noteq> Next"
  unfolding run_operation_def by (intro ends_with_value ends_and_then ends_finish)

lemma ends_target: "snd (run_target_operation X call f i op fn args platforms s) \<noteq> Next"
  by (cases "current_driver s") (simp_all add: run_target_operation_def ends_operation ends_plain)

lemma ends_random: "snd (run_random X f args s) \<noteq> Next"
proof -
  have "snd (case (lo, hi) of
         (PInt a, PInt b) \<Rightarrow>
           if b < a then (s, failure ''random.range_invalid'')
           else with_host (h_random (m_host X) (rs_world s) a b) s (\<lambda>r s1. (s1, Returned (PInt r)))
       | _ \<Rightarrow> (s, failure ''random.range_invalid'')) \<noteq> Next" for lo hi
    by (cases lo; cases hi) (auto simp: with_host_def with_value_def split: sum.splits)
  then show ?thesis unfolding run_random_def by (intro ends_with_value)
qed

lemma exec_call_ends: "snd (exec_call X call f i op fn args platforms callee s) \<noteq> Next"
  unfolding exec_call_def run_log_def run_wait_def run_wait_until_def run_host_def Let_def
  by (intro ends_choice ends_with_value ends_and_then ends_finish ends_operation ends_target ends_random ends_plain call_ends)

lemma store_then:
  assumes r: "ok f A l s r" "snd r \<noteq> Next" and k: "\<And>t. ok f (A \<union> slot_names slot) l t (k t)"
  shows "ok f A l s (and_then (store_result f slot r) k)"
proof -
  obtain t fl where t: "r = (t, fl)" by (cases r)
  have "ok f A l t (k (bind_slot f slot v t))" for v
    by (rule safe_bind_slot [OF k])
  then have "ok f A l s (k (bind_slot f slot v t))" for v using safe_then r(1) t by metis
  then show ?thesis
    using r t by (cases fl) (auto simp: store_result_def bind_slot_def [symmetric])
qed

lemma assign_then:
  assumes v: "covers K A v" and k: "\<And>t. ok f (insert x A) l t (k t)"
  shows "ok f A l s (and_then (assign_local X f x v s) k)"
proof -
  have "ok f A l s (k (set_slot f x w s))" for w by (rule safe_set_slot [OF k])
  then have "ok f A l s (with_value (value_in X f s v) s (\<lambda>w.
      and_then (if x = [] then (s, failure ''runtime.failure'') else (set_slot f x w s, Next)) k))"
    by (intro value_ok [OF v]) (auto simp: failure_def intro: safe_here)
  moreover have "and_then (assign_local X f x v s) k = with_value (value_in X f s v) s (\<lambda>w.
      and_then (if x = [] then (s, failure ''runtime.failure'') else (set_slot f x w s, Next)) k)"
    by (cases "value_in X f s v") (simp_all add: assign_local_def)
  ultimately show ?thesis by simp
qed

lemma instruction_then:
  assumes i: "safe_instruction K l A i" and step: "ok f A l s (exec_instruction X call f i s)"
    and k: "\<And>t. ok f (A \<union> ins_writes i) l t (k t)"
  shows "ok f A l s (and_then (exec_instruction X call f i s) k)"
proof (cases "ins_writes i = {}")
  case True
  then show ?thesis using safe_next [OF step] k by simp
next
  case False
  then consider (call) j op fn args platforms callee slot where "i = ICall j op fn args platforms callee slot"
    | (assign) j x v where "i = IAssignLocal j x v" by (cases i) auto
  then show ?thesis
  proof cases
    case call
    have c: "ok f A l s (exec_call X call f j op fn args platforms callee s)"
      using i call by (intro exec_call_ok) simp_all
    show ?thesis
      using store_then [where slot = slot and k = k, OF c exec_call_ends] k call by simp
  next
    case assign
    then show ?thesis using assign_then [of A v f x l k s] i k by simp
  qed
qed

definition steps_ok where
  "steps_ok f i \<longleftrightarrow> (\<forall>l A s. safe_instruction K l A i \<longrightarrow> ok f A l s (exec_instruction X call f i s))"

lemma items_ok:
  "\<forall>i \<in> set ins. steps_ok f i \<Longrightarrow> safe_items K l A ins \<Longrightarrow> ok f A l s (exec_items X call f ins s)"
proof (induction ins arbitrary: s A)
  case (Cons i ins)
  have i: "safe_instruction K l A i" "\<And>t. ok f A l t (exec_instruction X call f i t)"
    using Cons.prems by (auto simp: steps_ok_def)
  have rest: "ok f (A \<union> ins_writes i) l t (exec_items X call f ins (show_variables f t))" for t
    by (rule safe_after_quiet [OF quiet_show Cons.IH]) (use Cons.prems in auto)
  have first: "ok f A l t (and_then (exec_instruction X call f i (t\<lparr>rs_current := ins_id i\<rparr>))
      (\<lambda>s3. exec_items X call f ins (show_variables f s3)))" for t
    by (rule safe_after_quiet [OF quiet_updates(2)], rule instruction_then [OF i rest])
  have polled: "ok f A l t (let s2 = poll X t in
      if rs_cancel s2 then (mark_cancelled s2, Leave)
      else and_then (exec_instruction X call f i (s2\<lparr>rs_current := ins_id i\<rparr>))
        (\<lambda>s3. exec_items X call f ins (show_variables f s3)))" for t
    unfolding Let_def
    by (rule safe_after_quiet [OF quiet_poll [of t X]]) (simp add: first safe_quiet [OF quiet_mark])
  have "ok f A l t (and_then (checkpoint X call f (ins_id i) True t) (\<lambda>s1.
      let s2 = poll X s1 in
      if rs_cancel s2 then (mark_cancelled s2, Leave)
      else and_then (exec_instruction X call f i (s2\<lparr>rs_current := ins_id i\<rparr>))
        (\<lambda>s3. exec_items X call f ins (show_variables f s3))))" for t
    by (rule safe_next [OF checkpoint_ok polled])
  then show ?case
    unfolding exec_items.simps Let_def
    by (intro safe_after_quiet [OF quiet_poll [of s X]])
      (auto intro: safe_quiet [OF quiet_trans [OF quiet_mark quiet_event]])
qed (simp add: safe_here)

lemma block_ok:
  "\<forall>i \<in> set ins. steps_ok f i \<Longrightarrow> safe_items K l A ins \<Longrightarrow>
     ok f A l s (block_end X call f ins (exec_items X call f ins s))"
  by (intro block_end_ok items_ok)

lemma body_ok:
  "\<forall>i \<in> set ins. steps_ok f i \<Longrightarrow> safe_items K l A ins \<Longrightarrow>
     ok_body f A l (\<lambda>s. block_end X call f ins (exec_items X call f ins s))"
  using block_ok instruction_runs(1) unfolding ok_body_def by (blast intro: block_runs)

lemma branches_ok:
  "\<forall>b \<in> set bs. \<forall>i \<in> set (ib_body b). steps_ok f i \<Longrightarrow> \<forall>i \<in> set oth. steps_ok f i \<Longrightarrow>
   \<forall>b \<in> set bs. covers K A (ib_condition b) \<and> safe_items K l A (ib_body b) \<Longrightarrow> safe_items K l A oth \<Longrightarrow>
     ok f A l s (exec_branches X call f bs oth s)"
  by (induction bs) (auto intro!: value_ok block_ok)

lemma catch_ok:
  "\<forall>c \<in> set cs. \<forall>i \<in> set (ct_body c). steps_ok f i \<Longrightarrow>
   \<forall>c \<in> set cs. safe_items K l (A \<union> slot_names (ct_error_slot c)) (ct_body c) \<Longrightarrow> flow_ok K B l (Raised e) \<Longrightarrow>
     ok f A l s (exec_catch X call f e cs s)"
proof (induction cs)
  case (Cons c cs)
  have "ok f A l s (block_end X call f (ct_body c)
      (exec_items X call f (ct_body c) (bind_slot f (ct_error_slot c) (error_record X e) s)))"
    by (intro block_end_ok, rule safe_bind_slot [where slot = "ct_error_slot c" and v = "error_record X e"],
      rule items_ok) (use Cons.prems in simp_all)
  then show ?case using Cons by simp
qed (simp add: safe_here)

lemma try_ok:
  assumes body: "\<And>s. ok f A l s (body s)" and fin: "\<And>s. ok f A l s (fin s)"
    and handler: "\<And>e s. flow_ok K B l (Raised e) \<Longrightarrow> ok f A l s (handler e s)"
  shows "ok f A l s (finally_block fin (case run_attempts m (retry_pause X call f i q) body s of
      (s1, Raised e) \<Rightarrow> handler e s1 | r \<Rightarrow> r))"
proof (rule finally_safe [OF _ fin])
  obtain t fl where r: "run_attempts m (retry_pause X call f i q) body s = (t, fl)" by fastforce
  have "ok f A l s (run_attempts m (retry_pause X call f i q) body s)"
    by (rule run_attempts_safe [OF body retry_pause_ok])
  then have a: "ok f A l s (t, fl)" using r by simp
  have "ok f A l s (handler e t)" if "fl = Raised e" for e
    using safe_then [OF a] handler that by blast
  then show "ok f A l s (case run_attempts m (retry_pause X call f i q) body s of
      (s1, Raised e) \<Rightarrow> handler e s1 | r \<Rightarrow> r)" using a r by (cases fl) simp_all
qed

text \<open>Every instruction the condition accepts keeps the guarantee.\<close>

lemma loop_ok:
  assumes "covers K A v" "\<forall>i \<in> set body. steps_ok f i"
  shows "safe_items K True A body \<Longrightarrow>
      ok f A l s (run_repeat X f v (\<lambda>s. block_end X call f body (exec_items X call f body s)) s)"
    "safe_items K True A body \<Longrightarrow>
      ok f A l s (run_while X m (\<lambda>s. rbind (value_in X f s v) (\<lambda>w. Inr (py_truthy w)))
        (\<lambda>s. block_end X call f body (exec_items X call f body s)) s)"
    "safe_items K True (A \<union> slot_names item \<union> slot_names index) body \<Longrightarrow>
      ok f A l s (run_for_each X f v item index (\<lambda>s. block_end X call f body (exec_items X call f body s)) s)"
    "safe_items K True (A \<union> slot_names key \<union> slot_names val \<union> slot_names index) body \<Longrightarrow>
      ok f A l s (run_for_each_map X f v key val index (\<lambda>s. block_end X call f body (exec_items X call f body s)) s)"
proof -
  assume "safe_items K True A body"
  then have b: "ok f A True t (block_end X call f body (exec_items X call f body t))" for t
    using assms(2) by (rule block_ok [rotated])
  show "ok f A l s (run_while X m (\<lambda>s. rbind (value_in X f s v) (\<lambda>w. Inr (py_truthy w)))
        (\<lambda>s. block_end X call f body (exec_items X call f body s)) s)"
    by (rule run_while_ok [OF assms(1) b])
  have "ok f A l t (run_times n (\<lambda>s. block_end X call f body (exec_items X call f body s)) t)" for n t
    by (rule run_times_safe [OF b])
  then show "ok f A l s (run_repeat X f v (\<lambda>s. block_end X call f body (exec_items X call f body s)) s)"
    unfolding run_repeat_def by (intro value_ok [OF assms(1)]) (auto intro!: safe_here split: pyval.split)
next
  assume a: "safe_items K True (A \<union> slot_names item \<union> slot_names index) body"
  have b: "ok f A True t (block_end X call f body (exec_items X call f body (bind_item f item index n x t)))" for t n x
    by (intro block_end_ok, rule safe_bind_item [where i = n and x = x], rule items_ok [OF assms(2) a])
  have "ok f A l s (run_items X False (bind_item f item index)
      (\<lambda>s. block_end X call f body (exec_items X call f body s)) 0 xs s)" for xs
    by (rule run_items_safe) (simp_all add: b)
  moreover have "never (pl_error K) (py_list w)" for w by (rule never_intros)
  ultimately show "ok f A l s (run_for_each X f v item index (\<lambda>s. block_end X call f body (exec_items X call f body s)) s)"
    unfolding run_for_each_def by (intro value_ok [OF assms(1)] safe_with_value safe_choice safe_here) simp_all
next
  assume a: "safe_items K True (A \<union> slot_names key \<union> slot_names val \<union> slot_names index) body"
  have b: "ok f A True t (block_end X call f body (exec_items X call f body (bind_entry f key val index n x t)))" for t n x
    by (intro block_end_ok, rule safe_bind_entry [where i = n and x = x], rule items_ok [OF assms(2) a])
  have "ok f A l s (run_items X True (bind_entry f key val index)
      (\<lambda>s. block_end X call f body (exec_items X call f body s)) 0 xs s)" for xs
    by (rule run_items_safe) (simp_all add: b)
  then show "ok f A l s (run_for_each_map X f v key val index (\<lambda>s. block_end X call f body (exec_items X call f body s)) s)"
    unfolding run_for_each_map_def by (intro value_ok [OF assms(1)]) (auto intro!: safe_here split: pyval.split)
qed

lemma instruction_ok:
  "steps_ok f i" "\<forall>i \<in> set (ib_body b). steps_ok f i" "\<forall>i \<in> set (ct_body c). steps_ok f i"
proof (induction i and b and c)
  case (ICall i op fn args platforms callee slot)
  then show ?case by (auto simp: steps_ok_def intro!: store_result_safe exec_call_ok)
next
  case (IIf i c th bs oth)
  then show ?case by (auto simp: steps_ok_def [of f "IIf i c th bs oth"] intro!: value_ok block_ok branches_ok)
next
  case (ITry i body retry catchers fin)
  have "ok f A l s (exec_instruction X call f (ITry i body retry catchers fin) s)"
    if s: "safe_instruction K l A (ITry i body retry catchers fin)" for l A s
    unfolding exec_instruction.simps
  proof (rule safe_with_value)
    assume "fit K D f A s"
    then show "never (pl_error K) (retry_plan X f retry s)" using s by (intro retry_plan_ok) simp_all
  next
    fix p :: "int \<times> rat"
    obtain n q where p: "p = (n, q)" by (cases p)
    have "ok f A l s (finally_block (\<lambda>s. block_end X call f fin (exec_items X call f fin s))
      (case run_attempts (nat n) (retry_pause X call f i q)
          (\<lambda>s. block_end X call f body (exec_items X call f body s)) s of
         (s1, Raised e) \<Rightarrow> exec_catch X call f e catchers s1 | r \<Rightarrow> r))"
      using s ITry by (intro try_ok block_ok catch_ok) simp_all
    then show "ok f A l s (case p of (n, q) \<Rightarrow> finally_block (\<lambda>s. block_end X call f fin (exec_items X call f fin s))
      (case run_attempts (nat n) (retry_pause X call f i q)
          (\<lambda>s. block_end X call f body (exec_items X call f body s)) s of
         (s1, Raised e) \<Rightarrow> exec_catch X call f e catchers s1 | r \<Rightarrow> r))" by (simp add: p)
  qed
  then show ?case by (simp add: steps_ok_def [of f "ITry i body retry catchers fin"])
next
  case (ITargetScope i v body)
  then show ?case
    by (auto simp: steps_ok_def [of f "ITargetScope i v body"] intro!: run_target_scope_ok body_ok)
next
  case (IReturn i v)
  then show ?case
    by (cases v) (auto simp: steps_ok_def intro!: value_ok safe_here)
next
  case (IListen i name sender receive condition handler args)
  then show ?case by (auto simp: steps_ok_def intro!: register_ok)
next
  case (IRepeat i v body)
  then show ?case by (simp add: steps_ok_def [of f "IRepeat i v body"] loop_ok)
next
  case (IWhile i v body)
  then show ?case by (simp add: steps_ok_def [of f "IWhile i v body"] loop_ok)
next
  case (IForEach i v item index body)
  then show ?case by (simp add: steps_ok_def [of f "IForEach i v item index body"] loop_ok)
next
  case (IForEachMap i v key val index body)
  then show ?case by (simp add: steps_ok_def [of f "IForEachMap i v key val index body"] loop_ok)
qed (auto simp: steps_ok_def intro!: assign_local_ok assign_project_ok run_fail_ok safe_here)

section \<open>Functions\<close>

lemma exec_block_ok: "safe_items K l A ins \<Longrightarrow> ok f A l s (exec_block X call f ins s)"
  unfolding exec_block_def using instruction_ok(1) by (intro block_ok) simp_all

lemma function_result_ok: "ok f A False s r \<Longrightarrow> ok f A False s (function_result X t r)"
proof -
  assume r: "ok f A False s r"
  obtain u fl where u: "r = (u, fl)" by (cases r)
  have polled: "ok f A False u (let s1 = poll X u in
      if rs_cancel s1 \<or> rs_status s1 = Cancelled \<or> silent_return t then (s1, Returned PNone)
      else with_value (conforms (m_eval X) PNone t) s1
        (\<lambda>ok. (s1, if ok then Returned PNone else failure ''runtime.failure'')))"
    unfolding Let_def
    by (rule safe_after_quiet [OF quiet_poll [of u X]])
      (intro safe_choice safe_here safe_with_value never_conforms honest_env, simp_all)
  have "ok f A False u (function_result X t (u, fl))" if "flow_ok K B False fl"
  proof (cases fl)
    case (Returned v)
    have "ok f A False u (with_value (conforms (m_eval X) v t) u
        (\<lambda>ok. (u, if ok then Returned v else failure ''runtime.failure'')))"
      by (intro safe_with_value never_conforms honest_env) (simp add: safe_here)
    then show ?thesis by (simp add: Returned function_result_def safe_here)
  next
    case Next
    then show ?thesis using polled by (simp add: function_result_def)
  qed (use that in \<open>simp_all add: function_result_def safe_here\<close>)
  then show ?thesis using safe_then r u by metis
qed

lemma bind_parameters_dom:
  "bind_parameters X s args ps locals = Inr l \<Longrightarrow> dom l = dom locals \<union> set (map pd_name ps)"
proof (induction ps arbitrary: locals)
  case (Cons p ps)
  then obtain m where "bind_parameter X s args p locals = Inr m" "bind_parameters X s args ps m = Inr l"
    by (auto simp: rbind_Inr_iff)
  moreover have "dom m = insert (pd_name p) (dom locals)"
    using calculation(1) by (auto simp: bind_parameter_def fail_with_def rbind_Inr_iff split: if_splits)
  ultimately show ?case using Cons.IH [of m] by simp
qed simp

lemma function_body_guarded:
  assumes s: "at_rest K D s"
    and body: "\<And>d. m_functions X g = Some d \<Longrightarrow> safe_items K False (set (map pd_name (fd_parameters d))) (fd_instructions d)"
    and blame: "\<And>d e. m_functions X g = Some d \<Longrightarrow> bind_parameters X s args (fd_parameters d) Map.empty = Inl e \<Longrightarrow>
      rt_error_id e = pl_error K \<Longrightarrow> B e"
    and unknown: "pl_error K \<noteq> ''runtime.argument_unknown''"
  shows "guarded K B False (function_body X call g args s)"
proof (cases "m_functions X g")
  case None
  then show ?thesis using s by (simp add: function_body_def guarded_def at_rest_def)
next
  case (Some d)
  let ?f = "length (rs_frames s)" and ?A = "set (map pd_name (fd_parameters d))"
  show ?thesis
  proof (cases "bind_parameters X s args (fd_parameters d) Map.empty")
    case (Inl e)
    then show ?thesis using s Some blame [OF Some Inl]
      by (auto simp: function_body_def guarded_def at_rest_def)
  next
    case (Inr locals)
    let ?t = "s\<lparr>rs_frames := rs_frames s @ [locals]\<rparr>"
    have "well_formed s" using s by (simp add: at_rest_def)
    then have k: "keeps s ?t" by (rule new_frame) simp
    have "heard K s" using s by (simp add: at_rest_def)
    then have "heard K ?t" by (rule heard_later) (use k in \<open>simp_all add: keeps_def\<close>)
    then have "fit K D ?f ?A ?t"
      using s k bind_parameters_dom [OF Inr] by (auto simp: fit_def at_rest_def keeps_def)
    moreover have "ok ?f ?A False ?t (function_result X t (exec_block X call ?f (fd_instructions d) ?t))" for t
      by (intro function_result_ok exec_block_ok body [OF Some])
    ultimately have "guarded K B False (function_result X t (exec_block X call ?f (fd_instructions d) ?t))" for t
      by (simp add: safe_def)
    then show ?thesis
      using s Some Inr unknown by (simp add: function_body_def guarded_def at_rest_def Let_def)
  qed
qed

lemma enter_function_guarded:
  assumes s: "at_rest K D s"
    and body: "\<And>d. m_functions X g = Some d \<Longrightarrow> safe_items K False (set (map pd_name (fd_parameters d))) (fd_instructions d)"
    and blame: "\<And>d e s. m_functions X g = Some d \<Longrightarrow> bind_parameters X s args (fd_parameters d) Map.empty = Inl e \<Longrightarrow>
      rt_error_id e = pl_error K \<Longrightarrow> B e"
    and unknown: "pl_error K \<noteq> ''runtime.argument_unknown''"
  shows "guarded K B False (enter_function X call depth g args s)"
proof -
  let ?s = "s\<lparr>rs_calls := (g, depth) # rs_calls s\<rparr>"
  have "at_rest K D ?s"
    using s heard_same [of s ?s] by (simp add: at_rest_def well_formed_def)
  then have g: "guarded K B False (function_body X call g args ?s)"
    using body blame unknown by (rule function_body_guarded)
  obtain t r where t: "function_body X call g args ?s = (t, r)" by fastforce
  have "heard K (t\<lparr>rs_calls := tl (rs_calls t)\<rparr>)"
    by (rule heard_same [of t]) (use g t in \<open>simp_all add: guarded_def\<close>)
  then show ?thesis using g t by (simp add: enter_function_def guarded_def)
qed

end

lemma function_ends: "snd (enter_function X call depth g args s) \<noteq> Next"
proof -
  have r: "snd (function_result X t r) \<noteq> Next" for t r
    unfolding function_result_def Let_def
    by (cases r; cases "snd r") (auto simp: with_value_def failure_def split: sum.splits)
  have "snd (function_body X call g args s) \<noteq> Next" for s
  proof (cases "m_functions X g")
    case (Some d)
    then show ?thesis
      by (cases "bind_parameters X s args (fd_parameters d) Map.empty") (simp_all add: function_body_def failure_def r Let_def)
  qed (simp add: function_body_def failure_def)
  then show ?thesis by (simp add: enter_function_def split: prod.split) (metis snd_conv)
qed

lemma call_at_ends: "snd (call_at X n g args s) \<noteq> Next"
  by (cases n) (simp_all add: failure_def function_ends)

end
