(* ===== verification/Compile_Soundness.thy ===== *)
theory Compile_Soundness
  imports Compile_Properties Runtime_Safety
begin

text \<open>
  From the validator to the interpreter: the instructions of a block that is definitely assigned,
  jumps only inside loops and calls only what it may, satisfy the condition under which a run
  cannot fail with a followed error.
\<close>

section \<open>Binding more names\<close>

lemma safe_mono:
  "safe_items K l A ins \<Longrightarrow> A \<subseteq> A' \<Longrightarrow> safe_items K l A' ins"
  "safe_instruction K l A i \<Longrightarrow> A \<subseteq> A' \<Longrightarrow> safe_instruction K l A' i"
proof (induction K l A ins and K l A i arbitrary: A' and A' rule: safe_items_safe_instruction.induct)
  case (2 K l A i rest)
  have "safe_items K l (A' \<union> ins_writes i) rest" by (rule "2.IH"(2)) (use "2.prems" in auto)
  then show ?case using "2.IH"(1) "2.prems" by simp
next
  case (9 K l A i v item index body)
  have "safe_items K True (A' \<union> slot_names item \<union> slot_names index) body" by (rule "9.IH") (use "9.prems" in auto)
  then show ?case using "9.prems" by (auto intro: covers_mono)
next
  case (10 K l A i v key val index body)
  have "safe_items K True (A' \<union> slot_names key \<union> slot_names val \<union> slot_names index) body"
    by (rule "10.IH") (use "10.prems" in auto)
  then show ?case using "10.prems" by (auto intro: covers_mono)
next
  case (15 K l A i body retry catchers fin)
  have "safe_items K l (A' \<union> slot_names (ct_error_slot c)) (ct_body c)" if "c \<in> set catchers" for c
    by (rule "15.IH"(3) [OF that]) (use "15.prems" that in auto)
  then show ?case using "15.IH"(1,2) "15.prems" by (auto intro: covers_mono)
next
  case (17 K l A i name sender receive condition handler args)
  have "insert receive A \<subseteq> insert receive A'" using "17.prems" by auto
  then show ?case using "17.prems" by (auto intro: covers_mono covers_all_mono)
qed (auto intro: covers_mono covers_all_mono)

section \<open>Compiled values\<close>

text \<open>What a statement has to satisfy besides: its model's fields, the project variables it reads,
  the error it may raise by name, the functions it calls and the handler it registers.\<close>

fun raised_id :: "statement \<Rightarrow> string option" where
  "raised_id (FailStatement i e m d l) = Some e"
| "raised_id _ = None"

fun callee_ok :: "policy \<Rightarrow> compile_env \<Rightarrow> statement \<Rightarrow> bool" where
  "callee_ok K C (CallStatement i f args rb review l) \<longleftrightarrow>
     (\<forall>c. get_contract (ce_validation C) f = Some c \<longrightarrow> fc_opcode c = ''call.project'' \<longrightarrow>
       pl_callee K (if fc_function_id c \<in> ce_project_functions C then fc_function_id c else []))"
| "callee_ok K C (ListenStatement i src rb c h args l) \<longleftrightarrow> pl_handler K h"
| "callee_ok K C _ \<longleftrightarrow> True"

definition suits :: "policy \<Rightarrow> compile_env \<Rightarrow> statement \<Rightarrow> bool" where
  "suits K C s \<longleftrightarrow> statement_ok s \<and> raised_id s \<noteq> Some (pl_error K) \<and> callee_ok K C s \<and>
     (pl_error K = ''runtime.variable_unset'' \<longrightarrow> (\<forall>v \<in> set (statement_value_roots s). project_reads v \<subseteq> pl_vars K))"

lemma stable_not_empty: "stable_id_ok i \<Longrightarrow> i \<noteq> []"
  by (auto simp: stable_id_ok_def)

locale safe_compilation = followed_error "pl_error K" for K :: policy +
  fixes C :: compile_env
  assumes honest: "honest_env (pl_error K) (pl_env K)"
begin

definition readable_root :: "string set \<Rightarrow> value_node \<Rightarrow> bool" where
  "readable_root A v \<longleftrightarrow> value_reads v \<subseteq> A \<and> (pl_error K = ''runtime.variable_unset'' \<longrightarrow> project_reads v \<subseteq> pl_vars K)"

lemma lowered_covers: "lowered v = Inr w \<Longrightarrow> readable_root A v \<Longrightarrow> covers K A w"
proof -
  assume "lowered v = Inr w" and r: "readable_root A v"
  then have w: "lower_value v = Inr w" by (auto simp: lowered_def split: sum.splits)
  have "readable (pl_error K) (sc_locals sc) (sc_project sc) v"
    if "A \<subseteq> dom (sc_locals sc)" "pl_vars K \<subseteq> dom (sc_project sc)" for sc
    using r that unfolding readable_root_def readable_def by blast
  then show ?thesis using never_lowered [OF honest w] by (auto simp: covers_def)
qed

lemma lowered_option_covers:
  "lowered_option v = Inr w \<Longrightarrow> \<forall>x \<in> set_option v. readable_root A x \<Longrightarrow> \<forall>y \<in> set_option w. covers K A y"
  by (auto simp: lowered_option_def rbind_Inr_iff intro: lowered_covers split: option.splits)

lemma lowered_pairs_covers:
  "lowered_pairs args = Inr ws \<Longrightarrow> \<forall>(k, v) \<in> set args. readable_root A v \<Longrightarrow> covers_all K A ws"
  unfolding lowered_pairs_def rmap_Inr_all2 covers_all_def
  by (induction args ws rule: list_all2_induct) (auto simp: rbind_Inr_iff intro: lowered_covers)

section \<open>Compiled statements\<close>

lemma binding_slot: "list_all loop_binding_ok (opt_list b) \<Longrightarrow> slot_names (map_option lb_symbol_id b) = lb_symbol_id ` set_option b"
  by (cases b) (auto simp: slot_names_def loop_binding_ok_def dest: stable_not_empty)

lemma result_slot: "list_all result_binding_ok (opt_list b) \<Longrightarrow> slot_names (map_option rb_symbol_id b) = rb_symbol_id ` set_option b"
  by (cases b) (auto simp: slot_names_def result_binding_ok_def dest: stable_not_empty)

lemma rmap_source: "rmap f xs = Inr ys \<Longrightarrow> y \<in> set ys \<Longrightarrow> \<exists>x \<in> set xs. f x = Inr y"
  by (induction xs arbitrary: ys) (auto simp: rbind_Inr_iff)

lemma given_arguments_subset: "set (given_arguments c args) \<subseteq> set args"
  by (auto simp: given_arguments_def intro: map_of_SomeD [OF sym] split: option.splits)

lemma compiled_writes:
  assumes "compile_statement C s = Inr i" "suits K C s"
  shows "ins_writes i = statement_writes s"
proof (cases s)
  case (CallStatement sid f args rb review l)
  then show ?thesis
    using assms result_slot [of rb]
    by (auto simp: compile_simps compile_call_def rbind_Inr_iff suits_def statement_ok_def)
next
  case (AssignmentStatement sid t v l)
  then show ?thesis using assms by (cases t) (auto simp: compile_simps rbind_Inr_iff)
next
  case (LoopStatement sid m source body item idx key val l)
  then show ?thesis using assms by (cases m) (auto simp: compile_simps rbind_Inr_iff compile_loop_def)
qed (use assms in \<open>auto simp: compile_simps rbind_Inr_iff compile_listen_def\<close>)

lemma call_safe:
  assumes "compile_call C sid f args rb = Inr i" "suits K C (CallStatement sid f args rb review t)"
    "\<forall>(k, v) \<in> set args. readable_root A v"
  shows "safe_instruction K l A i"
proof -
  obtain c as where c: "get_contract (ce_validation C) f = Some c" "lowered_pairs (given_arguments c args) = Inr as"
      "i = ICall sid (fc_opcode c) (fc_function_id c) as (ce_platforms C c)
         (if fc_function_id c \<in> ce_project_functions C \<or> fc_opcode c = ''call.extension''
          then Some (fc_function_id c) else None)
         (map_option rb_symbol_id rb)"
    using assms(1) by (auto simp: compile_call_def rbind_Inr_iff)
  have "covers_all K A as"
    using lowered_pairs_covers [OF c(2)] given_arguments_subset [of c args] assms(3) by blast
  then show ?thesis using assms(2) c by (auto simp: suits_def)
qed

lemma listen_safe:
  assumes "compile_listen sid src rb c h args = Inr i" "suits K C (ListenStatement sid src rb c h args t)"
    "readable_root A (es_name src)" "\<forall>v \<in> set_option (es_sender src). readable_root A v"
    "\<forall>v \<in> set_option c. readable_root A v" "\<forall>(k, v) \<in> set args. readable_root (insert (lb_symbol_id rb) A) v"
  shows "safe_instruction K l A i"
proof -
  obtain n who cond as where p: "lowered (es_name src) = Inr n" "lowered_option (es_sender src) = Inr who"
      "lowered_option c = Inr cond" "lowered_pairs (sort_key fst args) = Inr as"
      "i = IListen sid n who (lb_symbol_id rb) cond h as"
    using assms(1) by (auto simp: compile_listen_def rbind_Inr_iff)
  have "\<forall>w \<in> set_option cond. covers K (insert (lb_symbol_id rb) A) w"
    using lowered_option_covers [OF p(3) assms(5)] covers_mono by (meson subset_insertI)
  moreover have "covers_all K (insert (lb_symbol_id rb) A) as"
    using lowered_pairs_covers [OF p(4)] assms(6) by simp
  ultimately show ?thesis
    using p assms lowered_covers [OF p(1)] lowered_option_covers [OF p(2)] by (auto simp: suits_def)
qed

lemma loop_safe:
  assumes "safe_items K True (A \<union> loop_bound m item idx key val) body" "covers K A w"
    "suits K C (LoopStatement sid m source b item idx key val t)"
  shows "safe_instruction K l A (compile_loop sid m w item idx key val body)"
proof -
  have slots: "slot_names (map_option lb_symbol_id x) = lb_symbol_id ` set_option x" if "x \<in> {item, idx, key, val}" for x
    using assms(3) that by (intro binding_slot) (auto simp: suits_def statement_ok_def)
  show ?thesis
  proof (cases m)
    case ModeForEach
    have "A \<union> slot_names (map_option lb_symbol_id item) \<union> slot_names (map_option lb_symbol_id idx) =
        A \<union> loop_bound m item idx key val"
      by (simp add: ModeForEach slots loop_bound_def image_Un Un_assoc)
    then show ?thesis using assms ModeForEach by (simp add: compile_loop_def)
  next
    case ModeForEachMap
    have "A \<union> loop_bound m item idx key val \<subseteq> A \<union> slot_names (map_option lb_symbol_id key) \<union>
        slot_names (map_option lb_symbol_id val) \<union> slot_names (map_option lb_symbol_id idx)"
      by (auto simp: ModeForEachMap slots loop_bound_def)
    then show ?thesis using assms ModeForEachMap safe_mono(1) by (auto simp: compile_loop_def)
  qed (use assms in \<open>simp_all add: compile_loop_def loop_bound_def\<close>)
qed

lemma statement_safe:
  assumes i: "compile_statement C s = Inr i" and s: "suits K C s"
    and vals: "\<And>D v. (D, v) \<in> set (value_scopes s) \<Longrightarrow> readable_root (A \<union> D) v"
    and blocks: "\<And>D b ins. (D, b) \<in> set (block_scopes s) \<Longrightarrow> rmap (compile_statement C) b = Inr ins \<Longrightarrow>
      safe_items K (l \<or> is_loop s) (A \<union> D) ins"
    and jump: "is_jump s \<Longrightarrow> l"
  shows "safe_instruction K l A i"
proof (cases s)
  case (CallStatement sid f args rb review t)
  have "\<forall>(k, v) \<in> set args. readable_root A v"
    using vals [of "{}"] CallStatement by fastforce
  then show ?thesis using i s unfolding CallStatement by (intro call_safe) (simp_all add: compile_simps)
next
  case (AssignmentStatement sid t v lb)
  then show ?thesis
    using i vals [of "{}" v] by (cases t) (auto simp: compile_simps rbind_Inr_iff intro: lowered_covers)
next
  case (IfStatement sid c th branches oth lb)
  obtain w th' bs oth' where p: "lowered c = Inr w" "rmap (compile_statement C) th = Inr th'"
      "rmap (\<lambda>b. rbind (lowered (branch_condition b)) (\<lambda>bc.
          rbind (rmap (compile_statement C) (branch_statements b)) (\<lambda>body. Inr (IfBranch bc body)))) branches = Inr bs"
      "rmap (compile_statement C) oth = Inr oth'" "i = IIf sid w th' bs oth'"
    using i unfolding IfStatement by (auto simp: compile_simps rbind_Inr_iff)
  have "covers K A (ib_condition b) \<and> safe_items K l A (ib_body b)" if member: "b \<in> set bs" for b
  proof -
    obtain x where x: "x \<in> set branches" and c: "rbind (lowered (branch_condition x)) (\<lambda>bc.
          rbind (rmap (compile_statement C) (branch_statements x)) (\<lambda>body. Inr (IfBranch bc body))) = Inr b"
      using rmap_source [OF p(3) member] by blast
    then show ?thesis
      using vals [of "{}" "branch_condition x"] blocks [of "{}" "branch_statements x"] x IfStatement
      by (auto simp: rbind_Inr_iff intro: lowered_covers)
  qed
  then show ?thesis
    using p vals [of "{}" c] blocks [of "{}" th] blocks [of "{}" oth] IfStatement by (auto intro: lowered_covers)
next
  case (LoopStatement sid m source body item idx key val lb)
  obtain w body' where p: "lowered source = Inr w" "rmap (compile_statement C) body = Inr body'"
      "i = compile_loop sid m w item idx key val body'"
    using i unfolding LoopStatement by (auto simp: compile_simps rbind_Inr_iff)
  show ?thesis
    unfolding p(3)
  proof (rule loop_safe)
    show "safe_items K True (A \<union> loop_bound m item idx key val) body'"
      using blocks [of _ body, OF _ p(2)] LoopStatement by simp
    show "covers K A w" using lowered_covers [OF p(1)] vals [of "{}" source] LoopStatement by simp
  qed (use s LoopStatement in simp)
next
  case (FailStatement sid e m d lb)
  obtain w x where p: "lowered m = Inr w" "lowered_option d = Inr x" "i = IFail sid e w x"
    using i unfolding FailStatement by (auto simp: compile_simps rbind_Inr_iff)
  then show ?thesis
    using s vals [of "{}"] lowered_covers [OF p(1)] lowered_option_covers [OF p(2)] FailStatement by (auto simp: suits_def)
next
  case (ReturnStatement sid v lb)
  obtain x where p: "lowered_option v = Inr x" "i = IReturn sid x"
    using i unfolding ReturnStatement by (auto simp: compile_simps rbind_Inr_iff)
  then show ?thesis using vals [of "{}"] lowered_option_covers [OF p(1)] ReturnStatement by auto
next
  case (TryStatement sid body policy catches fin lb)
  obtain retry body' cs fin' where p: "compile_retry policy = Inr retry" "rmap (compile_statement C) body = Inr body'"
      "rmap (\<lambda>c. rbind (rmap (compile_statement C) (catch_statements c)) (\<lambda>b.
          Inr (Catcher (catch_error_ids c) (map_option lb_symbol_id (catch_error_binding c)) b))) catches = Inr cs"
      "rmap (compile_statement C) fin = Inr fin'" "i = ITry sid body' retry cs fin'"
    using i unfolding TryStatement by (auto simp: compile_simps rbind_Inr_iff)
  have "covers K A x \<and> covers K A y" if retry: "retry = Some (x, y)" for x y
  proof -
    obtain q where q: "policy = Some q" "lowered (rp_max_retries q) = Inr x" "lowered (rp_interval q) = Inr y"
      using p(1) retry by (auto simp: compile_retry_def rbind_Inr_iff split: option.splits)
    then show ?thesis
      using vals [of "{}" "rp_max_retries q"] vals [of "{}" "rp_interval q"] TryStatement lowered_covers by simp
  qed
  moreover have "safe_items K l (A \<union> slot_names (ct_error_slot c)) (ct_body c)" if member: "c \<in> set cs" for c
  proof -
    obtain x where x: "x \<in> set catches" and c: "rbind (rmap (compile_statement C) (catch_statements x)) (\<lambda>b.
          Inr (Catcher (catch_error_ids x) (map_option lb_symbol_id (catch_error_binding x)) b)) = Inr c"
      using rmap_source [OF p(3) member] by blast
    have "slot_names (map_option lb_symbol_id (catch_error_binding x)) = lb_symbol_id ` set_option (catch_error_binding x)"
      using s x TryStatement by (intro binding_slot) (auto simp: suits_def statement_ok_def list_all_iff)
    then show ?thesis
      using c x blocks [of "lb_symbol_id ` set_option (catch_error_binding x)" "catch_statements x"] TryStatement
      by (auto simp: rbind_Inr_iff)
  qed
  ultimately show ?thesis
    using p blocks [of "{}" body] blocks [of "{}" fin] TryStatement by auto
next
  case (TargetScopeStatement sid v body lb)
  then show ?thesis
    using i vals [of "{}" v] blocks [of "{}" body] by (auto simp: compile_simps rbind_Inr_iff intro: lowered_covers)
next
  case (ListenStatement sid src rb c h args lb)
  have "readable_root A (es_name src)" "\<forall>v \<in> set_option (es_sender src). readable_root A v"
      "\<forall>v \<in> set_option c. readable_root A v"
    using vals [of "{}"] ListenStatement by auto
  moreover have "readable_root (insert (lb_symbol_id rb) A) v" if arg: "(k, v) \<in> set args" for k v
  proof -
    have "({lb_symbol_id rb}, v) \<in> set (value_scopes s)" using arg ListenStatement by force
    then show ?thesis using vals by fastforce
  qed
  then have "\<forall>(k, v) \<in> set args. readable_root (insert (lb_symbol_id rb) A) v" by blast
  ultimately show ?thesis
    using i s unfolding ListenStatement
    by (intro listen_safe [where c = c and h = h and sid = sid and t = lb]) (simp_all add: compile_simps)
qed (use i jump in \<open>auto simp: compile_simps\<close>)

lemma block_safe:
  "definitely_assigned A ss \<Longrightarrow> jumps_in_loops l ss \<Longrightarrow> \<forall>s \<in> set (iter_statement_tree ss). suits K C s \<Longrightarrow>
     rmap (compile_statement C) ss = Inr ins \<Longrightarrow> safe_items K l A ins"
proof (induction ss arbitrary: A l ins rule: forest_induct)
  case (Cons s rest)
  obtain i more where c: "compile_statement C s = Inr i" "rmap (compile_statement C) rest = Inr more" "ins = i # more"
    using Cons.prems(4) by (auto simp: rbind_Inr_iff)
  have s: "suits K C s" using Cons.prems(3) by simp
  have "safe_instruction K l A i"
  proof (rule statement_safe [OF c(1) s])
    fix D v
    assume v: "(D, v) \<in> set (value_scopes s)"
    then have "v \<in> set (statement_value_roots s)" by (metis image_eqI list.set_map snd_conv value_scopes_roots)
    then show "readable_root (A \<union> D) v"
      using Cons.prems(1) v s by (auto simp: readable_root_def suits_def)
  next
    fix D b bs
    assume b: "(D, b) \<in> set (block_scopes s)" "rmap (compile_statement C) b = Inr bs"
    have child: "b \<in> set (statement_child_blocks s)" by (rule block_scopes_child [OF b(1)])
    show "safe_items K (l \<or> is_loop s) (A \<union> D) bs"
    proof (rule Cons.IH(1) [OF child _ _ _ b(2)])
      show "definitely_assigned (A \<union> D) b" using Cons.prems(1) b(1) by auto
      show "jumps_in_loops (l \<or> is_loop s) b" using Cons.prems(2) child by auto
      show "\<forall>s \<in> set (iter_statement_tree b). suits K C s" using Cons.prems(3) child by auto
    qed
  next
    show "is_jump s \<Longrightarrow> l" using Cons.prems(2) by simp
  qed
  moreover have "safe_items K l (A \<union> ins_writes i) more"
    unfolding compiled_writes [OF c(1) s] using Cons.prems by (intro Cons.IH(2) [OF _ _ _ c(2)]) auto
  ultimately show ?case by (simp add: c(3))
qed simp

lemma document_safe:
  assumes v: "validate_program_document E d = []"
    and ins: "rmap (compile_statement C) (doc_statements d) = Inr ins"
    and s: "\<forall>s \<in> set (iter_statement_tree (doc_statements d)). suits K C s"
  shows "safe_items K False (parameter_symbols d) ins"
  by (rule block_safe [OF _ _ s ins])
    (use block_definitely_assigned [OF document_block_clean [OF v]] block_jumps_in_loops [OF document_block_clean [OF v]]
      in \<open>simp_all add: dom_initial_symbols\<close>)

end

end
