(* ===== verification/Program_Link.thy ===== *)
theory Program_Link
  imports Compile_Properties
begin

text \<open>
  The linker, \<^verbatim>\<open>compile_program_bundle\<close> of \<^verbatim>\<open>core/vnext/program_compiler.py\<close>:
  the documents by function, the contracts of the project's own functions laid over the official
  ones, the identifiers documents may not share, the functions the entry reaches (without cycles),
  and the compilation of each. The merged tables of capabilities, platforms and debug maps are
  unions of the documents' own and left out.
\<close>

section \<open>The documents of a project\<close>

text \<open>
  \<open>li_fingerprint\<close> is the digest of a function's signature; \<open>li_depth\<close> is how deep
  \<^verbatim>\<open>visit\<close> may recurse before Python raises \<^verbatim>\<open>RecursionError\<close>.
\<close>

record link_input =
  li_compile :: compile_env
  li_entry :: stable_id
  li_fingerprint :: "program_function \<Rightarrow> string"
  li_depth :: nat

type_synonym function_table = "(stable_id \<times> program_document) list"

abbreviation document_function :: "program_document \<Rightarrow> stable_id" where
  "document_function d \<equiv> fn_function_id (doc_function d)"

fun register_documents ::
  "stable_id set \<Rightarrow> function_table \<Rightarrow> program_document list \<Rightarrow> diagnostic list \<times> function_table" where
  "register_documents seen table [] = ([], table)"
| "register_documents seen table (d # ds) =
     (let f = document_function d;
          known = (map_of table f \<noteq> None);
          (more, result) = register_documents (insert (doc_document_id d) seen)
            (if known then table else table @ [(f, d)]) ds
      in (emit (doc_document_id d \<in> seen) ''PGM-LINK-002'' [] [] @ emit known ''PGM-LINK-003'' [] [] @ more, result))"

definition project_parameter :: "program_parameter \<Rightarrow> parameter_contract" where
  "project_parameter p =
     \<lparr>pc_parameter_id = pp_parameter_id p, pc_value_type = pp_value_type p, pc_required = pp_required p,
      pc_has_default = Some (pp_default_value p \<noteq> None),
      pc_default = (case pp_default_value p of None \<Rightarrow> PlainDefault JNull | Some v \<Rightarrow> NodeDefault v),
      pc_choices = []\<rparr>"

definition project_contract :: "link_input \<Rightarrow> program_document \<Rightarrow> function_contract" where
  "project_contract I d =
     (let f = doc_function d in
      \<lparr>fc_function_id = fn_function_id f, fc_name = fn_display_name f, fc_opcode = ''call.project'',
       fc_parameters = map project_parameter (fn_parameters f), fc_return_type = fn_return_type f,
       fc_dangerous = False, fc_side_effects = [], fc_fingerprint = li_fingerprint I f, fc_permissions = []\<rparr>)"

text \<open>\<^verbatim>\<open>_LinkedContractRegistry\<close>.\<close>

definition linked_contract :: "link_input \<Rightarrow> function_table \<Rightarrow> contract_registry" where
  "linked_contract I table f =
     (case map_of table f of
        Some d \<Rightarrow> Some (project_contract I d)
      | None \<Rightarrow> get_contract (ce_validation (li_compile I)) f)"

definition is_project_contract :: "link_input \<Rightarrow> function_table \<Rightarrow> function_contract \<Rightarrow> bool" where
  "is_project_contract I table c \<longleftrightarrow>
     map_option (project_contract I) (map_of table (fc_function_id c)) = Some c"

text \<open>The environment each function of the closure is compiled in.\<close>

definition linked_env :: "link_input \<Rightarrow> function_table \<Rightarrow> compile_env" where
  "linked_env I table =
     (let C = li_compile I in
      C\<lparr>ce_validation := (ce_validation C)\<lparr>ve_registry := Some (linked_contract I table)\<rparr>,
        ce_platforms := (\<lambda>c. if is_project_contract I table c then core_platforms else ce_platforms C c),
        ce_supported := (\<lambda>c p. if is_project_contract I table c then None else ce_supported C c p),
        ce_project_functions := set (map fst table), ce_skip_conflicts := True\<rparr>)"

section \<open>Identifiers of the workspace\<close>

text \<open>An identifier with the statement and the value a diagnostic on it names.\<close>

type_synonym owned_id = "stable_id \<times> stable_id \<times> stable_id"

definition statement_owners :: "statement \<Rightarrow> owned_id list" where
  "statement_owners s =
     (statement_id s, statement_id s, []) # map (\<lambda>v. (value_id v, statement_id s, value_id v)) (statement_values s)"

fun claim_ids ::
  "stable_id \<Rightarrow> owned_id list \<Rightarrow> (stable_id \<Rightarrow> stable_id option) \<Rightarrow> diagnostic list \<times> (stable_id \<Rightarrow> stable_id option)" where
  "claim_ids f [] owned = ([], owned)"
| "claim_ids f ((i, sid, vid) # rest) owned =
     (let clash = (case owned i of None \<Rightarrow> False | Some g \<Rightarrow> g \<noteq> f);
          (more, result) = claim_ids f rest (if clash then owned else owned(i \<mapsto> f))
      in (emit clash ''PGM-LINK-004'' sid vid @ more, result))"

fun claim_functions ::
  "function_table \<Rightarrow> (stable_id \<Rightarrow> stable_id option) \<Rightarrow> diagnostic list \<times> (stable_id \<Rightarrow> stable_id option)" where
  "claim_functions [] owned = ([], owned)"
| "claim_functions ((f, d) # rest) owned =
     (let (ds, owned1) = claim_ids f (concat (map statement_owners (iter_statement_tree (doc_statements d)))) owned;
          (more, result) = claim_functions rest owned1
      in (ds @ more, result))"

text \<open>The default of a project variable, walked with a stack: a node before its children, the last first.\<close>

function default_nodes :: "value_node \<Rightarrow> value_node list" where
  "default_nodes v = v # concat (map default_nodes (rev (iter_value_children v)))"
  by pat_completeness auto
termination by (relation "measure size") (auto simp: value_child_size)

declare default_nodes.simps [simp del]

fun claim_defaults ::
  "value_node list \<Rightarrow> (stable_id \<Rightarrow> stable_id option) \<Rightarrow> diagnostic list" where
  "claim_defaults [] owned = []"
| "claim_defaults (v # vs) owned =
     emit (owned (value_id v) \<noteq> None) ''PGM-LINK-004'' [] (value_id v) @
     claim_defaults vs (if owned (value_id v) \<noteq> None then owned else owned(value_id v \<mapsto> ''project_variables''))"

definition owned_diagnostics :: "link_input \<Rightarrow> function_table \<Rightarrow> diagnostic list" where
  "owned_diagnostics I table =
     (let (ds, owned) = claim_functions (sort_key fst table) Map.empty in
      ds @ claim_defaults (concat (map (\<lambda>(k, v). default_nodes v) (ce_defaults (li_compile I)))) owned)"

section \<open>The reachable functions\<close>

datatype visit_mark = Visiting | Visited

record link_state =
  ls_marks :: "stable_id \<Rightarrow> visit_mark option"
  ls_closure :: "stable_id list"
  ls_diagnostics :: "diagnostic list"

text \<open>A statement that refers to a function, the function, and whether it is a listener's handler.\<close>

fun dependency :: "statement \<Rightarrow> (stable_id \<times> stable_id \<times> bool) option" where
  "dependency (CallStatement sid f args rb review l) = Some (sid, f, False)"
| "dependency (ListenStatement sid src rb c h args l) = Some (sid, h, True)"
| "dependency _ = None"

definition dependencies :: "program_document \<Rightarrow> (stable_id \<times> stable_id \<times> bool) list" where
  "dependencies d = List.map_filter dependency (iter_statement_tree (doc_statements d))"

definition report :: "diagnostic list \<Rightarrow> link_state \<Rightarrow> link_state" where
  "report ds st = st\<lparr>ls_diagnostics := ls_diagnostics st @ ds\<rparr>"

definition missing_callee :: "link_input \<Rightarrow> stable_id \<times> stable_id \<times> bool \<Rightarrow> diagnostic list" where
  "missing_callee I dep =
     (case dep of (sid, g, listen) \<Rightarrow>
        if listen then emit True ''PGM-LISTEN-002'' sid []
        else emit (get_contract (ce_validation (li_compile I)) g = None) ''PGM-LINK-005'' sid [])"

text \<open>\<^verbatim>\<open>visit\<close>; no result is the recursion limit of Python.\<close>

function (sequential) visit :: "link_input \<Rightarrow> function_table \<Rightarrow> nat \<Rightarrow> stable_id \<Rightarrow> link_state \<Rightarrow> link_state option"
and visit_dependencies ::
  "link_input \<Rightarrow> function_table \<Rightarrow> nat \<Rightarrow> (stable_id \<times> stable_id \<times> bool) list \<Rightarrow> link_state \<Rightarrow> link_state option" where
  "visit I table 0 f st = None"
| "visit I table (Suc n) f st =
     (let st1 = st\<lparr>ls_marks := (ls_marks st)(f \<mapsto> Visiting), ls_closure := ls_closure st @ [f]\<rparr>;
          deps = (case map_of table f of None \<Rightarrow> [] | Some d \<Rightarrow> dependencies d)
      in map_option (\<lambda>st2. st2\<lparr>ls_marks := (ls_marks st2)(f \<mapsto> Visited)\<rparr>) (visit_dependencies I table n deps st1))"
| "visit_dependencies I table n [] st = Some st"
| "visit_dependencies I table n (dep # deps) st =
     (let (sid, g, listen) = dep in
      if map_of table g = None then visit_dependencies I table n deps (report (missing_callee I dep) st)
      else case ls_marks st g of
        Some Visiting \<Rightarrow> visit_dependencies I table n deps (report (emit True ''PGM-LINK-006'' sid []) st)
      | Some Visited \<Rightarrow> visit_dependencies I table n deps st
      | None \<Rightarrow>
          (case visit I table n g st of
             None \<Rightarrow> None
           | Some st1 \<Rightarrow> visit_dependencies I table n deps st1))"
  by pat_completeness auto
termination
  by (relation "measures [\<lambda>p. case p of Inl (I, table, n, f, st) \<Rightarrow> n | Inr (I, table, n, deps, st) \<Rightarrow> n,
      \<lambda>p. case p of Inl (I, table, n, f, st) \<Rightarrow> 0 | Inr (I, table, n, deps, st) \<Rightarrow> Suc (length deps)]") auto

definition initial_link_state :: link_state where
  "initial_link_state = \<lparr>ls_marks = Map.empty, ls_closure = [], ls_diagnostics = []\<rparr>"

section \<open>The linked program\<close>

datatype link_result =
    LinkRecursion
  | LinkRaised compile_error
  | LinkRejected "diagnostic list"
  | LinkedProgram "(stable_id \<times> function_definition) list"

text \<open>The functions of the closure in order: the diagnostics of all, the definitions of the valid ones.\<close>

fun compile_closure ::
  "compile_env \<Rightarrow> function_table \<Rightarrow> stable_id list \<Rightarrow>
     compile_error + diagnostic list \<times> (stable_id \<times> function_definition) list" where
  "compile_closure C table [] = Inr ([], [])"
| "compile_closure C table (f # fs) =
     (case map_of table f of
        None \<Rightarrow> Inl (ContractError f)
      | Some d \<Rightarrow>
          rbind (compile_document C d) (\<lambda>r.
          rbind (compile_closure C table fs) (\<lambda>(ds, fns).
            Inr (case r of Inl bad \<Rightarrow> (bad @ ds, fns) | Inr fd \<Rightarrow> (ds, (f, fd) # fns)))))"

definition link_program :: "link_input \<Rightarrow> program_document list \<Rightarrow> link_result" where
  "link_program I docs =
     (let (ds, table) = register_documents {} [] docs;
          entry = emit (map_of table (li_entry I) = None) ''PGM-LINK-001'' [] []
      in if ds @ entry \<noteq> [] then LinkRejected (ds @ entry)
      else case visit I table (li_depth I) (li_entry I) initial_link_state of
          None \<Rightarrow> LinkRecursion
        | Some st \<Rightarrow>
            (let found = owned_diagnostics I table @ ls_diagnostics st @
               message_conflicts (List.map_filter (map_of table) (ls_closure st))
             in if found \<noteq> [] then LinkRejected found
             else case compile_closure (linked_env I table) table (ls_closure st) of
                 Inl e \<Rightarrow> LinkRaised e
               | Inr (bad, fns) \<Rightarrow> if bad \<noteq> [] then LinkRejected bad else LinkedProgram fns))"

end
