(* ===== verification/Link_Properties.thy ===== *)
theory Link_Properties
  imports Program_Link
begin

text \<open>
  The depth-first search of the linker: a linked closure has no cycle (there is a rank every
  reference lowers), contains what it refers to, names each function once, and the search ends
  within as many levels as the project has functions.
\<close>

section \<open>References and ranks\<close>

definition refers :: "function_table \<Rightarrow> stable_id \<Rightarrow> stable_id \<Rightarrow> bool" where
  "refers table f g \<longleftrightarrow> map_of table g \<noteq> None \<and>
     (\<exists>d sid l. map_of table f = Some d \<and> (sid, g, l) \<in> set (dependencies d))"

definition ranked :: "function_table \<Rightarrow> stable_id set \<Rightarrow> (stable_id \<Rightarrow> nat) \<Rightarrow> bool" where
  "ranked table S r \<longleftrightarrow> finite S \<and> (\<forall>f \<in> S. r f < card S \<and> (\<forall>g. refers table f g \<longrightarrow> g \<in> S \<and> r g < r f))"

lemma ranked_insert:
  assumes r: "ranked table S r" and f: "f \<notin> S" and refs: "\<And>g. refers table f g \<Longrightarrow> g \<in> S"
  shows "ranked table (insert f S) (r(f := card S))"
proof -
  have "finite S" using r by (simp add: ranked_def)
  moreover have "r g < card S" if "g \<in> S" for g using r that by (simp add: ranked_def)
  moreover have "refers table h g \<Longrightarrow> h \<in> S \<Longrightarrow> g \<in> S \<and> r g < r h" for g h
    using r by (simp add: ranked_def)
  ultimately show ?thesis
    unfolding ranked_def using f refs by (fastforce simp: less_Suc_eq)
qed

section \<open>The search\<close>

definition finished :: "link_state \<Rightarrow> stable_id set" where
  "finished st = {f. ls_marks st f = Some Visited}"

definition open_set :: "link_state \<Rightarrow> stable_id set" where
  "open_set st = {f. ls_marks st f = Some Visiting}"

definition sound_search :: "function_table \<Rightarrow> link_state \<Rightarrow> bool" where
  "sound_search table st \<longleftrightarrow>
     (\<exists>r. ranked table (finished st) r) \<and> distinct (ls_closure st) \<and> set (ls_closure st) = dom (ls_marks st)"

text \<open>What a step of the search keeps: the open functions, the finished ones, and silence.\<close>

definition search_step :: "function_table \<Rightarrow> link_state \<Rightarrow> link_state \<Rightarrow> bool" where
  "search_step table st st' \<longleftrightarrow>
     (sound_search table st \<longrightarrow> sound_search table st') \<and> open_set st' = open_set st \<and>
     finished st \<subseteq> finished st' \<and> ls_diagnostics st = []"

lemma search_step_trans:
  "search_step table st st1 \<Longrightarrow> search_step table st1 st2 \<Longrightarrow> search_step table st st2"
  by (auto simp: search_step_def)

lemma visit_step:
  "visit I table n f st = Some st' \<Longrightarrow> ls_marks st f = None \<Longrightarrow> ls_diagnostics st' = [] \<Longrightarrow>
     search_step table st st' \<and> f \<in> finished st'"
  "visit_dependencies I table n deps st = Some st' \<Longrightarrow> ls_diagnostics st' = [] \<Longrightarrow>
     search_step table st st' \<and> (\<forall>(sid, g, l) \<in> set deps. map_of table g \<noteq> None \<longrightarrow> g \<in> finished st')"
proof (induction I table n f st and I table n deps st arbitrary: st' and st' rule: visit_visit_dependencies.induct)
  case (2 I table n f st)
  define st1 where "st1 = st\<lparr>ls_marks := (ls_marks st)(f \<mapsto> Visiting), ls_closure := ls_closure st @ [f]\<rparr>"
  define deps where "deps = (case map_of table f of None \<Rightarrow> [] | Some d \<Rightarrow> dependencies d)"
  obtain st2 where v: "visit_dependencies I table n deps st1 = Some st2"
    and st': "st' = st2\<lparr>ls_marks := (ls_marks st2)(f \<mapsto> Visited)\<rparr>"
    using "2.prems"(1) by (auto simp: Let_def st1_def [symmetric] deps_def [symmetric])
  have "ls_diagnostics st2 = []" using "2.prems"(3) st' by simp
  with "2.IH" [OF st1_def deps_def v] have
    step: "search_step table st1 st2" and
    all: "\<forall>(sid, g, l) \<in> set deps. map_of table g \<noteq> None \<longrightarrow> g \<in> finished st2" by auto
  have open1: "open_set st1 = insert f (open_set st)" "finished st1 = finished st"
    using "2.prems"(2) by (auto simp: open_set_def finished_def st1_def)
  have f2: "ls_marks st2 f = Some Visiting"
    using step open1 by (auto simp: search_step_def open_set_def)
  have fin: "finished st' = insert f (finished st2)" using st' by (auto simp: finished_def)
  have "open_set st' = open_set st2 - {f}" using st' by (auto simp: open_set_def)
  also have "\<dots> = open_set st"
    using step open1 "2.prems"(2) by (auto simp: search_step_def open_set_def)
  finally have op: "open_set st' = open_set st" .
  have "sound_search table st'" if s: "sound_search table st"
  proof -
    have "f \<notin> set (ls_closure st)" using s "2.prems"(2) by (auto simp: sound_search_def)
    moreover have "ls_closure st1 = ls_closure st @ [f]" "dom (ls_marks st1) = insert f (dom (ls_marks st))"
      by (simp_all add: st1_def)
    ultimately have "sound_search table st1" using s open1(2) by (simp add: sound_search_def)
    then have s2: "sound_search table st2" using step by (simp add: search_step_def)
    then obtain r where r: "ranked table (finished st2) r" by (auto simp: sound_search_def)
    have "ranked table (finished st') (r(f := card (finished st2)))"
      unfolding fin
    proof (rule ranked_insert [OF r])
      show "f \<notin> finished st2" using f2 by (simp add: finished_def)
      show "g \<in> finished st2" if "refers table f g" for g
        using that all by (force simp: refers_def deps_def)
    qed
    moreover have "ls_closure st' = ls_closure st2" "dom (ls_marks st') = dom (ls_marks st2)"
      using st' f2 by auto
    ultimately show ?thesis using s2 by (auto simp: sound_search_def)
  qed
  moreover have "ls_diagnostics st = []" using step by (simp add: search_step_def st1_def)
  ultimately show ?case using op fin step open1(2) by (auto simp: search_step_def)
next
  case (4 I table n dep deps st)
  obtain sid g l where dep: "dep = (sid, g, l)" by (cases dep)
  note eqs = dep refl
  have silent: "ls_diagnostics (report ds st) = [] \<Longrightarrow> ds = [] \<and> search_step table st (report ds st)" for ds
    by (auto simp: report_def search_step_def sound_search_def finished_def open_set_def)
  show ?case
  proof (cases "map_of table g")
    case None
    then have v: "visit_dependencies I table n deps (report (missing_callee I dep) st) = Some st'"
      using "4.prems"(1) dep by simp
    have rest: "search_step table (report (missing_callee I dep) st) st' \<and>
        (\<forall>(sid, g, l) \<in> set deps. map_of table g \<noteq> None \<longrightarrow> g \<in> finished st')"
      using "4.IH"(1) [OF refl dep [symmetric] refl None v "4.prems"(2)] by simp
    then have "ls_diagnostics (report (missing_callee I dep) st) = []" by (simp add: search_step_def)
    then have "search_step table st st'" using silent rest search_step_trans by blast
    then show ?thesis using rest None dep by simp
  next
    case (Some d)
    show ?thesis
    proof (cases "ls_marks st g")
      case None
      then obtain st1 where v: "visit I table n g st = Some st1" "visit_dependencies I table n deps st1 = Some st'"
        using "4.prems"(1) dep Some by (auto split: option.splits)
      have rest: "search_step table st1 st'" "(\<forall>(sid, g, l) \<in> set deps. map_of table g \<noteq> None \<longrightarrow> g \<in> finished st')"
        using "4.IH"(3) [OF refl dep [symmetric] refl _ None v(1) v(2) "4.prems"(2)] Some by simp_all
      then have "ls_diagnostics st1 = []" by (simp add: search_step_def)
      then have first: "search_step table st st1" "g \<in> finished st1"
        using "4.IH"(2) [OF refl dep [symmetric] refl _ None v(1) None] Some by simp_all
      have "g \<in> finished st'" using first(2) rest(1) by (auto simp: search_step_def)
      then show ?thesis using search_step_trans [OF first(1) rest(1)] rest(2) dep by simp
    next
      case (Some m)
      show ?thesis
      proof (cases m)
        case Visiting
        then have v: "visit_dependencies I table n deps (report (emit True ''PGM-LINK-006'' sid []) st) = Some st'"
          using "4.prems"(1) dep Some \<open>map_of table g = Some d\<close> by simp
        then have "search_step table (report (emit True ''PGM-LINK-006'' sid []) st) st'"
          using "4.IH"(4) [OF refl dep [symmetric] refl _ Some Visiting v "4.prems"(2)] \<open>map_of table g = Some d\<close> by simp
        then show ?thesis by (simp add: search_step_def report_def emit_def)
      next
        case Visited
        then have v: "visit_dependencies I table n deps st = Some st'"
          using "4.prems"(1) dep Some \<open>map_of table g = Some d\<close> by simp
        have rest: "search_step table st st'" "\<forall>(sid, g, l) \<in> set deps. map_of table g \<noteq> None \<longrightarrow> g \<in> finished st'"
          using "4.IH"(5) [OF refl dep [symmetric] refl _ Some Visited v "4.prems"(2)] \<open>map_of table g = Some d\<close> by simp_all
        have "g \<in> finished st" using Some Visited by (simp add: finished_def)
        then have "g \<in> finished st'" using rest(1) by (auto simp: search_step_def)
        then show ?thesis using rest dep by simp
      qed
    qed
  qed
qed (auto simp: search_step_def)

section \<open>The search ends\<close>

definition unseen :: "function_table \<Rightarrow> link_state \<Rightarrow> stable_id set" where
  "unseen table st = {g \<in> set (map fst table). ls_marks st g = None}"

lemma unseen_finite [simp]: "finite (unseen table st)"
  by (simp add: unseen_def)

lemma unseen_mono:
  assumes "unseen table st' \<subseteq> unseen table st" "card (unseen table st) \<le> n"
  shows "card (unseen table st') \<le> n"
  using card_mono [OF unseen_finite assms(1)] assms(2) by simp

lemma visit_ends:
  "map_of table f \<noteq> None \<Longrightarrow> ls_marks st f = None \<Longrightarrow> card (unseen table st) \<le> n \<Longrightarrow>
     \<exists>st'. visit I table n f st = Some st' \<and> unseen table st' \<subseteq> unseen table st"
  "card (unseen table st) \<le> n \<Longrightarrow>
     \<exists>st'. visit_dependencies I table n deps st = Some st' \<and> unseen table st' \<subseteq> unseen table st"
proof (induction I table n f st and I table n deps st rule: visit_visit_dependencies.induct)
  case (1 I table f st)
  have "f \<in> unseen table st" using 1 by (auto simp: unseen_def map_of_eq_None_iff)
  then show ?case using 1(3) by auto
next
  case (2 I table n f st)
  define st1 where "st1 = st\<lparr>ls_marks := (ls_marks st)(f \<mapsto> Visiting), ls_closure := ls_closure st @ [f]\<rparr>"
  define deps where "deps = (case map_of table f of None \<Rightarrow> [] | Some d \<Rightarrow> dependencies d)"
  have f: "f \<in> unseen table st" using "2.prems" by (auto simp: unseen_def map_of_eq_None_iff)
  have u1: "unseen table st1 = unseen table st - {f}" by (auto simp: unseen_def st1_def)
  then have "card (unseen table st1) \<le> n" using f "2.prems"(3) by simp
  then obtain st2 where v: "visit_dependencies I table n deps st1 = Some st2" "unseen table st2 \<subseteq> unseen table st1"
    using "2.IH" [OF st1_def deps_def] by blast
  have "unseen table (st2\<lparr>ls_marks := (ls_marks st2)(f \<mapsto> Visited)\<rparr>) \<subseteq> unseen table st2"
    by (auto simp: unseen_def split: if_splits)
  then have "unseen table (st2\<lparr>ls_marks := (ls_marks st2)(f \<mapsto> Visited)\<rparr>) \<subseteq> unseen table st"
    using v(2) u1 by blast
  then show ?case using v(1) by (simp add: Let_def st1_def [symmetric] deps_def [symmetric])
next
  case (4 I table n dep deps st)
  obtain sid g l where dep: "dep = (sid, g, l)" by (cases dep)
  have said: "unseen table (report ds st) = unseen table st" for ds by (simp add: unseen_def report_def)
  show ?case
  proof (cases "map_of table g")
    case None
    then show ?thesis
      using "4.IH"(1) [OF refl dep [symmetric] refl None] "4.prems" said dep by simp
  next
    case (Some d)
    note g = Some
    show ?thesis
    proof (cases "ls_marks st g")
      case None
      obtain st1 where v: "visit I table n g st = Some st1" "unseen table st1 \<subseteq> unseen table st"
        using "4.IH"(2) [OF refl dep [symmetric] refl _ None _ None "4.prems"] g by auto
      obtain st2 where w: "visit_dependencies I table n deps st1 = Some st2" "unseen table st2 \<subseteq> unseen table st1"
        using "4.IH"(3) [OF refl dep [symmetric] refl _ None v(1)] unseen_mono [OF v(2) "4.prems"] g by auto
      show ?thesis using v w dep g None by (auto intro: subset_trans)
    next
      case (Some m)
      show ?thesis
      proof (cases m)
        case Visiting
        then show ?thesis
          using "4.IH"(4) [OF refl dep [symmetric] refl _ Some Visiting] "4.prems" said dep g Some by simp
      next
        case Visited
        then show ?thesis
          using "4.IH"(5) [OF refl dep [symmetric] refl _ Some Visited] "4.prems" dep g Some by simp
      qed
    qed
  qed
qed auto

lemma register_keys:
  "distinct (map fst table) \<Longrightarrow> register_documents seen table docs = (ds, result) \<Longrightarrow>
     distinct (map fst result) \<and> length result \<le> length table + length docs \<and>
     (\<forall>f d. (f, d) \<in> set result \<longrightarrow> (f, d) \<in> set table \<or> d \<in> set docs \<and> f = document_function d)"
proof (induction docs arbitrary: seen table ds result)
  case (Cons d docs)
  define table1 where "table1 = (if map_of table (document_function d) \<noteq> None then table else table @ [(document_function d, d)])"
  obtain more where r: "register_documents (insert (doc_document_id d) seen) table1 docs = (more, result)"
    using Cons.prems(2) by (auto simp: Let_def table1_def split: prod.splits)
  have "distinct (map fst table1)"
    using Cons.prems(1) by (auto simp: table1_def map_of_eq_None_iff)
  from Cons.IH [OF this r] show ?case
    by (auto simp: table1_def split: if_splits)
qed simp

text \<open>A project is linked or rejected as soon as Python may recurse as deep as it has documents.\<close>

lemma link_never_recursion:
  assumes "length docs \<le> li_depth I"
  shows "link_program I docs \<noteq> LinkRecursion"
proof -
  obtain ds table where r: "register_documents {} [] docs = (ds, table)" by fastforce
  have len: "length table \<le> li_depth I" using register_keys [OF _ r] assms by simp
  have "card (unseen table initial_link_state) \<le> card (set (map fst table))"
    by (rule card_mono) (auto simp: unseen_def)
  also have "\<dots> \<le> li_depth I" using len by (metis card_length le_trans length_map)
  finally have c: "card (unseen table initial_link_state) \<le> li_depth I" .
  have some: "visit I table (li_depth I) (li_entry I) initial_link_state \<noteq> None"
    if entry: "map_of table (li_entry I) \<noteq> None"
    using visit_ends(1) [OF entry _ c, of I] by (auto simp: initial_link_state_def)
  show ?thesis
  proof (cases "ds @ emit (map_of table (li_entry I) = None) ''PGM-LINK-001'' [] [] = []")
    case True
    then obtain st where "visit I table (li_depth I) (li_entry I) initial_link_state = Some st" using some by auto
    then show ?thesis
      using True r by (simp add: link_program_def Let_def split: sum.split)
  next
    case False
    then show ?thesis using r by (simp add: link_program_def Let_def)
  qed
qed

section \<open>The linked program\<close>

lemma compile_closure_members:
  "compile_closure C table fs = Inr ([], fns) \<Longrightarrow>
     map fst fns = fs \<and> (\<forall>(f, fd) \<in> set fns. \<exists>d. map_of table f = Some d \<and> compile_document C d = Inr (Inr fd))"
proof (induction fs arbitrary: fns)
  case (Cons f fs)
  then obtain d r ds more where d: "map_of table f = Some d" "compile_document C d = Inr r"
      "compile_closure C table fs = Inr (ds, more)"
      "(case r of Inl bad \<Rightarrow> (bad @ ds, more) | Inr fd \<Rightarrow> (ds, (f, fd) # more)) = ([], fns)"
    by (auto simp: rbind_Inr_iff split: option.splits)
  show ?case
  proof (cases r)
    case (Inl bad)
    then have "bad = []" using d(4) by simp
    moreover have "bad \<noteq> []"
      using d(2) Inl by (auto simp: compile_document_def Let_def rbind_Inr_iff split: option.splits if_splits sum.splits compile_error.splits)
    ultimately show ?thesis by simp
  next
    case (Inr fd)
    then show ?thesis using d Cons.IH [of more] by auto
  qed
qed simp

lemma linked_parts:
  assumes "link_program I docs = LinkedProgram fns"
  obtains table st where "register_documents {} [] docs = ([], table)" "map_of table (li_entry I) \<noteq> None"
    "visit I table (li_depth I) (li_entry I) initial_link_state = Some st" "ls_diagnostics st = []"
    "owned_diagnostics I table = []" "message_conflicts (List.map_filter (map_of table) (ls_closure st)) = []"
    "compile_closure (linked_env I table) table (ls_closure st) = Inr ([], fns)"
proof -
  obtain ds table where r: "register_documents {} [] docs = (ds, table)" by fastforce
  have e: "ds = []" "map_of table (li_entry I) \<noteq> None"
    using assms r by (auto simp: link_program_def Let_def split: if_splits)
  then obtain st where v: "visit I table (li_depth I) (li_entry I) initial_link_state = Some st"
    using assms r by (auto simp: link_program_def Let_def split: option.splits)
  define found where "found = owned_diagnostics I table @ ls_diagnostics st @
    message_conflicts (List.map_filter (map_of table) (ls_closure st))"
  have "found = []" using assms r e v by (simp add: link_program_def Let_def found_def [symmetric] split: if_splits)
  moreover obtain bad more where "compile_closure (linked_env I table) table (ls_closure st) = Inr (bad, more)"
      "bad = []" "more = fns"
    using assms r e v \<open>found = []\<close>
    by (auto simp: link_program_def Let_def found_def [symmetric] split: sum.splits if_splits)
  ultimately show thesis using that [of table st] r e v by (simp add: found_def)
qed

text \<open>The functions of a linked program: each once, the entry among them, ranked by their references.\<close>

lemma linked_ranked:
  assumes "link_program I docs = LinkedProgram fns"
  obtains table r where "register_documents {} [] docs = ([], table)" "distinct (map fst fns)"
    "li_entry I \<in> set (map fst fns)" "ranked table (set (map fst fns)) r"
    "\<And>f fd. (f, fd) \<in> set fns \<Longrightarrow> \<exists>d. map_of table f = Some d \<and> compile_document (linked_env I table) d = Inr (Inr fd)"
proof -
  obtain table st where p: "register_documents {} [] docs = ([], table)" "map_of table (li_entry I) \<noteq> None"
    "visit I table (li_depth I) (li_entry I) initial_link_state = Some st" "ls_diagnostics st = []"
    "compile_closure (linked_env I table) table (ls_closure st) = Inr ([], fns)"
    using linked_parts [OF assms] .
  have step: "search_step table initial_link_state st" "li_entry I \<in> finished st"
    using visit_step(1) [OF p(3) _ p(4)] by (simp_all add: initial_link_state_def)
  have "sound_search table initial_link_state"
    by (auto simp: sound_search_def initial_link_state_def finished_def ranked_def)
  then have s: "sound_search table st" using step by (simp add: search_step_def)
  have "open_set st = {}" using step by (simp add: search_step_def open_set_def initial_link_state_def)
  then have "ls_marks st f = Some m \<Longrightarrow> m = Visited" for f m by (cases m) (auto simp: open_set_def)
  then have "dom (ls_marks st) = finished st" by (auto simp: finished_def)
  then have closure: "set (ls_closure st) = finished st" using s by (simp add: sound_search_def)
  obtain r where r: "ranked table (finished st) r" using s by (auto simp: sound_search_def)
  have fns: "map fst fns = ls_closure st"
      "\<forall>(f, fd) \<in> set fns. \<exists>d. map_of table f = Some d \<and> compile_document (linked_env I table) d = Inr (Inr fd)"
    using compile_closure_members [OF p(5)] by blast+
  show thesis
  proof (rule that [OF p(1)])
    show "distinct (map fst fns)" using s fns(1) by (simp add: sound_search_def)
    show "li_entry I \<in> set (map fst fns)" using step(2) fns(1) closure by simp
    show "ranked table (set (map fst fns)) r" using r fns(1) closure by simp
    show "\<exists>d. map_of table f = Some d \<and> compile_document (linked_env I table) d = Inr (Inr fd)"
      if "(f, fd) \<in> set fns" for f fd
      using fns(2) that by auto
  qed
qed

text \<open>A project without duplicates: every document is the one of its function.\<close>

lemma register_all:
  "register_documents seen table docs = ([], result) \<Longrightarrow> result = table @ map (\<lambda>d. (document_function d, d)) docs"
proof (induction docs arbitrary: seen table)
  case (Cons d docs)
  then have "map_of table (document_function d) = None"
    by (auto simp: Let_def split: prod.splits)
  then show ?case
    using Cons.prems Cons.IH [of "insert (doc_document_id d) seen" "table @ [(document_function d, d)]"]
    by (auto simp: Let_def split: prod.splits)
qed simp

lemma registered_function:
  assumes "register_documents {} [] docs = ([], table)" "d \<in> set docs"
  shows "map_of table (document_function d) = Some d"
proof -
  have "(document_function d, d) \<in> set table" using register_all [OF assms(1)] assms(2) by auto
  moreover have "distinct (map fst table)" using register_keys [OF _ assms(1)] by simp
  ultimately show ?thesis by (rule map_of_is_SomeI [rotated])
qed

lemma linked_reference:
  assumes t: "register_documents {} [] docs = ([], table)" "ranked table S r"
    and d: "d \<in> set docs" "(sid, g, l) \<in> set (dependencies d)" "document_function d \<in> S"
      "g \<in> document_function ` set docs"
  shows "g \<in> S \<and> r g < r (document_function d)"
proof -
  obtain e where "e \<in> set docs" "g = document_function e" using d(4) by blast
  then have "map_of table g \<noteq> None" using registered_function [OF t(1)] by simp
  then have "refers table (document_function d) g"
    using d registered_function [OF t(1) d(1)] unfolding refers_def by blast
  then show ?thesis using t(2) d(3) unfolding ranked_def by blast
qed

end
