(* ===== verification/Program_Safety.thy ===== *)
theory Program_Safety
  imports Compile_Soundness Link_Properties
begin

text \<open>
  Linked programs on the interpreter: an unset variable can only be met while arguments are bound
  to parameters, and the limit on the depth of calls is out of reach of programs of at most 49
  functions.
\<close>

section \<open>Machines without followed errors of their own\<close>

text \<open>A machine whose host and library do not raise the error; any other is replaced by a silent one.\<close>

definition tame :: "string \<Rightarrow> 'w machine \<Rightarrow> 'w machine" where
  "tame b X =
     (if honest_machine b X then X
      else X\<lparr>m_eval := (m_eval X)\<lparr>ev_percent := (\<lambda>_ _. py_raise ''TypeError''),
             ev_operation := (\<lambda>_ _ _. fail_with ''runtime.operation_unknown'')\<rparr>,
           m_text := (m_text X)\<lparr>tx_dumps := (\<lambda>_. Inr [])\<rparr>,
           m_host := (m_host X)\<lparr>h_call := (\<lambda>w _ _ _ _. (w, Inr PNone)), h_extension := (\<lambda>w _ _ _. (w, Inr PNone)),
             h_until := (\<lambda>_ _ _. Inr 0), h_random := (\<lambda>w i _. (w, Inr i)), h_create := (\<lambda>w _. (w, Inr True)),
             h_capture := (\<lambda>w _. (w, Inr ())), h_check := (\<lambda>_ _ _. Inr ()), h_peek := (\<lambda>_ _ _ _. Inr None),
             h_claim := (\<lambda>w _ _ _. (w, Inr None))\<rparr>\<rparr>)"

lemma tame_honest:
  assumes "b = ''runtime.variable_unset'' \<or> b = ''runtime.call_depth_exceeded''"
  shows "honest_machine b (tame b X)"
proof (cases "honest_machine b X")
  case False
  have "\<not> honest_machine b X \<Longrightarrow> honest_machine b (tame b X)"
    unfolding tame_def honest_machine_def [of b "if _ then _ else _"] honest_env_def
    using assms by (auto simp: never_def py_raise_def fail_with_def)
  then show ?thesis using False .
qed (simp add: tame_def)

lemma tame_same: "honest_machine b X \<Longrightarrow> tame b X = X"
  by (simp add: tame_def)

section \<open>Variables that are not set\<close>

definition unset_policy :: "'w machine \<Rightarrow> string set \<Rightarrow> bool \<Rightarrow> policy" where
  "unset_policy X V go =
     \<lparr>pl_error = ''runtime.variable_unset'', pl_env = m_eval X, pl_vars = V, pl_callee = (\<lambda>_. go), pl_handler = (\<lambda>_. go)\<rparr>"

definition sound_functions :: "policy \<Rightarrow> 'w machine \<Rightarrow> bool" where
  "sound_functions K X \<longleftrightarrow> (\<forall>g d. m_functions X g = Some d \<longrightarrow>
     safe_items K False (set (map pd_name (fd_parameters d))) (fd_instructions d))"

text \<open>The only errors a call of a sound program may pass on: those of binding its arguments.\<close>

definition blamed :: "'w machine \<Rightarrow> rt_error \<Rightarrow> bool" where
  "blamed X e \<longleftrightarrow> (\<exists>g d s args. m_functions X g = Some d \<and> bind_parameters X s args (fd_parameters d) Map.empty = Inl e)"

lemma unset_policy_fields [simp]:
  "pl_error (unset_policy X V go) = ''runtime.variable_unset''" "pl_env (unset_policy X V go) = m_eval X"
  "pl_vars (unset_policy X V go) = V" "pl_callee (unset_policy X V go) g = go" "pl_handler (unset_policy X V go) g = go"
  by (simp_all add: unset_policy_def)

lemma unset_guarded:
  assumes X: "honest_machine ''runtime.variable_unset'' X" "sound_functions (unset_policy X V True) X"
  shows "at_rest (unset_policy X V True) D s \<Longrightarrow>
    guarded (unset_policy X V True) (blamed X) False (call_at X n g args s)"
proof (induction n arbitrary: D g args s)
  case 0
  then show ?case by (simp add: guarded_def at_rest_def failure_def)
next
  case (Suc n)
  have c: "guarded_caller X (call_at X n) (unset_policy X V True) (blamed X) D"
    using X(1) Suc.IH call_at_ends
    by (intro guarded_caller.intro guarded_caller_axioms.intro lawful_caller.intro call_at_runs) simp_all
  show ?case
    unfolding call_at.simps
  proof (rule guarded_caller.enter_function_guarded [OF c Suc.prems])
    show "safe_items (unset_policy X V True) False (set (map pd_name (fd_parameters d))) (fd_instructions d)"
      if "m_functions X g = Some d" for d
      using X(2) that by (simp add: sound_functions_def)
    show "blamed X e" if "m_functions X g = Some d" "bind_parameters X s args (fd_parameters d) Map.empty = Inl e" for d e s
      using that unfolding blamed_def by blast
  qed simp
qed

interpretation unset_calls: guarded_caller
  "tame ''runtime.variable_unset'' X" "call_at (tame ''runtime.variable_unset'' X) n"
  "unset_policy (tame ''runtime.variable_unset'' X) V
     (sound_functions (unset_policy (tame ''runtime.variable_unset'' X) V True) (tame ''runtime.variable_unset'' X))"
  "blamed (tame ''runtime.variable_unset'' X)" D for X V n D
  using unset_guarded [OF tame_honest] by unfold_locales (auto simp: call_at_ends tame_honest)

section \<open>The depth of calls\<close>

text \<open>How many levels a call needs, its own included, when \<open>r\<close> ranks the functions \<open>S\<close>.\<close>

definition needs :: "string set \<Rightarrow> (string \<Rightarrow> nat) \<Rightarrow> string \<Rightarrow> nat" where
  "needs S r g = (if g \<in> S then Suc (r g) else 0)"

definition depth_policy :: "'w machine \<Rightarrow> (string \<Rightarrow> bool) \<Rightarrow> policy" where
  "depth_policy X allowed =
     \<lparr>pl_error = ''runtime.call_depth_exceeded'', pl_env = m_eval X, pl_vars = {}, pl_callee = allowed, pl_handler = (\<lambda>_. True)\<rparr>"

lemma depth_policy_fields [simp]:
  "pl_error (depth_policy X c) = ''runtime.call_depth_exceeded''" "pl_env (depth_policy X c) = m_eval X"
  "pl_vars (depth_policy X c) = {}" "pl_callee (depth_policy X c) = c" "pl_handler (depth_policy X c) h = True"
  by (simp_all add: depth_policy_def)

lemma depth_policy_heard: "heard (depth_policy X c) s = heard (depth_policy X c') s"
proof -
  have "covers (depth_policy X c) = covers (depth_policy X c')"
    by (intro ext) (simp add: covers_def)
  then show ?thesis by (simp add: heard_def sound_listener_def covers_all_def)
qed

lemma depth_policy_same:
  "at_rest (depth_policy X c) D s = at_rest (depth_policy X c') D s"
  "guarded (depth_policy X c) B l r = guarded (depth_policy X c') B l r"
  using depth_policy_heard by (auto simp: at_rest_def guarded_def flow_ok_def)

text \<open>The program: functions whose bodies call only functions of a lower rank.\<close>

definition layered :: "'w machine \<Rightarrow> string set \<Rightarrow> (string \<Rightarrow> nat) \<Rightarrow> bool" where
  "layered X S r \<longleftrightarrow> (\<forall>g d. m_functions X g = Some d \<longrightarrow> g \<in> S \<and>
     safe_items (depth_policy X (\<lambda>h. needs S r h \<le> r g)) False (set (map pd_name (fd_parameters d))) (fd_instructions d))"

lemma bind_never_deep:
  assumes "honest_env b (m_eval X)" "b = ''runtime.call_depth_exceeded''"
  shows "never b (bind_parameters X s args ps locals)"
proof (induction ps arbitrary: locals)
  case (Cons p ps)
  have "never b (bind_parameter X s args p locals)"
    unfolding bind_parameter_def using assms
    by (auto simp: deep.never_fail_iff intro!: never_rbind deep.never_eval_value deep.never_conforms split: option.split)
  then show ?case using Cons by (auto intro!: never_rbind)
qed simp

text \<open>One level down: what the callers of the level below keep, this level keeps.\<close>

lemma deeper:
  assumes X: "honest_machine ''runtime.call_depth_exceeded'' X" "layered X S r"
    and below: "\<And>h args s. needs S r h \<le> r g \<Longrightarrow> at_rest (depth_policy X c) D s \<Longrightarrow>
      guarded (depth_policy X c) (\<lambda>_. False) False (call_at X n h args s)"
    and handlers: "\<And>h args s. \<not> D \<Longrightarrow> at_rest (depth_policy X c) True s \<Longrightarrow>
      guarded (depth_policy X c) (\<lambda>_. False) False (call_at X n h args s)"
    and s: "at_rest (depth_policy X c) D s"
  shows "guarded (depth_policy X c) (\<lambda>_. False) False (call_at X (Suc n) g args s)"
proof -
  let ?K = "depth_policy X (\<lambda>h. needs S r h \<le> r g)"
  have b: "guarded ?K (\<lambda>_. False) False (call_at X n h args s)" if "needs S r h \<le> r g" "at_rest ?K D s" for h args s
    using below [OF that(1)] that(2) depth_policy_same by blast
  have h: "guarded ?K (\<lambda>_. False) False (call_at X n h args s)" if "\<not> D" "at_rest ?K True s" for h args s
    using handlers [OF that(1)] that(2) depth_policy_same by blast
  have c: "guarded_caller X (call_at X n) ?K (\<lambda>_. False) D"
    using X(1) call_at_ends b h
    by (intro guarded_caller.intro guarded_caller_axioms.intro lawful_caller.intro call_at_runs) simp_all
  have "guarded ?K (\<lambda>_. False) False (enter_function X (call_at X n) (max_depth - n) g args s)"
  proof (rule guarded_caller.enter_function_guarded [OF c])
    show "at_rest ?K D s" using s depth_policy_same(1) by blast
    show "safe_items ?K False (set (map pd_name (fd_parameters d))) (fd_instructions d)"
      if "m_functions X g = Some d" for d
      using X(2) that by (simp add: layered_def)
    show False if "bind_parameters X s args (fd_parameters d) Map.empty = Inl e" "rt_error_id e = pl_error ?K" for d e s
      using bind_never_deep [of "''runtime.call_depth_exceeded''" X s args "fd_parameters d" Map.empty] that X(1)
      by (auto simp: never_def honest_machine_def)
  qed simp
  then show ?thesis unfolding call_at.simps using depth_policy_same(2) by blast
qed

lemma deep_inside:
  assumes X: "honest_machine ''runtime.call_depth_exceeded'' X" "layered X S r"
  shows "needs S r g < n \<Longrightarrow> at_rest (depth_policy X c) True s \<Longrightarrow>
    guarded (depth_policy X c) (\<lambda>_. False) False (call_at X n g args s)"
proof (induction n arbitrary: g args s)
  case (Suc n)
  show ?case
  proof (cases "g \<in> S")
    case True
    then show ?thesis using Suc by (intro deeper [OF X]) (auto simp: needs_def)
  next
    case False
    then have "m_functions X g = None" using X(2) by (cases "m_functions X g") (auto simp: layered_def)
    then show ?thesis using Suc.prems
      by (simp add: enter_function_def function_body_def guarded_def at_rest_def failure_def heard_def sound_listener_def)
  qed
qed simp

lemma deep_outside:
  assumes X: "honest_machine ''runtime.call_depth_exceeded'' X" "layered X S r" and S: "\<And>g. needs S r g \<le> R"
  shows "needs S r g + R + 1 < n \<Longrightarrow> at_rest (depth_policy X c) False s \<Longrightarrow>
    guarded (depth_policy X c) (\<lambda>_. False) False (call_at X n g args s)"
proof (induction n arbitrary: g args s)
  case (Suc n)
  show ?case
  proof (cases "g \<in> S")
    case True
    have "needs S r h < n" for h using S [of h] Suc.prems(1) by simp
    then show ?thesis using Suc True deep_inside [OF X] by (intro deeper [OF X]) (auto simp: needs_def)
  next
    case False
    then have "m_functions X g = None" using X(2) by (cases "m_functions X g") (auto simp: layered_def)
    then show ?thesis using Suc.prems
      by (simp add: enter_function_def function_body_def guarded_def at_rest_def failure_def heard_def sound_listener_def)
  qed
qed simp

section \<open>Compiled documents\<close>

lemma compiled_document:
  assumes "compile_document C d = Inr (Inr fd)"
  shows "document_diagnostics C d = []" "rmap (compile_statement C) (doc_statements d) = Inr (fd_instructions fd)"
    "map pd_name (fd_parameters fd) = map pp_symbol_id (fn_parameters (doc_function d))"
proof -
  have d: "first_some (map odd_target (iter_statement_tree (doc_statements d))) = None" "document_diagnostics C d = []"
    using assms by (auto simp: compile_document_def Let_def split: option.splits if_splits)
  then obtain ins where ins: "compile_block C (doc_statements d) = Inr ins"
    using assms by (auto simp: compile_document_def Let_def split: sum.splits compile_error.splits)
  then obtain ps where ps: "rmap compile_parameter (fn_parameters (doc_function d)) = Inr ps"
      "fd = \<lparr>fd_parameters = ps, fd_return_type = fn_return_type (doc_function d), fd_instructions = ins\<rparr>"
    using assms d by (auto simp: compile_document_def Let_def rbind_Inr_iff)
  have "rmap compile_parameter qs = Inr ps \<Longrightarrow> map pd_name ps = map pp_symbol_id qs" for qs ps
    by (induction qs arbitrary: ps) (auto simp: rbind_Inr_iff compile_parameter_def)
  then show "document_diagnostics C d = []" "rmap (compile_statement C) (doc_statements d) = Inr (fd_instructions fd)"
    "map pd_name (fd_parameters fd) = map pp_symbol_id (fn_parameters (doc_function d))"
    using d ins ps by (simp_all add: compile_block_def)
qed

lemma model_statement_ok: "model_validate d \<Longrightarrow> s \<in> set (iter_statement_tree (doc_statements d)) \<Longrightarrow> statement_ok s"
  by (auto simp: model_validate_def function_ok_def list_all_iff)

lemma variables_known:
  assumes "variable_diagnostics C ss = []" "ce_variables C = Some defs" "s \<in> set (iter_statement_tree ss)"
    "v \<in> set (statement_value_roots s)"
  shows "project_reads v \<subseteq> fst ` set defs"
proof
  fix k
  assume "k \<in> project_reads v"
  then obtain i t where "ProjectVariableReferenceValue i k t \<in> set (statement_values s)"
    using assms(4) by (auto simp: project_reads_def statement_values_def)
  moreover have "\<forall>w \<in> set (statement_values s). variable_reference (rev defs) (statement_id s) w = []"
    using assms(1-3) by (auto simp: variable_diagnostics_def)
  ultimately have "variable_reference (rev defs) (statement_id s) (ProjectVariableReferenceValue i k t) = []" by blast
  then have "map_of (rev defs) k \<noteq> None" by (auto split: option.splits)
  then show "k \<in> fst ` set defs" by (auto simp: map_of_eq_None_iff)
qed

text \<open>No statement of the project raises the error by its name.\<close>

definition raises_only_others :: "string \<Rightarrow> program_document list \<Rightarrow> bool" where
  "raises_only_others b docs \<longleftrightarrow>
     (\<forall>d \<in> set docs. \<forall>s \<in> set (iter_statement_tree (doc_statements d)). raised_id s \<noteq> Some b)"

interpretation unset_compilation: safe_compilation "unset_policy (tame ''runtime.variable_unset'' X) V go" C for X V go C
  using tame_honest [of "''runtime.variable_unset''" X] by unfold_locales (simp_all add: honest_machine_def)

interpretation deep_compilation: safe_compilation "depth_policy (tame ''runtime.call_depth_exceeded'' X) c" C for X c C
  using tame_honest [of "''runtime.call_depth_exceeded''" X] by unfold_locales (simp_all add: honest_machine_def)

section \<open>Linked programs\<close>

text \<open>A linked program, its functions with the documents they were compiled from.\<close>

lemma linked_function:
  assumes "register_documents {} [] docs = ([], table)" "map_of table f = Some d"
  shows "d \<in> set docs" "f = document_function d"
  using register_keys [OF _ assms(1)] map_of_SomeD [OF assms(2)] by auto

lemma linked_sound:
  assumes link: "link_program I docs = LinkedProgram fns" and X: "m_functions X = map_of fns"
    and honest: "honest_machine ''runtime.variable_unset'' X" and models: "\<forall>d \<in> set docs. model_validate d"
    and vars: "ce_variables (li_compile I) = Some defs" and others: "raises_only_others ''runtime.variable_unset'' docs"
  shows "sound_functions (unset_policy X (fst ` set defs) True) X"
  unfolding sound_functions_def
proof (intro allI impI)
  let ?K = "unset_policy X (fst ` set defs) True"
  fix g fd
  assume "m_functions X g = Some fd"
  then have fd: "(g, fd) \<in> set fns" using X by (simp add: map_of_SomeD)
  obtain table d where t: "register_documents {} [] docs = ([], table)" "map_of table g = Some d"
      "compile_document (linked_env I table) d = Inr (Inr fd)"
    using linked_ranked [OF link] fd by metis
  have d: "d \<in> set docs" by (rule linked_function [OF t(1,2)])
  have diag: "document_diagnostics (linked_env I table) d = []" by (rule compiled_document [OF t(3)])
  then have v: "variable_diagnostics (linked_env I table) (doc_statements d) = []"
    by (simp add: document_diagnostics_def Let_def)
  have e: "ce_variables (linked_env I table) = Some defs" using vars by (simp add: linked_env_def Let_def)
  have callee: "callee_ok ?K (linked_env I table) s" for s by (cases s) simp_all
  have "suits ?K (linked_env I table) s" if "s \<in> set (iter_statement_tree (doc_statements d))" for s
    using that d models others model_statement_ok variables_known [OF v e that]
    by (auto simp: suits_def raises_only_others_def callee)
  then have "safe_items ?K False (parameter_symbols d) (fd_instructions fd)"
    using unset_compilation.document_safe [of _ d "linked_env I table" "fd_instructions fd" X "fst ` set defs" True]
      compiled_document(2) [OF t(3)] diag tame_same [OF honest]
    by (fastforce simp: document_diagnostics_def Let_def)
  then show "safe_items ?K False (set (map pd_name (fd_parameters fd))) (fd_instructions fd)"
    by (simp only: compiled_document(3) [OF t(3)] parameter_symbols_def)
qed

lemma linked_layered:
  assumes link: "link_program I docs = LinkedProgram fns" and X: "m_functions X = map_of fns"
    and honest: "honest_machine ''runtime.call_depth_exceeded'' X" and models: "\<forall>d \<in> set docs. model_validate d"
    and coherent: "\<And>f c. get_contract (ce_validation (li_compile I)) f = Some c \<Longrightarrow> fc_function_id c = f"
    and others: "raises_only_others ''runtime.call_depth_exceeded'' docs"
  obtains r where "layered X (set (map fst fns)) r" "\<And>g. needs (set (map fst fns)) r g \<le> length fns"
proof -
  obtain table r where t: "register_documents {} [] docs = ([], table)" "distinct (map fst fns)"
    "ranked table (set (map fst fns)) r"
    "\<And>f fd. (f, fd) \<in> set fns \<Longrightarrow> \<exists>d. map_of table f = Some d \<and> compile_document (linked_env I table) d = Inr (Inr fd)"
    using linked_ranked [OF link] by metis
  let ?S = "set (map fst fns)" and ?C = "linked_env I table"
  have empty: "[] \<notin> ?S"
  proof
    assume "[] \<in> ?S"
    then obtain fd where "([], fd) \<in> set fns" by auto
    then obtain d where "map_of table [] = Some d" using t(4) by blast
    then have "d \<in> set docs" "[] = document_function d" using linked_function [OF t(1)] by auto
    then show False using models stable_not_empty [of "[]"] by (auto simp: model_validate_def function_ok_def)
  qed
  have "safe_items (depth_policy X (\<lambda>h. needs ?S r h \<le> r g)) False (set (map pd_name (fd_parameters fd))) (fd_instructions fd)"
    if fd: "(g, fd) \<in> set fns" for g fd
  proof -
    let ?K = "depth_policy X (\<lambda>h. needs ?S r h \<le> r g)"
    obtain d where d: "map_of table g = Some d" "compile_document ?C d = Inr (Inr fd)" using t(4) [OF fd] by blast
    have doc: "d \<in> set docs" by (rule linked_function [OF t(1) d(1)])
    have diag: "document_diagnostics ?C d = []" by (rule compiled_document [OF d(2)])
    have callee: "callee_ok ?K ?C s" if s: "s \<in> set (iter_statement_tree (doc_statements d))" for s
    proof (cases s)
      case (CallStatement i f args rb review l)
      have "pl_callee ?K (if fc_function_id c \<in> ce_project_functions ?C then fc_function_id c else [])"
        if c: "get_contract (ce_validation ?C) f = Some c" for c
      proof (cases "map_of table f")
        case None
        then have "get_contract (ce_validation (li_compile I)) f = Some c"
          using c by (simp add: linked_env_def Let_def get_contract_def [of "_\<lparr>ve_registry := _\<rparr>"] linked_contract_def)
        then have "fc_function_id c = f" by (rule coherent)
        moreover have "f \<notin> set (map fst table)" using None by (simp add: map_of_eq_None_iff)
        ultimately show ?thesis using empty by (simp add: linked_env_def Let_def needs_def)
      next
        case (Some e)
        then have "c = project_contract I e" "f = document_function e"
          using c linked_function(2) [OF t(1) Some]
          by (simp_all add: linked_env_def Let_def get_contract_def linked_contract_def)
        then have id: "fc_function_id c = f" by (simp add: project_contract_def Let_def)
        have "(i, f, False) \<in> set (dependencies d)"
          using s CallStatement by (force simp: dependencies_def List.map_filter_def)
        then have "refers table g f" using d(1) Some unfolding refers_def by blast
        moreover have "g \<in> ?S" using fd by force
        ultimately have "f \<in> ?S" "r f < r g" using t(3) unfolding ranked_def by blast+
        then have "needs ?S r f \<le> r g" by (simp add: needs_def)
        moreover have "needs ?S r [] = 0" using empty by (simp add: needs_def)
        ultimately show ?thesis using id by simp
      qed
      then show ?thesis by (simp add: CallStatement)
    qed simp_all
    have "suits ?K ?C s" if "s \<in> set (iter_statement_tree (doc_statements d))" for s
      using that doc models others model_statement_ok callee [OF that] by (auto simp: suits_def raises_only_others_def)
    then have "safe_items ?K False (parameter_symbols d) (fd_instructions fd)"
      using deep_compilation.document_safe [of _ d ?C "fd_instructions fd" X "\<lambda>h. needs ?S r h \<le> r g"]
        compiled_document(2) [OF d(2)] diag tame_same [OF honest]
      by (fastforce simp: document_diagnostics_def Let_def)
    then show ?thesis by (simp only: compiled_document(3) [OF d(2)] parameter_symbols_def)
  qed
  then have "layered X ?S r"
    unfolding layered_def X by (auto dest!: map_of_SomeD) force
  moreover have "needs ?S r g \<le> length fns" for g
  proof -
    have "card ?S = length fns" using t(2) distinct_card by fastforce
    then show ?thesis using t(3) by (auto simp: needs_def ranked_def Suc_le_eq)
  qed
  ultimately show thesis by (rule that)
qed

end
