(* ===== verification/Runtime_Properties.thy ===== *)
theory Runtime_Properties
  imports Runtime_Laws Samples
begin

text \<open>
  What a run guarantees: the meaning of lowered values, the runtime type check against the
  static one, what every call restores, how a run ends, and the bounds on loops and calls. The
  witnesses run on a machine without targets and messages, whose clock counts.
\<close>

section \<open>A small machine\<close>

definition plain_env :: eval_env where
  "plain_env =
     \<lparr>ev_round = (\<lambda>q. q), ev_text = (\<lambda>_. ''?''), ev_attribute = (\<lambda>_ _. None),
      ev_percent = (\<lambda>_ _. py_raise ''TypeError''), ev_datetime = (\<lambda>_. None), ev_resource_function = ''resource'',
      ev_operation = (\<lambda>_ _ _. fail_with ''runtime.operation_unknown'')\<rparr>"

definition plain_text :: text_env where
  "plain_text = \<lparr>tx_pattern_ok = (\<lambda>_. True), tx_fullmatch = (\<lambda>_ _. True), tx_dumps = (\<lambda>_. Inr [])\<rparr>"

definition plain_host :: "nat host" where
  "plain_host =
     \<lparr>h_tick = Suc, h_cancelled = (\<lambda>_. False), h_paused = (\<lambda>_. False), h_wait = (\<lambda>w. (w, False)),
      h_rounds = (\<lambda>_ _ _. 1), h_call = (\<lambda>w _ _ _ _. (w, Inr PNone)), h_extension = (\<lambda>w _ _ _. (w, Inr PNone)),
      h_until = (\<lambda>_ _ _. Inr 1), h_random = (\<lambda>w a _. (w, Inr a)), h_supports = (\<lambda>_ _. True),
      h_platform = (\<lambda>_. []), h_busy = (\<lambda>_ _. False), h_create = (\<lambda>w _. (w, Inr True)),
      h_capture = (\<lambda>w _. (w, Inr ())), h_close = (\<lambda>w _. w), h_cursor = (\<lambda>_. 0),
      h_check = (\<lambda>_ _ _. Inr ()), h_peek = (\<lambda>_ _ _ _. Inr None), h_claim = (\<lambda>w _ _ _. (w, Inr None))\<rparr>"

definition plain_machine :: "(string \<Rightarrow> function_definition option) \<Rightarrow> nat machine" where
  "plain_machine fns =
     \<lparr>m_eval = plain_env, m_text = plain_text, m_host = plain_host, m_message_text = (\<lambda>_. []),
      m_float_text = (\<lambda>_. None), m_messaging = False, m_targets = Map.empty, m_variables = Map.empty,
      m_functions = fns\<rparr>"

definition plain_session :: "nat session" where
  "plain_session =
     \<lparr>rs_world = 0, rs_cancel = False, rs_pause = False, rs_step = False, rs_breakpoints = {}, rs_status = Queued,
      rs_events = [], rs_current = [], rs_variables = Map.empty, rs_project = Map.empty, rs_frames = [],
      rs_listeners = [], rs_dispatching = False, rs_listener = [], rs_message = [], rs_failed_listener = [],
      rs_failed_message = [], rs_calls = [], rs_drivers = [None], rs_owned = {}, rs_home = [], rs_made = 0\<rparr>"

lemma plain_well_formed: "well_formed plain_session"
  by (simp add: well_formed_def plain_session_def)

definition plain_scope :: scope where
  "plain_scope = \<lparr>sc_locals = [''x'' \<mapsto> PBool True], sc_project = Map.empty, sc_cancelled = False\<rparr>"

definition recursive_function :: "string \<Rightarrow> function_definition" where
  "recursive_function g =
     \<lparr>fd_parameters = [], fd_return_type = ''any'',
      fd_instructions = [ICall ''i'' ''call.project'' [] [] [] (Some g) None]\<rparr>"

section \<open>Values\<close>

text \<open>C22. Compiling a value and interpreting the dictionaries gives exactly the value's meaning:
  the same result, or the same failure, in every scope.\<close>

theorem lowered_value_meaning:
  assumes "lower_value v = Inr w"
  shows "eval_value E sc w = eval_node E sc v"
  by (rule lowered_means [OF assms])

theorem lowered_value_meaning_witness:
  "eval_value plain_env plain_scope (ecir [(''kind'', PStr ''not''), (''condition'', ecir
     [(''kind'', PStr ''reference''), (''scope'', PStr ''local''), (''symbol_id'', PStr ''x'')])]) = Inr (PBool False)"
  using lowered_value_meaning [of "NotValue ''a'' (SymbolReferenceValue ''b'' ''x'' ''bool'')" _ plain_env plain_scope]
  by (simp add: plain_scope_def)





text \<open>A parameter of type path whose default is a path literal can never be left out: the value
  of the literal is a dictionary, the type check asks for a list of points, and the call fails.\<close>

lemma path_default_refused:
  assumes "lower_value (PathValue i ps) = Inr (pd_default p)" and "pd_value_type p = ''path''"
    and "\<not> pd_required p" and "pd_parameter_id p \<noteq> []" and "pd_name p \<noteq> []"
  shows "bind_parameter X s [] p locals = fail_with ''runtime.argument_type''"
proof -
  obtain x where x: "eval_node (m_eval X) (scope_of locals s) (PathValue i ps) = Inr x" by simp
  have "conforms (m_eval X) x ''path'' = Inr False" using path_literal_rejected [OF x] by simp
  then show ?thesis using assms x lowered_means [OF assms(1)] by (simp add: bind_parameter_def)
qed

lemma path_default_refused_example:
  "bind_parameter (plain_machine Map.empty) plain_session []
     \<lparr>pd_parameter_id = ''p'', pd_name = ''p'', pd_value_type = ''path'', pd_required = False,
      pd_default = ecir [(''kind'', PStr ''path''), (''points'', PList [])]\<rparr> Map.empty =
   fail_with ''runtime.argument_type''"
  by (rule path_default_refused [where i = "''v''" and ps = "[]"]) simp_all

section \<open>Runs\<close>



text \<open>C26. After a run no driver is left on the stack, the session's target is free, and every target
  it took in a target scope is free as well.\<close>

theorem run_releases_targets:
  assumes "well_formed s" and "driver_keys (rs_drivers s) \<subseteq> {rs_home s}"
  shows "rs_drivers (run_session X entry args s) = [] \<and> rs_owned (run_session X entry args s) = {}"
  using run_session_closes [OF assms(1), of X entry args] assms
  by (auto simp: well_formed_def)

theorem run_releases_targets_witness:
  "rs_owned (run_session (plain_machine Map.empty) ''g'' []
     (plain_session\<lparr>rs_drivers := [Some (''t'', 0)], rs_owned := {target_key ''t''}, rs_home := target_key ''t''\<rparr>)) = {}"
  by (intro conjunct2 [OF run_releases_targets]) (simp_all add: well_formed_def driver_keys_def plain_session_def)


lemma while_rounds:
  assumes "\<And>s. c (fst (body s)) \<le> Suc (c s)" "\<And>s. c (poll X s) = c s" "\<And>s. c (mark_cancelled s) = c s"
  shows "c (fst (run_while X n cond body s)) \<le> c s + n"
proof (induction n arbitrary: s)
  case (Suc n)
  have round: "c (fst (case body t of
      (s2, Next) \<Rightarrow> run_while X n cond body s2 | (s2, Continued) \<Rightarrow> run_while X n cond body s2
    | (s2, Broke) \<Rightarrow> (s2, Next) | r \<Rightarrow> r)) \<le> c t + Suc n" for t
  proof -
    obtain u fl where b: "body t = (u, fl)" by fastforce
    have "c u \<le> Suc (c t)" using assms(1) [of t] b by simp
    moreover have "c (fst (run_while X n cond body u)) \<le> c u + n" by (rule Suc.IH)
    ultimately show ?thesis unfolding b by (cases fl) simp_all
  qed
  show ?case
    using round [of "poll X s"]
    by (subst run_while.simps) (auto simp: with_value_def Let_def assms split: sum.split)
next
  case 0
  show ?case by (subst run_while.simps) (auto simp: with_value_def Let_def assms split: sum.split)
qed

text \<open>C28. A while loop runs its body at most a million times: whatever a round counts, one at a time,
  has grown by no more than the limit when the loop ends.\<close>

theorem while_rounds_bounded:
  assumes "\<And>s. c (fst (exec_block X call f body s)) \<le> Suc (c s)"
    and "\<And>s. c (poll X s) = c s" and "\<And>s. c (mark_cancelled s) = c s"
  shows "c (fst (exec_instruction X call f (IWhile i source body) s)) \<le> c s + 1000000"
  using while_rounds [of c "exec_block X call f body" X loop_limit, OF assms]
  by (simp add: exec_block_def [abs_def] loop_limit_def)

text \<open>A caller that counts the calls it gets, and a loop that makes one call a round.\<close>

definition counting :: "nat caller" where
  "counting g args s = (s\<lparr>rs_made := Suc (rs_made s)\<rparr>, Returned PNone)"

lemma pause_point_made: "rs_made (fst (pause_point X f i allow s)) = rs_made s"
  by (simp add: pause_point_def Let_def event_def show_variables_def mark_cancelled_def split: prod.split)

lemma checkpoint_quiet:
  assumes "\<not> m_messaging X"
  shows "\<exists>t. checkpoint X call f i allow s = (t, Next) \<and> rs_made t = rs_made s"
proof -
  obtain t go where p: "pause_point X f i allow (poll X s) = (t, go)" by fastforce
  have "rs_made t = rs_made s" using pause_point_made [of X f i allow "poll X s"] p by (simp add: poll_def Let_def)
  then show ?thesis
    using assms p by (simp add: checkpoint_def dispatch_ready_listeners_def show_variables_def)
qed

lemma checkpoint_made:
  "\<not> m_messaging X \<Longrightarrow> rs_made (fst (checkpoint X call f i allow s)) = rs_made s"
  using checkpoint_quiet [of X call f i allow s] by auto

lemma counting_round:
  "rs_made (fst (exec_block (plain_machine Map.empty) counting f
     [ICall ''i'' ''call.project'' [] [] [] (Some ''g'') None] s)) \<le> Suc (rs_made s)"
  (is "rs_made (fst (exec_block ?X counting f [?i] s)) \<le> _")
proof -
  have quiet: "\<not> m_messaging ?X" by (simp add: plain_machine_def)
  have polled: "rs_made (poll ?X s) = rs_made s" for s by (simp add: poll_def Let_def)
  have "exec_instruction ?X counting f ?i s = (s\<lparr>rs_made := Suc (rs_made s)\<rparr>, Next)" for s
    by (simp add: exec_call_def eval_arguments_def store_result_def counting_def)
  note step = this
  obtain t where t: "checkpoint ?X counting f ''i'' True (poll ?X s) = (t, Next)" "rs_made t = rs_made s"
    using checkpoint_quiet [OF quiet] polled by metis
  show ?thesis
    unfolding exec_block_def exec_items.simps Let_def step
    by (simp add: t polled block_end_def event_def mark_cancelled_def show_variables_def checkpoint_made [OF quiet] Let_def)
qed

theorem while_rounds_bounded_witness:
  "rs_made (fst (exec_instruction (plain_machine Map.empty) counting 0
     (IWhile ''w'' (PBool True) [ICall ''i'' ''call.project'' [] [] [] (Some ''g'') None]) plain_session)) \<le> 1000000"
  using while_rounds_bounded [of rs_made "plain_machine Map.empty" counting 0, OF counting_round, of "''w''" "PBool True" plain_session]
  by (simp add: poll_def mark_cancelled_def plain_session_def Let_def)

text \<open>A session nobody interferes with, on a host that lets it run.\<close>

definition calm :: "'w session \<Rightarrow> bool" where
  "calm s \<longleftrightarrow> \<not> rs_cancel s \<and> \<not> rs_pause s \<and> \<not> rs_step s \<and> rs_breakpoints s = {} \<and> rs_listeners s = []"

definition calm_host :: "'w machine \<Rightarrow> bool" where
  "calm_host X \<longleftrightarrow> (\<forall>w. \<not> h_cancelled (m_host X) w \<and> \<not> h_paused (m_host X) w)"

lemma calm_poll: "calm_host X \<Longrightarrow> calm s \<Longrightarrow> calm (poll X s)"
  by (simp add: calm_def calm_host_def poll_def Let_def)

lemma calm_checkpoint:
  assumes "calm_host X" "calm s"
  shows "\<exists>t. checkpoint X call f i allow s = (t, Next) \<and> calm t"
  using calm_poll [OF assms] by (auto simp: checkpoint_def pause_point_def calm_def Let_def)

lemma recursion_stopped:
  assumes d: "m_functions X g = Some d" "fd_parameters d = []"
      "fd_instructions d = [ICall i ''call.project'' fn [] ps (Some g) slot]"
    and host: "calm_host X"
  shows "calm s \<Longrightarrow> snd (call_at X n g [] s) = failure ''runtime.call_depth_exceeded''"
proof (induction n arbitrary: s)
  case (Suc n)
  let ?s = "s\<lparr>rs_calls := (g, max_depth - n) # rs_calls s\<rparr>"
  let ?t = "?s\<lparr>rs_frames := rs_frames ?s @ [Map.empty]\<rparr>" and ?f = "length (rs_frames s)"
  have "calm ?t" using Suc.prems by (simp add: calm_def)
  then obtain u where u: "checkpoint X (call_at X n) ?f i True (poll X ?t) = (u, Next)" "calm u"
    using calm_checkpoint [OF host calm_poll [OF host]] by blast
  have c: "\<not> rs_cancel (poll X ?t)" "\<not> rs_cancel (poll X u)"
    using calm_poll [OF host \<open>calm ?t\<close>] calm_poll [OF host u(2)] by (simp_all add: calm_def)
  let ?v = "(poll X u)\<lparr>rs_current := i\<rparr>"
  have "calm ?v" using calm_poll [OF host u(2)] by (simp add: calm_def)
  then obtain w where w: "call_at X n g [] ?v = (w, failure ''runtime.call_depth_exceeded'')"
    using Suc.IH by (metis prod.collapse)
  then have "exec_instruction X (call_at X n) ?f (ICall i ''call.project'' fn [] ps (Some g) slot) ?v =
      (w, failure ''runtime.call_depth_exceeded'')"
    by (simp add: exec_call_def eval_arguments_def store_result_def failure_def)
  then have "exec_block X (call_at X n) ?f (fd_instructions d) ?t = (w, failure ''runtime.call_depth_exceeded'')"
    using u c unfolding exec_block_def d(3) exec_items.simps Let_def
    by (simp add: block_end_def failure_def)
  then show ?case
    using d by (simp add: enter_function_def function_body_def known_arguments_def function_result_def failure_def Let_def)
qed simp

text \<open>C29. Recursion without an end is stopped: a function that only calls itself fails with the depth
  error when nobody cancels the run.\<close>

theorem endless_recursion_stopped:
  assumes "m_functions X g = Some d" and "fd_parameters d = []"
    and "fd_instructions d = [ICall i ''call.project'' fn [] ps (Some g) slot]"
    and "calm_host X" and "calm s"
  shows "snd (execute_function X 0 g [] s) = failure ''runtime.call_depth_exceeded''"
  using recursion_stopped [OF assms(1-4), of s "Suc max_depth"] assms(5) by (simp add: execute_function_def)

theorem endless_recursion_stopped_witness:
  "snd (execute_function (plain_machine [''g'' \<mapsto> recursive_function ''g'']) 0 ''g'' [] plain_session) =
     failure ''runtime.call_depth_exceeded''"
  by (rule endless_recursion_stopped [where d = "recursive_function ''g''" and i = "''i''" and fn = "[]" and ps = "[]" and slot = None])
    (simp_all add: plain_machine_def recursive_function_def calm_host_def plain_host_def calm_def plain_session_def)

end
