(* ===== verification/Message_Values.thy ===== *)
theory Message_Values
  imports Pure_Operations
begin

text \<open>
  The values of \<^verbatim>\<open>core/vnext/message_runtime_v6.py\<close>: identifiers and names, the contents of
  messages and their canonical JSON text, and instance references. Texts are sequences of the
  first 256 code points; what \<^verbatim>\<open>str.strip\<close>, UTF-8 and Base64 do to them is written out. Message
  texts of errors are left out, an error is its identifier and whether it is transient.
\<close>

section \<open>Errors\<close>

datatype message_failure =
    MessageRuntimeError string bool
  | LanControlError string bool
  | SqliteError bool
  | PyError string

type_synonym 'a mp = "message_failure + 'a"

definition message_fail :: "string \<Rightarrow> 'a mp" where
  "message_fail i = Inl (MessageRuntimeError i False)"

abbreviation content_invalid :: "'a mp" where
  "content_invalid \<equiv> message_fail ''message.content_invalid''"

abbreviation instance_unknown :: "'a mp" where
  "instance_unknown \<equiv> message_fail ''message.instance_unknown''"

section \<open>Texts\<close>

definition code :: "char \<Rightarrow> nat" where
  "code c = of_char c"

lemma code_less: "code c < 256"
  using nat_of_char_less_256 [of c] by (simp add: code_def)

lemma strip_id:
  assumes "list_all (\<lambda>c. \<not> is_space c) s"
  shows "strip s = s"
proof -
  have "dropWhile is_space t = t" if "\<forall>c \<in> set t. \<not> is_space c" for t
    using that by (cases t) simp_all
  from this [of s] this [of "rev s"] assms show ?thesis by (simp add: strip_def list_all_iff)
qed

definition controls_free :: "string \<Rightarrow> bool" where
  "controls_free s \<longleftrightarrow> list_all (\<lambda>c. 32 \<le> code c) s"

definition stable_char :: "char \<Rightarrow> bool" where
  "stable_char c \<longleftrightarrow> is_letter c \<or> is_digit c \<or> c \<in> {CHR ''_'', CHR ''.'', CHR ''-''}"

text \<open>The pattern \<^verbatim>\<open>[A-Za-z0-9][A-Za-z0-9_.-]{0,127}\<close>.\<close>

definition stable_text :: "string \<Rightarrow> bool" where
  "stable_text s = (case s of [] \<Rightarrow> False
     | c # cs \<Rightarrow> (is_letter c \<or> is_digit c) \<and> length cs \<le> 127 \<and> list_all stable_char cs)"

definition validate_stable_id :: "string \<Rightarrow> string mp" where
  "validate_stable_id s =
     (let t = strip s in if stable_text t then Inr t else message_fail ''message.instance_invalid'')"

definition validate_project_namespace :: "string \<Rightarrow> string mp" where
  "validate_project_namespace s =
     (let t = strip s in
      if t = [] \<or> 256 < length t \<or> \<not> controls_free t then message_fail ''message.project_invalid'' else Inr t)"

definition validate_display_name :: "string \<Rightarrow> string mp" where
  "validate_display_name s =
     (let t = strip s in
      if t = [] \<or> 160 < length t \<or> \<not> controls_free t then message_fail ''message.instance_invalid'' else Inr t)"

text \<open>\<^verbatim>\<open>str(value or '')\<close>.\<close>

definition text_or_empty :: "eval_env \<Rightarrow> pyval option \<Rightarrow> string" where
  "text_or_empty V v = (case v of None \<Rightarrow> [] | Some x \<Rightarrow> if py_truthy x then py_str V x else [])"

definition validate_message_name :: "eval_env \<Rightarrow> pyval \<Rightarrow> string mp" where
  "validate_message_name V v =
     (let t = strip (text_or_empty V (Some v)) in
      if t = [] \<or> 160 < length t \<or> \<not> controls_free t then content_invalid else Inr t)"

lemma stable_char_not_space: "stable_char c \<Longrightarrow> \<not> is_space c"
  by (auto simp: stable_char_def is_letter_def is_digit_def is_space_def code_def Let_def)

lemma stable_text_chars: "stable_text s \<Longrightarrow> list_all stable_char s"
  by (auto simp: stable_text_def stable_char_def split: list.splits)

lemma strip_stable: "stable_text s \<Longrightarrow> strip s = s"
  by (rule strip_id) (use stable_text_chars stable_char_not_space in \<open>auto simp: list_all_iff\<close>)

lemma validate_stable_id_stable: "stable_text s \<Longrightarrow> validate_stable_id s = Inr s"
  by (simp add: validate_stable_id_def strip_stable Let_def)

lemma validate_stable_id_Inr: "validate_stable_id s = Inr t \<Longrightarrow> stable_text t"
  by (auto simp: validate_stable_id_def message_fail_def Let_def split: if_splits)

section \<open>Contents\<close>

text \<open>
  \<^verbatim>\<open>_validate_message_value\<close>: a copy of the content, or an error at the first value that is too
  deep, one too many, out of range or no text key. The counter runs through the whole content,
  containers included.
\<close>

definition max_content_depth :: nat where
  "max_content_depth = 64"

definition max_content_items :: nat where
  "max_content_items = 10000"

definition int64 :: "int \<Rightarrow> bool" where
  "int64 i \<longleftrightarrow> - (2 ^ 63) \<le> i \<and> i \<le> 2 ^ 63 - 1"

function validate_content :: "nat \<Rightarrow> nat \<Rightarrow> pyval \<Rightarrow> (pyval \<times> nat) mp"
and validate_items :: "nat \<Rightarrow> nat \<Rightarrow> pyval list \<Rightarrow> (pyval list \<times> nat) mp"
and validate_entries :: "nat \<Rightarrow> nat \<Rightarrow> pydict \<Rightarrow> (pydict \<times> nat) mp" where
  "validate_content depth n v =
     (if max_content_depth < depth \<or> max_content_items < Suc n then content_invalid
      else case v of
        PInt i \<Rightarrow> if int64 i then Inr (v, Suc n) else content_invalid
      | PList xs \<Rightarrow> rbind (validate_items (Suc depth) (Suc n) xs) (\<lambda>(ys, m). Inr (PList ys, m))
      | PDict fs \<Rightarrow> rbind (validate_entries (Suc depth) (Suc n) fs) (\<lambda>(gs, m). Inr (PDict gs, m))
      | _ \<Rightarrow> Inr (v, Suc n))"
| "validate_items depth n [] = Inr ([], n)"
| "validate_items depth n (x # xs) =
     rbind (validate_content depth n x) (\<lambda>(y, m).
     rbind (validate_items depth m xs) (\<lambda>(ys, k). Inr (y # ys, k)))"
| "validate_entries depth n [] = Inr ([], n)"
| "validate_entries depth n ((k, x) # fs) =
     (case k of
        PStr t \<Rightarrow>
          rbind (validate_content depth n x) (\<lambda>(y, m).
          rbind (validate_entries depth m fs) (\<lambda>(gs, l). Inr ((PStr t, y) # gs, l)))
      | _ \<Rightarrow> content_invalid)"
  by pat_completeness auto
termination
  by (relation "measure (\<lambda>x. case x of
       Inl (d, n, v) \<Rightarrow> 2 * size v
     | Inr (Inl (d, n, xs)) \<Rightarrow> 2 * size_list size xs + 1
     | Inr (Inr (d, n, fs)) \<Rightarrow> 2 * size_list (size_prod size size) fs + 1)") auto

declare validate_content.simps [simp del]

definition validate_message_value :: "pyval \<Rightarrow> pyval mp" where
  "validate_message_value v = rbind (validate_content 0 0 v) (\<lambda>(w, n). Inr w)"

section \<open>Canonical JSON\<close>

text \<open>
  \<^verbatim>\<open>json.dumps(value, ensure_ascii=False, sort_keys=True, separators=(',', ':'))\<close>. The digits of a
  float are those \<^verbatim>\<open>repr\<close> gives it, a parameter. A content column of the database holds the value
  its text denotes, the keys of every dictionary in order (\<open>canonical\<close>).
\<close>

fun nat_text :: "nat \<Rightarrow> string" where
  "nat_text n = (if n < 10 then [char_of (48 + n)] else nat_text (n div 10) @ [char_of (48 + n mod 10)])"

declare nat_text.simps [simp del]

definition int_text :: "int \<Rightarrow> string" where
  "int_text i = (if i < 0 then CHR ''-'' # nat_text (nat (- i)) else nat_text (nat i))"

definition hex_digit :: "nat \<Rightarrow> char" where
  "hex_digit n = (if n < 10 then char_of (48 + n) else char_of (87 + n))"

definition json_char :: "char \<Rightarrow> string" where
  "json_char c =
     (let n = code c in
      if n = 34 then [char_of (92::nat), char_of (34::nat)]
      else if n = 92 then [char_of (92::nat), char_of (92::nat)]
      else if n = 8 then char_of (92::nat) # ''b''
      else if n = 9 then char_of (92::nat) # ''t''
      else if n = 10 then char_of (92::nat) # ''n''
      else if n = 12 then char_of (92::nat) # ''f''
      else if n = 13 then char_of (92::nat) # ''r''
      else if n < 32 then char_of (92::nat) # ''u00'' @ [hex_digit (n div 16), hex_digit (n mod 16)]
      else [c])"

definition json_string :: "string \<Rightarrow> string" where
  "json_string s = char_of (34::nat) # concat (map json_char s) @ [char_of (34::nat)]"

fun key_text :: "pyval \<Rightarrow> string" where
  "key_text (PStr s) = s"
| "key_text _ = []"

function canonical :: "pyval \<Rightarrow> pyval" where
  "canonical v = (case v of
     PList xs \<Rightarrow> PList (map canonical xs)
   | PDict fs \<Rightarrow> PDict (sort_key (key_text \<circ> fst) (map (\<lambda>(k, x). (k, canonical x)) fs))
   | _ \<Rightarrow> v)"
  by pat_completeness auto
termination
  by (relation "measure size") (auto dest: dict_entry_size(1) list_item_size)

declare canonical.simps [simp del]

function json_text :: "eval_env \<Rightarrow> pyval \<Rightarrow> string" where
  "json_text V v = (case v of
     PNone \<Rightarrow> ''null''
   | PBool b \<Rightarrow> if b then ''true'' else ''false''
   | PInt i \<Rightarrow> int_text i
   | PFloat q \<Rightarrow> py_str V (PFloat q)
   | PStr s \<Rightarrow> json_string s
   | PList xs \<Rightarrow> ''['' @ join_texts '','' (map (json_text V) xs) @ '']''
   | PDict fs \<Rightarrow> ''{'' @ join_texts '','' (map (\<lambda>(k, x). json_string (key_text k) @ '':'' @ json_text V x) fs) @ ''}'')"
  by pat_completeness auto
termination
  by (relation "measure (\<lambda>(V, v). size v)") (auto dest: dict_entry_size(1) list_item_size)

declare json_text.simps [simp del]

definition canonical_json :: "eval_env \<Rightarrow> pyval \<Rightarrow> string" where
  "canonical_json V v = json_text V (canonical v)"

text \<open>\<^verbatim>\<open>len(text.encode('utf-8'))\<close>.\<close>

definition utf8_char :: "char \<Rightarrow> nat list" where
  "utf8_char c = (let n = code c in if n < 128 then [n] else [192 + n div 64, 128 + n mod 64])"

definition utf8 :: "string \<Rightarrow> nat list" where
  "utf8 s = concat (map utf8_char s)"

end
