(* ===== verification/Message_References.thy ===== *)
theory Message_References
  imports Message_Values
begin

text \<open>
  Instance references of \<^verbatim>\<open>core/vnext/message_runtime_v6.py\<close>: host and instance identifiers in
  URL-safe Base64 without padding. Decoding is CPython's: characters outside the alphabet are
  skipped, both alphabets are accepted, and input after complete padding is ignored.
\<close>

section \<open>Base64\<close>

definition b64_char :: "nat \<Rightarrow> char" where
  "b64_char n = (if n < 26 then char_of (65 + n) else if n < 52 then char_of (71 + n)
     else if n < 62 then char_of (n - 4) else if n = 62 then CHR ''-'' else CHR ''_'')"

definition b64_value :: "char \<Rightarrow> nat option" where
  "b64_value c =
     (let n = code c in
      if 65 \<le> n \<and> n \<le> 90 then Some (n - 65)
      else if 97 \<le> n \<and> n \<le> 122 then Some (n - 71)
      else if 48 \<le> n \<and> n \<le> 57 then Some (n + 4)
      else if c \<in> {CHR ''-'', CHR ''+''} then Some 62
      else if c \<in> {CHR ''_'', CHR ''/''} then Some 63
      else None)"

fun b64_encode :: "nat list \<Rightarrow> string" where
  "b64_encode [] = []"
| "b64_encode [a] = [b64_char (a div 4), b64_char (a mod 4 * 16)]"
| "b64_encode [a, b] = [b64_char (a div 4), b64_char (a mod 4 * 16 + b div 16), b64_char (b mod 16 * 4)]"
| "b64_encode (a # b # c # r) =
     [b64_char (a div 4), b64_char (a mod 4 * 16 + b div 16), b64_char (b mod 16 * 4 + c div 64), b64_char (c mod 64)]
     @ b64_encode r"

text \<open>
  \<^verbatim>\<open>binascii.a2b_base64\<close>: the position in the quadruple, the bits left over, the padding seen.
\<close>

fun b64_decode :: "nat \<Rightarrow> nat \<Rightarrow> nat \<Rightarrow> string \<Rightarrow> nat list option" where
  "b64_decode quad left pads [] = (if quad = 0 then Some [] else None)"
| "b64_decode quad left pads (c # cs) =
     (if c = CHR ''='' then
        if 2 \<le> quad then (if 4 \<le> quad + Suc pads then Some [] else b64_decode quad left (Suc pads) cs)
        else b64_decode quad left pads cs
      else case b64_value c of
        None \<Rightarrow> b64_decode quad left pads cs
      | Some v \<Rightarrow>
          if quad = 0 then b64_decode 1 v 0 cs
          else if quad = 1 then map_option ((#) (left * 4 + v div 16)) (b64_decode 2 (v mod 16) 0 cs)
          else if quad = 2 then map_option ((#) (left * 16 + v div 4)) (b64_decode 3 (v mod 4) 0 cs)
          else map_option ((#) (left * 64 + v)) (b64_decode 0 0 0 cs))"

section \<open>UTF-8\<close>

definition continuation :: "nat \<Rightarrow> bool" where
  "continuation b \<longleftrightarrow> 128 \<le> b \<and> b < 192"

text \<open>
  Strict decoding into code points: no overlong forms, no surrogates, nothing above U+10FFFF.
\<close>

fun utf8_points :: "nat list \<Rightarrow> nat list option" where
  "utf8_points [] = Some []"
| "utf8_points (a # r) =
     (if a < 128 then map_option ((#) a) (utf8_points r)
      else if 194 \<le> a \<and> a < 224 then
        (case r of
           b # r' \<Rightarrow> if continuation b then map_option ((#) ((a - 192) * 64 + (b - 128))) (utf8_points r') else None
         | [] \<Rightarrow> None)
      else if 224 \<le> a \<and> a < 240 then
        (case r of
           b # c # r' \<Rightarrow>
             let n = (a - 224) * 4096 + (b - 128) * 64 + (c - 128) in
             if continuation b \<and> continuation c \<and> 2048 \<le> n \<and> \<not> (55296 \<le> n \<and> n < 57344)
             then map_option ((#) n) (utf8_points r') else None
         | _ \<Rightarrow> None)
      else if 240 \<le> a \<and> a < 245 then
        (case r of
           b # c # d # r' \<Rightarrow>
             let n = (a - 240) * 262144 + (b - 128) * 4096 + (c - 128) * 64 + (d - 128) in
             if continuation b \<and> continuation c \<and> continuation d \<and> 65536 \<le> n \<and> n < 1114112
             then map_option ((#) n) (utf8_points r') else None
         | _ \<Rightarrow> None)
      else None)"

text \<open>
  A code point above 255 has no character here. What decodes is tested as a stable identifier and
  nothing else; so a wide space becomes a space, any other wide character one no identifier has.
\<close>

definition wide_space :: "nat \<Rightarrow> bool" where
  "wide_space n \<longleftrightarrow> n = 5760 \<or> 8192 \<le> n \<and> n \<le> 8202 \<or> n \<in> {8232, 8233, 8239, 8287, 12288}"

definition point_char :: "nat \<Rightarrow> char" where
  "point_char n = (if n < 256 then char_of n else if wide_space n then CHR '' '' else char_of (255::nat))"

definition encode_reference_part :: "string \<Rightarrow> string" where
  "encode_reference_part s = b64_encode (utf8 s)"

definition decode_reference_part :: "string \<Rightarrow> string mp" where
  "decode_reference_part s =
     (if list_ex (\<lambda>c. 128 \<le> code c) s then instance_unknown
      else case b64_decode 0 0 0 (s @ replicate (nat (- int (length s) mod 4)) CHR ''='') of
        None \<Rightarrow> instance_unknown
      | Some bytes \<Rightarrow> (case utf8_points bytes of
          None \<Rightarrow> instance_unknown
        | Some points \<Rightarrow> Inr (map point_char points)))"

section \<open>References\<close>

definition reference_prefix :: string where
  "reference_prefix = ''instance_ref.v1.''"

definition reference :: "string \<Rightarrow> string \<Rightarrow> pyval" where
  "reference host inst =
     PDict [(PStr ''kind'', PStr ''entity_ref''), (PStr ''reference_type'', PStr ''instance_ref''),
       (PStr ''reference_id'', PStr (reference_prefix @ encode_reference_part host @ ''.'' @ encode_reference_part inst))]"

text \<open>\<^verbatim>\<open>value not in {None, text}\<close>; a list or a dictionary has no hash.\<close>

definition none_or :: "pyval option \<Rightarrow> string \<Rightarrow> bool mp" where
  "none_or v t = (case v of None \<Rightarrow> Inr True
     | Some x \<Rightarrow> if hashable x then Inr (x \<in> {PNone, PStr t}) else Inl (PyError ''TypeError''))"

text \<open>\<^verbatim>\<open>reference_id.split('.', 3)\<close>, of which the last two parts matter.\<close>

definition split_parts :: "string \<Rightarrow> (string \<times> string) option" where
  "split_parts s =
     (if take (length reference_prefix) s \<noteq> reference_prefix then None
      else let r = drop (length reference_prefix) s in
        if CHR ''.'' \<in> set r
        then Some (takeWhile (\<lambda>c. c \<noteq> CHR ''.'') r, tl (dropWhile (\<lambda>c. c \<noteq> CHR ''.'') r))
        else None)"

definition reference_parts :: "eval_env \<Rightarrow> pyval \<Rightarrow> (string \<times> string) mp" where
  "reference_parts V value =
     (case value of
        PDict fs \<Rightarrow>
          rbind (none_or (text_get fs ''kind'') ''entity_ref'') (\<lambda>kind_ok.
          if \<not> kind_ok then instance_unknown else
          rbind (none_or (text_get fs ''reference_type'') ''instance_ref'') (\<lambda>type_ok.
          if \<not> type_ok then instance_unknown else
          let host = strip (text_or_empty V (text_get fs ''host_id''));
              inst = strip (text_or_empty V (text_get fs ''instance_id''));
              parts = split_parts (text_or_empty V (text_get fs ''reference_id'')) in
          rbind (if host = [] \<or> inst = [] then
              (case parts of
                 None \<Rightarrow> Inr (host, inst)
               | Some (p, q) \<Rightarrow>
                   rbind (decode_reference_part p) (\<lambda>h. rbind (decode_reference_part q) (\<lambda>i. Inr (h, i))))
            else Inr (host, inst)) (\<lambda>(h, i).
          if h = [] \<or> i = [] then instance_unknown
          else rbind (validate_stable_id h) (\<lambda>h'. rbind (validate_stable_id i) (\<lambda>i'. Inr (h', i'))))))
      | _ \<Rightarrow> instance_unknown)"

section \<open>Durations\<close>

definition max_ttl_ms :: int where
  "max_ttl_ms = 7 * 24 * 60 * 60 * 1000"

text \<open>A number that is no boolean, truncated; floats of the model are finite.\<close>

definition duration_ms :: "pyval \<Rightarrow> int option" where
  "duration_ms v = (case v of PInt i \<Rightarrow> Some i | PFloat q \<Rightarrow> Some (truncate_rat q) | _ \<Rightarrow> None)"

definition timeout :: "pyval \<Rightarrow> int mp" where
  "timeout v = (case duration_ms v of None \<Rightarrow> content_invalid
     | Some t \<Rightarrow> if t < 0 \<or> max_ttl_ms < t then content_invalid else Inr t)"

section \<open>A reference gives back its parts\<close>

lemma code_char_of: "n < 256 \<Longrightarrow> code (char_of n) = n"
  by (simp add: code_def)

lemma b64_value_char: "n < 64 \<Longrightarrow> b64_value (b64_char n) = Some n"
proof -
  assume n: "n < 64"
  obtain k where "k = n - 52" by simp
  with n have k: "n < 52 \<or> n = k + 52 \<and> k < 10 \<or> n = 62 \<or> n = 63" by arith
  consider "n < 26" | "26 \<le> n" "n < 52" | "n = k + 52" "k < 10" | "n = 62" | "n = 63"
    using k by linarith
  then show ?thesis
    by cases (simp_all add: b64_char_def b64_value_def code_char_of Let_def, simp_all add: code_def)
qed

lemma b64_char_code: "n < 64 \<Longrightarrow> b64_char n \<noteq> CHR ''='' \<and> b64_char n \<noteq> CHR ''.'' \<and> code (b64_char n) < 128"
proof -
  assume n: "n < 64"
  have "b64_value (CHR ''='') = None" "b64_value (CHR ''.'') = None" by (simp_all add: b64_value_def code_def)
  then have "b64_char n \<noteq> CHR ''=''" "b64_char n \<noteq> CHR ''.''" using b64_value_char [OF n] by auto
  moreover have "code (b64_char n) < 128"
    using n by (auto simp: b64_char_def code_char_of) (simp_all add: code_def)
  ultimately show ?thesis by simp
qed

lemma b64_step:
  assumes "v < 64"
  shows "b64_decode 0 l p (b64_char v # cs) = b64_decode 1 v 0 cs"
    "b64_decode 1 l p (b64_char v # cs) = map_option ((#) (l * 4 + v div 16)) (b64_decode 2 (v mod 16) 0 cs)"
    "b64_decode 2 l p (b64_char v # cs) = map_option ((#) (l * 16 + v div 4)) (b64_decode 3 (v mod 4) 0 cs)"
    "b64_decode 3 l p (b64_char v # cs) = map_option ((#) (l * 64 + v)) (b64_decode 0 0 0 cs)"
  using b64_char_code [OF assms] by (simp_all add: b64_value_char [OF assms])

lemma b64_padding: "b64_decode 2 l 0 ''=='' = Some []" "b64_decode 3 l 0 ''='' = Some []" "b64_decode 0 l p [] = Some []"
  by simp_all

declare b64_decode.simps [simp del]

definition padding :: "nat \<Rightarrow> string" where
  "padding n = replicate (nat (- int n mod 4)) CHR ''=''"

lemma padding_simps: "padding 0 = []" "padding 2 = ''==''" "padding (Suc (Suc 0)) = ''==''" "padding 3 = ''=''" "padding (Suc (Suc (Suc 0))) = ''=''" "padding (Suc (Suc (Suc (Suc n)))) = padding n"
proof -
  have "- int (Suc (Suc (Suc (Suc n)))) mod 4 = - int n mod 4" by presburger
  then show "padding (Suc (Suc (Suc (Suc n)))) = padding n" by (simp only: padding_def)
qed (simp_all add: padding_def numeral_2_eq_2)

lemma packed:
  fixes x y k :: nat
  assumes "y < k"
  shows "(x * k + y) div k = x" "(x * k + y) mod k = y"
  using assms by simp_all

lemma sextets:
  fixes a b c :: nat
  assumes "a < 256" "b < 256" "c < 256"
  shows "a div 4 < 64" "a mod 4 * 16 < 64" "a mod 4 * 16 + b div 16 < 64" "b mod 16 * 4 < 64"
    "b mod 16 * 4 + c div 64 < 64" "c mod 64 < 64"
    "a div 4 * 4 + (a mod 4 * 16 + b div 16) div 16 = a" "a div 4 * 4 + (a mod 4 * 16) div 16 = a"
    "(a mod 4 * 16 + b div 16) mod 16 * 16 + (b mod 16 * 4 + c div 64) div 4 = b"
    "(a mod 4 * 16 + b div 16) mod 16 * 16 + (b mod 16 * 4) div 4 = b"
    "(b mod 16 * 4 + c div 64) mod 4 * 64 + c mod 64 = c"
proof -
  have small: "a div 4 < 64" "b div 16 < 16" "c div 64 < 4" "a mod 4 < 4" "b mod 16 < 16" "c mod 64 < 64"
    using assms by (simp_all add: less_mult_imp_div_less)
  note p = packed [OF small(2)] packed [OF small(3)]
  show "a div 4 < 64" "a mod 4 * 16 < 64" "a mod 4 * 16 + b div 16 < 64" "b mod 16 * 4 < 64"
    "b mod 16 * 4 + c div 64 < 64" "c mod 64 < 64"
    using small by linarith+
  have q: "x * 16 div 16 = x" "x * 4 div 4 = x" for x :: nat by simp_all
  show "a div 4 * 4 + (a mod 4 * 16 + b div 16) div 16 = a" "a div 4 * 4 + (a mod 4 * 16) div 16 = a"
    "(a mod 4 * 16 + b div 16) mod 16 * 16 + (b mod 16 * 4 + c div 64) div 4 = b"
    "(a mod 4 * 16 + b div 16) mod 16 * 16 + (b mod 16 * 4) div 4 = b"
    "(b mod 16 * 4 + c div 64) mod 4 * 64 + c mod 64 = c"
    by (simp_all only: p q div_mult_mod_eq)
qed

lemma leftovers:
  fixes b :: nat
  assumes "b < 256"
  shows "b div 16 div 16 = 0" "b div 16 mod 16 = b div 16" "b div 64 div 4 = 0" "b div 64 mod 4 = b div 64"
proof -
  have "b div 16 < 16" "b div 64 < 4" using assms by (simp_all add: less_mult_imp_div_less)
  then show "b div 16 div 16 = 0" "b div 16 mod 16 = b div 16" "b div 64 div 4 = 0" "b div 64 mod 4 = b div 64"
    by (simp_all only: div_less mod_less)
qed

lemma b64_decode_encode: "\<forall>b \<in> set bs. b < 256 \<Longrightarrow> b64_decode 0 0 0 (b64_encode bs @ padding (length (b64_encode bs))) = Some bs"
proof (induction bs rule: b64_encode.induct)
  case 1
  then show ?case by (simp add: padding_simps b64_padding)
next
  case (2 a)
  then have "a < 256" by simp
  note s = sextets [OF this this this]
  show ?case by (simp add: b64_step b64_padding s padding_simps del: One_nat_def)
next
  case (3 a b)
  then have "a < 256" "b < 256" by simp_all
  note s = sextets [OF this this(2)] leftovers [OF this(2)]
  show ?case by (simp add: b64_step b64_padding s padding_simps del: One_nat_def)
next
  case (4 a b c r)
  then have "a < 256" "b < 256" "c < 256" by simp_all
  note s = sextets [OF this] leftovers [OF this(2)] leftovers [OF this(3)]
  have "padding (Suc (Suc (Suc (Suc (length (b64_encode r)))))) = padding (length (b64_encode r))"
    by (rule padding_simps)
  with 4 show ?case by (simp add: b64_step s del: One_nat_def)
qed

lemma b64_encode_plain: "\<forall>b \<in> set bs. b < 256 \<Longrightarrow> \<forall>c \<in> set (b64_encode bs). c \<noteq> CHR ''.'' \<and> code c < 128"
proof (induction bs rule: b64_encode.induct)
  case (2 a)
  then show ?case using sextets [of a a a] by (simp add: b64_char_code)
next
  case (3 a b)
  then show ?case using sextets [of a b b] by (simp add: b64_char_code)
next
  case (4 a b c r)
  then show ?case using sextets [of a b c] by (simp add: b64_char_code)
qed simp

lemma utf8_char_range:
  assumes "\<not> code c < 128"
  shows "194 \<le> 192 + code c div 64" "192 + code c div 64 < 196" "code c mod 64 < 64"
proof -
  have "2 \<le> code c div 64" using assms div_le_mono [of 128 "code c" 64] by simp
  moreover have "code c div 64 < 4" using code_less [of c] by (simp add: less_mult_imp_div_less)
  ultimately show "194 \<le> 192 + code c div 64" "192 + code c div 64 < 196" by simp_all
qed simp

lemma utf8_less: "\<forall>b \<in> set (utf8 s). b < 256"
proof -
  have "\<forall>b \<in> set (utf8_char c). b < 256" for c
    using utf8_char_range [of c] by (cases "code c < 128") (simp_all add: utf8_char_def Let_def)
  then show ?thesis by (simp add: utf8_def)
qed

lemma utf8_points_utf8: "utf8_points (utf8 s) = Some (map code s)"
proof (induction s)
  case (Cons c s)
  show ?case
  proof (cases "code c < 128")
    case False
    note range = utf8_char_range [OF False]
    have "utf8 (c # s) = (192 + code c div 64) # (128 + code c mod 64) # utf8 s"
      using False by (simp add: utf8_def utf8_char_def Let_def)
    moreover have "continuation (128 + code c mod 64)" using range(3) by (simp add: continuation_def)
    ultimately show ?thesis using range Cons by simp
  qed (use Cons in \<open>simp add: utf8_def utf8_char_def\<close>)
qed (simp add: utf8_def)

lemma point_char_code: "point_char (code c) = c"
  using code_less [of c] by (simp add: point_char_def code_def)

lemma decode_encode_part: "decode_reference_part (encode_reference_part s) = Inr s"
proof -
  let ?e = "b64_encode (utf8 s)"
  have "\<forall>c \<in> set ?e. code c < 128" using b64_encode_plain [OF utf8_less] by blast
  moreover have "b64_decode 0 0 0 (?e @ padding (length ?e)) = Some (utf8 s)" by (rule b64_decode_encode [OF utf8_less])
  moreover have "map point_char (map code s) = s" by (simp add: point_char_code o_def)
  ultimately show ?thesis
    by (auto simp: decode_reference_part_def encode_reference_part_def padding_def utf8_points_utf8 list_ex_iff)
qed

lemma encode_part_no_dot: "CHR ''.'' \<notin> set (encode_reference_part s)"
  using b64_encode_plain [OF utf8_less] by (auto simp: encode_reference_part_def)

lemma split_reference: "split_parts (reference_prefix @ encode_reference_part h @ ''.'' @ encode_reference_part i)
    = Some (encode_reference_part h, encode_reference_part i)"
proof -
  have "\<forall>c \<in> set (encode_reference_part h). c \<noteq> CHR ''.''" using encode_part_no_dot by metis
  then show ?thesis by (simp add: split_parts_def takeWhile_append dropWhile_append)
qed

lemma reference_parts_reference:
  assumes "stable_text h" "stable_text i"
  shows "reference_parts V (reference h i) = Inr (h, i)"
proof -
  have "h \<noteq> []" "i \<noteq> []" using assms by (auto simp: stable_text_def)
  moreover have "reference_prefix \<noteq> []" by (simp add: reference_prefix_def)
  ultimately show ?thesis using split_reference [of h i]
    by (simp add: reference_parts_def reference_def text_get_def key_eq_def none_or_def text_or_empty_def strip_def
        decode_encode_part validate_stable_id_stable assms)
qed

end
