(* ===== verification/Message_Store.thy ===== *)
theory Message_Store
  imports Message_References
begin

text \<open>
  The message database of \<^verbatim>\<open>core/vnext/message_runtime_v6.py\<close> and the identities in it. A table is the
  list of its rows in the order of their rowids; rows are never deleted, so the rowid of a row is
  its position, from 1. A timestamp is in milliseconds; what \<^verbatim>\<open>_iso_timestamp\<close> makes of it is
  presentation, and a result that is a dictionary in the code is a record here.

  Several processes share the database. An operation is a sequence of transactions, and before
  each of them the other processes may have changed the database (\<open>me_others\<close>); within a
  transaction, opened with \<^verbatim>\<open>BEGIN IMMEDIATE\<close>, nobody else writes. A failing transaction leaves
  the database as it was.
\<close>

section \<open>Rows\<close>

datatype copy_status = WaitingSend | WaitingRead | Read | Expired | Cancelled | Failed

datatype transport = Local | Lan | LanInbound

record instance_row =
  in_project :: string
  in_host :: string
  in_id :: string
  in_endpoint :: string
  in_kind :: string
  in_trust :: string
  in_display :: string
  in_display_key :: string
  in_created :: int
  in_seen :: int

record batch_row =
  ba_id :: string
  ba_project :: string
  ba_host :: string
  ba_sender :: string
  ba_sender_display :: string
  ba_name :: string
  ba_content :: pyval
  ba_hash :: string
  ba_created :: int
  ba_expires :: int
  ba_fingerprint :: string

record copy_row =
  cp_message :: string
  cp_batch :: string
  cp_project :: string
  cp_host :: string
  cp_instance :: string
  cp_display :: string
  cp_status :: copy_status
  cp_created :: int
  cp_expires :: int
  cp_read_at :: "int option"
  cp_cancelled_at :: "int option"
  cp_failure :: "string option"
  cp_transport :: transport
  cp_accepted :: "int option"
  cp_last_transport :: "int option"
  cp_attempts :: nat
  cp_error :: "string option"
  cp_cancel_requested :: "int option"

record message_db =
  db_host :: "string option"
  db_instances :: "instance_row list"
  db_batches :: "batch_row list"
  db_copies :: "copy_row list"

definition instance_key :: "instance_row \<Rightarrow> string \<times> string \<times> string" where
  "instance_key r = (in_project r, in_host r, in_id r)"

text \<open>The \<^verbatim>\<open>PRIMARY KEY\<close> and \<^verbatim>\<open>UNIQUE\<close> constraints of \<^verbatim>\<open>message_instances\<close>.\<close>

definition instances_unique :: "instance_row list \<Rightarrow> bool" where
  "instances_unique rs \<longleftrightarrow>
     distinct (map instance_key rs) \<and>
     distinct (map (\<lambda>r. (in_host r, in_id r)) rs) \<and>
     distinct (map (\<lambda>r. (in_project r, in_host r, in_endpoint r)) rs) \<and>
     distinct (map (\<lambda>r. (in_project r, in_display_key r)) rs)"

definition recipient_key :: "copy_row \<Rightarrow> string \<times> string \<times> string" where
  "recipient_key c = (cp_batch c, cp_host c, cp_instance c)"

definition find_instance :: "message_db \<Rightarrow> string \<Rightarrow> string \<Rightarrow> string \<Rightarrow> instance_row option" where
  "find_instance d p h i = find (\<lambda>r. instance_key r = (p, h, i)) (db_instances d)"

definition find_batch :: "message_db \<Rightarrow> string \<Rightarrow> batch_row option" where
  "find_batch d b = find (\<lambda>r. ba_id r = b) (db_batches d)"

definition find_copy :: "message_db \<Rightarrow> string \<Rightarrow> copy_row option" where
  "find_copy d m = find (\<lambda>c. cp_message c = m) (db_copies d)"

section \<open>The host\<close>

text \<open>
  What the LAN control plane does for messages, as far as it is used: the identity of this device,
  whether a peer is known and grants messages, the name in the catalogue entry of a remote
  instance, and the answers to requests, numbered.
\<close>

record wire_reply =
  ws_message :: string
  ws_batch :: string
  ws_status :: string
  ws_read_at :: "int option"
  ws_cancelled_at :: "int option"
  ws_failure :: string
  ws_expires :: int

datatype lan_request = OfferRequest batch_row copy_row int | StatusRequest string int | CancelRequest string int

record lan_control =
  lc_host :: string
  lc_peer :: "string \<Rightarrow> bool mp"
  lc_instance :: "string \<Rightarrow> string \<Rightarrow> string \<Rightarrow> string mp"
  lc_request :: "nat \<Rightarrow> string \<Rightarrow> lan_request \<Rightarrow> wire_reply mp"

text \<open>
  The environment: rendering of values, \<^verbatim>\<open>NFKC\<close> with case folding, the SHA-256 digest in hex, the
  readings of the wall clock and of the monotonic clock, the values of \<^verbatim>\<open>uuid4().hex\<close>, the changes
  of other processes and the SQLite failures before each transaction, what the callbacks
  \<^verbatim>\<open>cancelled\<close> and \<^verbatim>\<open>safe_checkpoint\<close> do at each round, and the control plane when there is one.
\<close>

record message_env =
  me_eval :: eval_env
  me_display_key :: "string \<Rightarrow> string"
  me_digest :: "string \<Rightarrow> string"
  me_clock :: "nat \<Rightarrow> int"
  me_monotonic :: "nat \<Rightarrow> rat"
  me_uuid :: "nat \<Rightarrow> string"
  me_others :: "nat \<Rightarrow> message_db \<Rightarrow> message_db"
  me_fault :: "nat \<Rightarrow> bool option"
  me_cancelled :: "nat \<Rightarrow> bool"
  me_checkpoint :: "nat \<Rightarrow> message_failure option"
  me_lan :: "lan_control option"

record world =
  wd_db :: message_db
  wd_clock :: nat
  wd_monotonic :: nat
  wd_ids :: nat
  wd_transactions :: nat
  wd_rounds :: nat
  wd_requests :: nat

type_synonym 'a mop = "world \<Rightarrow> 'a mp \<times> world"

definition return_op :: "'a \<Rightarrow> 'a mop" where
  "return_op x w = (Inr x, w)"

definition lift_op :: "'a mp \<Rightarrow> 'a mop" where
  "lift_op r w = (r, w)"

definition raise_op :: "string \<Rightarrow> 'a mop" where
  "raise_op i = lift_op (message_fail i)"

definition then_op :: "'a mop \<Rightarrow> ('a \<Rightarrow> 'b mop) \<Rightarrow> 'b mop" where
  "then_op m f w = (case m w of (Inl e, w') \<Rightarrow> (Inl e, w') | (Inr x, w') \<Rightarrow> f x w')"

definition now_ms :: "message_env \<Rightarrow> int mop" where
  "now_ms E w = (Inr (me_clock E (wd_clock w)), w\<lparr>wd_clock := Suc (wd_clock w)\<rparr>)"

definition monotonic :: "message_env \<Rightarrow> rat mop" where
  "monotonic E w = (Inr (me_monotonic E (wd_monotonic w)), w\<lparr>wd_monotonic := Suc (wd_monotonic w)\<rparr>)"

definition new_id :: "message_env \<Rightarrow> string \<Rightarrow> string mop" where
  "new_id E prefix w = (Inr (prefix @ ''_'' @ me_uuid E (wd_ids w)), w\<lparr>wd_ids := Suc (wd_ids w)\<rparr>)"

definition read_db :: "message_db mop" where
  "read_db w = (Inr (wd_db w), w)"

definition write_db :: "message_db \<Rightarrow> unit mop" where
  "write_db d w = (Inr (), w\<lparr>wd_db := d\<rparr>)"

text \<open>One transaction: what others did first, then all of the body or none of it.\<close>

definition transact :: "message_env \<Rightarrow> 'a mop \<Rightarrow> 'a mop" where
  "transact E body w =
     (let w1 = w\<lparr>wd_db := me_others E (wd_transactions w) (wd_db w), wd_transactions := Suc (wd_transactions w)\<rparr> in
      case me_fault E (wd_transactions w) of
        Some transient \<Rightarrow> (Inl (SqliteError transient), w1)
      | None \<Rightarrow> (case body w1 of
          (Inl e, w2) \<Rightarrow> (Inl e, w2\<lparr>wd_db := wd_db w1\<rparr>)
        | (Inr x, w2) \<Rightarrow> (Inr x, w2)))"

text \<open>\<^verbatim>\<open>_translate_sqlite_errors\<close>.\<close>

fun translate_result :: "'a mp \<Rightarrow> 'a mp" where
  "translate_result (Inl (SqliteError t)) = Inl (MessageRuntimeError ''message.transport_unavailable'' t)"
| "translate_result r = r"

definition translate :: "'a mop \<Rightarrow> 'a mop" where
  "translate m w = (case m w of (r, w') \<Rightarrow> (translate_result r, w'))"

lemma op_simps [simp]:
  "then_op (return_op x) f = f x" "then_op (lift_op (Inl e)) f = lift_op (Inl e)" "then_op (lift_op (Inr x)) f = f x"
  by (simp_all add: fun_eq_iff then_op_def return_op_def lift_op_def)

section \<open>Identities\<close>

definition rehost_instance :: "string \<Rightarrow> string \<Rightarrow> instance_row \<Rightarrow> instance_row" where
  "rehost_instance old new r = (if in_host r = old then r\<lparr>in_host := new\<rparr> else r)"

definition rehost_batch :: "string \<Rightarrow> string \<Rightarrow> batch_row \<Rightarrow> batch_row" where
  "rehost_batch old new b = (if ba_host b = old then b\<lparr>ba_host := new\<rparr> else b)"

definition rehost_copy :: "string \<Rightarrow> string \<Rightarrow> copy_row \<Rightarrow> copy_row" where
  "rehost_copy old new c = (if cp_host c = old then c\<lparr>cp_host := new\<rparr> else c)"

text \<open>
  \<^verbatim>\<open>host_id\<close>: the stored identifier; with a control plane its identity wins and every row moves to
  it, if that breaks no constraint.
\<close>

definition rehost :: "string \<Rightarrow> string \<Rightarrow> message_db \<Rightarrow> message_db mp" where
  "rehost old new d =
     (let rs = map (rehost_instance old new) (db_instances d); cs = map (rehost_copy old new) (db_copies d) in
      if \<not> instances_unique rs \<or> \<not> distinct (map recipient_key cs) then Inl (SqliteError False)
      else Inr (d\<lparr>db_host := Some new, db_instances := rs,
        db_batches := map (rehost_batch old new) (db_batches d), db_copies := cs\<rparr>))"

definition host_id :: "message_env \<Rightarrow> string mop" where
  "host_id E = translate (transact E (
     then_op read_db (\<lambda>d.
     let lan_host = (case me_lan E of None \<Rightarrow> [] | Some l \<Rightarrow> lc_host l) in
     case db_host d of
       None \<Rightarrow>
         then_op (if lan_host \<noteq> [] then return_op lan_host else new_id E ''host'') (\<lambda>value.
         then_op (write_db (d\<lparr>db_host := Some value\<rparr>)) (\<lambda>_. return_op value))
     | Some value \<Rightarrow>
         if lan_host \<noteq> [] \<and> value \<noteq> lan_host
         then then_op (lift_op (rehost value lan_host d)) (\<lambda>d'. then_op (write_db d') (\<lambda>_. return_op lan_host))
         else return_op value)))"

text \<open>\<^verbatim>\<open>_instance_row\<close>: an empty trust domain reads as the project.\<close>

definition trust_of :: "instance_row \<Rightarrow> string" where
  "trust_of r = (if in_trust r = [] then in_project r else in_trust r)"

definition instance_view :: "instance_row option \<Rightarrow> instance_row mp" where
  "instance_view r = (case r of None \<Rightarrow> instance_unknown | Some i \<Rightarrow> Inr (i\<lparr>in_trust := trust_of i\<rparr>))"

definition update_instances :: "(instance_row \<Rightarrow> bool) \<Rightarrow> (instance_row \<Rightarrow> instance_row) \<Rightarrow> message_db \<Rightarrow> message_db" where
  "update_instances p f d = d\<lparr>db_instances := map (\<lambda>r. if p r then f r else r) (db_instances d)\<rparr>"

definition or_else :: "string \<Rightarrow> string \<Rightarrow> string" where
  "or_else s t = (if s = [] then t else s)"

definition register_instance ::
  "message_env \<Rightarrow> string \<Rightarrow> string \<Rightarrow> string \<Rightarrow> string \<Rightarrow> string \<Rightarrow> string \<Rightarrow> instance_row mop" where
  "register_instance E project_namespace display_name instance_id endpoint_key endpoint_kind trust_domain =
     translate (
     then_op (lift_op (validate_project_namespace project_namespace)) (\<lambda>project.
     then_op (lift_op (validate_display_name display_name)) (\<lambda>display.
     then_op (host_id E) (\<lambda>host.
     then_op (lift_op (validate_stable_id (or_else endpoint_key (''instance-'' @ or_else instance_id ''default'')))) (\<lambda>endpoint.
     then_op (lift_op (validate_stable_id endpoint_kind)) (\<lambda>kind.
     then_op (lift_op (validate_stable_id (or_else trust_domain project))) (\<lambda>trust.
     then_op (now_ms E) (\<lambda>now.
     transact E (
       then_op read_db (\<lambda>d.
       case find (\<lambda>r. in_project r = project \<and> in_host r = host \<and> in_endpoint r = endpoint) (db_instances d) of
         Some r \<Rightarrow>
           if instance_id \<noteq> [] \<and> in_id r \<noteq> instance_id \<or> in_display r \<noteq> display \<or>
              or_else (in_trust r) project \<noteq> trust
           then raise_op ''message.instance_conflict''
           else then_op (write_db (update_instances (\<lambda>x. instance_key x = (project, host, in_id r))
                  (\<lambda>x. x\<lparr>in_seen := now\<rparr>) d)) (\<lambda>_. lift_op (instance_view (Some r)))
       | None \<Rightarrow>
           then_op (if instance_id \<noteq> [] then return_op instance_id else new_id E ''instance'') (\<lambda>given.
           then_op (lift_op (validate_stable_id given)) (\<lambda>stable.
           let row = \<lparr>in_project = project, in_host = host, in_id = stable, in_endpoint = endpoint, in_kind = kind,
                 in_trust = trust, in_display = display, in_display_key = me_display_key E (strip display),
                 in_created = now, in_seen = now\<rparr>;
               d' = d\<lparr>db_instances := db_instances d @ [row]\<rparr> in
           if \<not> instances_unique (db_instances d') then raise_op ''message.instance_conflict''
           else then_op (write_db d') (\<lambda>_. lift_op (instance_view (find_instance d' project host stable)))))))))))))))"

definition rename_instance :: "message_env \<Rightarrow> string \<Rightarrow> string \<Rightarrow> string \<Rightarrow> instance_row mop" where
  "rename_instance E project_namespace instance_id display_name =
     translate (
     then_op (lift_op (validate_project_namespace project_namespace)) (\<lambda>project.
     then_op (lift_op (validate_stable_id instance_id)) (\<lambda>stable.
     then_op (lift_op (validate_display_name display_name)) (\<lambda>display.
     then_op (host_id E) (\<lambda>host.
     transact E (
       then_op read_db (\<lambda>d.
       then_op (now_ms E) (\<lambda>now.
       let d' = update_instances (\<lambda>r. instance_key r = (project, host, stable))
             (\<lambda>r. r\<lparr>in_display := display, in_display_key := me_display_key E (strip display), in_seen := now\<rparr>) d in
       if \<not> instances_unique (db_instances d') then raise_op ''message.instance_conflict''
       else if find_instance d project host stable = None then raise_op ''message.instance_unknown''
       else then_op (write_db d') (\<lambda>_. lift_op (instance_view (find_instance d' project host stable)))))))))))"

definition list_instances :: "message_env \<Rightarrow> string \<Rightarrow> instance_row list mop" where
  "list_instances E project_namespace =
     translate (
     then_op (lift_op (validate_project_namespace project_namespace)) (\<lambda>project.
     then_op (transact E read_db) (\<lambda>d.
     return_op (map (\<lambda>r. r\<lparr>in_trust := trust_of r\<rparr>)
       (sort_key (\<lambda>r. in_display_key r) (sort_key (\<lambda>r. in_id r)
         (filter (\<lambda>r. in_project r = project) (db_instances d))))))))"

text \<open>The catalogue of this device: seen within 30 seconds counts as online.\<close>

definition catalog_instances :: "message_env \<Rightarrow> (instance_row \<times> bool) list mop" where
  "catalog_instances E =
     translate (
     then_op (now_ms E) (\<lambda>now.
     then_op (transact E read_db) (\<lambda>d.
     return_op (map (\<lambda>r. (r, now - in_seen r < 30000))
       (sort_key in_project (sort_key in_display_key (db_instances d)))))))"

text \<open>Who runs: project, host, instance, name and trust domain.\<close>

record identity =
  id_project :: string
  id_host :: string
  id_instance :: string
  id_display :: string
  id_trust :: string

definition instance_identity :: "string \<Rightarrow> instance_row \<Rightarrow> identity" where
  "instance_identity project r =
     \<lparr>id_project = project, id_host = in_host r, id_instance = in_id r, id_display = in_display r, id_trust = in_trust r\<rparr>"

definition instance_context :: "message_env \<Rightarrow> string \<Rightarrow> string \<Rightarrow> string \<Rightarrow> string \<Rightarrow> identity mop" where
  "instance_context E project_namespace instance_id default_display_name endpoint_key =
     translate (
     then_op (lift_op (validate_project_namespace project_namespace)) (\<lambda>project.
     then_op
       (if instance_id \<noteq> [] then
          then_op (lift_op (validate_stable_id instance_id)) (\<lambda>stable.
          then_op (host_id E) (\<lambda>host.
          then_op (transact E (
            then_op read_db (\<lambda>d.
            then_op (now_ms E) (\<lambda>now.
            let d' = update_instances (\<lambda>r. instance_key r = (project, host, stable)) (\<lambda>r. r\<lparr>in_seen := now\<rparr>) d in
            then_op (write_db d') (\<lambda>_. return_op (find_instance d' project host stable)))))) (\<lambda>row.
          lift_op (instance_view row))))
        else register_instance E project default_display_name [] endpoint_key ''ide_debug'' []) (\<lambda>r.
     return_op (instance_identity project r))))"

text \<open>
  \<^verbatim>\<open>_require_identity\<close>: the context names an instance of this host that is registered. The context
  is the record \<open>instance_context\<close> made, its display name and trust domain are read anew.
\<close>

definition require_identity :: "message_env \<Rightarrow> identity \<Rightarrow> identity mop" where
  "require_identity E ctx =
     then_op (lift_op (validate_project_namespace (id_project ctx))) (\<lambda>project.
     then_op (lift_op (validate_stable_id (id_host ctx))) (\<lambda>host.
     then_op (lift_op (validate_stable_id (id_instance ctx))) (\<lambda>inst.
     then_op (host_id E) (\<lambda>here.
     if host \<noteq> here then raise_op ''message.transport_unavailable''
     else then_op (transact E read_db) (\<lambda>d.
       case find_instance d project host inst of
         None \<Rightarrow> raise_op ''message.instance_unknown''
       | Some r \<Rightarrow> return_op (instance_identity project (r\<lparr>in_trust := or_else (in_trust r) project\<rparr>)))))))"

end
