(* ===== verification/Message_Queue.thy ===== *)
theory Message_Queue
  imports Message_Store
begin

text \<open>
  Sending, delivery between devices, receiving, waiting and cancelling: the operations of
  \<^verbatim>\<open>MessageRuntimeV6\<close> on the database of \<^verbatim>\<open>Message_Store\<close>.
\<close>

section \<open>Recipients\<close>

text \<open>The \<^verbatim>\<open>transport_kind\<close> of a recipient is \<^verbatim>\<open>local\<close> or \<^verbatim>\<open>lan\<close>.\<close>

record recipient =
  rc_host :: string
  rc_instance :: string
  rc_display :: string
  rc_remote :: bool

definition max_recipients :: nat where
  "max_recipients = 64"

definition local_recipient :: "message_env \<Rightarrow> string \<Rightarrow> string \<Rightarrow> string \<Rightarrow> string \<Rightarrow> recipient mop" where
  "local_recipient E project trust host inst =
     then_op (transact E read_db) (\<lambda>d.
     case find_instance d project host inst of
       None \<Rightarrow> raise_op ''message.instance_unknown''
     | Some r \<Rightarrow>
         if or_else (in_trust r) project \<noteq> trust then raise_op ''message.instance_unknown''
         else return_op \<lparr>rc_host = in_host r, rc_instance = in_id r, rc_display = in_display r, rc_remote = False\<rparr>)"

definition remote_recipient :: "message_env \<Rightarrow> string \<Rightarrow> string \<Rightarrow> string \<Rightarrow> recipient mop" where
  "remote_recipient E project host inst =
     (case me_lan E of
        None \<Rightarrow> raise_op ''message.instance_unknown''
      | Some l \<Rightarrow> lift_op (
          case rbind (lc_peer l host) (\<lambda>granted.
               if granted then lc_instance l project host inst
               else Inl (LanControlError ''lan.remote_permission_messages_denied'' False)) of
            Inl (LanControlError i t) \<Rightarrow> instance_unknown
          | Inl e \<Rightarrow> Inl e
          | Inr display \<Rightarrow> Inr \<lparr>rc_host = host, rc_instance = inst, rc_display = or_else display inst, rc_remote = True\<rparr>))"

fun resolve_all :: "message_env \<Rightarrow> string \<Rightarrow> string \<Rightarrow> string \<Rightarrow> (string \<times> string) list \<Rightarrow> pyval list \<Rightarrow> recipient list mop" where
  "resolve_all E project trust here seen [] = return_op []"
| "resolve_all E project trust here seen (v # vs) =
     then_op (lift_op (reference_parts (me_eval E) v)) (\<lambda>(host, inst).
     if (host, inst) \<in> set seen then raise_op ''message.instance_unknown''
     else
       then_op (if host = here then local_recipient E project trust host inst
                else remote_recipient E project host inst) (\<lambda>r.
       then_op (resolve_all E project trust here ((host, inst) # seen) vs) (\<lambda>rs. return_op (r # rs))))"

definition resolve_recipients :: "message_env \<Rightarrow> string \<Rightarrow> pyval \<Rightarrow> string \<Rightarrow> recipient list mop" where
  "resolve_recipients E project recipients trust =
     (case recipients of
        PList vs \<Rightarrow>
          if vs = [] \<or> max_recipients < length vs then raise_op ''message.instance_unknown''
          else then_op (host_id E) (\<lambda>here. resolve_all E project trust here [] vs)
      | _ \<Rightarrow> raise_op ''message.instance_unknown'')"

section \<open>Fingerprints and results\<close>

definition sha256 :: "message_env \<Rightarrow> string \<Rightarrow> string" where
  "sha256 E t = ''sha256:'' @ me_digest E t"

definition batch_fingerprint :: "message_env \<Rightarrow> identity \<Rightarrow> recipient list \<Rightarrow> string \<Rightarrow> pyval \<Rightarrow> int \<Rightarrow> string" where
  "batch_fingerprint E who rs name content ttl =
     sha256 E (canonical_json (me_eval E) (PDict [
       (PStr ''project'', PStr (id_project who)),
       (PStr ''sender'', PList [PStr (id_host who), PStr (id_instance who)]),
       (PStr ''recipients'', PList (map (\<lambda>(h, i). PList [PStr h, PStr i])
          (sort_key fst (sort_key snd (map (\<lambda>r. (rc_host r, rc_instance r)) rs))))),
       (PStr ''name'', PStr name), (PStr ''content'', content), (PStr ''ttl_ms'', PInt ttl)]))"

definition waiting :: "copy_status \<Rightarrow> bool" where
  "waiting s \<longleftrightarrow> s \<in> {WaitingSend, WaitingRead}"

definition update_copies :: "(copy_row \<Rightarrow> bool) \<Rightarrow> (copy_row \<Rightarrow> copy_row) \<Rightarrow> message_db \<Rightarrow> message_db" where
  "update_copies p f d = d\<lparr>db_copies := map (\<lambda>c. if p c then f c else c) (db_copies d)\<rparr>"

definition expire_copies :: "int \<Rightarrow> string \<Rightarrow> message_db \<Rightarrow> message_db" where
  "expire_copies now project =
     update_copies (\<lambda>c. (project \<noteq> [] \<longrightarrow> cp_project c = project) \<and> waiting (cp_status c) \<and> cp_expires c \<le> now)
       (\<lambda>c. c\<lparr>cp_status := Expired\<rparr>)"

definition expire :: "message_env \<Rightarrow> string \<Rightarrow> unit mop" where
  "expire E project = then_op (now_ms E) (\<lambda>now. then_op read_db (\<lambda>d. write_db (expire_copies now project d)))"

record copy_report =
  cr_message :: string
  cr_recipient :: pyval
  cr_display :: string
  cr_status :: copy_status
  cr_transport :: transport
  cr_error :: string
  cr_created :: int
  cr_expires :: int

definition copy_result :: "copy_row \<Rightarrow> copy_report" where
  "copy_result c =
     \<lparr>cr_message = cp_message c, cr_recipient = reference (cp_host c) (cp_instance c), cr_display = cp_display c,
      cr_status = cp_status c, cr_transport = cp_transport c,
      cr_error = (case cp_error c of None \<Rightarrow> [] | Some e \<Rightarrow> e), cr_created = cp_created c, cr_expires = cp_expires c\<rparr>"

record batch_report =
  br_batch :: string
  br_name :: string
  br_created :: int
  br_expires :: int
  br_recipients :: "copy_report list"

definition copies_of :: "message_db \<Rightarrow> string \<Rightarrow> copy_row list" where
  "copies_of d b = filter (\<lambda>c. cp_batch c = b) (db_copies d)"

definition batch_result :: "message_db \<Rightarrow> string \<Rightarrow> batch_report mp" where
  "batch_result d b =
     (case find_batch d b of
        None \<Rightarrow> message_fail ''message.batch_unknown''
      | Some r \<Rightarrow> Inr \<lparr>br_batch = ba_id r, br_name = ba_name r, br_created = ba_created r, br_expires = ba_expires r,
          br_recipients = map copy_result (copies_of d b)\<rparr>)"

definition read_result :: "string \<Rightarrow> batch_report mop" where
  "read_result b = then_op read_db (\<lambda>d. lift_op (batch_result d b))"

definition status_text :: "copy_status \<Rightarrow> string" where
  "status_text s = (case s of WaitingSend \<Rightarrow> ''waiting_send'' | WaitingRead \<Rightarrow> ''waiting_read'' | Read \<Rightarrow> ''read''
     | Expired \<Rightarrow> ''expired'' | Cancelled \<Rightarrow> ''cancelled'' | Failed \<Rightarrow> ''failed'')"

definition wire_status :: "copy_row \<Rightarrow> wire_reply" where
  "wire_status c =
     \<lparr>ws_message = cp_message c, ws_batch = cp_batch c, ws_status = status_text (cp_status c),
      ws_read_at = cp_read_at c, ws_cancelled_at = cp_cancelled_at c,
      ws_failure = (case cp_failure c of None \<Rightarrow> [] | Some f \<Rightarrow> f), ws_expires = cp_expires c\<rparr>"

text \<open>
  A new row of \<^verbatim>\<open>message_copies\<close>; the columns not named are null. A message identifier or a
  recipient of the batch that is already there is an \<^verbatim>\<open>IntegrityError\<close>.
\<close>

definition new_copy ::
  "string \<Rightarrow> string \<Rightarrow> string \<Rightarrow> string \<Rightarrow> string \<Rightarrow> string \<Rightarrow> copy_status \<Rightarrow> int \<Rightarrow> int \<Rightarrow> transport \<Rightarrow> int option \<Rightarrow> copy_row" where
  "new_copy message batch project host inst display status created expires transport accepted =
     \<lparr>cp_message = message, cp_batch = batch, cp_project = project, cp_host = host, cp_instance = inst,
      cp_display = display, cp_status = status, cp_created = created, cp_expires = expires, cp_read_at = None,
      cp_cancelled_at = None, cp_failure = None, cp_transport = transport, cp_accepted = accepted,
      cp_last_transport = None, cp_attempts = 0, cp_error = None, cp_cancel_requested = None\<rparr>"

definition insert_copy :: "copy_row \<Rightarrow> message_db \<Rightarrow> message_db mp" where
  "insert_copy c d =
     (if find_copy d (cp_message c) \<noteq> None \<or> recipient_key c \<in> recipient_key ` set (db_copies d)
      then Inl (SqliteError False)
      else Inr (d\<lparr>db_copies := db_copies d @ [c]\<rparr>))"

fun insert_copies :: "copy_row list \<Rightarrow> message_db \<Rightarrow> message_db mp" where
  "insert_copies [] d = Inr d"
| "insert_copies (c # cs) d = rbind (insert_copy c d) (insert_copies cs)"

section \<open>Delivery between devices: the receiving side\<close>

definition payload_text :: "message_env \<Rightarrow> pydict \<Rightarrow> string \<Rightarrow> string" where
  "payload_text E p k = text_or_empty (me_eval E) (text_get p k)"

definition payload_value :: "pydict \<Rightarrow> string \<Rightarrow> pyval" where
  "payload_value p k = (case text_get p k of None \<Rightarrow> PNone | Some v \<Rightarrow> v)"

text \<open>\<^verbatim>\<open>int(payload.get(k) or 0)\<close>.\<close>

definition payload_int :: "pydict \<Rightarrow> string \<Rightarrow> int mp" where
  "payload_int p k =
     (let v = payload_value p k in
      case py_int (if py_truthy v then v else PInt 0) of
        Inl (PythonError c) \<Rightarrow> Inl (PyError c) | Inl e \<Rightarrow> Inl (PyError (rt_error_id e)) | Inr i \<Rightarrow> Inr i)"

text \<open>A message error leaves a handler as the error of the control plane.\<close>

definition lan_error :: "'a mop \<Rightarrow> 'a mop" where
  "lan_error m w = (case m w of
     (Inl (MessageRuntimeError i t), w') \<Rightarrow> (Inl (LanControlError i t), w') | r \<Rightarrow> r)"

definition max_content_bytes :: nat where
  "max_content_bytes = 256 * 1024"

definition guard_op :: "string \<Rightarrow> bool \<Rightarrow> 'a mop \<Rightarrow> 'a mop" where
  "guard_op i b m = (if b then m else raise_op i)"

record offer =
  of_message :: string
  of_batch :: string
  of_project :: string
  of_sender_host :: string
  of_sender :: string
  of_host :: string
  of_instance :: string
  of_name :: string
  of_content :: pyval
  of_created :: int
  of_expires :: int
  of_sender_display :: string
  of_hash :: string

text \<open>
  \<^verbatim>\<open>_handle_lan_offer\<close> up to its transaction: the checks of the payload in their order, the
  authenticated peer being the sender and this host the addressee.
\<close>

definition check_offer :: "message_env \<Rightarrow> string \<Rightarrow> pydict \<Rightarrow> (offer \<times> int) mop" where
  "check_offer E peer p =
     then_op (lift_op (validate_stable_id (payload_text E p ''message_id''))) (\<lambda>message.
     then_op (lift_op (validate_stable_id (payload_text E p ''batch_id''))) (\<lambda>batch.
     then_op (lift_op (validate_project_namespace (payload_text E p ''project_namespace''))) (\<lambda>project.
     then_op (lift_op (validate_stable_id (payload_text E p ''sender_host_id''))) (\<lambda>sender_host.
     then_op (lift_op (validate_stable_id (payload_text E p ''sender_instance_id''))) (\<lambda>sender.
     then_op (lift_op (validate_stable_id (payload_text E p ''recipient_host_id''))) (\<lambda>host.
     then_op (lift_op (validate_stable_id (payload_text E p ''recipient_instance_id''))) (\<lambda>inst.
     guard_op ''message.instance_unknown'' (sender_host = peer) (
     then_op (host_id E) (\<lambda>here.
     guard_op ''message.instance_unknown'' (host = here) (
     then_op (lift_op (validate_message_name (me_eval E) (payload_value p ''name''))) (\<lambda>name.
     then_op (lift_op (validate_message_value (payload_value p ''content''))) (\<lambda>content.
     let json = canonical_json (me_eval E) content in
     guard_op ''message.content_invalid'' (length (utf8 json) \<le> max_content_bytes) (
     then_op (lift_op (payload_int p ''created_at_ms'')) (\<lambda>created.
     then_op (lift_op (payload_int p ''expires_at_ms'')) (\<lambda>expires.
     then_op (now_ms E) (\<lambda>now.
     guard_op ''message.content_invalid'' (0 < created \<and> created \<le> now + 60000) (
     guard_op ''message.content_invalid'' (created < expires \<and> expires - created \<le> max_ttl_ms) (
     then_op (lift_op (validate_display_name (or_else (payload_text E p ''sender_display_name'') sender))) (\<lambda>display.
     guard_op ''message.decode_failed'' (payload_text E p ''content_hash'' = sha256 E json) (
     return_op (\<lparr>of_message = message, of_batch = batch, of_project = project, of_sender_host = sender_host,
       of_sender = sender, of_host = host, of_instance = inst, of_name = name, of_content = canonical content,
       of_created = created, of_expires = expires, of_sender_display = display, of_hash = sha256 E json\<rparr>, now)))))))))))))))))))))"

definition wire_fingerprint :: "message_env \<Rightarrow> offer \<Rightarrow> string" where
  "wire_fingerprint E f =
     sha256 E (canonical_json (me_eval E) (PDict [
       (PStr ''batch_id'', PStr (of_batch f)), (PStr ''project'', PStr (of_project f)),
       (PStr ''sender'', PList [PStr (of_sender_host f), PStr (of_sender f)]),
       (PStr ''name'', PStr (of_name f)), (PStr ''content_hash'', PStr (of_hash f)),
       (PStr ''created_at_ms'', PInt (of_created f)), (PStr ''expires_at_ms'', PInt (of_expires f))]))"

definition offer_batch :: "message_env \<Rightarrow> offer \<Rightarrow> message_db \<Rightarrow> message_db mp" where
  "offer_batch E f d =
     (case find_batch d (of_batch f) of
        None \<Rightarrow> Inr (d\<lparr>db_batches := db_batches d @
          [\<lparr>ba_id = of_batch f, ba_project = of_project f, ba_host = of_sender_host f, ba_sender = of_sender f,
            ba_sender_display = of_sender_display f, ba_name = of_name f, ba_content = of_content f,
            ba_hash = of_hash f, ba_created = of_created f, ba_expires = of_expires f,
            ba_fingerprint = wire_fingerprint E f\<rparr>]\<rparr>)
      | Some b \<Rightarrow>
          if ba_fingerprint b = wire_fingerprint E f \<and> ba_host b = of_sender_host f \<and> ba_sender b = of_sender f
          then Inr d else message_fail ''message.idempotency_conflict'')"

definition offer_copy :: "offer \<Rightarrow> int \<Rightarrow> string \<Rightarrow> message_db \<Rightarrow> message_db mp" where
  "offer_copy f now display d =
     (case find_copy d (of_message f) of
        None \<Rightarrow>
          insert_copy (new_copy (of_message f) (of_batch f) (of_project f) (of_host f) (of_instance f) display
            (if of_expires f \<le> now then Expired else WaitingRead) (of_created f) (of_expires f) LanInbound (Some now)) d
      | Some c \<Rightarrow>
          if cp_batch c = of_batch f \<and> cp_host c = of_host f \<and> cp_instance c = of_instance f
          then Inr d else message_fail ''message.idempotency_conflict'')"

text \<open>The row the last \<^verbatim>\<open>SELECT\<close> of a handler finds.\<close>

definition copy_status_of :: "string \<Rightarrow> wire_reply mop" where
  "copy_status_of m = then_op read_db (\<lambda>d. case find_copy d m of
     None \<Rightarrow> lift_op (Inl (PyError ''TypeError'')) | Some c \<Rightarrow> return_op (wire_status c))"

definition handle_lan_offer :: "message_env \<Rightarrow> string \<Rightarrow> pydict \<Rightarrow> wire_reply mop" where
  "handle_lan_offer E peer p =
     lan_error (
     then_op (check_offer E peer p) (\<lambda>(f, now).
     transact E (
       then_op read_db (\<lambda>d.
       case find_instance d (of_project f) (of_host f) (of_instance f) of
         None \<Rightarrow> lift_op (Inl (MessageRuntimeError ''message.transport_unavailable'' True))
       | Some r \<Rightarrow>
           then_op (lift_op (rbind (offer_batch E f d) (offer_copy f now (in_display r)))) (\<lambda>d'.
           then_op (write_db d') (\<lambda>_.
           then_op (expire E (of_project f)) (\<lambda>_. copy_status_of (of_message f))))))))"

definition copy_for_peer :: "message_env \<Rightarrow> string \<Rightarrow> pydict \<Rightarrow> copy_row mop" where
  "copy_for_peer E peer p =
     then_op (lift_op (validate_stable_id (payload_text E p ''message_id''))) (\<lambda>m.
     then_op read_db (\<lambda>d.
     case find_copy d m of
       None \<Rightarrow> raise_op ''message.instance_unknown''
     | Some c \<Rightarrow> (case find_batch d (cp_batch c) of
         None \<Rightarrow> raise_op ''message.instance_unknown''
       | Some b \<Rightarrow> if ba_host b = peer then return_op c else raise_op ''message.instance_unknown'')))"

definition handle_lan_status :: "message_env \<Rightarrow> string \<Rightarrow> pydict \<Rightarrow> wire_reply mop" where
  "handle_lan_status E peer p =
     lan_error (transact E (
       then_op (copy_for_peer E peer p) (\<lambda>c.
       then_op (expire E (cp_project c)) (\<lambda>_.
       then_op (copy_for_peer E peer p) (\<lambda>c'. return_op (wire_status c'))))))"

definition handle_lan_cancel :: "message_env \<Rightarrow> string \<Rightarrow> pydict \<Rightarrow> wire_reply mop" where
  "handle_lan_cancel E peer p =
     lan_error (transact E (
       then_op (copy_for_peer E peer p) (\<lambda>c.
       then_op (expire E (cp_project c)) (\<lambda>_.
       then_op (now_ms E) (\<lambda>now.
       then_op read_db (\<lambda>d.
       then_op (write_db (update_copies (\<lambda>x. cp_message x = cp_message c \<and> cp_status x = WaitingRead)
         (\<lambda>x. x\<lparr>cp_status := Cancelled, cp_cancelled_at := Some now\<rparr>) d)) (\<lambda>_.
       then_op (copy_for_peer E peer p) (\<lambda>c'. return_op (wire_status c')))))))))"

section \<open>Delivery between devices: the sending side\<close>

definition remote_status_value :: "string \<Rightarrow> copy_status" where
  "remote_status_value s =
     (if s = ''waiting_read'' then WaitingRead else if s = ''read'' then Read else if s = ''expired'' then Expired
      else if s = ''cancelled'' then Cancelled else Failed)"

definition text_or_null :: "string \<Rightarrow> string option" where
  "text_or_null s = (if s = [] then None else Some s)"

definition apply_remote_status :: "message_env \<Rightarrow> string \<Rightarrow> wire_reply \<Rightarrow> unit mop" where
  "apply_remote_status E m s =
     then_op (now_ms E) (\<lambda>now.
     transact E (
       then_op read_db (\<lambda>d.
       write_db (update_copies (\<lambda>c. cp_message c = m \<and> cp_transport c = Lan)
         (\<lambda>c. c\<lparr>cp_status := remote_status_value (ws_status s), cp_read_at := ws_read_at s,
            cp_cancelled_at := ws_cancelled_at s, cp_failure := text_or_null (ws_failure s),
            cp_accepted := (case cp_accepted c of None \<Rightarrow> Some now | a \<Rightarrow> a), cp_last_transport := Some now,
            cp_attempts := Suc (cp_attempts c), cp_error := None\<rparr>) d))))"

definition permanent_failure :: "string \<Rightarrow> bool \<Rightarrow> bool" where
  "permanent_failure i transient \<longleftrightarrow> \<not> transient \<and>
     i \<notin> {''lan.device_unreachable'', ''lan.connection_interrupted'', ''lan.handler_unavailable''}"

definition record_transport_failure :: "message_env \<Rightarrow> string \<Rightarrow> string \<Rightarrow> bool \<Rightarrow> unit mop" where
  "record_transport_failure E m i transient =
     transact E (
       then_op (now_ms E) (\<lambda>now.
       then_op read_db (\<lambda>d.
       write_db (update_copies (\<lambda>c. cp_message c = m \<and> cp_transport c = Lan \<and> waiting (cp_status c))
         (\<lambda>c. c\<lparr>cp_status := (if permanent_failure i transient then Failed else cp_status c),
            cp_failure := (if permanent_failure i transient then Some i else cp_failure c),
            cp_last_transport := Some now, cp_attempts := Suc (cp_attempts c), cp_error := Some i\<rparr>) d))))"

record flush_counts =
  fc_attempted :: nat
  fc_delivered :: nat
  fc_deferred :: nat
  fc_failed :: nat

definition no_counts :: flush_counts where
  "no_counts = \<lparr>fc_attempted = 0, fc_delivered = 0, fc_deferred = 0, fc_failed = 0\<rparr>"

text \<open>The copies to try: every waiting copy for another device, of one batch if one is named, none
  tried within the last 100 ms unless forced.\<close>

definition outbox :: "message_db \<Rightarrow> string \<Rightarrow> bool \<Rightarrow> int \<Rightarrow> (copy_row \<times> batch_row) list" where
  "outbox d batch force now =
     sort_key (\<lambda>(c, b). cp_created c)
       (concat (map (\<lambda>c. case find_batch d (cp_batch c) of None \<Rightarrow> [] | Some b \<Rightarrow> [(c, b)])
         (filter (\<lambda>c. cp_transport c = Lan \<and> waiting (cp_status c) \<and> (batch \<noteq> [] \<longrightarrow> cp_batch c = batch) \<and>
              (force \<or> (case cp_last_transport c of None \<Rightarrow> True | Some t \<Rightarrow> t \<le> now - 100))) (db_copies d))))"

definition lan_request_of :: "copy_row \<Rightarrow> batch_row \<Rightarrow> int \<Rightarrow> lan_request" where
  "lan_request_of c b remaining =
     (if cp_cancel_requested c \<noteq> None then CancelRequest (cp_message c) remaining
      else if cp_accepted c = None then OfferRequest b c remaining
      else StatusRequest (cp_message c) (min 30000 remaining))"

definition secure_request :: "lan_control \<Rightarrow> string \<Rightarrow> lan_request \<Rightarrow> wire_reply mop" where
  "secure_request l host r w = (lc_request l (wd_requests w) host r, w\<lparr>wd_requests := Suc (wd_requests w)\<rparr>)"

definition flush_row :: "message_env \<Rightarrow> lan_control \<Rightarrow> copy_row \<times> batch_row \<Rightarrow> flush_counts \<Rightarrow> flush_counts mop" where
  "flush_row E l cb n =
     (case cb of (c, b) \<Rightarrow>
      then_op (now_ms E) (\<lambda>now.
      let remaining = cp_expires c - now; n' = n\<lparr>fc_attempted := Suc (fc_attempted n)\<rparr> in
      if remaining \<le> 0 then return_op n
      else (\<lambda>w. case secure_request l (cp_host c) (lan_request_of c b remaining) w of
          (Inr s, w') \<Rightarrow>
            then_op (apply_remote_status E (cp_message c) s)
              (\<lambda>_. return_op (n'\<lparr>fc_delivered := Suc (fc_delivered n')\<rparr>)) w'
        | (Inl (LanControlError i transient), w') \<Rightarrow>
            then_op (record_transport_failure E (cp_message c) i transient)
              (\<lambda>_. return_op (if transient then n'\<lparr>fc_deferred := Suc (fc_deferred n')\<rparr>
                 else n'\<lparr>fc_failed := Suc (fc_failed n')\<rparr>)) w'
        | (Inl e, w') \<Rightarrow> (Inl e, w'))))"

fun flush_rows :: "message_env \<Rightarrow> lan_control \<Rightarrow> (copy_row \<times> batch_row) list \<Rightarrow> flush_counts \<Rightarrow> flush_counts mop" where
  "flush_rows E l [] n = return_op n"
| "flush_rows E l (r # rs) n = then_op (flush_row E l r n) (flush_rows E l rs)"

definition flush_outbox :: "message_env \<Rightarrow> string \<Rightarrow> bool \<Rightarrow> flush_counts mop" where
  "flush_outbox E batch force =
     (case me_lan E of
        None \<Rightarrow> return_op no_counts
      | Some l \<Rightarrow> translate (
          then_op (now_ms E) (\<lambda>now.
          then_op (transact E (
            then_op (expire E []) (\<lambda>_. then_op read_db (\<lambda>d. return_op (outbox d batch force now))))) (\<lambda>rows.
          flush_rows E l rows no_counts))))"

end
