(* ===== verification/Message_Operations.thy ===== *)
theory Message_Operations
  imports Message_Queue
begin

text \<open>
  The operations a program calls on the message runtime, \<^verbatim>\<open>message.send\<close>,
  \<^verbatim>\<open>message.wait_receive\<close>, \<^verbatim>\<open>message.wait_read\<close> and \<^verbatim>\<open>message.cancel\<close>, and what the scheduler of
  listeners uses: the cursor of the queue, the candidates and the claim of one message.
\<close>

section \<open>Sending\<close>

definition batch_of :: "message_env \<Rightarrow> identity \<Rightarrow> string \<Rightarrow> string \<Rightarrow> pyval \<Rightarrow> int \<Rightarrow> int \<Rightarrow> string \<Rightarrow> batch_row" where
  "batch_of E who batch name content created expires fingerprint =
     \<lparr>ba_id = batch, ba_project = id_project who, ba_host = id_host who, ba_sender = id_instance who,
      ba_sender_display = id_display who, ba_name = name, ba_content = content,
      ba_hash = sha256 E (canonical_json (me_eval E) content), ba_created = created, ba_expires = expires,
      ba_fingerprint = fingerprint\<rparr>"

definition copies_for :: "identity \<Rightarrow> string \<Rightarrow> int \<Rightarrow> int \<Rightarrow> recipient list \<Rightarrow> copy_row list" where
  "copies_for who batch created expires rs =
     map (\<lambda>(i, r). new_copy (''message_'' @ batch @ ''_'' @ nat_text i) batch (id_project who) (rc_host r) (rc_instance r)
        (rc_display r) (if rc_remote r then WaitingSend else WaitingRead) created expires (if rc_remote r then Lan else Local) None)
       (enumerate 1 rs)"

text \<open>The transaction of \<^verbatim>\<open>send\<close>: a batch that is there must be the same request.\<close>

definition store_batch ::
  "message_env \<Rightarrow> identity \<Rightarrow> recipient list \<Rightarrow> string \<Rightarrow> pyval \<Rightarrow> string \<Rightarrow> string \<Rightarrow> int \<Rightarrow> int \<Rightarrow> batch_report mop" where
  "store_batch E who rs name content batch fingerprint created expires =
     transact E (
       then_op read_db (\<lambda>d.
       case find_batch d batch of
         Some b \<Rightarrow>
           if ba_fingerprint b \<noteq> fingerprint \<or> ba_project b \<noteq> id_project who \<or> ba_host b \<noteq> id_host who \<or>
              ba_sender b \<noteq> id_instance who
           then raise_op ''message.idempotency_conflict''
           else then_op (expire E (id_project who)) (\<lambda>_. read_result batch)
       | None \<Rightarrow>
           then_op (lift_op (insert_copies (copies_for who batch created expires rs)
              (d\<lparr>db_batches := db_batches d @ [batch_of E who batch name content created expires fingerprint]\<rparr>))) (\<lambda>d'.
           then_op (write_db d') (\<lambda>_. read_result batch))))"

definition message_ttl :: "pyval \<Rightarrow> int mp" where
  "message_ttl v = (case duration_ms v of None \<Rightarrow> content_invalid
     | Some t \<Rightarrow> if t \<le> 0 \<or> max_ttl_ms < t then content_invalid else Inr t)"

definition send :: "message_env \<Rightarrow> identity \<Rightarrow> pyval \<Rightarrow> pyval \<Rightarrow> pyval \<Rightarrow> pyval \<Rightarrow> string \<Rightarrow> batch_report mop" where
  "send E ctx recipients name content ttl_ms batch_id =
     translate (
     then_op (require_identity E ctx) (\<lambda>who.
     then_op (lift_op (validate_message_name (me_eval E) name)) (\<lambda>message_name.
     then_op (lift_op (message_ttl ttl_ms)) (\<lambda>ttl.
     then_op (lift_op (validate_message_value content)) (\<lambda>copied.
     guard_op ''message.content_invalid'' (length (utf8 (canonical_json (me_eval E) copied)) \<le> max_content_bytes) (
     then_op (resolve_recipients E (id_project who) recipients (id_trust who)) (\<lambda>rs.
     then_op (if batch_id \<noteq> [] then lift_op (validate_stable_id batch_id) else new_id E ''batch'') (\<lambda>batch.
     let fingerprint = batch_fingerprint E who rs message_name (canonical copied) ttl in
     then_op (now_ms E) (\<lambda>created.
     then_op (store_batch E who rs message_name (canonical copied) batch fingerprint created (created + ttl)) (\<lambda>result.
     if me_lan E = None then return_op result
     else then_op (flush_outbox E batch False) (\<lambda>_. transact E (read_result batch))))))))))))"

section \<open>Receiving\<close>

type_synonym party = "string \<times> string"

definition receive_filter :: "message_env \<Rightarrow> identity \<Rightarrow> pyval \<Rightarrow> pyval \<Rightarrow> (identity \<times> string \<times> party option) mop" where
  "receive_filter E ctx name sender =
     translate (
     then_op (require_identity E ctx) (\<lambda>who.
     then_op (lift_op (validate_message_name (me_eval E) name)) (\<lambda>message_name.
     if sender = PNone then return_op (who, message_name, None)
     else
       then_op (lift_op (reference_parts (me_eval E) sender)) (\<lambda>(host, inst).
       then_op (transact E read_db) (\<lambda>d.
       if find_instance d (id_project who) host inst = None then raise_op ''message.instance_unknown''
       else return_op (who, message_name, Some (host, inst)))))))"

definition addressed :: "identity \<Rightarrow> copy_row \<Rightarrow> bool" where
  "addressed who c \<longleftrightarrow> cp_project c = id_project who \<and> cp_host c = id_host who \<and> cp_instance c = id_instance who"

definition from_sender :: "party option \<Rightarrow> batch_row \<Rightarrow> bool" where
  "from_sender sender b \<longleftrightarrow> (case sender of None \<Rightarrow> True | Some p \<Rightarrow> (ba_host b, ba_sender b) = p)"

text \<open>The waiting copies of an instance with their rowids and batches, in queue order.\<close>

definition queue_rows :: "message_db \<Rightarrow> identity \<Rightarrow> (nat \<times> copy_row \<times> batch_row) list" where
  "queue_rows d who =
     concat (map (\<lambda>(n, c). case find_batch d (cp_batch c) of None \<Rightarrow> [] | Some b \<Rightarrow> [(n, c, b)])
       (filter (\<lambda>(n, c). addressed who c \<and> cp_status c = WaitingRead) (enumerate 1 (db_copies d))))"

definition receive_snapshot_cursor :: "message_env \<Rightarrow> identity \<Rightarrow> nat mop" where
  "receive_snapshot_cursor E ctx =
     translate (
     then_op (require_identity E ctx) (\<lambda>who.
     transact E (
       then_op (expire E (id_project who)) (\<lambda>_.
       then_op read_db (\<lambda>d.
       return_op (fold max (map fst (filter (\<lambda>(n, c). addressed who c \<and> cp_status c = WaitingRead)
         (enumerate 1 (db_copies d)))) 0))))))"

record received =
  rx_message :: string
  rx_batch :: string
  rx_name :: string
  rx_content :: pyval
  rx_sender :: pyval
  rx_sender_display :: string
  rx_created :: int
  rx_expires :: int
  rx_read_at :: "int option"

definition decoded_row :: "message_db \<Rightarrow> copy_row \<Rightarrow> batch_row \<Rightarrow> received mp" where
  "decoded_row d c b =
     (case validate_message_value (ba_content b) of
        Inl e \<Rightarrow> message_fail ''message.decode_failed''
      | Inr content \<Rightarrow>
          Inr \<lparr>rx_message = cp_message c, rx_batch = cp_batch c, rx_name = ba_name b, rx_content = content,
            rx_sender = reference (ba_host b) (ba_sender b),
            rx_sender_display = (case find_instance d (cp_project c) (ba_host b) (ba_sender b) of
               Some r \<Rightarrow> in_display r | None \<Rightarrow> ba_sender_display b),
            rx_created = cp_created c, rx_expires = cp_expires c, rx_read_at = None\<rparr>)"

definition max_candidates :: int where
  "max_candidates = 10000"

definition candidate_rows :: "message_db \<Rightarrow> identity \<Rightarrow> string \<Rightarrow> party option \<Rightarrow> int option \<Rightarrow> nat \<Rightarrow> (copy_row \<times> batch_row) list" where
  "candidate_rows d who name sender max_rowid limit =
     take limit (map snd (filter (\<lambda>(n, c, b). ba_name b = name \<and> from_sender sender b \<and>
         (case max_rowid of None \<Rightarrow> True | Some m \<Rightarrow> int n \<le> max 0 m)) (queue_rows d who)))"

text \<open>\<^verbatim>\<open>_peek_receive_candidates_prevalidated\<close>.\<close>

definition peek_candidates ::
  "message_env \<Rightarrow> identity \<Rightarrow> string \<Rightarrow> party option \<Rightarrow> int option \<Rightarrow> int \<Rightarrow> received list mop" where
  "peek_candidates E who name sender max_rowid limit =
     (let bounded = max 0 (min limit max_candidates) in
      if bounded = 0 then return_op []
      else translate (transact E (
        then_op (expire E (id_project who)) (\<lambda>_.
        then_op read_db (\<lambda>d.
        lift_op (rmap (\<lambda>(c, b). decoded_row d c b) (candidate_rows d who name sender max_rowid (nat bounded))))))))"

definition peek_receive_candidates ::
  "message_env \<Rightarrow> identity \<Rightarrow> pyval \<Rightarrow> pyval \<Rightarrow> int option \<Rightarrow> int \<Rightarrow> received list mop" where
  "peek_receive_candidates E ctx name sender max_rowid limit =
     then_op (receive_filter E ctx name sender) (\<lambda>(who, message_name, parts).
     peek_candidates E who message_name parts max_rowid limit)"

text \<open>
  \<^verbatim>\<open>_claim_receive_candidate_prevalidated\<close>: decode and acknowledge one message, or nothing. An
  \<^verbatim>\<open>UPDATE\<close> that hits another number of rows than one takes the transaction back.
\<close>

definition claim_row :: "message_db \<Rightarrow> identity \<Rightarrow> string \<Rightarrow> string option \<Rightarrow> party option \<Rightarrow> (copy_row \<times> batch_row) option" where
  "claim_row d who m name sender =
     map_option snd (find (\<lambda>(n, c, b). cp_message c = m \<and> (case name of None \<Rightarrow> True | Some t \<Rightarrow> ba_name b = t) \<and>
       from_sender sender b) (queue_rows d who))"

definition mark_read :: "string \<Rightarrow> int \<Rightarrow> message_db \<Rightarrow> message_db" where
  "mark_read m now = update_copies (\<lambda>c. cp_message c = m \<and> cp_status c = WaitingRead)
     (\<lambda>c. c\<lparr>cp_status := Read, cp_read_at := Some now\<rparr>)"

definition claim_body ::
  "message_env \<Rightarrow> identity \<Rightarrow> string \<Rightarrow> string option \<Rightarrow> party option \<Rightarrow> received option mop" where
  "claim_body E who m name sender =
     then_op read_db (\<lambda>start.
     then_op (expire E (id_project who)) (\<lambda>_.
     then_op read_db (\<lambda>d.
     case claim_row d who m name sender of
       None \<Rightarrow> return_op None
     | Some (c, b) \<Rightarrow>
         then_op (lift_op (decoded_row d c b)) (\<lambda>r.
         then_op (now_ms E) (\<lambda>read_at.
         if length (filter (\<lambda>x. cp_message x = m \<and> cp_status x = WaitingRead) (db_copies d)) \<noteq> 1
         then then_op (write_db start) (\<lambda>_. return_op None)
         else then_op (write_db (mark_read m read_at d)) (\<lambda>_.
           return_op (Some (r\<lparr>rx_read_at := Some read_at\<rparr>))))))))"

definition claim_candidate ::
  "message_env \<Rightarrow> identity \<Rightarrow> string \<Rightarrow> string option \<Rightarrow> party option \<Rightarrow> received option mop" where
  "claim_candidate E who message name sender =
     translate (
     then_op (lift_op (validate_stable_id message)) (\<lambda>m. transact E (claim_body E who m name sender)))"

definition claim_receive_candidate ::
  "message_env \<Rightarrow> identity \<Rightarrow> string \<Rightarrow> pyval option \<Rightarrow> pyval \<Rightarrow> received option mop" where
  "claim_receive_candidate E ctx message expected_name expected_sender =
     (case expected_name of
        None \<Rightarrow> then_op (require_identity E ctx) (\<lambda>who. claim_candidate E who message None None)
      | Some n \<Rightarrow> then_op (receive_filter E ctx n expected_sender) (\<lambda>(who, name, parts).
          claim_candidate E who message (Some name) parts))"

text \<open>
  One round of a waiting loop: the checkpoint, then the cancel request. The loops take fuel; a
  value of \<open>None\<close> is a loop that has not ended in that many rounds.
\<close>

definition next_round :: "message_env \<Rightarrow> unit mop" where
  "next_round E w =
     (let w' = w\<lparr>wd_rounds := Suc (wd_rounds w)\<rparr> in
      case me_checkpoint E (wd_rounds w) of
        Some e \<Rightarrow> (Inl e, w')
      | None \<Rightarrow> (if me_cancelled E (wd_rounds w) then message_fail ''runtime.cancelled'' else Inr (), w'))"

text \<open>A round either decides the loop or leaves it to the clock.\<close>

fun wait_loop :: "nat \<Rightarrow> message_env \<Rightarrow> ('a \<times> bool) mop \<Rightarrow> rat \<Rightarrow> world \<Rightarrow> ('a mp \<times> world) option" where
  "wait_loop 0 E body deadline w = None"
| "wait_loop (Suc n) E body deadline w =
     (case then_op (next_round E) (\<lambda>_. body) w of
        (Inl e, w') \<Rightarrow> Some (Inl e, w')
      | (Inr (result, done), w') \<Rightarrow>
          if done then Some (Inr result, w')
          else (case monotonic E w' of
             (Inl e, w'') \<Rightarrow> Some (Inl e, w'')
           | (Inr t, w'') \<Rightarrow> if deadline - t \<le> 0 then Some (Inr result, w'') else wait_loop n E body deadline w''))"

text \<open>A loop after its preparation, under \<^verbatim>\<open>_translate_sqlite_errors\<close>.\<close>

definition looped :: "'a mop \<Rightarrow> ('a \<Rightarrow> world \<Rightarrow> ('b mp \<times> world) option) \<Rightarrow> world \<Rightarrow> ('b mp \<times> world) option" where
  "looped prepare loop w =
     map_option (\<lambda>(r, w'). (translate_result r, w'))
       (case prepare w of (Inl e, w') \<Rightarrow> Some (Inl e, w') | (Inr x, w') \<Rightarrow> loop x w')"

definition deadline_after :: "message_env \<Rightarrow> int \<Rightarrow> rat mop" where
  "deadline_after E t = then_op (monotonic E) (\<lambda>now. return_op (now + of_int t / 1000))"

definition receive_round ::
  "message_env \<Rightarrow> identity \<Rightarrow> string \<Rightarrow> party option \<Rightarrow> (received option \<times> bool) mop" where
  "receive_round E who name parts =
     then_op (peek_candidates E who name parts None 1) (\<lambda>candidates.
     case candidates of
       [] \<Rightarrow> return_op (None, False)
     | r # _ \<Rightarrow>
         then_op (claim_candidate E who (rx_message r) (Some name) parts) (\<lambda>claimed.
         return_op (claimed, claimed \<noteq> None)))"

definition wait_receive ::
  "nat \<Rightarrow> message_env \<Rightarrow> identity \<Rightarrow> pyval \<Rightarrow> pyval \<Rightarrow> pyval \<Rightarrow> world \<Rightarrow> (received option mp \<times> world) option" where
  "wait_receive fuel E ctx name sender timeout_ms =
     looped
       (then_op (receive_filter E ctx name sender) (\<lambda>f.
        then_op (lift_op (timeout timeout_ms)) (\<lambda>t.
        then_op (deadline_after E t) (\<lambda>deadline. return_op (f, deadline)))))
       (\<lambda>((who, message_name, parts), deadline).
          wait_loop fuel E (receive_round E who message_name parts) deadline)"

section \<open>Waiting for readers and cancelling\<close>

text \<open>\<^verbatim>\<open>(batch or {}).get('batch_id')\<close> as a text.\<close>

definition batch_id_text :: "message_env \<Rightarrow> pyval \<Rightarrow> string mp" where
  "batch_id_text E v =
     (if \<not> py_truthy v then Inr []
      else case v of PDict fs \<Rightarrow> Inr (text_or_empty (me_eval E) (text_get fs ''batch_id''))
      | _ \<Rightarrow> Inl (PyError ''AttributeError''))"

definition require_batch_owner :: "message_env \<Rightarrow> identity \<Rightarrow> pyval \<Rightarrow> message_db \<Rightarrow> batch_row mp" where
  "require_batch_owner E who v d =
     (let batch = (case v of PDict fs \<Rightarrow> text_or_empty (me_eval E) (text_get fs ''batch_id'') | _ \<Rightarrow> []) in
      if batch = [] then message_fail ''message.batch_unknown''
      else case find_batch d batch of
        None \<Rightarrow> message_fail ''message.batch_unknown''
      | Some b \<Rightarrow>
          if ba_project b \<noteq> id_project who \<or> ba_host b \<noteq> id_host who \<or> ba_sender b \<noteq> id_instance who
          then message_fail ''message.batch_unknown'' else Inr b)"

datatype read_mode = ReadAll | ReadAny

record read_report =
  rr_batch :: string
  rr_mode :: read_mode
  rr_met :: bool
  rr_terminal :: bool
  rr_read :: "pyval list"
  rr_unread :: "pyval list"
  rr_expired :: "pyval list"
  rr_failed :: "pyval list"
  rr_cancelled :: "pyval list"

definition copy_reference :: "copy_row \<Rightarrow> pyval" where
  "copy_reference c = reference (cp_host c) (cp_instance c)"

definition wait_read_result :: "message_db \<Rightarrow> string \<Rightarrow> read_mode \<Rightarrow> read_report" where
  "wait_read_result d batch mode =
     (let rows = copies_of d batch;
          group = (\<lambda>s. map copy_reference (filter (\<lambda>c. cp_status c = s) rows));
          unread = map copy_reference (filter (\<lambda>c. cp_status c \<notin> {Read, Expired, Failed, Cancelled}) rows) in
      \<lparr>rr_batch = batch, rr_mode = mode,
       rr_met = (if mode = ReadAny then group Read \<noteq> [] else rows \<noteq> [] \<and> length (group Read) = length rows),
       rr_terminal = (unread = []), rr_read = group Read, rr_unread = unread, rr_expired = group Expired,
       rr_failed = group Failed, rr_cancelled = group Cancelled\<rparr>)"

definition read_mode_of :: "message_env \<Rightarrow> pyval \<Rightarrow> read_mode mp" where
  "read_mode_of E v =
     (let t = or_else (text_or_empty (me_eval E) (Some v)) ''all'' in
      if t = ''all'' then Inr ReadAll else if t = ''any'' then Inr ReadAny else content_invalid)"

definition read_round :: "message_env \<Rightarrow> identity \<Rightarrow> pyval \<Rightarrow> read_mode \<Rightarrow> (read_report \<times> bool) mop" where
  "read_round E who batch mode =
     then_op (if me_lan E = None then return_op ()
       else then_op (lift_op (batch_id_text E batch)) (\<lambda>b.
         then_op (flush_outbox E b False) (\<lambda>_. return_op ()))) (\<lambda>_.
     then_op (transact E (
       then_op read_db (\<lambda>d.
       then_op (lift_op (require_batch_owner E who batch d)) (\<lambda>b.
       then_op (expire E (id_project who)) (\<lambda>_.
       then_op read_db (\<lambda>d'. return_op (wait_read_result d' (ba_id b) mode)))))))
     (\<lambda>r. return_op (r, rr_met r \<or> rr_terminal r)))"

definition wait_read ::
  "nat \<Rightarrow> message_env \<Rightarrow> identity \<Rightarrow> pyval \<Rightarrow> pyval \<Rightarrow> pyval \<Rightarrow> world \<Rightarrow> (read_report mp \<times> world) option" where
  "wait_read fuel E ctx batch mode timeout_ms =
     looped
       (then_op (require_identity E ctx) (\<lambda>who.
        then_op (lift_op (read_mode_of E mode)) (\<lambda>m.
        then_op (lift_op (timeout timeout_ms)) (\<lambda>t.
        then_op (deadline_after E t) (\<lambda>deadline. return_op (who, m, deadline))))))
       (\<lambda>(who, m, deadline). wait_loop fuel E (read_round E who batch m) deadline)"

record cancel_report =
  xr_batch :: string
  xr_cancelled :: "pyval list"
  xr_not_cancelled :: "pyval list"
  xr_recipients :: "copy_report list"

definition selected :: "party option \<Rightarrow> copy_row \<Rightarrow> bool" where
  "selected p c \<longleftrightarrow> (case p of None \<Rightarrow> True | Some k \<Rightarrow> (cp_host c, cp_instance c) = k)"

text \<open>The two updates of \<^verbatim>\<open>cancel\<close>: unread copies on this host are cancelled at once, for waiting
  copies on other devices the request is noted.\<close>

definition cancel_local :: "string \<Rightarrow> party option \<Rightarrow> int \<Rightarrow> message_db \<Rightarrow> message_db" where
  "cancel_local b p now = update_copies
     (\<lambda>c. cp_batch c = b \<and> cp_status c = WaitingRead \<and> cp_transport c = Local \<and> selected p c)
     (\<lambda>c. c\<lparr>cp_status := Cancelled, cp_cancelled_at := Some now\<rparr>)"

definition request_cancel :: "string \<Rightarrow> party option \<Rightarrow> int \<Rightarrow> message_db \<Rightarrow> message_db" where
  "request_cancel b p now = update_copies
     (\<lambda>c. cp_batch c = b \<and> waiting (cp_status c) \<and> cp_transport c = Lan \<and> selected p c)
     (\<lambda>c. c\<lparr>cp_cancel_requested := Some now\<rparr>)"

definition cancel_result :: "string \<Rightarrow> copy_row list \<Rightarrow> cancel_report" where
  "cancel_result b rows =
     \<lparr>xr_batch = b, xr_cancelled = map copy_reference (filter (\<lambda>c. cp_status c = Cancelled) rows),
      xr_not_cancelled = map copy_reference (filter (\<lambda>c. cp_status c \<noteq> Cancelled) rows),
      xr_recipients = map copy_result rows\<rparr>"

definition cancel_batch :: "message_env \<Rightarrow> identity \<Rightarrow> pyval \<Rightarrow> party option \<Rightarrow> (string \<times> copy_row list) mop" where
  "cancel_batch E who batch parts =
     transact E (
       then_op read_db (\<lambda>d0.
       then_op (lift_op (require_batch_owner E who batch d0)) (\<lambda>b.
       then_op (expire E (id_project who)) (\<lambda>_.
       then_op (now_ms E) (\<lambda>t1.
       then_op read_db (\<lambda>d1.
       then_op (write_db (cancel_local (ba_id b) parts t1 d1)) (\<lambda>_.
       then_op (now_ms E) (\<lambda>t2.
       then_op read_db (\<lambda>d2.
       then_op (write_db (request_cancel (ba_id b) parts t2 d2)) (\<lambda>_.
       then_op read_db (\<lambda>d3.
       let rows = filter (selected parts) (copies_of d3 (ba_id b)) in
       if parts \<noteq> None \<and> rows = [] then raise_op ''message.instance_unknown''
       else return_op (ba_id b, rows))))))))))))"

definition cancel :: "message_env \<Rightarrow> identity \<Rightarrow> pyval \<Rightarrow> pyval \<Rightarrow> cancel_report mop" where
  "cancel E ctx batch recipient =
     translate (
     then_op (require_identity E ctx) (\<lambda>who.
     then_op (lift_op (if recipient = PNone then Inr None
        else rbind (reference_parts (me_eval E) recipient) (\<lambda>p. Inr (Some p)))) (\<lambda>parts.
     then_op (cancel_batch E who batch parts) (\<lambda>(b, rows).
     if me_lan E = None then return_op (cancel_result b rows)
     else then_op (flush_outbox E b True) (\<lambda>_.
       then_op (transact E read_db) (\<lambda>d. return_op (cancel_result b (filter (selected parts) (copies_of d b)))))))))"

section \<open>Dispatch\<close>

datatype message_value =
    Sent batch_report | Received "received option" | ReadState read_report | CancelState cancel_report

definition message_argument :: "pydict \<Rightarrow> string \<Rightarrow> string \<Rightarrow> string \<Rightarrow> pyval \<Rightarrow> pyval" where
  "message_argument args function_id name fallback otherwise =
     (case text_get args (function_id @ ''.parameter.'' @ name) of
        Some v \<Rightarrow> v
      | None \<Rightarrow> (case text_get args fallback of Some v \<Rightarrow> v | None \<Rightarrow> otherwise))"

definition ended :: "('a \<Rightarrow> 'b) \<Rightarrow> ('a mp \<times> world) option \<Rightarrow> ('b mp \<times> world) option" where
  "ended f r = map_option (\<lambda>(x, w'). (rbind x (\<lambda>v. Inr (f v)), w')) r"

text \<open>
  \<^verbatim>\<open>execute\<close>. The names of the legacy arguments are a parameter; the summary for the log is left
  out.
\<close>

definition execute ::
  "nat \<Rightarrow> message_env \<Rightarrow> (string \<Rightarrow> string) \<Rightarrow> string \<Rightarrow> string \<Rightarrow> pydict \<Rightarrow> identity \<Rightarrow> world \<Rightarrow> (message_value mp \<times> world) option" where
  "execute fuel E legacy opcode function_id args ctx w =
     (let arg = (\<lambda>n. message_argument args function_id n (legacy n)) in
      if opcode = ''message.send''
      then ended Sent (Some (send E ctx (arg ''recipients'' PNone) (arg ''name'' PNone) (arg ''content'' PNone)
             (arg ''ttl'' (PInt 300000)) [] w))
      else if opcode = ''message.wait_receive''
      then ended Received (wait_receive fuel E ctx (arg ''name'' PNone) (arg ''sender'' PNone) (arg ''timeout'' (PInt 60000)) w)
      else if opcode = ''message.wait_read''
      then ended ReadState (wait_read fuel E ctx (arg ''batch'' PNone) (arg ''mode'' (PStr ''all'')) (arg ''timeout'' (PInt 60000)) w)
      else if opcode = ''message.cancel''
      then ended CancelState (Some (cancel E ctx (arg ''batch'' PNone) (arg ''recipient'' PNone) w))
      else Some (message_fail ''message.transport_unavailable'', w))"

text \<open>\<^verbatim>\<open>diagnostic_snapshot\<close>: where every message of a project is, without names and contents.\<close>

definition diagnostic_snapshot :: "message_env \<Rightarrow> string \<Rightarrow> (copy_row \<times> string \<times> string) list mop" where
  "diagnostic_snapshot E project_namespace =
     translate (
     then_op (lift_op (validate_project_namespace project_namespace)) (\<lambda>project.
     then_op (transact E (expire E project)) (\<lambda>_.
     then_op (transact E read_db) (\<lambda>d.
     return_op (concat (map (\<lambda>c. case find_batch d (cp_batch c) of None \<Rightarrow> []
         | Some b \<Rightarrow> [(c, ba_host b, ba_sender b)]) (filter (\<lambda>c. cp_project c = project) (db_copies d))))))))"

end
