(* ===== verification/Message_Laws.thy ===== *)
theory Message_Laws
  imports Message_Operations
begin

text \<open>
  What every operation on the message database keeps, whoever else works on it: the keys stay
  unique, every copy has its batch, copies and batches are never lost, and the copy of a message
  on the device of its reader never leaves a final status. The argument is one of rely and
  guarantee: an operation may rely on the other processes changing the database only in this way
  between its transactions, and changes it only in this way itself.
\<close>

section \<open>The invariant\<close>

definition copy_ok :: "copy_row \<Rightarrow> bool" where
  "copy_ok c \<longleftrightarrow> cp_transport c \<noteq> Lan \<longrightarrow>
     cp_status c \<noteq> WaitingSend \<and> (cp_status c = Read \<longleftrightarrow> cp_read_at c \<noteq> None)"

definition db_ok :: "message_db \<Rightarrow> bool" where
  "db_ok d \<longleftrightarrow>
     instances_unique (db_instances d) \<and>
     distinct (map ba_id (db_batches d)) \<and>
     distinct (map cp_message (db_copies d)) \<and>
     distinct (map recipient_key (db_copies d)) \<and>
     cp_batch ` set (db_copies d) \<subseteq> ba_id ` set (db_batches d) \<and>
     (\<forall>c \<in> set (db_copies d). copy_ok c)"

text \<open>How a copy may change: only its host, its status and the columns about its delivery, and a
  copy for this device only from waiting to a final status.\<close>

definition copy_moves :: "copy_row \<Rightarrow> copy_row \<Rightarrow> bool" where
  "copy_moves c c' \<longleftrightarrow>
     cp_message c' = cp_message c \<and> cp_batch c' = cp_batch c \<and> cp_project c' = cp_project c \<and>
     cp_instance c' = cp_instance c \<and> cp_display c' = cp_display c \<and> cp_created c' = cp_created c \<and>
     cp_expires c' = cp_expires c \<and> cp_transport c' = cp_transport c \<and>
     (cp_transport c \<noteq> Lan \<and> \<not> waiting (cp_status c) \<longrightarrow>
        cp_status c' = cp_status c \<and> cp_read_at c' = cp_read_at c \<and> cp_cancelled_at c' = cp_cancelled_at c)"

definition batch_moves :: "batch_row \<Rightarrow> batch_row \<Rightarrow> bool" where
  "batch_moves b b' \<longleftrightarrow> b'\<lparr>ba_host := ba_host b\<rparr> = b"

definition extends :: "('a \<Rightarrow> 'a \<Rightarrow> bool) \<Rightarrow> 'a list \<Rightarrow> 'a list \<Rightarrow> bool" where
  "extends R xs ys \<longleftrightarrow> (\<exists>us vs. ys = us @ vs \<and> list_all2 R xs us)"

definition evolves :: "message_db \<Rightarrow> message_db \<Rightarrow> bool" where
  "evolves d d' \<longleftrightarrow> extends copy_moves (db_copies d) (db_copies d') \<and> extends batch_moves (db_batches d) (db_batches d')"

definition good :: "message_db \<Rightarrow> message_db \<Rightarrow> bool" where
  "good d d' \<longleftrightarrow> (db_ok d \<longrightarrow> db_ok d') \<and> evolves d d'"

lemma copy_moves_refl [simp]: "copy_moves c c"
  by (simp add: copy_moves_def)

lemma copy_moves_trans: "copy_moves a b \<Longrightarrow> copy_moves b c \<Longrightarrow> copy_moves a c"
  by (auto simp: copy_moves_def)

lemma batch_moves_refl [simp]: "batch_moves b b"
  by (simp add: batch_moves_def)

lemma batch_moves_trans: "batch_moves a b \<Longrightarrow> batch_moves b c \<Longrightarrow> batch_moves a c"
proof -
  assume ab: "batch_moves a b" and bc: "batch_moves b c"
  have "c\<lparr>ba_host := ba_host a\<rparr> = c\<lparr>ba_host := ba_host b\<rparr>\<lparr>ba_host := ba_host a\<rparr>" by simp
  also have "\<dots> = b\<lparr>ba_host := ba_host a\<rparr>" using bc by (simp only: batch_moves_def)
  also have "\<dots> = a" using ab by (simp only: batch_moves_def)
  finally show ?thesis by (simp only: batch_moves_def)
qed

lemma extends_refl: "(\<And>x. R x x) \<Longrightarrow> extends R xs xs"
  unfolding extends_def by (intro exI [of _ xs] exI [of _ "[]"]) (simp add: list.rel_refl)

lemma extends_trans:
  assumes "\<And>x y z. R x y \<Longrightarrow> R y z \<Longrightarrow> R x z" and "extends R xs ys" and "extends R ys zs"
  shows "extends R xs zs"
proof -
  obtain us vs where ys: "ys = us @ vs" and xu: "list_all2 R xs us" using assms(2) by (auto simp: extends_def)
  obtain us' vs' where zs: "zs = us' @ vs'" and yu: "list_all2 R ys us'" using assms(3) by (auto simp: extends_def)
  obtain p q where p: "us' = p @ q" "list_all2 R us p" using yu ys by (auto simp: list_all2_append1)
  have "list_all2 R xs p" by (rule list_all2_trans [OF _ xu p(2)]) (rule assms(1))
  with p(1) show ?thesis using zs unfolding extends_def by (intro exI [of _ p] exI [of _ "q @ vs'"]) simp
qed

lemma extends_map: "(\<And>x. x \<in> set xs \<Longrightarrow> R x (f x)) \<Longrightarrow> extends R xs (map f xs)"
  unfolding extends_def by (intro exI [of _ "map f xs"] exI [of _ "[]"]) (simp add: list_all2_map2 list.rel_refl_strong)

lemma extends_append: "(\<And>x. R x x) \<Longrightarrow> extends R xs (xs @ ys)"
  unfolding extends_def by (intro exI [of _ xs] exI [of _ ys]) (simp add: list.rel_refl)

lemma extends_member:
  assumes "extends R xs ys" "x \<in> set xs"
  shows "\<exists>y \<in> set ys. R x y"
proof -
  obtain us vs where ys: "ys = us @ vs" and xu: "list_all2 R xs us" using assms(1) by (auto simp: extends_def)
  obtain i where i: "i < length xs" "x = xs ! i" using assms(2) by (auto simp: in_set_conv_nth)
  then have "R x (us ! i)" "us ! i \<in> set us" using xu by (auto simp: list_all2_conv_all_nth)
  then show ?thesis using ys by auto
qed

lemma evolves_refl [simp]: "evolves d d"
  by (simp add: evolves_def extends_refl)

lemma evolves_trans: "evolves a b \<Longrightarrow> evolves b c \<Longrightarrow> evolves a c"
  unfolding evolves_def by (meson copy_moves_trans batch_moves_trans extends_trans)

lemma good_refl [simp]: "good d d"
  by (simp add: good_def)

lemma good_trans: "good a b \<Longrightarrow> good b c \<Longrightarrow> good a c"
  unfolding good_def using evolves_trans by blast

section \<open>Changes of the database\<close>

lemma update_copies_fields [simp]:
  "db_host (update_copies p f d) = db_host d" "db_instances (update_copies p f d) = db_instances d"
  "db_batches (update_copies p f d) = db_batches d"
  "db_copies (update_copies p f d) = map (\<lambda>c. if p c then f c else c) (db_copies d)"
  by (simp_all add: update_copies_def)

text \<open>An update of copies is good when it is good for every copy it hits.\<close>

lemma good_update_copies:
  assumes "\<And>c. p c \<Longrightarrow> copy_moves c (f c) \<and> cp_host (f c) = cp_host c \<and> (copy_ok c \<longrightarrow> copy_ok (f c))"
  shows "good d (update_copies p f d)"
proof -
  let ?g = "\<lambda>c. if p c then f c else c"
  have same: "cp_message \<circ> ?g = cp_message" "recipient_key \<circ> ?g = recipient_key" "cp_batch \<circ> ?g = cp_batch"
    using assms by (auto simp: fun_eq_iff copy_moves_def recipient_key_def)
  have "cp_batch ` set (map ?g cs) = cp_batch ` set cs" for cs
    using same(3) by (metis list.map_comp list.set_map)
  then have "db_ok d \<Longrightarrow> db_ok (update_copies p f d)"
    using assms unfolding db_ok_def by (simp add: same del: set_map) auto
  moreover have "evolves d (update_copies p f d)"
    using assms by (auto simp: evolves_def intro!: extends_map extends_refl)
  ultimately show ?thesis by (simp add: good_def)
qed

lemma good_expire: "good d (expire_copies now project d)"
  unfolding expire_copies_def by (rule good_update_copies) (auto simp: copy_moves_def copy_ok_def waiting_def)

lemma good_mark_read: "good d (mark_read m now d)"
  unfolding mark_read_def by (rule good_update_copies) (auto simp: copy_moves_def copy_ok_def waiting_def)

lemma good_cancel_local: "good d (cancel_local b p now d)"
  unfolding cancel_local_def by (rule good_update_copies) (auto simp: copy_moves_def copy_ok_def waiting_def)

lemma good_request_cancel: "good d (request_cancel b p now d)"
  unfolding request_cancel_def by (rule good_update_copies) (auto simp: copy_moves_def copy_ok_def waiting_def)

lemma instances_unique_update:
  assumes "\<And>r. p r \<Longrightarrow> instance_key (f r) = instance_key r \<and> in_endpoint (f r) = in_endpoint r \<and> in_display_key (f r) = in_display_key r"
  shows "instances_unique (db_instances (update_instances p f d)) = instances_unique (db_instances d)"
proof -
  let ?g = "\<lambda>r. if p r then f r else r"
  have key: "instance_key (?g r) = instance_key r" "in_endpoint (?g r) = in_endpoint r" "in_display_key (?g r) = in_display_key r" for r
    using assms [of r] by auto
  have "instance_key \<circ> ?g = instance_key" "(\<lambda>r. (in_host r, in_id r)) \<circ> ?g = (\<lambda>r. (in_host r, in_id r))"
    "(\<lambda>r. (in_project r, in_host r, in_endpoint r)) \<circ> ?g = (\<lambda>r. (in_project r, in_host r, in_endpoint r))"
    "(\<lambda>r. (in_project r, in_display_key r)) \<circ> ?g = (\<lambda>r. (in_project r, in_display_key r))"
    using key unfolding fun_eq_iff o_def instance_key_def prod.inject by blast+
  then show ?thesis by (simp add: instances_unique_def update_instances_def)
qed

lemma good_instances: "db_copies d' = db_copies d \<Longrightarrow> db_batches d' = db_batches d \<Longrightarrow>
    (instances_unique (db_instances d) \<longrightarrow> instances_unique (db_instances d')) \<Longrightarrow> good d d'"
  by (auto simp: good_def db_ok_def evolves_def intro!: extends_refl)

lemma good_host: "good d (d\<lparr>db_host := h\<rparr>)"
  by (rule good_instances) simp_all

lemma good_rehost: "rehost old new d = Inr d' \<Longrightarrow> good d d'"
proof -
  assume r: "rehost old new d = Inr d'"
  then have d': "d' = d\<lparr>db_host := Some new, db_instances := map (rehost_instance old new) (db_instances d),
        db_batches := map (rehost_batch old new) (db_batches d), db_copies := map (rehost_copy old new) (db_copies d)\<rparr>"
    and u: "instances_unique (map (rehost_instance old new) (db_instances d))"
      "distinct (map recipient_key (map (rehost_copy old new) (db_copies d)))"
    by (auto simp: rehost_def Let_def split: if_splits)
  have same: "ba_id (rehost_batch old new b) = ba_id b" "cp_message (rehost_copy old new c) = cp_message c"
    "cp_batch (rehost_copy old new c) = cp_batch c" "copy_ok (rehost_copy old new c) = copy_ok c" for b c
    by (auto simp: rehost_batch_def rehost_copy_def copy_ok_def)
  have "db_ok d \<Longrightarrow> db_ok d'" using u by (simp add: db_ok_def d' same o_def image_image)
  moreover have "evolves d d'"
    by (auto simp: evolves_def d' rehost_copy_def rehost_batch_def copy_moves_def batch_moves_def intro!: extends_map)
  ultimately show ?thesis by (simp add: good_def)
qed

lemma find_batch_None: "find_batch d b = None \<longleftrightarrow> b \<notin> ba_id ` set (db_batches d)"
  by (auto simp: find_batch_def find_None_iff)

lemma find_copy_None: "find_copy d m = None \<longleftrightarrow> m \<notin> cp_message ` set (db_copies d)"
  by (auto simp: find_copy_def find_None_iff)

lemma good_new_batch:
  assumes "find_batch d (ba_id b) = None"
  shows "good d (d\<lparr>db_batches := db_batches d @ [b]\<rparr>)"
proof -
  have "evolves d (d\<lparr>db_batches := db_batches d @ [b]\<rparr>)" by (simp add: evolves_def extends_refl extends_append)
  moreover have "db_ok d \<Longrightarrow> db_ok (d\<lparr>db_batches := db_batches d @ [b]\<rparr>)"
    using assms unfolding find_batch_None by (simp add: db_ok_def subset_insertI2)
  ultimately show ?thesis by (simp add: good_def)
qed

lemma good_insert_copy:
  assumes "insert_copy c d = Inr d'" "copy_ok c" "cp_batch c \<in> ba_id ` set (db_batches d)"
  shows "good d d'"
proof -
  have d': "d' = d\<lparr>db_copies := db_copies d @ [c]\<rparr>" and new: "cp_message c \<notin> cp_message ` set (db_copies d)"
    "recipient_key c \<notin> recipient_key ` set (db_copies d)"
    using assms(1) by (auto simp: insert_copy_def find_copy_None split: if_splits)
  have "evolves d d'" by (simp add: d' evolves_def extends_refl extends_append)
  moreover have "db_ok d \<Longrightarrow> db_ok d'" using new assms(2,3) by (simp add: d' db_ok_def)
  ultimately show ?thesis by (simp add: good_def)
qed

lemma good_insert_copies:
  assumes "insert_copies cs d = Inr d'" "\<forall>c \<in> set cs. copy_ok c \<and> cp_batch c \<in> ba_id ` set (db_batches d)"
  shows "good d d' \<and> db_batches d' = db_batches d"
  using assms
proof (induction cs arbitrary: d)
  case (Cons c cs)
  obtain d1 where d1: "insert_copy c d = Inr d1" "insert_copies cs d1 = Inr d'"
    using Cons.prems(1) by (auto simp: rbind_Inr_iff)
  have "db_batches d1 = db_batches d" using d1(1) by (auto simp: insert_copy_def split: if_splits)
  with Cons.IH [OF d1(2)] Cons.prems(2) have "good d1 d' \<and> db_batches d' = db_batches d" by simp
  moreover have "good d d1" using good_insert_copy [OF d1(1)] Cons.prems(2) by simp
  ultimately show ?case using good_trans by blast
qed simp

section \<open>Operations that keep the database\<close>

definition sane :: "message_env \<Rightarrow> bool" where
  "sane E \<longleftrightarrow> (\<forall>k d. good d (me_others E k d))"

definition kept :: "world \<Rightarrow> world \<Rightarrow> bool" where
  "kept w w' \<longleftrightarrow> good (wd_db w) (wd_db w')"

definition keeps :: "'a mop \<Rightarrow> bool" where
  "keeps m \<longleftrightarrow> (\<forall>w. kept w (snd (m w)))"

definition keeps_from :: "message_db \<Rightarrow> 'a mop \<Rightarrow> bool" where
  "keeps_from d m \<longleftrightarrow> (\<forall>w. wd_db w = d \<longrightarrow> kept w (snd (m w)))"

definition silent :: "'a mop \<Rightarrow> bool" where
  "silent m \<longleftrightarrow> (\<forall>w. wd_db (snd (m w)) = wd_db w)"

named_theorems keeps_intros \<open>operations that keep the database\<close>

lemma kept_trans: "kept a b \<Longrightarrow> kept b c \<Longrightarrow> kept a c"
  unfolding kept_def by (rule good_trans)

lemma kept_same [simp]: "wd_db w' = wd_db w \<Longrightarrow> kept w w'"
  by (simp add: kept_def)

lemma keeps_silent: "silent m \<Longrightarrow> keeps m"
  by (simp add: silent_def keeps_def)

lemma silent_ops [simp]:
  "silent (return_op x)" "silent (lift_op r)" "silent (raise_op i)" "silent (now_ms E)" "silent (monotonic E)"
  "silent (new_id E p)" "silent read_db"
  by (simp_all add: silent_def return_op_def lift_op_def raise_op_def now_ms_def monotonic_def new_id_def read_db_def)

lemma keeps_basic [keeps_intros]:
  "keeps (return_op x)" "keeps (lift_op r)" "keeps (raise_op i)" "keeps (now_ms E)" "keeps (monotonic E)"
  "keeps (new_id E p)" "keeps read_db"
  by (simp_all add: keeps_silent)

lemma keeps_then: "keeps m \<Longrightarrow> (\<And>x. keeps (f x)) \<Longrightarrow> keeps (then_op m f)"
  unfolding keeps_def then_op_def by (auto split: prod.splits sum.splits) (metis kept_trans snd_conv)+

lemma keeps_cases [keeps_intros]:
  "\<And>b m n. (b \<Longrightarrow> keeps m) \<Longrightarrow> (\<not> b \<Longrightarrow> keeps n) \<Longrightarrow> keeps (if b then m else n)"
  "\<And>x m f. (x = None \<Longrightarrow> keeps m) \<Longrightarrow> (\<And>y. x = Some y \<Longrightarrow> keeps (f y)) \<Longrightarrow> keeps (case x of None \<Rightarrow> m | Some y \<Rightarrow> f y)"
  "\<And>p g. (\<And>a b. p = (a, b) \<Longrightarrow> keeps (g a b)) \<Longrightarrow> keeps (case p of (a, b) \<Rightarrow> g a b)"
  "\<And>xs m h. (xs = [] \<Longrightarrow> keeps m) \<Longrightarrow> (\<And>y ys. xs = y # ys \<Longrightarrow> keeps (h y ys)) \<Longrightarrow> keeps (case xs of [] \<Rightarrow> m | y # ys \<Rightarrow> h y ys)"
  by (simp_all split: option.split prod.split list.split)

lemma keeps_from_cases [keeps_intros]:
  "\<And>b m n. (b \<Longrightarrow> keeps_from d m) \<Longrightarrow> (\<not> b \<Longrightarrow> keeps_from d n) \<Longrightarrow> keeps_from d (if b then m else n)"
  "\<And>x m f. (x = None \<Longrightarrow> keeps_from d m) \<Longrightarrow> (\<And>y. x = Some y \<Longrightarrow> keeps_from d (f y)) \<Longrightarrow>
     keeps_from d (case x of None \<Rightarrow> m | Some y \<Rightarrow> f y)"
  "\<And>p g. (\<And>a b. p = (a, b) \<Longrightarrow> keeps_from d (g a b)) \<Longrightarrow> keeps_from d (case p of (a, b) \<Rightarrow> g a b)"
  by (simp_all split: option.split prod.split)

lemma snd_wrapped [simp]: "snd (translate m w) = snd (m w)" "snd (lan_error m w) = snd (m w)"
  by (auto simp: translate_def lan_error_def split: prod.split sum.split message_failure.split)

lemma keeps_translate [keeps_intros]: "keeps m \<Longrightarrow> keeps (translate m)"
  by (simp add: keeps_def)

lemma keeps_lan_error [keeps_intros]: "keeps m \<Longrightarrow> keeps (lan_error m)"
  by (simp add: keeps_def)

lemma keeps_guard [keeps_intros]: "keeps m \<Longrightarrow> keeps (guard_op i b m)"
  by (simp add: guard_op_def keeps_intros)

lemma keeps_read [keeps_intros]: "(\<And>d. keeps_from d (f d)) \<Longrightarrow> keeps (then_op read_db f)"
  by (simp add: keeps_def keeps_from_def then_op_def read_db_def)

lemma keeps_from_any: "keeps m \<Longrightarrow> keeps_from d m"
  by (simp add: keeps_def keeps_from_def)

lemma keeps_from_read [keeps_intros]: "keeps_from d (f d) \<Longrightarrow> keeps_from d (then_op read_db f)"
  by (simp add: keeps_from_def then_op_def read_db_def)

lemma keeps_from_write [keeps_intros]:
  "good d d' \<Longrightarrow> keeps_from d (write_db d')"
  "good d d' \<Longrightarrow> (\<And>x. keeps (f x)) \<Longrightarrow> keeps_from d (then_op (write_db d') f)"
proof -
  assume g: "good d d'"
  then have step: "kept w (w\<lparr>wd_db := d'\<rparr>)" if "wd_db w = d" for w using that by (simp add: kept_def)
  then show "keeps_from d (write_db d')" by (simp add: keeps_from_def write_db_def)
  assume "\<And>x. keeps (f x)"
  then have "kept w (snd (f () (w\<lparr>wd_db := d'\<rparr>)))" if "wd_db w = d" for w
    using kept_trans [OF step [OF that]] by (simp add: keeps_def)
  then show "keeps_from d (then_op (write_db d') f)" by (simp add: keeps_from_def then_op_def write_db_def)
qed

lemma keeps_from_silent: "silent m \<Longrightarrow> (\<And>x. keeps_from d (f x)) \<Longrightarrow> keeps_from d (then_op m f)"
  unfolding keeps_from_def then_op_def silent_def
  by (auto split: prod.splits sum.splits) (metis kept_def kept_same snd_conv)+

lemma keeps_from_lift [keeps_intros]: "(\<And>x. r = Inr x \<Longrightarrow> keeps_from d (f x)) \<Longrightarrow> keeps_from d (then_op (lift_op r) f)"
  by (cases r) (simp_all add: keeps_from_any keeps_intros)

lemma keeps_from_clock [keeps_intros]:
  "(\<And>x. keeps_from d (f x)) \<Longrightarrow> keeps_from d (then_op (now_ms E) f)"
  "(\<And>x. keeps_from d (g x)) \<Longrightarrow> keeps_from d (then_op (new_id E p) g)"
  "(\<And>x. keeps_from d (g x)) \<Longrightarrow> keeps_from d (then_op (if b then return_op y else new_id E p) g)"
  by (rule keeps_from_silent; simp)+

lemma keeps_from_basic [keeps_intros]:
  "keeps_from d (return_op x)" "keeps_from d (lift_op r)" "keeps_from d (raise_op i)"
  by (simp_all add: keeps_from_any keeps_intros)

text \<open>A transaction keeps what its body keeps, or leaves the database alone.\<close>

lemma keeps_transact [keeps_intros]:
  assumes "sane E" "keeps m"
  shows "keeps (transact E m)"
proof -
  have "kept w (snd (transact E m w))" for w
  proof -
    define w1 where "w1 = w\<lparr>wd_db := me_others E (wd_transactions w) (wd_db w), wd_transactions := Suc (wd_transactions w)\<rparr>"
    have start: "kept w w1" using assms(1) by (simp add: w1_def kept_def sane_def)
    have "kept w1 (snd (m w1))" using assms(2) by (simp add: keeps_def)
    with start have "kept w (snd (m w1))" by (rule kept_trans)
    moreover have "kept w w2" if "wd_db w2 = wd_db w1" for w2 using start that by (simp add: kept_def)
    ultimately show ?thesis
      unfolding transact_def Let_def w1_def [symmetric] by (auto split: option.splits prod.splits sum.splits)
  qed
  then show ?thesis by (simp add: keeps_def)
qed

lemma keeps_from_then: "keeps m \<Longrightarrow> (\<And>x. keeps (f x)) \<Longrightarrow> keeps_from d (then_op m f)"
  by (rule keeps_from_any) (rule keeps_then)

declare keeps_then [keeps_intros] keeps_from_then [keeps_intros]

lemma keeps_expire [keeps_intros]: "keeps (expire E p)"
  unfolding expire_def by (intro keeps_intros good_expire)

section \<open>Identities\<close>

lemma keeps_host_id [keeps_intros]: "sane E \<Longrightarrow> keeps (host_id E)"
  unfolding host_id_def Let_def by (intro keeps_intros good_host) (auto intro: good_rehost)

lemma good_seen: "good d (update_instances p (\<lambda>r. r\<lparr>in_seen := now\<rparr>) d)"
proof (rule good_instances)
  show "instances_unique (db_instances d) \<longrightarrow> instances_unique (db_instances (update_instances p (\<lambda>r. r\<lparr>in_seen := now\<rparr>) d))"
    by (subst instances_unique_update) (simp_all add: instance_key_def)
qed (simp_all add: update_instances_def)

lemma keeps_register_instance [keeps_intros]: "sane E \<Longrightarrow> keeps (register_instance E p n i k e t)"
  unfolding register_instance_def Let_def
  by (intro keeps_intros good_seen) (auto intro: good_instances)

lemma keeps_rename_instance [keeps_intros]: "sane E \<Longrightarrow> keeps (rename_instance E p i n)"
  unfolding rename_instance_def Let_def
  by (intro keeps_intros) (auto intro!: good_instances simp: update_instances_def)

lemma keeps_list_instances [keeps_intros]: "sane E \<Longrightarrow> keeps (list_instances E p)"
  unfolding list_instances_def by (intro keeps_intros)

lemma keeps_catalog_instances [keeps_intros]: "sane E \<Longrightarrow> keeps (catalog_instances E)"
  unfolding catalog_instances_def by (intro keeps_intros)

lemma keeps_instance_context [keeps_intros]: "sane E \<Longrightarrow> keeps (instance_context E p i n e)"
  unfolding instance_context_def Let_def by (intro keeps_intros good_seen)

lemma keeps_require_identity [keeps_intros]: "sane E \<Longrightarrow> keeps (require_identity E c)"
  unfolding require_identity_def by (intro keeps_intros)

section \<open>Messages\<close>

lemma keeps_resolve [keeps_intros]:
  "sane E \<Longrightarrow> keeps (local_recipient E p t h i)" "keeps (remote_recipient E p h i)"
  unfolding local_recipient_def remote_recipient_def by (intro keeps_intros, assumption) (simp add: keeps_intros split: option.split)

lemma keeps_resolve_all [keeps_intros]: "sane E \<Longrightarrow> keeps (resolve_all E p t h seen vs)"
  by (induction vs arbitrary: seen) (auto intro!: keeps_intros)

lemma keeps_resolve_recipients [keeps_intros]: "sane E \<Longrightarrow> keeps (resolve_recipients E p v t)"
  unfolding resolve_recipients_def by (cases v) (auto intro!: keeps_intros)

lemma keeps_read_result [keeps_intros]: "keeps (read_result b)"
  unfolding read_result_def by (intro keeps_intros)

lemma copies_for_row: "c \<in> set (copies_for who b created expires rs) \<Longrightarrow> copy_ok c \<and> cp_batch c = b"
  by (auto simp: copies_for_def new_copy_def copy_ok_def split: if_splits)

lemma good_send:
  assumes "find_batch d b = None"
    and "insert_copies (copies_for who b created expires rs)
      (d\<lparr>db_batches := db_batches d @ [batch_of E who b name content created expires fp]\<rparr>) = Inr d'"
  shows "good d d'"
proof -
  let ?b = "batch_of E who b name content created expires fp"
  have "good d (d\<lparr>db_batches := db_batches d @ [?b]\<rparr>)" using assms(1) by (intro good_new_batch) (simp add: batch_of_def)
  moreover have "good (d\<lparr>db_batches := db_batches d @ [?b]\<rparr>) d'"
    using good_insert_copies [OF assms(2)] copies_for_row by (auto simp: batch_of_def)
  ultimately show ?thesis by (rule good_trans)
qed

lemma keeps_store_batch [keeps_intros]: "sane E \<Longrightarrow> keeps (store_batch E who rs name content b fp created expires)"
  unfolding store_batch_def by (intro keeps_intros) (auto intro: good_send)


lemma good_offer:
  assumes "rbind (offer_batch E f d) (offer_copy f now display) = Inr d'"
  shows "good d d'"
proof -
  obtain d1 where d1: "offer_batch E f d = Inr d1" "offer_copy f now display d1 = Inr d'"
    using assms by (auto simp: rbind_Inr_iff)
  have b: "good d d1 \<and> of_batch f \<in> ba_id ` set (db_batches d1)"
    using d1(1) find_batch_None [of d "of_batch f"]
    by (auto simp: offer_batch_def message_fail_def intro!: good_new_batch split: option.splits if_splits)
  moreover have "good d1 d'"
    using d1(2) b unfolding offer_copy_def
    by (auto simp: message_fail_def new_copy_def copy_ok_def elim!: good_insert_copy split: option.splits if_splits)
  ultimately show ?thesis using good_trans by blast
qed

lemma keeps_copy_status_of [keeps_intros]: "keeps (copy_status_of m)"
  unfolding copy_status_of_def by (intro keeps_intros)

lemma keeps_check_offer [keeps_intros]: "sane E \<Longrightarrow> keeps (check_offer E peer p)"
  unfolding check_offer_def Let_def by (intro keeps_intros)

lemma keeps_handle_lan_offer [keeps_intros]: "sane E \<Longrightarrow> keeps (handle_lan_offer E peer p)"
  unfolding handle_lan_offer_def by (intro keeps_intros) (auto intro: good_offer)

lemma keeps_copy_for_peer [keeps_intros]: "keeps (copy_for_peer E peer p)"
  unfolding copy_for_peer_def by (intro keeps_intros)

lemma keeps_handle_lan_status [keeps_intros]: "sane E \<Longrightarrow> keeps (handle_lan_status E peer p)"
  unfolding handle_lan_status_def by (intro keeps_intros)

lemma keeps_handle_lan_cancel [keeps_intros]: "sane E \<Longrightarrow> keeps (handle_lan_cancel E peer p)"
  unfolding handle_lan_cancel_def
  by (intro keeps_intros good_update_copies) (auto simp: copy_moves_def copy_ok_def waiting_def)

lemma keeps_apply_remote_status [keeps_intros]: "sane E \<Longrightarrow> keeps (apply_remote_status E m s)"
  unfolding apply_remote_status_def
  by (intro keeps_intros good_update_copies) (auto simp: copy_moves_def copy_ok_def)

lemma keeps_record_transport_failure [keeps_intros]: "sane E \<Longrightarrow> keeps (record_transport_failure E m i t)"
  unfolding record_transport_failure_def
  by (intro keeps_intros good_update_copies) (auto simp: copy_moves_def copy_ok_def)

lemma keeps_flush_row [keeps_intros]: "sane E \<Longrightarrow> keeps (flush_row E l r n)"
proof -
  assume sane: "sane E"
  have a: "kept w (snd (then_op (apply_remote_status E m s) (\<lambda>_. return_op x) w))" for w m s and x :: flush_counts
    using keeps_then [OF keeps_apply_remote_status [OF sane], where f = "\<lambda>_. return_op x"] by (simp add: keeps_basic) (simp add: keeps_def)
  have b: "kept w (snd (then_op (record_transport_failure E m i t) (\<lambda>_. return_op x) w))" for w m i t and x :: flush_counts
    using keeps_then [OF keeps_record_transport_failure [OF sane], where f = "\<lambda>_. return_op x"] by (simp add: keeps_basic) (simp add: keeps_def)
  have "keeps (\<lambda>w. case secure_request l h q w of
          (Inr s, w') \<Rightarrow> then_op (apply_remote_status E m s) (\<lambda>_. return_op (x s)) w'
        | (Inl (LanControlError i t), w') \<Rightarrow> then_op (record_transport_failure E m i t) (\<lambda>_. return_op (y t)) w'
        | (Inl e, w') \<Rightarrow> (Inl e, w'))" for h q m and x y :: "_ \<Rightarrow> flush_counts"
    unfolding keeps_def secure_request_def
    using kept_trans [OF kept_same a] kept_trans [OF kept_same b]
    by (auto split: sum.split message_failure.split)
  then show ?thesis unfolding flush_row_def Let_def by (intro keeps_intros)
qed

lemma keeps_flush_rows [keeps_intros]: "sane E \<Longrightarrow> keeps (flush_rows E l rs n)"
  by (induction rs arbitrary: n) (auto intro!: keeps_intros)

lemma keeps_flush_outbox [keeps_intros]: "sane E \<Longrightarrow> keeps (flush_outbox E b force)"
  unfolding flush_outbox_def by (intro keeps_intros)

lemma keeps_send [keeps_intros]: "sane E \<Longrightarrow> keeps (send E ctx rs n c t b)"
  unfolding send_def Let_def by (intro keeps_intros)

lemma keeps_receive_filter [keeps_intros]: "sane E \<Longrightarrow> keeps (receive_filter E ctx n s)"
  unfolding receive_filter_def by (intro keeps_intros)

lemma keeps_receive_snapshot_cursor [keeps_intros]: "sane E \<Longrightarrow> keeps (receive_snapshot_cursor E ctx)"
  unfolding receive_snapshot_cursor_def by (intro keeps_intros)

lemma keeps_peek_candidates [keeps_intros]: "sane E \<Longrightarrow> keeps (peek_candidates E who n s m l)"
  unfolding peek_candidates_def Let_def by (intro keeps_intros)

text \<open>The claim takes its transaction back by writing what it read first.\<close>

lemma keeps_claim_body [keeps_intros]: "keeps (claim_body E who m n s)"
proof -
  have "good d0 (expire_copies now p d0)" "good d0 (mark_read m t (expire_copies now p d0))" for d0 now p t
    using good_expire good_mark_read good_trans by blast+
  then show ?thesis
    unfolding keeps_def kept_def claim_body_def
    by (auto simp: then_op_def read_db_def expire_def now_ms_def write_db_def return_op_def lift_op_def
        split: option.split sum.split prod.split if_splits)
qed

lemma keeps_claim_candidate [keeps_intros]: "sane E \<Longrightarrow> keeps (claim_candidate E who m n s)"
  unfolding claim_candidate_def by (intro keeps_intros)

lemma keeps_cancel_batch [keeps_intros]: "sane E \<Longrightarrow> keeps (cancel_batch E who b p)"
  unfolding cancel_batch_def Let_def by (intro keeps_intros good_cancel_local good_request_cancel)

lemma keeps_cancel [keeps_intros]: "sane E \<Longrightarrow> keeps (cancel E ctx b r)"
  unfolding cancel_def by (intro keeps_intros)

lemma keeps_diagnostic_snapshot [keeps_intros]: "sane E \<Longrightarrow> keeps (diagnostic_snapshot E p)"
  unfolding diagnostic_snapshot_def by (intro keeps_intros)

section \<open>Waiting\<close>

definition loop_keeps :: "(world \<Rightarrow> ('a mp \<times> world) option) \<Rightarrow> bool" where
  "loop_keeps l \<longleftrightarrow> (\<forall>w r w'. l w = Some (r, w') \<longrightarrow> kept w w')"

lemma keeps_next_round [keeps_intros]: "keeps (next_round E)"
  by (auto simp: keeps_def next_round_def Let_def split: option.split)

lemma wait_loop_keeps: "keeps body \<Longrightarrow> loop_keeps (wait_loop fuel E body deadline)"
proof (induction fuel)
  case (Suc n)
  have step: "keeps (then_op (next_round E) (\<lambda>_. body))" by (intro keeps_intros Suc.prems)
  have "kept w w'" if l: "wait_loop (Suc n) E body deadline w = Some (r, w')" for w r w'
  proof -
    obtain x w1 where x: "then_op (next_round E) (\<lambda>_. body) w = (x, w1)" by fastforce
    then have "kept w w1" using step unfolding keeps_def by (metis snd_conv)
    moreover have "kept w1 w'"
    proof -
      define w2 where "w2 = w1\<lparr>wd_monotonic := Suc (wd_monotonic w1)\<rparr>"
      have "kept w1 w2" by (simp add: w2_def)
      moreover from l have "w' = w1 \<or> w' = w2 \<or> wait_loop n E body deadline w2 = Some (r, w')"
        by (auto simp: x monotonic_def w2_def split: sum.splits prod.splits if_splits)
      ultimately show ?thesis using Suc.IH [OF Suc.prems] kept_trans unfolding loop_keeps_def by (metis kept_same)
    qed
    ultimately show ?thesis by (rule kept_trans)
  qed
  then show ?case by (simp add: loop_keeps_def)
qed (simp add: loop_keeps_def)

lemma looped_keeps: "keeps p \<Longrightarrow> (\<And>x. loop_keeps (l x)) \<Longrightarrow> loop_keeps (looped p l)"
  unfolding looped_def loop_keeps_def keeps_def
  by (auto split: prod.splits sum.splits) (metis kept_trans snd_conv)+

lemma keeps_receive_round [keeps_intros]: "sane E \<Longrightarrow> keeps (receive_round E who n p)"
  unfolding receive_round_def by (intro keeps_intros)

lemma keeps_deadline_after [keeps_intros]: "keeps (deadline_after E t)"
  unfolding deadline_after_def by (intro keeps_intros)

lemma wait_receive_keeps: "sane E \<Longrightarrow> loop_keeps (wait_receive fuel E ctx n s t)"
  unfolding wait_receive_def
  by (rule looped_keeps) (auto intro!: keeps_intros wait_loop_keeps split: prod.split)

lemma keeps_read_round [keeps_intros]: "sane E \<Longrightarrow> keeps (read_round E who b m)"
  unfolding read_round_def by (intro keeps_intros)

lemma wait_read_keeps: "sane E \<Longrightarrow> loop_keeps (wait_read fuel E ctx b m t)"
  unfolding wait_read_def
  by (rule looped_keeps) (auto intro!: keeps_intros wait_loop_keeps split: prod.split)

lemma keeps_peek_receive_candidates [keeps_intros]: "sane E \<Longrightarrow> keeps (peek_receive_candidates E ctx n s m l)"
  unfolding peek_receive_candidates_def by (intro keeps_intros)

lemma keeps_claim_receive_candidate [keeps_intros]: "sane E \<Longrightarrow> keeps (claim_receive_candidate E ctx m n s)"
  unfolding claim_receive_candidate_def by (intro keeps_intros)

lemma ended_keeps: "loop_keeps l \<Longrightarrow> loop_keeps (\<lambda>w. ended f (l w))"
  by (auto simp: loop_keeps_def ended_def)

lemma op_loop_keeps: "keeps m \<Longrightarrow> loop_keeps (\<lambda>w. Some (m w))"
  unfolding loop_keeps_def keeps_def by (metis option.inject snd_conv)

lemma execute_keeps: "sane E \<Longrightarrow> loop_keeps (execute fuel E legacy opcode g args ctx)"
  unfolding execute_def Let_def
  by (auto simp: loop_keeps_def split: if_splits
      dest!: ended_keeps [OF op_loop_keeps [OF keeps_send], unfolded loop_keeps_def, rule_format, rotated]
        ended_keeps [OF op_loop_keeps [OF keeps_cancel], unfolded loop_keeps_def, rule_format, rotated]
        ended_keeps [OF wait_receive_keeps, unfolded loop_keeps_def, rule_format, rotated]
        ended_keeps [OF wait_read_keeps, unfolded loop_keeps_def, rule_format, rotated])

end
