(* ===== verification/Message_Content.thy ===== *)
theory Message_Content
  imports Message_References
begin

text \<open>
  What a content may be, stated without the counter and the early returns: integers in range, text
  keys, at most 64 levels below the root and at most 10,000 values, containers included. The
  check accepts exactly that and gives the content back.
\<close>

function plain_content :: "pyval \<Rightarrow> bool" where
  "plain_content v = (case v of
     PInt i \<Rightarrow> int64 i
   | PList xs \<Rightarrow> \<forall>x \<in> set xs. plain_content x
   | PDict fs \<Rightarrow> \<forall>(k, x) \<in> set fs. (\<exists>t. k = PStr t) \<and> plain_content x
   | _ \<Rightarrow> True)"
  by pat_completeness auto
termination
  by (relation "measure size") (auto dest: dict_entry_size(1) list_item_size)

function content_depth :: "pyval \<Rightarrow> nat" where
  "content_depth v = (case v of
     PList xs \<Rightarrow> Max (insert 0 ((\<lambda>x. Suc (content_depth x)) ` set xs))
   | PDict fs \<Rightarrow> Max (insert 0 ((\<lambda>(k, x). Suc (content_depth x)) ` set fs))
   | _ \<Rightarrow> 0)"
  by pat_completeness auto
termination
  by (relation "measure size") (auto dest: dict_entry_size(1) list_item_size)

function content_items :: "pyval \<Rightarrow> nat" where
  "content_items v = (case v of
     PList xs \<Rightarrow> Suc (sum_list (map content_items xs))
   | PDict fs \<Rightarrow> Suc (sum_list (map (\<lambda>(k, x). content_items x) fs))
   | _ \<Rightarrow> 1)"
  by pat_completeness auto
termination
  by (relation "measure size") (auto dest: dict_entry_size(1) list_item_size)

declare plain_content.simps [simp del] content_depth.simps [simp del] content_items.simps [simp del]

definition fits :: "nat \<Rightarrow> pyval \<Rightarrow> bool" where
  "fits depth v \<longleftrightarrow> plain_content v \<and> depth + content_depth v \<le> max_content_depth"

lemma Max_depth_le: "finite A \<Longrightarrow> d + Max (insert 0 A) \<le> m \<longleftrightarrow> d \<le> (m :: nat) \<and> (\<forall>a \<in> A. d + a \<le> m)"
proof -
  assume "finite A"
  then have "Max (insert 0 A) \<le> m - d \<longleftrightarrow> (\<forall>a \<in> A. a \<le> m - d)" by simp
  then show ?thesis by (cases "d \<le> m") (auto simp: le_diff_conv2 add.commute)
qed

lemma fits_list: "fits d (PList xs) \<longleftrightarrow> d \<le> max_content_depth \<and> (\<forall>x \<in> set xs. fits (Suc d) x)"
proof -
  have "plain_content (PList xs) \<longleftrightarrow> (\<forall>x \<in> set xs. plain_content x)" by (subst plain_content.simps) simp
  moreover have "content_depth (PList xs) = Max (insert 0 ((\<lambda>x. Suc (content_depth x)) ` set xs))"
    by (subst content_depth.simps) simp
  ultimately show ?thesis unfolding fits_def by (auto simp: Max_depth_le)
qed

lemma fits_dict: "fits d (PDict fs) \<longleftrightarrow> d \<le> max_content_depth \<and> (\<forall>(k, x) \<in> set fs. (\<exists>t. k = PStr t) \<and> fits (Suc d) x)"
proof -
  have "plain_content (PDict fs) \<longleftrightarrow> (\<forall>(k, x) \<in> set fs. (\<exists>t. k = PStr t) \<and> plain_content x)"
    by (subst plain_content.simps) simp
  moreover have "content_depth (PDict fs) = Max (insert 0 ((\<lambda>(k, x). Suc (content_depth x)) ` set fs))"
    by (subst content_depth.simps) simp
  ultimately show ?thesis unfolding fits_def by (auto simp: Max_depth_le)
qed

lemma content_items_simps:
  "content_items (PList xs) = Suc (sum_list (map content_items xs))"
  "content_items (PDict fs) = Suc (sum_list (map (\<lambda>(k, x). content_items x) fs))"
  by (subst content_items.simps, simp)+

lemma content_items_pos: "1 \<le> content_items v"
  by (subst content_items.simps) (simp split: pyval.split)

lemma validate_content_exact:
  "validate_content d n v = (if fits d v \<and> n + content_items v \<le> max_content_items
     then Inr (v, n + content_items v) else content_invalid)"
  "n \<le> max_content_items \<Longrightarrow> validate_items d n xs =
     (if (\<forall>x \<in> set xs. fits d x) \<and> n + sum_list (map content_items xs) \<le> max_content_items
      then Inr (xs, n + sum_list (map content_items xs)) else content_invalid)"
  "n \<le> max_content_items \<Longrightarrow> validate_entries d n fs =
     (if (\<forall>(k, x) \<in> set fs. (\<exists>t. k = PStr t) \<and> fits d x) \<and> n + sum_list (map (\<lambda>(k, x). content_items x) fs) \<le> max_content_items
      then Inr (fs, n + sum_list (map (\<lambda>(k, x). content_items x) fs)) else content_invalid)"
proof (induction d n v and d n xs and d n fs rule: validate_content_validate_items_validate_entries.induct)
  case (1 d n v)
  show ?case
  proof (cases "max_content_depth < d \<or> max_content_items < Suc n")
    case True
    then show ?thesis using content_items_pos [of v] by (subst validate_content.simps) (auto simp: fits_def)
  next
    case False
    then have n: "Suc n \<le> max_content_items" and d: "d \<le> max_content_depth" by simp_all
    have leaf: "content_depth v = 0 \<and> content_items v = 1" if "\<forall>xs. v \<noteq> PList xs" "\<forall>fs. v \<noteq> PDict fs"
      using that by (subst content_depth.simps, subst content_items.simps) (simp split: pyval.split)
    show ?thesis
    proof (cases v)
      case (PList xs)
      then show ?thesis using 1(1) [OF False PList n] False d
        by (subst validate_content.simps) (auto simp: fits_list content_items_simps message_fail_def)
    next
      case (PDict fs)
      then show ?thesis using 1(2) [OF False PDict n] False d
        by (subst validate_content.simps) (auto simp: fits_dict content_items_simps message_fail_def)
    next
      case (PInt i)
      then show ?thesis using leaf False n d
        by (subst validate_content.simps) (simp add: fits_def plain_content.simps [of "PInt i"])
    qed (use leaf False n d in \<open>subst validate_content.simps, simp add: fits_def plain_content.simps\<close>)+
  qed
next
  case (3 d n x xs)
  show ?case
  proof (cases "fits d x \<and> n + content_items x \<le> max_content_items")
    case True
    then show ?thesis using 3 by (auto simp: message_fail_def add.assoc)
  next
    case False
    then show ?thesis using 3 by (auto simp: message_fail_def)
  qed
next
  case (5 d n k x fs)
  show ?case
  proof (cases "(\<exists>t. k = PStr t) \<and> fits d x \<and> n + content_items x \<le> max_content_items")
    case True
    then obtain t where "k = PStr t" by blast
    with True show ?thesis using 5 by (simp add: message_fail_def add.assoc)
  next
    case False
    then show ?thesis using 5 by (cases k) (auto simp: message_fail_def)
  qed
qed simp_all

lemma validate_message_value_exact:
  "validate_message_value v =
     (if plain_content v \<and> content_depth v \<le> max_content_depth \<and> content_items v \<le> max_content_items
      then Inr v else content_invalid)"
  by (simp add: validate_message_value_def validate_content_exact(1) fits_def message_fail_def)

end
