(* ===== verification/Message_Mailbox.thy ===== *)
theory Message_Mailbox
  imports Message_Laws Message_Content
begin

text \<open>
  The abstract mailbox: for a recipient, a message name and a sender, the letters that wait, in
  the order they were stored. Sending appends, receiving takes the first; what the database and
  its transactions add to that is shown to make no difference.
\<close>

section \<open>Letters\<close>

record letter =
  le_message :: string
  le_name :: string
  le_sender :: party
  le_content :: pyval

definition letter_of :: "copy_row \<Rightarrow> batch_row \<Rightarrow> letter" where
  "letter_of c b = \<lparr>le_message = cp_message c, le_name = ba_name b, le_sender = (ba_host b, ba_sender b), le_content = ba_content b\<rparr>"

definition wanted :: "message_db \<Rightarrow> identity \<Rightarrow> string \<Rightarrow> party option \<Rightarrow> copy_row \<Rightarrow> (copy_row \<times> batch_row) list" where
  "wanted d who name sender c =
     (if addressed who c \<and> cp_status c = WaitingRead then
        case find_batch d (cp_batch c) of
          None \<Rightarrow> []
        | Some b \<Rightarrow> if ba_name b = name \<and> from_sender sender b then [(c, b)] else []
      else [])"

definition matching :: "message_db \<Rightarrow> identity \<Rightarrow> string \<Rightarrow> party option \<Rightarrow> (copy_row \<times> batch_row) list" where
  "matching d who name sender = concat (map (wanted d who name sender) (db_copies d))"

definition letters :: "message_db \<Rightarrow> identity \<Rightarrow> string \<Rightarrow> party option \<Rightarrow> letter list" where
  "letters d who name sender = map (\<lambda>(c, b). letter_of c b) (matching d who name sender)"

lemma queue_rows_matching:
  "map snd (filter (\<lambda>(n, c, b). ba_name b = name \<and> from_sender sender b) (queue_rows d who)) = matching d who name sender"
proof -
  have "map snd (filter (\<lambda>(n, c, b). ba_name b = name \<and> from_sender sender b)
      (concat (map (\<lambda>(n, c). case find_batch d (cp_batch c) of None \<Rightarrow> [] | Some b \<Rightarrow> [(n, c, b)])
        (filter (\<lambda>(n, c). addressed who c \<and> cp_status c = WaitingRead) (enumerate k cs)))))
    = concat (map (wanted d who name sender) cs)" for k cs
    by (induction cs arbitrary: k) (auto simp: wanted_def split: option.split)
  then show ?thesis by (simp add: queue_rows_def matching_def)
qed

lemma candidate_rows_matching: "candidate_rows d who name sender None k = take k (matching d who name sender)"
  by (simp add: candidate_rows_def queue_rows_matching)

text \<open>Only the address of an identity matters.\<close>

definition same_mailbox :: "identity \<Rightarrow> identity \<Rightarrow> bool" where
  "same_mailbox a b \<longleftrightarrow> id_project a = id_project b \<and> id_host a = id_host b \<and> id_instance a = id_instance b"

lemma matching_cong: "same_mailbox a b \<Longrightarrow> matching d a name sender = matching d b name sender"
  by (simp add: matching_def wanted_def [abs_def] addressed_def same_mailbox_def)

section \<open>The database as mailboxes\<close>

lemma matching_member:
  assumes "(c, b) \<in> set (matching d who name sender)"
  shows "c \<in> set (db_copies d)" "addressed who c" "cp_status c = WaitingRead" "find_batch d (cp_batch c) = Some b"
    "ba_name b = name" "from_sender sender b"
  using assms by (auto simp: matching_def wanted_def split: if_splits option.splits)

lemma wanted_cases: "wanted d who name sender c = [] \<or> (\<exists>b. wanted d who name sender c = [(c, b)])"
  by (cases "find_batch d (cp_batch c)"; cases "addressed who c \<and> cp_status c = WaitingRead") (simp_all add: wanted_def)

lemma wanted_member: "x \<in> set (wanted d who name sender c) \<Longrightarrow> \<exists>b. x = (c, b)"
  using wanted_cases [of d who name sender c] by (elim disjE exE) simp_all

text \<open>A read message leaves every mailbox, and nothing else changes in any of them.\<close>

lemma letters_mark_read:
  "letters (mark_read m t d) who name sender = filter (\<lambda>l. le_message l \<noteq> m) (letters d who name sender)"
proof -
  define g :: "copy_row \<Rightarrow> copy_row" where "g c = (if cp_message c = m \<and> cp_status c = WaitingRead
    then c\<lparr>cp_status := Read, cp_read_at := Some t\<rparr> else c)" for c
  have "map (\<lambda>(c, b). letter_of c b) (wanted (mark_read m t d) who name sender (g c)) =
      filter (\<lambda>l. le_message l \<noteq> m) (map (\<lambda>(c, b). letter_of c b) (wanted d who name sender c))" for c
  proof (cases "cp_message c = m \<and> cp_status c = WaitingRead")
    case True
    then have "cp_status (g c) = Read" by (simp add: g_def)
    then have "wanted (mark_read m t d) who name sender (g c) = []" by (simp add: wanted_def)
    moreover have "le_message ((\<lambda>(c, b). letter_of c b) x) = m" if x: "x \<in> set (wanted d who name sender c)" for x
    proof -
      obtain b where "x = (c, b)" using wanted_member [OF x] by blast
      with True show ?thesis by (simp add: letter_of_def)
    qed
    then have "filter (\<lambda>l. le_message l \<noteq> m) (map (\<lambda>(c, b). letter_of c b) (wanted d who name sender c)) = []"
      by (simp add: filter_empty_conv)
    ultimately show ?thesis by simp
  next
    case False
    then have "g c = c" by (simp only: g_def if_False)
    moreover have "find_batch (mark_read m t d) = find_batch d" by (simp add: fun_eq_iff find_batch_def mark_read_def)
    ultimately have same: "wanted (mark_read m t d) who name sender (g c) = wanted d who name sender c"
      by (simp add: wanted_def)
    have "cp_status c = WaitingRead" if "wanted d who name sender c \<noteq> []" using that by (simp add: wanted_def split: if_split_asm)
    then have "\<forall>x \<in> set (wanted d who name sender c). cp_message (fst x) \<noteq> m"
      using False wanted_cases [of d who name sender c] by auto
    then have "\<forall>x \<in> set (wanted d who name sender c). le_message (case x of (c, b) \<Rightarrow> letter_of c b) \<noteq> m"
      by (simp add: letter_of_def case_prod_unfold)
    then show ?thesis unfolding same by (simp add: filter_map o_def)
  qed
  then have "map (\<lambda>(c, b). letter_of c b) (concat (map (wanted (mark_read m t d) who name sender) (map g cs))) =
      filter (\<lambda>l. le_message l \<noteq> m) (map (\<lambda>(c, b). letter_of c b) (concat (map (wanted d who name sender) cs)))" for cs
    by (induction cs) simp_all
  moreover have "db_copies (mark_read m t d) = map g (db_copies d)" by (simp add: mark_read_def g_def)
  ultimately show ?thesis by (simp add: letters_def matching_def)
qed

lemma distinct_letters:
  assumes "distinct (map cp_message (db_copies d))"
  shows "distinct (map le_message (letters d who name sender))"
proof -
  have one: "map (\<lambda>p. le_message (case p of (c, b) \<Rightarrow> letter_of c b)) (wanted d who name sender c) =
      (if wanted d who name sender c = [] then [] else [cp_message c])" for c
    using wanted_cases [of d who name sender c] by (elim disjE exE) (simp_all add: letter_of_def)
  have "map (\<lambda>p. le_message (case p of (c, b) \<Rightarrow> letter_of c b)) (concat (map (wanted d who name sender) cs)) =
      map cp_message (filter (\<lambda>c. wanted d who name sender c \<noteq> []) cs)" for cs
    by (induction cs) (simp_all add: one)
  then show ?thesis using assms by (simp add: letters_def matching_def distinct_map_filter o_def)
qed

lemma find_append: "find p (xs @ ys) = (case find p xs of None \<Rightarrow> find p ys | r \<Rightarrow> r)"
  by (induction xs) simp_all

text \<open>New batches do not disturb the copies there are; new copies come last.\<close>

lemma letters_append:
  assumes "db_ok d" and "find_batch d (ba_id b) = None" and "\<forall>c \<in> set cs. cp_batch c = ba_id b"
  shows "letters (d\<lparr>db_batches := db_batches d @ [b], db_copies := db_copies d @ cs\<rparr>) who name sender =
    letters d who name sender @
    map (\<lambda>c. letter_of c b) (filter (\<lambda>c. addressed who c \<and> cp_status c = WaitingRead \<and> ba_name b = name \<and> from_sender sender b) cs)"
proof -
  let ?d = "d\<lparr>db_batches := db_batches d @ [b], db_copies := db_copies d @ cs\<rparr>"
  have old: "find_batch ?d (cp_batch c) = find_batch d (cp_batch c)" if "c \<in> set (db_copies d)" for c
  proof -
    have "cp_batch c \<in> ba_id ` set (db_batches d)" using assms(1) that by (auto simp: db_ok_def)
    then show ?thesis using find_batch_None [of d "cp_batch c"] by (auto simp: find_batch_def find_append split: option.splits)
  qed
  have new: "find_batch ?d (cp_batch c) = Some b" if "c \<in> set cs" for c
    using assms(2,3) that by (simp add: find_batch_def find_append)
  have "map (wanted ?d who name sender) (db_copies d) = map (wanted d who name sender) (db_copies d)"
    using old by (simp add: wanted_def)
  then have "concat (map (wanted ?d who name sender) (db_copies d)) = matching d who name sender"
    by (simp only: matching_def)
  moreover have "map (\<lambda>(c, b). letter_of c b) (concat (map (wanted ?d who name sender) xs)) =
      map (\<lambda>c. letter_of c b) (filter (\<lambda>c. addressed who c \<and> cp_status c = WaitingRead \<and> ba_name b = name \<and> from_sender sender b) xs)"
    if "set xs \<subseteq> set cs" for xs
    using that new by (induction xs) (auto simp: wanted_def)
  ultimately show ?thesis by (simp add: letters_def matching_def [of ?d])
qed

section \<open>A quiet machine\<close>

text \<open>
  Nobody else works on the database, no transaction fails, nobody cancels, and no waiting message
  is old enough to expire.
\<close>

definition quiet :: "message_env \<Rightarrow> bool" where
  "quiet E \<longleftrightarrow> (\<forall>k d. me_others E k d = d) \<and> (\<forall>k. me_fault E k = None) \<and>
     (\<forall>k. me_checkpoint E k = None) \<and> (\<forall>k. \<not> me_cancelled E k)"

definition timely :: "message_env \<Rightarrow> message_db \<Rightarrow> bool" where
  "timely E d \<longleftrightarrow> (\<forall>k. \<forall>c \<in> set (db_copies d). waiting (cp_status c) \<longrightarrow> me_clock E k < cp_expires c)"

definition registered :: "message_env \<Rightarrow> identity \<Rightarrow> message_db \<Rightarrow> bool" where
  "registered E ctx d \<longleftrightarrow>
     validate_project_namespace (id_project ctx) = Inr (id_project ctx) \<and>
     stable_text (id_host ctx) \<and> stable_text (id_instance ctx) \<and>
     db_host d = Some (id_host ctx) \<and>
     (case me_lan E of None \<Rightarrow> True | Some l \<Rightarrow> lc_host l \<in> {[], id_host ctx}) \<and>
     find_instance d (id_project ctx) (id_host ctx) (id_instance ctx) \<noteq> None"

text \<open>An operation that goes through and leaves the database alone.\<close>

definition passes :: "message_db \<Rightarrow> 'a mop \<Rightarrow> ('a \<Rightarrow> bool) \<Rightarrow> bool" where
  "passes d m P \<longleftrightarrow> (\<forall>w. wd_db w = d \<longrightarrow> (\<exists>x w'. m w = (Inr x, w') \<and> P x \<and> wd_db w' = d))"

lemma passes_then: "passes d m P \<Longrightarrow> (\<And>x. P x \<Longrightarrow> passes d (f x) Q) \<Longrightarrow> passes d (then_op m f) Q"
  unfolding passes_def then_op_def by fastforce

lemma passes_primitive:
  "P x \<Longrightarrow> passes d (return_op x) P" "P x \<Longrightarrow> passes d (lift_op (Inr x)) P" "Q d \<Longrightarrow> passes d read_db Q"
  "(\<And>t. R t) \<Longrightarrow> passes d (now_ms E) R"
  by (simp_all add: passes_def return_op_def lift_op_def read_db_def now_ms_def)

lemma passes_translate: "passes d m P \<Longrightarrow> passes d (translate m) P"
  unfolding passes_def translate_def by fastforce

lemma passes_transact:
  assumes "quiet E" "passes d m P"
  shows "passes d (transact E m) P"
  unfolding passes_def
proof (intro allI impI)
  fix w :: world assume w: "wd_db w = d"
  define w1 where "w1 = w\<lparr>wd_db := me_others E (wd_transactions w) (wd_db w), wd_transactions := Suc (wd_transactions w)\<rparr>"
  have "wd_db w1 = d" using assms(1) w by (simp add: quiet_def w1_def)
  then obtain x w' where "m w1 = (Inr x, w')" "P x" "wd_db w' = d" using assms(2) unfolding passes_def by blast
  then show "\<exists>x w'. transact E m w = (Inr x, w') \<and> P x \<and> wd_db w' = d"
    using assms(1) by (simp add: transact_def Let_def quiet_def w1_def)
qed

lemma passes_host_id: "quiet E \<Longrightarrow> registered E ctx d \<Longrightarrow> passes d (host_id E) (\<lambda>h. h = id_host ctx)"
  unfolding host_id_def
  by (intro passes_translate passes_transact passes_then [OF passes_primitive(3)])
    (auto simp: registered_def Let_def intro!: passes_primitive split: option.splits)

lemma passes_identity:
  assumes "quiet E" "registered E ctx d"
  shows "passes d (require_identity E ctx) (same_mailbox ctx)"
proof -
  have v: "validate_project_namespace (id_project ctx) = Inr (id_project ctx)"
    "validate_stable_id (id_host ctx) = Inr (id_host ctx)" "validate_stable_id (id_instance ctx) = Inr (id_instance ctx)"
    using assms(2) by (simp_all add: registered_def validate_stable_id_stable)
  obtain r where r: "find_instance d (id_project ctx) (id_host ctx) (id_instance ctx) = Some r"
    using assms(2) by (auto simp: registered_def)
  then have "instance_key r = (id_project ctx, id_host ctx, id_instance ctx)"
    by (auto simp: find_instance_def find_Some_iff)
  then have "same_mailbox ctx (instance_identity (id_project ctx) (r\<lparr>in_trust := t\<rparr>))" for t
    by (simp add: same_mailbox_def instance_identity_def instance_key_def)
  then have found: "passes d (case x of None \<Rightarrow> raise_op ''message.instance_unknown''
       | Some r \<Rightarrow> return_op (instance_identity (id_project ctx) (r\<lparr>in_trust := or_else (in_trust r) (id_project ctx)\<rparr>)))
       (same_mailbox ctx)" if "x = Some r" for x
    using that by (simp add: passes_primitive)
  have "passes d (transact E read_db) (\<lambda>x. x = d)" by (rule passes_transact [OF assms(1)]) (simp add: passes_primitive)
  then show ?thesis
    unfolding require_identity_def v op_simps
    using r found by (auto intro!: passes_then [OF passes_host_id [OF assms]] elim!: passes_then)
qed

lemma expire_timely: "timely E d \<Longrightarrow> expire_copies (me_clock E k) p d = d"
proof -
  assume t: "timely E d"
  have "(if (p \<noteq> [] \<longrightarrow> cp_project c = p) \<and> waiting (cp_status c) \<and> cp_expires c \<le> me_clock E k
      then c\<lparr>cp_status := Expired\<rparr> else c) = c" if "c \<in> set (db_copies d)" for c
    using t that by (auto simp: timely_def not_le [symmetric])
  then show ?thesis by (simp add: expire_copies_def update_copies_def map_idI)
qed

lemma passes_expire: "timely E d \<Longrightarrow> passes d (expire E p) (\<lambda>_. True)"
  unfolding passes_def expire_def then_op_def now_ms_def read_db_def write_db_def by (auto simp: expire_timely)

end
