(* ===== verification/Message_Delivery.thy ===== *)
theory Message_Delivery
  imports Message_Mailbox
begin

text \<open>
  Sending and receiving on a quiet machine, as operations on mailboxes: what is received is the
  first letter of the mailbox, what is sent is appended to the mailboxes of its recipients. A
  locale states what a first-in first-out service promises; repeated receiving is one.
\<close>

section \<open>Services in order\<close>

fun take_times :: "nat \<Rightarrow> ('s \<Rightarrow> ('r \<times> 's) option) \<Rightarrow> 's \<Rightarrow> ('r list \<times> 's) option" where
  "take_times 0 serve s = Some ([], s)"
| "take_times (Suc n) serve s =
     (case serve s of None \<Rightarrow> None
      | Some (r, s') \<Rightarrow> map_option (\<lambda>(rs, s''). (r # rs, s'')) (take_times n serve s'))"

locale fifo =
  fixes ready :: "'s \<Rightarrow> bool" and items :: "'s \<Rightarrow> 'm list" and serve :: "'s \<Rightarrow> ('r \<times> 's) option"
    and shows_item :: "'r \<Rightarrow> 'm \<Rightarrow> bool"
  assumes serve_first: "ready s \<Longrightarrow> items s = m # ms \<Longrightarrow>
    \<exists>r s'. serve s = Some (r, s') \<and> shows_item r m \<and> items s' = ms \<and> ready s'"
begin

lemma served_in_order:
  assumes "ready s" "n \<le> length (items s)"
  shows "\<exists>rs s'. take_times n serve s = Some (rs, s') \<and> list_all2 shows_item rs (take n (items s)) \<and>
    items s' = drop n (items s) \<and> ready s'"
  using assms
proof (induction n arbitrary: s)
  case (Suc n)
  obtain m ms where items: "items s = m # ms" using Suc.prems(2) by (cases "items s") auto
  obtain r s1 where r: "serve s = Some (r, s1)" "shows_item r m" "items s1 = ms" "ready s1"
    using serve_first [OF Suc.prems(1) items] by blast
  have "n \<le> length (items s1)" using Suc.prems(2) items r(3) by simp
  then obtain rs s2 where "take_times n serve s1 = Some (rs, s2)" "list_all2 shows_item rs (take n (items s1))"
    "items s2 = drop n (items s1)" "ready s2" using Suc.IH [OF r(4)] by blast
  then show ?case using r items by simp
qed simp

end

section \<open>Receiving\<close>

lemma transact_quiet:
  assumes "quiet E" and "body (w\<lparr>wd_transactions := Suc (wd_transactions w)\<rparr>) = (Inr x, w')"
  shows "transact E body w = (Inr x, w')"
  using assms by (simp add: transact_def Let_def quiet_def)

lemma passes_read: "passes d (f d) Q \<Longrightarrow> passes d (then_op read_db f) Q"
  by (simp add: passes_def then_op_def read_db_def)

lemma passes_receive_filter:
  assumes "quiet E" "registered E ctx d" "validate_message_name (me_eval E) n = Inr name"
  shows "passes d (receive_filter E ctx n PNone) (\<lambda>f. same_mailbox ctx (fst f) \<and> snd f = (name, None))"
  unfolding receive_filter_def assms(3) op_simps
  by (intro passes_translate passes_then [OF passes_identity [OF assms(1,2)]]) (simp add: passes_primitive)

lemma passes_peek:
  assumes "quiet E" "timely E d" "matching d who name parts = (c, b) # rest" "decoded_row d c b = Inr r"
  shows "passes d (peek_candidates E who name parts None 1) (\<lambda>rs. rs = [r])"
proof -
  have "max 0 (min 1 max_candidates) = 1" by (simp add: max_candidates_def)
  moreover have "rmap (\<lambda>(c, b). decoded_row d c b) (candidate_rows d who name parts None 1) = Inr [r]"
    using assms(3,4) by (simp add: candidate_rows_matching)
  then have "passes d (lift_op (rmap (\<lambda>(c, b). decoded_row d c b) (candidate_rows d who name parts None 1))) (\<lambda>rs. rs = [r])"
    by (simp add: passes_primitive)
  ultimately show ?thesis
    unfolding peek_candidates_def Let_def
    by (auto intro!: passes_translate passes_transact [OF assms(1)] passes_then [OF passes_expire [OF assms(2)]] passes_read)
qed

lemma find_first:
  "filter R xs = y # ys \<Longrightarrow> Q y \<Longrightarrow> find (\<lambda>x. Q x \<and> R x) xs = Some y"
  by (induction xs) (auto split: if_splits)

lemma claim_row_first:
  assumes "matching d who name parts = (c, b) # rest"
  shows "claim_row d who (cp_message c) (Some name) parts = Some (c, b)"
proof -
  let ?R = "\<lambda>(n, c, b). ba_name b = name \<and> from_sender parts b"
  obtain n ys where "filter ?R (queue_rows d who) = (n, c, b) # ys"
    using assms unfolding queue_rows_matching [symmetric] by (auto simp: map_eq_Cons_conv)
  then have found: "find (\<lambda>x. (\<lambda>(n, c', b). cp_message c' = cp_message c) x \<and> ?R x) (queue_rows d who) = Some (n, c, b)"
    by (rule find_first) simp
  have eq: "(\<lambda>x. (\<lambda>(n, c', b). cp_message c' = cp_message c) x \<and> ?R x) =
      (\<lambda>(n, c', b). cp_message c' = cp_message c \<and> ba_name b = name \<and> from_sender parts b)"
    by auto
  show ?thesis using found unfolding eq claim_row_def by simp
qed

lemma one_row:
  assumes "distinct (map cp_message cs)" "c \<in> set cs" "cp_status c = s"
  shows "length (filter (\<lambda>x. cp_message x = cp_message c \<and> cp_status x = s) cs) = 1"
proof -
  have "filter (\<lambda>x. cp_message x = cp_message c \<and> cp_status x = s) cs = [c]"
    using assms by (induction cs) (auto simp: filter_empty_conv image_iff)
  then show ?thesis by simp
qed

lemma claim_first:
  assumes "quiet E" "timely E (wd_db w)" "db_ok (wd_db w)" "matching (wd_db w) who name parts = (c, b) # rest"
    and "decoded_row (wd_db w) c b = Inr r" "stable_text (cp_message c)"
  shows "\<exists>t w'. claim_candidate E who (cp_message c) (Some name) parts w = (Inr (Some (r\<lparr>rx_read_at := Some t\<rparr>)), w') \<and>
    wd_db w' = mark_read (cp_message c) t (wd_db w)"
proof -
  let ?w = "w\<lparr>wd_transactions := Suc (wd_transactions w)\<rparr>"
  have c: "c \<in> set (db_copies (wd_db w))" "cp_status c = WaitingRead"
    using matching_member [of c b "wd_db w" who name parts] assms(4) by simp_all
  have "distinct (map cp_message (db_copies (wd_db w)))" using assms(3) by (simp add: db_ok_def)
  note one = one_row [OF this c]
  obtain t w' where body: "claim_body E who (cp_message c) (Some name) parts ?w = (Inr (Some (r\<lparr>rx_read_at := Some t\<rparr>)), w')"
    "wd_db w' = mark_read (cp_message c) t (wd_db w)"
    using one assms(5) claim_row_first [OF assms(4)] expire_timely [OF assms(2)]
    by (simp add: claim_body_def then_op_def read_db_def expire_def now_ms_def write_db_def lift_op_def return_op_def)
  then have "transact E (claim_body E who (cp_message c) (Some name) parts) w = (Inr (Some (r\<lparr>rx_read_at := Some t\<rparr>)), w')"
    by (intro transact_quiet [OF assms(1)])
  then have "claim_candidate E who (cp_message c) (Some name) parts w = (Inr (Some (r\<lparr>rx_read_at := Some t\<rparr>)), w')"
    by (simp add: claim_candidate_def validate_stable_id_stable [OF assms(6)] translate_def)
  with body(2) show ?thesis by blast
qed

definition shows_letter :: "received \<Rightarrow> letter \<Rightarrow> bool" where
  "shows_letter r l \<longleftrightarrow> rx_message r = le_message l \<and> rx_name r = le_name l \<and> rx_content r = le_content l \<and>
     rx_sender r = reference (fst (le_sender l)) (snd (le_sender l)) \<and> rx_read_at r \<noteq> None"

text \<open>A letter that can be received: its identifier and its content pass the checks of the claim.\<close>

definition legible :: "letter \<Rightarrow> bool" where
  "legible l \<longleftrightarrow> stable_text (le_message l) \<and> validate_message_value (le_content l) = Inr (le_content l)"

lemma receive_first:
  assumes "quiet E" "registered E ctx (wd_db w)" "timely E (wd_db w)" "db_ok (wd_db w)"
    and "validate_message_name (me_eval E) n = Inr name" "timeout t = Inr ms"
    and "letters (wd_db w) ctx name None = l # ls" "legible l"
  shows "\<exists>r time w'. wait_receive (Suc fuel) E ctx n PNone t w = Some (Inr (Some r), w') \<and> shows_letter r l \<and>
    wd_db w' = mark_read (le_message l) time (wd_db w)"
proof -
  let ?d = "wd_db w"
  obtain c b rest where m: "matching ?d ctx name None = (c, b) # rest" "l = letter_of c b"
    using assms(7) by (auto simp: letters_def map_eq_Cons_conv)
  obtain r where r: "decoded_row ?d c b = Inr r" "\<And>time. shows_letter (r\<lparr>rx_read_at := Some time\<rparr>) l"
    "rx_message r = cp_message c"
    using assms(8) by (simp add: decoded_row_def legible_def m(2) letter_of_def shows_letter_def)
  obtain f w1 where f: "receive_filter E ctx n PNone w = (Inr f, w1)" "same_mailbox ctx (fst f)" "snd f = (name, None)" "wd_db w1 = ?d"
    using passes_receive_filter [OF assms(1,2,5)] unfolding passes_def by blast
  obtain who where who: "f = (who, name, None)" "same_mailbox ctx who" using f(2,3) by (cases f) auto
  define w2 where "w2 = w1\<lparr>wd_monotonic := Suc (wd_monotonic w1)\<rparr>"
  define w3 where "w3 = w2\<lparr>wd_rounds := Suc (wd_rounds w2)\<rparr>"
  have w3: "wd_db w3 = ?d" using f(4) by (simp add: w3_def w2_def)
  have mm: "matching (wd_db w3) who name None = (c, b) # rest" using m(1) matching_cong [OF who(2)] w3 by simp
  obtain w4 where peek: "peek_candidates E who name None None 1 w3 = (Inr [r], w4)" "wd_db w4 = ?d"
    using passes_peek [OF assms(1) _ mm] assms(3) r(1) w3 unfolding passes_def by metis
  obtain time w5 where claim: "claim_candidate E who (cp_message c) (Some name) None w4 = (Inr (Some (r\<lparr>rx_read_at := Some time\<rparr>)), w5)"
    "wd_db w5 = mark_read (cp_message c) time ?d"
    using claim_first [OF assms(1), of w4 who name None c b rest r] assms(3,4,8) mm r(1) peek(2) w3 m(2)
    by (auto simp: legible_def letter_of_def)
  have "wait_receive (Suc fuel) E ctx n PNone t w = Some (Inr (Some (r\<lparr>rx_read_at := Some time\<rparr>)), w5)"
    using assms(1) peek(1) claim(1) r(3)
    by (simp add: wait_receive_def looped_def then_op_def f(1) who(1) assms(6) lift_op_def deadline_after_def monotonic_def
        return_op_def next_round_def quiet_def receive_round_def w2_def [symmetric] w3_def [symmetric])
  then show ?thesis using r(2) claim(2) m(2) by (auto simp: letter_of_def)
qed

section \<open>The inbox as a service\<close>

lemma registered_mark_read [simp]: "registered E ctx (mark_read m t d) = registered E ctx d"
  by (simp add: registered_def mark_read_def find_instance_def)

lemma timely_mark_read: "timely E d \<Longrightarrow> timely E (mark_read m t d)"
  by (auto simp: timely_def mark_read_def waiting_def)

definition inbox_ready :: "message_env \<Rightarrow> identity \<Rightarrow> pyval \<Rightarrow> string \<Rightarrow> pyval \<Rightarrow> world \<Rightarrow> bool" where
  "inbox_ready E ctx n name t w \<longleftrightarrow>
     quiet E \<and> registered E ctx (wd_db w) \<and> timely E (wd_db w) \<and> db_ok (wd_db w) \<and>
     validate_message_name (me_eval E) n = Inr name \<and> isl (timeout t) = False \<and>
     (\<forall>l \<in> set (letters (wd_db w) ctx name None). legible l)"

definition receive :: "message_env \<Rightarrow> identity \<Rightarrow> pyval \<Rightarrow> pyval \<Rightarrow> nat \<Rightarrow> world \<Rightarrow> (received \<times> world) option" where
  "receive E ctx n t fuel w = (case wait_receive (Suc fuel) E ctx n PNone t w of Some (Inr (Some r), w') \<Rightarrow> Some (r, w') | _ \<Rightarrow> None)"

lemma inbox_serves:
  assumes "inbox_ready E ctx n name t w" "letters (wd_db w) ctx name None = l # ls"
  shows "\<exists>r w'. receive E ctx n t fuel w = Some (r, w') \<and> shows_letter r l \<and> letters (wd_db w') ctx name None = ls \<and>
    inbox_ready E ctx n name t w'"
proof -
  have ready: "quiet E" "registered E ctx (wd_db w)" "timely E (wd_db w)" "db_ok (wd_db w)"
    "validate_message_name (me_eval E) n = Inr name" "\<forall>l \<in> set (letters (wd_db w) ctx name None). legible l"
    using assms(1) by (simp_all add: inbox_ready_def)
  obtain ms where ms: "timeout t = Inr ms" using assms(1) by (cases "timeout t") (simp_all add: inbox_ready_def)
  obtain r time w' where r: "wait_receive (Suc fuel) E ctx n PNone t w = Some (Inr (Some r), w')" "shows_letter r l"
    "wd_db w' = mark_read (le_message l) time (wd_db w)"
    using receive_first [OF ready(1-5) ms assms(2)] ready(6) assms(2) by (metis list.set_intros(1))
  have "distinct (map le_message (letters (wd_db w) ctx name None))"
    using ready(4) by (intro distinct_letters) (simp add: db_ok_def)
  then have "le_message l \<notin> le_message ` set ls" using assms(2) by simp
  then have "\<forall>x \<in> set ls. le_message x \<noteq> le_message l" by (metis image_eqI)
  then have ls: "letters (wd_db w') ctx name None = ls"
    unfolding r(3) letters_mark_read assms(2) by (simp add: filter_id_conv)
  have "db_ok (wd_db w')" using ready(4) good_mark_read by (simp add: r(3) good_def)
  moreover have "\<forall>l \<in> set (letters (wd_db w') ctx name None). legible l" using ready(6) assms(2) ls by simp
  ultimately have "inbox_ready E ctx n name t w'"
    using ready ms by (simp add: inbox_ready_def r(3) timely_mark_read)
  then show ?thesis using r(1,2) ls by (auto simp: receive_def)
qed

interpretation inbox: fifo "inbox_ready E ctx n name t" "\<lambda>w. letters (wd_db w) ctx name None" "receive E ctx n t fuel" shows_letter
  for E ctx n name t fuel
  by unfold_locales (rule inbox_serves)

section \<open>Sending\<close>

definition steady :: "message_db \<Rightarrow> 'a mop \<Rightarrow> bool" where
  "steady d m \<longleftrightarrow> (\<forall>w. wd_db w = d \<longrightarrow> wd_db (snd (m w)) = d)"

lemma steady_then: "steady d m \<Longrightarrow> (\<And>x. steady d (f x)) \<Longrightarrow> steady d (then_op m f)"
  unfolding steady_def then_op_def by (auto split: prod.split sum.split)

lemma steady_silent: "silent m \<Longrightarrow> steady d m"
  by (simp add: steady_def silent_def)

lemma steady_passes: "passes d m P \<Longrightarrow> steady d m"
  unfolding passes_def steady_def by fastforce

lemma steady_transact: "quiet E \<Longrightarrow> steady d m \<Longrightarrow> steady d (transact E m)"
proof -
  assume quiet: "quiet E" and m: "steady d m"
  have "wd_db (snd (transact E m w)) = d" if w: "wd_db w = d" for w
  proof -
    define w1 where "w1 = w\<lparr>wd_transactions := Suc (wd_transactions w)\<rparr>"
    have "wd_db w1 = d" using w by (simp add: w1_def)
    then have "wd_db (snd (m w1)) = d" using m by (simp add: steady_def)
    moreover have "transact E m w = (case m w1 of (Inl e, w2) \<Rightarrow> (Inl e, w2\<lparr>wd_db := wd_db w1\<rparr>) | r \<Rightarrow> r)"
      using quiet by (simp add: transact_def Let_def quiet_def w1_def split: prod.split sum.split)
    ultimately show ?thesis using \<open>wd_db w1 = d\<close> by (cases "m w1"; cases "fst (m w1)") simp_all
  qed
  then show ?thesis by (simp add: steady_def)
qed

lemma steady_cases:
  "\<And>b m n. (b \<Longrightarrow> steady d m) \<Longrightarrow> (\<not> b \<Longrightarrow> steady d n) \<Longrightarrow> steady d (if b then m else n)"
  "\<And>x m f. (x = None \<Longrightarrow> steady d m) \<Longrightarrow> (\<And>y. x = Some y \<Longrightarrow> steady d (f y)) \<Longrightarrow> steady d (case x of None \<Rightarrow> m | Some y \<Rightarrow> f y)"
  "\<And>p g. (\<And>a b. p = (a, b) \<Longrightarrow> steady d (g a b)) \<Longrightarrow> steady d (case p of (a, b) \<Rightarrow> g a b)"
  by (simp_all split: option.split prod.split)

lemma steady_basic: "steady d (return_op x)" "steady d (lift_op r)" "steady d (raise_op i)" "steady d read_db"
  by (simp_all add: steady_silent)

lemmas steady_intros = steady_basic steady_cases steady_transact steady_then

lemma steady_resolve_all: "quiet E \<Longrightarrow> steady d (resolve_all E p t here seen vs)"
proof (induction vs arbitrary: seen)
  case (Cons v vs)
  have "steady d (local_recipient E p t h i)" "steady d (remote_recipient E p h i)" for h i
    unfolding local_recipient_def remote_recipient_def using Cons.prems by (auto intro!: steady_intros split: option.split)
  then show ?case using Cons by (auto intro!: steady_intros)
qed (simp add: steady_basic)

lemma steady_resolve: "quiet E \<Longrightarrow> registered E ctx d \<Longrightarrow> steady d (resolve_recipients E p v t)"
  unfolding resolve_recipients_def
  by (cases v) (auto intro!: steady_then [OF steady_passes [OF passes_host_id]] steady_cases steady_basic intro: steady_resolve_all)

lemma then_op_InrE:
  assumes "then_op m f w = (Inr y, w')"
  obtains x w1 where "m w = (Inr x, w1)" "f x w1 = (Inr y, w')"
  using assms by (auto simp: then_op_def split: prod.splits sum.splits)

lemma translate_Inr: "translate m w = (Inr x, w') \<Longrightarrow> m w = (Inr x, w')"
  by (cases "m w"; cases "fst (m w)") (auto simp: translate_def elim: translate_result.elims)

lemma lift_op_Inr: "lift_op r w = (Inr x, w') \<longleftrightarrow> r = Inr x \<and> w' = w"
  by (auto simp: lift_op_def)

lemma insert_copies_shape: "insert_copies cs d = Inr d' \<Longrightarrow> d' = d\<lparr>db_copies := db_copies d @ cs\<rparr>"
proof (induction cs arbitrary: d)
  case (Cons c cs)
  obtain d1 where d1: "insert_copy c d = Inr d1" "insert_copies cs d1 = Inr d'" using Cons.prems by (auto simp: rbind_Inr_iff)
  have "d1 = d\<lparr>db_copies := db_copies d @ [c]\<rparr>" using d1(1) by (simp add: insert_copy_def split: if_split_asm)
  with Cons.IH [OF d1(2)] show ?case by simp
qed simp

lemma reference_inject: "reference h i = reference h' i' \<longleftrightarrow> h = h' \<and> i = i'"
proof
  assume "reference h i = reference h' i'"
  then have "split_parts (reference_prefix @ encode_reference_part h @ ''.'' @ encode_reference_part i) =
      split_parts (reference_prefix @ encode_reference_part h' @ ''.'' @ encode_reference_part i')"
    by (simp add: reference_def)
  then have "encode_reference_part h = encode_reference_part h'" "encode_reference_part i = encode_reference_part i'"
    by (simp_all only: split_reference) simp_all
  then show "h = h' \<and> i = i'" using decode_encode_part by (metis Inr_inject)
qed simp

text \<open>The transaction of a new batch.\<close>

lemma store_new_batch:
  assumes "quiet E" "find_batch (wd_db w) batch = None"
    and "store_batch E who rs name content batch fp created expires w = (Inr res, w')"
  shows "wd_db w' = (wd_db w)\<lparr>db_batches := db_batches (wd_db w) @ [batch_of E who batch name content created expires fp],
      db_copies := db_copies (wd_db w) @ copies_for who batch created expires rs\<rparr> \<and>
    batch_result (wd_db w') batch = Inr res"
proof -
  let ?w = "w\<lparr>wd_transactions := Suc (wd_transactions w)\<rparr>"
  let ?d = "(wd_db w)\<lparr>db_batches := db_batches (wd_db w) @ [batch_of E who batch name content created expires fp]\<rparr>"
  have "(case insert_copies (copies_for who batch created expires rs) ?d of
      Inl e \<Rightarrow> False | Inr d' \<Rightarrow> w' = ?w\<lparr>wd_db := d'\<rparr> \<and> batch_result d' batch = Inr res)"
    using assms unfolding store_batch_def transact_def Let_def quiet_def
    by (auto simp: then_op_def read_db_def write_db_def lift_op_def read_result_def split: sum.splits)
  then obtain d' where d': "insert_copies (copies_for who batch created expires rs) ?d = Inr d'"
    "w' = ?w\<lparr>wd_db := d'\<rparr>" "batch_result d' batch = Inr res" by (auto split: sum.splits)
  from insert_copies_shape [OF d'(1)] d'(2,3) show ?thesis by simp
qed

definition sent_letter :: "identity \<Rightarrow> string \<Rightarrow> pyval \<Rightarrow> copy_report \<Rightarrow> letter" where
  "sent_letter ctx name content r =
     \<lparr>le_message = cr_message r, le_name = name, le_sender = (id_host ctx, id_instance ctx), le_content = content\<rparr>"

definition delivered_to :: "identity \<Rightarrow> identity \<Rightarrow> batch_report \<Rightarrow> copy_report list" where
  "delivered_to ctx who res = filter (\<lambda>r. id_project who = id_project ctx \<and> cr_status r = WaitingRead \<and>
     cr_recipient r = reference (id_host who) (id_instance who)) (br_recipients res)"

lemma stored_letters:
  assumes "db_ok d" "find_batch d batch = None" "same_mailbox ctx me"
    and d': "d' = d\<lparr>db_batches := db_batches d @ [batch_of E me batch name content created expires fp],
      db_copies := db_copies d @ copies_for me batch created expires rs\<rparr>"
    and "batch_result d' batch = Inr res"
  shows "letters d' who name' None = letters d who name' None @
    (if name' = name then map (sent_letter ctx name content) (delivered_to ctx who res) else [])"
proof -
  let ?b = "batch_of E me batch name content created expires fp" and ?cs = "copies_for me batch created expires rs"
  have cs: "\<forall>c \<in> set ?cs. cp_batch c = batch \<and> cp_project c = id_project me"
    using copies_for_row by (auto simp: copies_for_def new_copy_def)
  have "batch \<notin> cp_batch ` set (db_copies d)"
    using assms(1,2) unfolding find_batch_None by (auto simp: db_ok_def)
  then have "filter (\<lambda>c. cp_batch c = batch) (db_copies d) = []" by (auto simp: filter_empty_conv)
  then have "copies_of d' batch = ?cs" using cs by (simp add: copies_of_def d')
  then have rs: "br_recipients res = map copy_result ?cs"
    using assms(5) by (auto simp: batch_result_def message_fail_def split: option.splits)
  have same: "(addressed who c \<and> cp_status c = WaitingRead) =
      (id_project who = id_project ctx \<and> cr_status (copy_result c) = WaitingRead \<and>
       cr_recipient (copy_result c) = reference (id_host who) (id_instance who))" if "c \<in> set ?cs" for c
    using cs that assms(3) by (auto simp: addressed_def copy_result_def reference_inject same_mailbox_def)
  have letter: "letter_of c ?b = sent_letter ctx name content (copy_result c)" for c
    using assms(3) by (simp add: letter_of_def sent_letter_def copy_result_def batch_of_def same_mailbox_def)
  have "filter (\<lambda>c. addressed who c \<and> cp_status c = WaitingRead) ?cs = filter (\<lambda>c. id_project who = id_project ctx \<and>
      cr_status (copy_result c) = WaitingRead \<and> cr_recipient (copy_result c) = reference (id_host who) (id_instance who)) ?cs"
    by (rule filter_cong) (use same in simp_all)
  then have "map (\<lambda>c. letter_of c ?b) (filter (\<lambda>c. addressed who c \<and> cp_status c = WaitingRead) ?cs) =
      map (sent_letter ctx name content) (delivered_to ctx who res)"
    by (simp add: delivered_to_def rs filter_map letter o_def)
  moreover have "letters d' who name' None = letters d who name' None @ map (\<lambda>c. letter_of c ?b)
      (filter (\<lambda>c. addressed who c \<and> cp_status c = WaitingRead \<and> ba_name ?b = name' \<and> from_sender None ?b) ?cs)"
    unfolding d' by (rule letters_append [OF assms(1)]) (use assms(2) cs in \<open>simp_all add: batch_of_def\<close>)
  ultimately show ?thesis by (auto simp: from_sender_def batch_of_def)
qed

lemma send_appends_letters:
  assumes "quiet E" "me_lan E = None" "registered E ctx (wd_db w)" "db_ok (wd_db w)"
    and "send E ctx recipients n c t batch_id w = (Inr res, w')" "find_batch (wd_db w) (br_batch res) = None"
  shows "\<exists>name content. validate_message_name (me_eval E) n = Inr name \<and> validate_message_value c = Inr content \<and>
    (\<forall>who name'. letters (wd_db w') who name' None = letters (wd_db w) who name' None @
      (if name' = name then map (sent_letter ctx name (canonical content)) (delivered_to ctx who res) else []))"
proof -
  define d where "d = wd_db w"
  obtain me w1 where me: "require_identity E ctx w = (Inr me, w1)" "same_mailbox ctx me" "wd_db w1 = d"
    using passes_identity [OF assms(1,3)] unfolding passes_def d_def by blast
  let ?store = "\<lambda>name content ttl rs batch. then_op (now_ms E) (\<lambda>created.
     then_op (store_batch E me rs name (canonical content) batch (batch_fingerprint E me rs name (canonical content) ttl)
         created (created + ttl))
       (\<lambda>result. if me_lan E = None then return_op result
         else then_op (flush_outbox E batch False) (\<lambda>_. transact E (read_result batch))))"
  let ?resolve = "\<lambda>name content ttl. then_op (resolve_recipients E (id_project me) recipients (id_trust me)) (\<lambda>rs.
     then_op (if batch_id \<noteq> [] then lift_op (validate_stable_id batch_id) else new_id E ''batch'') (?store name content ttl rs))"
  have "then_op (lift_op (validate_message_name (me_eval E) n)) (\<lambda>name.
     then_op (lift_op (message_ttl t)) (\<lambda>ttl. then_op (lift_op (validate_message_value c)) (\<lambda>content.
     guard_op ''message.content_invalid'' (length (utf8 (canonical_json (me_eval E) content)) \<le> max_content_bytes)
       (?resolve name content ttl)))) w1 = (Inr res, w')"
    using translate_Inr [OF assms(5) [unfolded send_def]] by (simp add: then_op_def [of "require_identity E ctx"] me(1) Let_def)
  then obtain name ttl content where ok: "validate_message_name (me_eval E) n = Inr name" "validate_message_value c = Inr content"
    and run: "?resolve name content ttl w1 = (Inr res, w')"
    by (cases "validate_message_name (me_eval E) n"; cases "message_ttl t"; cases "validate_message_value c")
      (simp_all add: lift_op_Inr guard_op_def raise_op_def message_fail_def split: if_split_asm)
  obtain rs w2 batch w3 created w4 res1 w5
    where rs: "resolve_recipients E (id_project me) recipients (id_trust me) w1 = (Inr rs, w2)"
      and batch: "(if batch_id \<noteq> [] then lift_op (validate_stable_id batch_id) else new_id E ''batch'') w2 = (Inr batch, w3)"
      and now: "now_ms E w3 = (Inr created, w4)"
      and stored: "store_batch E me rs name (canonical content) batch (batch_fingerprint E me rs name (canonical content) ttl)
         created (created + ttl) w4 = (Inr res1, w5)"
      and result: "(if me_lan E = None then return_op res1
         else then_op (flush_outbox E batch False) (\<lambda>_. transact E (read_result batch))) w5 = (Inr res, w')"
    using run by (elim then_op_InrE) blast
  then have same: "res1 = res" "w5 = w'" using assms(2) by (simp_all add: return_op_def)
  have "wd_db w2 = d" using steady_resolve [OF assms(1,3), folded d_def] rs me(3) unfolding steady_def by (metis snd_conv)
  moreover have "wd_db w3 = wd_db w2" using batch by (auto simp: lift_op_def new_id_def split: if_split_asm)
  moreover have "wd_db w4 = wd_db w3" using now by (auto simp: now_ms_def)
  ultimately have w4: "wd_db w4 = d" by simp
  obtain d' where "batch_result d' batch = Inr res"
    using stored assms(1) unfolding same store_batch_def
    by (auto simp: transact_def Let_def quiet_def then_op_def read_db_def read_result_def lift_op_def write_db_def raise_op_def
        message_fail_def split: prod.splits sum.splits option.splits if_split_asm)
  then have "br_batch res = batch" by (auto simp: batch_result_def find_batch_def find_Some_iff message_fail_def split: option.splits)
  with assms(6) have new: "find_batch (wd_db w4) batch = None" by (simp add: w4 d_def)
  note db = store_new_batch [OF assms(1) new stored [unfolded same]]
  have "letters (wd_db w') who name' None = letters d who name' None @
      (if name' = name then map (sent_letter ctx name (canonical content)) (delivered_to ctx who res) else [])" for who name'
    using stored_letters [OF assms(4) _ me(2), of batch "wd_db w'"] db new unfolding w4 d_def by blast
  then show ?thesis using ok unfolding d_def by blast
qed

section \<open>Who reads a message\<close>

text \<open>
  Between two databases a message was read: it waited at some moment, was marked, and everything
  before and after was the work of operations that keep the database.
\<close>

definition reads :: "message_db \<Rightarrow> received \<Rightarrow> message_db \<Rightarrow> bool" where
  "reads d r d' \<longleftrightarrow> (\<exists>d1 c t. good d d1 \<and> c \<in> set (db_copies d1) \<and> cp_message c = rx_message r \<and>
     cp_status c = WaitingRead \<and> good (mark_read (rx_message r) t d1) d')"

lemma reads_good: "good d d1 \<Longrightarrow> reads d1 r d2 \<Longrightarrow> good d2 d3 \<Longrightarrow> reads d r d3"
  unfolding reads_def using good_trans by blast

lemma claim_row_member:
  assumes "claim_row d who m n s = Some (c, b)"
  shows "c \<in> set (db_copies d)" "cp_status c = WaitingRead" "cp_message c = m"
proof -
  from assms obtain k where "(k, c, b) \<in> set (queue_rows d who)" and m: "cp_message c = m"
    by (auto simp: claim_row_def find_Some_iff) (metis nth_mem)
  then have "(k, c) \<in> set (enumerate 1 (db_copies d))" "cp_status c = WaitingRead"
    by (auto simp: queue_rows_def split: option.splits)
  then show "c \<in> set (db_copies d)" "cp_status c = WaitingRead" by (auto dest: set_zip_rightD simp: enumerate_eq_zip)
  show "cp_message c = m" by (rule m)
qed

lemma claim_body_reads:
  assumes "claim_body E who m n s w = (Inr (Some r), w')"
  shows "reads (wd_db w) r (wd_db w')"
proof -
  define d1 where "d1 = expire_copies (me_clock E (wd_clock w)) (id_project who) (wd_db w)"
  have g: "good (wd_db w) d1" by (simp add: d1_def good_expire)
  define t where "t = me_clock E (Suc (wd_clock w))"
  have run: "\<exists>w1 w2. claim_body E who m n s w = (case claim_row d1 who m n s of None \<Rightarrow> (Inr None, w1)
    | Some (c, b) \<Rightarrow> (case decoded_row d1 c b of Inl e \<Rightarrow> (Inl e, w1)
      | Inr r \<Rightarrow> if length (filter (\<lambda>x. cp_message x = m \<and> cp_status x = WaitingRead) (db_copies d1)) \<noteq> 1
          then (Inr None, w2\<lparr>wd_db := wd_db w\<rparr>)
          else (Inr (Some (r\<lparr>rx_read_at := Some t\<rparr>)), w2\<lparr>wd_db := mark_read m t d1\<rparr>)))"
    by (rule exI [of _ "w\<lparr>wd_clock := Suc (wd_clock w), wd_db := d1\<rparr>"],
        rule exI [of _ "w\<lparr>wd_clock := Suc (Suc (wd_clock w)), wd_db := d1\<rparr>"])
      (simp add: claim_body_def then_op_def read_db_def expire_def now_ms_def write_db_def lift_op_def return_op_def
        d1_def t_def split: option.split sum.split)
  have message: "rx_message r' = cp_message c" if "decoded_row d1 c b = Inr r'" for c b r'
    using that by (cases "validate_message_value (ba_content b)") (auto simp: decoded_row_def message_fail_def)
  obtain w1 w2 where run: "claim_body E who m n s w = (case claim_row d1 who m n s of None \<Rightarrow> (Inr None, w1)
    | Some (c, b) \<Rightarrow> (case decoded_row d1 c b of Inl e \<Rightarrow> (Inl e, w1)
      | Inr r \<Rightarrow> if length (filter (\<lambda>x. cp_message x = m \<and> cp_status x = WaitingRead) (db_copies d1)) \<noteq> 1
          then (Inr None, w2\<lparr>wd_db := wd_db w\<rparr>)
          else (Inr (Some (r\<lparr>rx_read_at := Some t\<rparr>)), w2\<lparr>wd_db := mark_read m t d1\<rparr>)))"
    using run by blast
  obtain c b where row: "claim_row d1 who m n s = Some (c, b)"
    using run assms by (cases "claim_row d1 who m n s") auto
  obtain r' where r': "decoded_row d1 c b = Inr r'"
    using run assms row by (cases "decoded_row d1 c b") auto
  have "r = r'\<lparr>rx_read_at := Some t\<rparr> \<and> wd_db w' = mark_read m t d1"
    using run assms row r' by (auto split: if_split_asm)
  with claim_row_member [OF row] message [OF r'] g show ?thesis unfolding reads_def
    by (intro exI [of _ d1] exI [of _ c] exI [of _ t]) simp
qed

lemma claim_reads:
  assumes "sane E" "claim_candidate E who m n s w = (Inr (Some r), w')"
  shows "reads (wd_db w) r (wd_db w')"
proof -
  obtain m' where "transact E (claim_body E who m' n s) w = (Inr (Some r), w')"
    using translate_Inr [OF assms(2) [unfolded claim_candidate_def]]
    by (cases "validate_stable_id m") (auto simp: lift_op_Inr)
  then obtain w1 where "claim_body E who m' n s w1 = (Inr (Some r), w')" "kept w w1"
    using assms(1) by (auto simp: transact_def Let_def kept_def sane_def split: option.splits prod.splits sum.splits)
  then show ?thesis using claim_body_reads reads_good [OF _ _ good_refl] unfolding kept_def by blast
qed

lemma wait_loop_result:
  assumes "keeps body" "wait_loop fuel E body deadline w = Some (Inr x, w')"
  shows "\<exists>w1 done w2. kept w w1 \<and> body w1 = (Inr (x, done), w2) \<and> kept w2 w'"
  using assms(2)
proof (induction fuel arbitrary: w)
  case (Suc n)
  obtain y w2 where step: "then_op (next_round E) (\<lambda>_. body) w = (Inr y, w2)"
    using Suc.prems by (auto split: prod.splits sum.splits)
  then obtain u w1 where w1: "next_round E w = (Inr u, w1)" "body w1 = (Inr y, w2)" by (rule then_op_InrE)
  have k1: "kept w w1" using keeps_next_round [of E] w1(1) unfolding keeps_def by (metis snd_conv)
  have k2: "kept w1 w2" using assms(1) w1(2) unfolding keeps_def by (metis snd_conv)
  define w3 where "w3 = w2\<lparr>wd_monotonic := Suc (wd_monotonic w2)\<rparr>"
  have k3: "kept w2 w3" by (simp add: w3_def)
  obtain x' b where y: "y = (x', b)" by (cases y)
  have "x' = x \<and> w2 = w' \<or> x' = x \<and> w3 = w' \<or> wait_loop n E body deadline w3 = Some (Inr x, w')"
    using Suc.prems by (simp add: step y monotonic_def w3_def [symmetric] split: if_split_asm)
  then consider "x = x'" "w' = w2" | "x = x'" "w' = w3" | "wait_loop n E body deadline w3 = Some (Inr x, w')" by blast
  then show ?case
  proof cases
    case 3
    from Suc.IH [OF this] show ?thesis using kept_trans [OF kept_trans [OF k1 k2]] kept_trans k3 by blast
  qed (use k1 w1(2) y k3 in \<open>auto intro: kept_same\<close>)
qed simp

lemma receive_round_reads:
  assumes "sane E" "receive_round E who n p w = (Inr (Some r, done), w')"
  shows "reads (wd_db w) r (wd_db w')"
proof -
  obtain cs w1 where peek: "peek_candidates E who n p None 1 w = (Inr cs, w1)"
    and rest: "(case cs of [] \<Rightarrow> return_op (None, False) | r # _ \<Rightarrow>
      then_op (claim_candidate E who (rx_message r) (Some n) p) (\<lambda>claimed. return_op (claimed, claimed \<noteq> None))) w1 =
      (Inr (Some r, done), w')"
    using assms(2) unfolding receive_round_def by (rule then_op_InrE)
  from rest obtain r0 :: received where "claim_candidate E who (rx_message r0) (Some n) p w1 = (Inr (Some r), w')"
    by (auto simp: return_op_def elim!: then_op_InrE split: list.splits)
  moreover have "kept w w1" using keeps_peek_candidates [OF assms(1)] peek unfolding keeps_def by (metis snd_conv)
  ultimately show ?thesis using claim_reads [OF assms(1)] reads_good [OF _ _ good_refl] unfolding kept_def by blast
qed

lemma wait_receive_reads:
  assumes "sane E" "wait_receive fuel E ctx n s t w = Some (Inr (Some r), w')"
  shows "reads (wd_db w) r (wd_db w')"
proof -
  have prepare: "keeps (then_op (receive_filter E ctx n s) (\<lambda>f. then_op (lift_op (timeout t)) (\<lambda>t.
      then_op (deadline_after E t) (\<lambda>deadline. return_op (f, deadline)))))"
    by (intro keeps_intros assms(1))
  obtain who name parts deadline w1 where "kept w w1"
    and loop: "wait_loop fuel E (receive_round E who name parts) deadline w1 = Some (Inr (Some r), w')"
    using assms(2) prepare unfolding wait_receive_def looped_def keeps_def
    by (auto split: prod.splits sum.splits elim!: translate_result.elims) (metis snd_conv)+
  obtain w2 b w3 where "kept w1 w2" "receive_round E who name parts w2 = (Inr (Some r, b), w3)" "kept w3 w'"
    using wait_loop_result [OF keeps_receive_round [OF assms(1)] loop] by blast
  with \<open>kept w w1\<close> receive_round_reads [OF assms(1)] show ?thesis
    unfolding kept_def using reads_good good_trans by blast
qed

section \<open>The history of a database\<close>

text \<open>
  Any number of processes work on the database, one transaction or operation after the other; the
  history keeps the identifiers of the messages that were received, in order.
\<close>

inductive history :: "message_db \<Rightarrow> string list \<Rightarrow> message_db \<Rightarrow> bool" for d where
  start: "history d [] d"
| other: "history d ms d' \<Longrightarrow> good d' d'' \<Longrightarrow> history d ms d''"
| claim: "history d ms (wd_db w) \<Longrightarrow> sane E \<Longrightarrow> claim_candidate E who m n s w = (Inr (Some r), w') \<Longrightarrow>
    history d (ms @ [rx_message r]) (wd_db w')"
| receive: "history d ms (wd_db w) \<Longrightarrow> sane E \<Longrightarrow> wait_receive fuel E ctx name s t w = Some (Inr (Some r), w') \<Longrightarrow>
    history d (ms @ [rx_message r]) (wd_db w')"

definition outgoing :: "message_db \<Rightarrow> string set" where
  "outgoing d = cp_message ` {c \<in> set (db_copies d). cp_transport c = Lan}"

definition settled :: "string list \<Rightarrow> message_db \<Rightarrow> bool" where
  "settled ms d \<longleftrightarrow> db_ok d \<and> (\<forall>m \<in> set ms. \<exists>c \<in> set (db_copies d). cp_message c = m \<and>
     (cp_transport c \<noteq> Lan \<longrightarrow> cp_status c = Read)) \<and> distinct (filter (\<lambda>m. m \<notin> outgoing d) ms)"

lemma copy_unique: "db_ok d \<Longrightarrow> c \<in> set (db_copies d) \<Longrightarrow> c' \<in> set (db_copies d) \<Longrightarrow> cp_message c = cp_message c' \<Longrightarrow> c = c'"
  by (auto simp: db_ok_def distinct_map dest: inj_onD)

lemma copy_evolves:
  assumes "evolves d d'" "c \<in> set (db_copies d)"
  obtains c' where "c' \<in> set (db_copies d')" "copy_moves c c'"
  using assms extends_member unfolding evolves_def by metis

lemma outgoing_iff:
  assumes "db_ok d" "c \<in> set (db_copies d)"
  shows "cp_message c \<in> outgoing d \<longleftrightarrow> cp_transport c = Lan"
proof
  assume "cp_message c \<in> outgoing d"
  then obtain x where "x \<in> set (db_copies d)" "cp_transport x = Lan" "cp_message x = cp_message c" by (auto simp: outgoing_def)
  then show "cp_transport c = Lan" using copy_unique [OF assms(1) _ assms(2)] by metis
qed (use assms in \<open>simp add: outgoing_def\<close>)

lemma outgoing_evolves:
  assumes "good d d'" "db_ok d" "c \<in> set (db_copies d)"
  shows "cp_message c \<in> outgoing d' \<longleftrightarrow> cp_message c \<in> outgoing d"
proof -
  have "evolves d d'" "db_ok d'" using assms by (simp_all add: good_def)
  obtain c' where c': "c' \<in> set (db_copies d')" "copy_moves c c'" using copy_evolves [OF \<open>evolves d d'\<close> assms(3)] .
  then have "cp_message c' = cp_message c" "cp_transport c' = cp_transport c" by (simp_all add: copy_moves_def)
  with outgoing_iff [OF \<open>db_ok d'\<close> c'(1)] outgoing_iff [OF assms(2,3)] show ?thesis by simp
qed

lemma settled_good:
  assumes "settled ms d" "good d d'"
  shows "settled ms d'"
proof -
  have ok: "db_ok d" "db_ok d'" "evolves d d'" using assms by (auto simp: settled_def good_def)
  have "\<exists>c \<in> set (db_copies d'). cp_message c = m \<and> (cp_transport c \<noteq> Lan \<longrightarrow> cp_status c = Read)" if m: "m \<in> set ms" for m
  proof -
    obtain c where c: "c \<in> set (db_copies d)" "cp_message c = m" "cp_transport c \<noteq> Lan \<longrightarrow> cp_status c = Read"
      using assms(1) m unfolding settled_def by blast
    obtain c' where "c' \<in> set (db_copies d')" "copy_moves c c'" using copy_evolves [OF ok(3) c(1)] .
    with c(2,3) show ?thesis by (auto simp: copy_moves_def waiting_def intro!: bexI [of _ c'])
  qed
  moreover have "filter (\<lambda>m. m \<notin> outgoing d') ms = filter (\<lambda>m. m \<notin> outgoing d) ms"
  proof (rule filter_cong)
    fix m assume "m \<in> set ms"
    then obtain c where "c \<in> set (db_copies d)" "cp_message c = m" using assms(1) unfolding settled_def by blast
    then show "(m \<notin> outgoing d') = (m \<notin> outgoing d)" using outgoing_evolves [OF assms(2) ok(1)] by blast
  qed simp
  ultimately show ?thesis using assms(1) ok(2) by (simp add: settled_def)
qed

lemma settled_reads:
  assumes "settled ms d" "reads d r d'"
  shows "settled (ms @ [rx_message r]) d'"
proof -
  obtain d1 c t where d1: "good d d1" "c \<in> set (db_copies d1)" "cp_message c = rx_message r" "cp_status c = WaitingRead"
    "good (mark_read (rx_message r) t d1) d'" using assms(2) unfolding reads_def by blast
  have s1: "settled ms d1" by (rule settled_good [OF assms(1) d1(1)])
  then have ok1: "db_ok d1" by (simp add: settled_def)
  have fresh: "rx_message r \<notin> set (filter (\<lambda>m. m \<notin> outgoing d1) ms)"
  proof
    assume r: "rx_message r \<in> set (filter (\<lambda>m. m \<notin> outgoing d1) ms)"
    then obtain c1 where c1: "c1 \<in> set (db_copies d1)" "cp_message c1 = rx_message r" "cp_transport c1 \<noteq> Lan \<longrightarrow> cp_status c1 = Read"
      using s1 unfolding settled_def by auto
    then have "c1 = c" using copy_unique [OF ok1] d1(2,3) by metis
    moreover have "cp_transport c \<noteq> Lan" using r d1(2,3) by (force simp: outgoing_def)
    ultimately show False using c1(3) d1(4) by simp
  qed
  let ?d2 = "mark_read (rx_message r) t d1"
  have s2: "settled ms ?d2" by (rule settled_good [OF s1 good_mark_read])
  have "\<exists>c \<in> set (db_copies ?d2). cp_message c = rx_message r \<and> (cp_transport c \<noteq> Lan \<longrightarrow> cp_status c = Read)"
  proof
    let ?g = "\<lambda>c. if cp_message c = rx_message r \<and> cp_status c = WaitingRead
      then c\<lparr>cp_status := Read, cp_read_at := Some t\<rparr> else c"
    have "db_copies ?d2 = map ?g (db_copies d1)" by (simp add: mark_read_def)
    then show "?g c \<in> set (db_copies ?d2)" using d1(2) by (simp only: set_map) (rule imageI)
    show "cp_message (?g c) = rx_message r \<and> (cp_transport (?g c) \<noteq> Lan \<longrightarrow> cp_status (?g c) = Read)"
      using d1(3,4) by simp
  qed
  moreover have "rx_message r \<in> outgoing ?d2 \<longleftrightarrow> rx_message r \<in> outgoing d1"
    using outgoing_evolves [OF good_mark_read ok1 d1(2), of "rx_message r" t] d1(3) by simp
  moreover have "filter (\<lambda>m. m \<notin> outgoing ?d2) ms = filter (\<lambda>m. m \<notin> outgoing d1) ms"
  proof (rule filter_cong)
    fix m assume "m \<in> set ms"
    then obtain c where "c \<in> set (db_copies d1)" "cp_message c = m" using s1 unfolding settled_def by blast
    then show "(m \<notin> outgoing ?d2) = (m \<notin> outgoing d1)" using outgoing_evolves [OF good_mark_read ok1] by blast
  qed simp
  ultimately have "settled (ms @ [rx_message r]) ?d2" using s2 fresh by (auto simp: settled_def)
  then show ?thesis by (rule settled_good [OF _ d1(5)])
qed

lemma history_settled: "history d ms d' \<Longrightarrow> db_ok d \<Longrightarrow> settled ms d'"
proof (induction rule: history.induct)
  case start
  then show ?case by (simp add: settled_def)
next
  case (other ms d' d'')
  then show ?case using settled_good by blast
next
  case (claim ms w E who m n s r w')
  then show ?case using settled_reads claim_reads by blast
next
  case (receive ms w E fuel ctx name s t r w')
  then show ?case using settled_reads wait_receive_reads by blast
qed

end
