(* ===== verification/Message_Properties.thy ===== *)
theory Message_Properties
  imports Message_Delivery
begin

text \<open>
  What the message runtime guarantees: a message is read once, the tables stay consistent under
  any interleaving, sending and receiving are first-in first-out on mailboxes, the content check
  is exact, references give back their parts. The witnesses run on a database with two
  registered instances, one of them with a message waiting.
\<close>

section \<open>A small database\<close>

definition calm_eval :: eval_env where
  "calm_eval = \<lparr>ev_round = (\<lambda>q. q), ev_text = (\<lambda>v. ''?''), ev_attribute = (\<lambda>v a. None), ev_percent = (\<lambda>s v. Inr (PStr s)),
    ev_datetime = (\<lambda>s. None), ev_resource_function = [], ev_operation = (\<lambda>i v f. Inr PNone)\<rparr>"

definition calm :: message_env where
  "calm = \<lparr>me_eval = calm_eval, me_display_key = (\<lambda>s. s), me_digest = (\<lambda>s. s), me_clock = (\<lambda>k. 1000 + int k mod 2),
    me_monotonic = (\<lambda>k. of_nat k), me_uuid = (\<lambda>k. ''0''), me_others = (\<lambda>k d. d), me_fault = (\<lambda>k. None),
    me_cancelled = (\<lambda>k. False), me_checkpoint = (\<lambda>k. None), me_lan = None\<rparr>"

definition party_row :: "string \<Rightarrow> instance_row" where
  "party_row i = \<lparr>in_project = ''p'', in_host = ''h'', in_id = i, in_endpoint = i, in_kind = ''ide_debug'', in_trust = ''p'',
    in_display = i, in_display_key = i, in_created = 1, in_seen = 1\<rparr>"

definition party_identity :: "string \<Rightarrow> identity" where
  "party_identity i = \<lparr>id_project = ''p'', id_host = ''h'', id_instance = i, id_display = i, id_trust = ''p''\<rparr>"

definition small_db :: message_db where
  "small_db = \<lparr>db_host = Some ''h'', db_instances = [party_row ''a'', party_row ''b''],
     db_batches = [\<lparr>ba_id = ''b1'', ba_project = ''p'', ba_host = ''h'', ba_sender = ''a'', ba_sender_display = ''a'',
        ba_name = ''n'', ba_content = PInt 7, ba_hash = [], ba_created = 500, ba_expires = 5000, ba_fingerprint = []\<rparr>],
     db_copies = [new_copy ''message_b1_1'' ''b1'' ''p'' ''h'' ''b'' ''b'' WaitingRead 500 5000 Local None]\<rparr>"

definition small_world :: world where
  "small_world = \<lparr>wd_db = small_db, wd_clock = 0, wd_monotonic = 0, wd_ids = 0, wd_transactions = 0, wd_rounds = 0, wd_requests = 0\<rparr>"

lemma calm_quiet: "quiet calm" and calm_sane: "sane calm" and calm_alone: "me_lan calm = None"
  by (simp_all add: quiet_def sane_def calm_def)

lemma small_ok: "db_ok small_db"
  by (simp add: db_ok_def small_db_def instances_unique_def party_row_def instance_key_def copy_ok_def new_copy_def)

lemma small_registered: "i \<in> {''a'', ''b''} \<Longrightarrow> registered calm (party_identity i) small_db"
  by (auto simp: registered_def small_db_def party_identity_def party_row_def calm_def find_instance_def instance_key_def
      validate_project_namespace_def strip_def is_space_def controls_free_def code_def stable_text_def is_letter_def Let_def)

lemma small_timely: "timely calm small_db"
proof -
  have "1000 + int k mod 2 < 5000" for k by (simp add: order_less_trans [OF pos_mod_bound])
  then show ?thesis by (simp add: timely_def small_db_def calm_def new_copy_def)
qed

lemma small_letters: "letters small_db (party_identity ''b'') ''n'' None =
    [\<lparr>le_message = ''message_b1_1'', le_name = ''n'', le_sender = (''h'', ''a''), le_content = PInt 7\<rparr>]"
  by code_simp

lemma small_ready: "inbox_ready calm (party_identity ''b'') (PStr ''n'') ''n'' (PInt 10) small_world"
proof -
  have "validate_message_name (me_eval calm) (PStr ''n'') = Inr ''n''" "\<not> isl (timeout (PInt 10))"
    by code_simp+
  moreover have "legible \<lparr>le_message = ''message_b1_1'', le_name = ''n'', le_sender = (''h'', ''a''), le_content = PInt 7\<rparr>"
    by code_simp
  ultimately show ?thesis
    by (simp add: inbox_ready_def calm_quiet small_world_def small_registered small_timely small_ok small_letters)
qed

definition small_send :: "batch_report mp \<times> world" where
  "small_send = send calm (party_identity ''a'') (PList [reference ''h'' ''b'']) (PStr ''n'') (PStr ''hello'') (PInt 60000) ''b2'' small_world"

lemma small_text: "length (utf8 (canonical_json (me_eval calm) (PStr ''hello''))) = 7"
  by code_simp

lemma small_fits: "length (utf8 (canonical_json (me_eval calm) (PStr ''hello''))) \<le> max_content_bytes"
  unfolding small_text by (simp add: max_content_bytes_def)

lemma small_parts:
  "require_identity calm (party_identity ''a'') small_world = (Inr (party_identity ''a''), small_world\<lparr>wd_transactions := 2\<rparr>)"
  "validate_message_name (me_eval calm) (PStr ''n'') = Inr ''n''"
  "message_ttl (PInt 60000) = Inr 60000"
  "validate_message_value (PStr ''hello'') = Inr (PStr ''hello'')"
  "resolve_recipients calm ''p'' (PList [reference ''h'' ''b'']) ''p'' (small_world\<lparr>wd_transactions := 2\<rparr>) =
    (Inr [\<lparr>rc_host = ''h'', rc_instance = ''b'', rc_display = ''b'', rc_remote = False\<rparr>], small_world\<lparr>wd_transactions := 4\<rparr>)"
  "validate_stable_id ''b2'' = Inr ''b2''" "nat_text 1 = ''1''"
  by code_simp+

lemma party_fields: "id_project (party_identity i) = ''p''" "id_host (party_identity i) = ''h''"
  "id_instance (party_identity i) = i" "id_trust (party_identity i) = ''p''"
  by (simp_all add: party_identity_def)

lemma small_stored: "\<exists>w'. small_send = (Inr \<lparr>br_batch = ''b2'', br_name = ''n'', br_created = 1000, br_expires = 61000,
    br_recipients = [copy_result (new_copy ''message_b2_1'' ''b2'' ''p'' ''h'' ''b'' ''b'' WaitingRead 1000 61000 Local None)]\<rparr>, w')"
  by (simp add: small_send_def send_def small_parts small_fits then_op_def lift_op_def guard_op_def Let_def translate_def calm_alone
      party_fields return_op_def)
    (use small_parts(7) in \<open>simp add: now_ms_def store_batch_def transact_def read_db_def write_db_def read_result_def return_op_def
      then_op_def lift_op_def Let_def party_fields
      small_world_def small_db_def calm_def find_batch_def copies_for_def insert_copy_def find_copy_def new_copy_def recipient_key_def
      batch_result_def copies_of_def batch_of_def\<close>)

section \<open>Properties\<close>

text \<open>C35. Whatever processes do to the database in between, no message on the device of its reader is
  received twice, neither by waiting for messages nor by claiming a candidate.\<close>

theorem messages_read_once:
  assumes "db_ok d" "history d ms d'"
  shows "distinct (filter (\<lambda>m. m \<notin> outgoing d') ms)"
  using history_settled [OF assms(2,1)] by (simp add: settled_def)

lemma small_history: "\<exists>d'. history small_db [''message_b1_1''] d'"
proof -
  obtain r w' where r: "receive calm (party_identity ''b'') (PStr ''n'') (PInt 10) 0 small_world = Some (r, w')"
    "shows_letter r \<lparr>le_message = ''message_b1_1'', le_name = ''n'', le_sender = (''h'', ''a''), le_content = PInt 7\<rparr>"
    using inbox_serves [OF small_ready, of _ "[]" 0] small_letters by (auto simp: small_world_def)
  then have "wait_receive (Suc 0) calm (party_identity ''b'') (PStr ''n'') PNone (PInt 10) small_world = Some (Inr (Some r), w')"
    by (auto simp: receive_def split: option.splits sum.splits prod.splits)
  then have "history small_db ([] @ [rx_message r]) (wd_db w')"
    by (intro history.receive [OF _ calm_sane]) (auto simp: small_world_def intro: history.start)
  then show ?thesis using r(2) by (auto simp: shows_letter_def)
qed

theorem messages_read_once_witness:
  "\<exists>d'. distinct (filter (\<lambda>m. m \<notin> outgoing d') [''message_b1_1'']) \<and> history small_db [''message_b1_1''] d'"
  using small_history messages_read_once [OF small_ok] by blast

text \<open>One operation of one process, from the call to its return or its error.\<close>

inductive operation :: "message_env \<Rightarrow> world \<Rightarrow> world \<Rightarrow> bool" for E where
  host: "operation E w (snd (host_id E w))"
| register: "operation E w (snd (register_instance E project name inst endpoint kind trust w))"
| rename: "operation E w (snd (rename_instance E project inst name w))"
| enter: "operation E w (snd (instance_context E project inst name endpoint w))"
| send: "operation E w (snd (send E ctx recipients n content ttl batch w))"
| cancel: "operation E w (snd (cancel E ctx v recipient w))"
| flush: "operation E w (snd (flush_outbox E batch force w))"
| offer: "operation E w (snd (handle_lan_offer E peer payload w))"
| status: "operation E w (snd (handle_lan_status E peer payload w))"
| revoke: "operation E w (snd (handle_lan_cancel E peer payload w))"
| cursor: "operation E w (snd (receive_snapshot_cursor E ctx w))"
| peek: "operation E w (snd (peek_receive_candidates E ctx n s rowid limit w))"
| claim: "operation E w (snd (claim_receive_candidate E ctx m en s w))"
| diagnose: "operation E w (snd (diagnostic_snapshot E project w))"
| wait_receive: "wait_receive fuel E ctx n s t w = Some (r, w') \<Longrightarrow> operation E w w'"
| wait_read: "wait_read fuel E ctx v mode t w = Some (r, w') \<Longrightarrow> operation E w w'"
| execute: "execute fuel E legacy opcode g args ctx w = Some (r, w') \<Longrightarrow> operation E w w'"

lemma keeps_kept: "keeps m \<Longrightarrow> kept w (snd (m w))"
  by (simp add: keeps_def)

lemma operation_kept:
  assumes "operation E w w'" "sane E"
  shows "kept w w'"
  using assms(1)
proof cases
  case (wait_receive fuel ctx n s t r)
  then show ?thesis using wait_receive_keeps [OF assms(2)] unfolding loop_keeps_def by blast
next
  case (wait_read fuel ctx v mode t r)
  then show ?thesis using wait_read_keeps [OF assms(2)] unfolding loop_keeps_def by blast
next
  case (execute fuel legacy opcode g args ctx r)
  then show ?thesis using execute_keeps [OF assms(2)] unfolding loop_keeps_def by blast
qed (auto intro!: keeps_kept keeps_intros assms(2))



text \<open>C37. On a machine where nobody interferes, receiving is first-in first-out on the abstract
  mailbox: any number of receives gives that many of its letters, in order and with their
  contents and senders, and leaves the rest.\<close>

theorem receive_in_order:
  assumes "inbox_ready E ctx n name t w" and "k \<le> length (letters (wd_db w) ctx name None)"
  shows "\<exists>rs w'. take_times k (receive E ctx n t fuel) w = Some (rs, w') \<and>
    list_all2 shows_letter rs (take k (letters (wd_db w) ctx name None)) \<and>
    letters (wd_db w') ctx name None = drop k (letters (wd_db w) ctx name None)"
  using inbox.served_in_order [OF assms, of fuel] by blast

theorem receive_in_order_witness:
  "\<exists>rs w'. take_times 1 (receive calm (party_identity ''b'') (PStr ''n'') (PInt 10) 0) small_world = Some (rs, w') \<and>
    list_all2 shows_letter rs [\<lparr>le_message = ''message_b1_1'', le_name = ''n'', le_sender = (''h'', ''a''), le_content = PInt 7\<rparr>] \<and>
    letters (wd_db w') (party_identity ''b'') ''n'' None = []"
proof -
  have l: "letters (wd_db small_world) (party_identity ''b'') ''n'' None =
      [\<lparr>le_message = ''message_b1_1'', le_name = ''n'', le_sender = (''h'', ''a''), le_content = PInt 7\<rparr>]"
    by (simp add: small_world_def small_letters)
  show ?thesis using receive_in_order [OF small_ready, of 1 0] unfolding l by simp
qed



text \<open>C39. The check of a content, with its running counter and its early returns, accepts exactly the
  contents with integers of 64 bits, text keys, at most 64 levels and at most 10,000 values, and
  returns them unchanged.\<close>

theorem content_check_exact:
  "validate_message_value v =
     (if plain_content v \<and> content_depth v \<le> max_content_depth \<and> content_items v \<le> max_content_items
      then Inr v else content_invalid)"
  by (rule validate_message_value_exact)

text \<open>C40. A reference made for a host and an instance gives both back, whatever the rendering of other
  values.\<close>

theorem reference_round_trip:
  assumes "stable_text host" and "stable_text inst"
  shows "reference_parts V (reference host inst) = Inr (host, inst)"
  by (rule reference_parts_reference [OF assms])

theorem reference_round_trip_witness: "reference_parts calm_eval (reference ''host_1'' ''player-2.x'') = Inr (''host_1'', ''player-2.x'')"
  by (rule reference_round_trip) code_simp+

section \<open>Where the code surprises\<close>

text \<open>
  The identifier of a copy is that of its batch with an index, and the claim accepts at most 128
  characters: what is sent with a batch identifier of more than 118 characters cannot be received.
\<close>

lemma long_batch_unreadable:
  assumes "stable_text batch" "118 < length batch"
  shows "claim_candidate E who (''message_'' @ batch @ ''_'' @ nat_text i) name sender w =
    (message_fail ''message.instance_invalid'', w)"
proof -
  let ?m = "''message_'' @ batch @ ''_'' @ nat_text i"
  have digits: "list_all (\<lambda>c. \<not> is_space c) (nat_text k) \<and> nat_text k \<noteq> []" for k
  proof (induction k rule: nat_text.induct)
    case (1 k)
    have "\<not> is_space (char_of (48 + n))" if "n < 10" for n :: nat
    proof -
      have "n \<in> {0, 1, 2, 3, 4, 5, 6, 7, 8, 9}" using that by auto
      then show ?thesis by (auto simp: is_space_def)
    qed
    then show ?case using 1 by (subst nat_text.simps) (auto simp: nat_text.simps [of k])
  qed
  have "list_all (\<lambda>c. \<not> is_space c) batch"
    using stable_text_chars [OF assms(1)] stable_char_not_space by (auto simp: list_all_iff)
  then have "list_all (\<lambda>c. \<not> is_space c) ?m" using digits [of i] by (simp add: is_space_def)
  then have "strip ?m = ?m" by (rule strip_id)
  moreover have "nat_text i \<noteq> []" using digits by blast
  then have "119 < length batch + length (nat_text i)" using assms(2) by (cases "nat_text i") simp_all
  then have "\<not> stable_text ?m" by (simp add: stable_text_def)
  ultimately show ?thesis
    by (simp add: claim_candidate_def validate_stable_id_def Let_def message_fail_def translate_def lift_op_def)
qed

text \<open>
  A sender filter is looked up among the registered instances; these all belong to this host, so
  a filter for a remote sender is an error, whatever is in the mailbox.
\<close>

lemma remote_sender_refused:
  assumes "quiet E" "registered E ctx (wd_db w)" "validate_message_name (me_eval E) n = Inr name"
    and "stable_text host" "stable_text inst" "\<forall>r \<in> set (db_instances (wd_db w)). in_host r \<noteq> host"
  shows "fst (receive_filter E ctx n (reference host inst) w) = message_fail ''message.instance_unknown''"
proof -
  obtain who w1 where "require_identity E ctx w = (Inr who, w1)" "wd_db w1 = wd_db w"
    using passes_identity [OF assms(1,2)] unfolding passes_def by blast
  moreover have "find_instance (wd_db w) p host inst = None" for p
    using assms(6) by (auto simp: find_instance_def find_None_iff instance_key_def)
  ultimately show ?thesis using assms(1)
    by (simp add: receive_filter_def then_op_def [of "require_identity E ctx"] assms(3) reference_def [symmetric]
        reference_parts_reference [OF assms(4,5)] translate_def transact_def Let_def quiet_def read_db_def
        then_op_def raise_op_def lift_op_def message_fail_def) (simp add: reference_def)
qed

text \<open>
  The reply of another device is stored whatever the copy's status is by then: a reply that was
  overtaken takes a copy back from a final status.
\<close>

lemma late_reply_reopens:
  assumes "quiet E" "c \<in> set (db_copies (wd_db w))" "cp_transport c = Lan" "ws_status s = ''waiting_read''"
  shows "\<exists>c' \<in> set (db_copies (wd_db (snd (apply_remote_status E (cp_message c) s w)))).
    cp_message c' = cp_message c \<and> cp_status c' = WaitingRead"
proof -
  let ?g = "\<lambda>now c. c\<lparr>cp_status := WaitingRead, cp_read_at := ws_read_at s, cp_cancelled_at := ws_cancelled_at s,
    cp_failure := text_or_null (ws_failure s), cp_accepted := (case cp_accepted c of None \<Rightarrow> Some now | a \<Rightarrow> a),
    cp_last_transport := Some now, cp_attempts := Suc (cp_attempts c), cp_error := None\<rparr>"
  let ?now = "me_clock E (wd_clock w)"
  have "wd_db (snd (apply_remote_status E (cp_message c) s w)) =
      update_copies (\<lambda>x. cp_message x = cp_message c \<and> cp_transport x = Lan) (?g ?now) (wd_db w)"
    using assms(1,4) by (simp add: apply_remote_status_def then_op_def now_ms_def transact_def quiet_def Let_def
        read_db_def write_db_def remote_status_value_def)
  then have "?g ?now c \<in> set (db_copies (wd_db (snd (apply_remote_status E (cp_message c) s w))))"
    using assms(2,3) by (simp add: image_iff) (rule bexI [of _ c], simp_all)
  then show ?thesis by (rule bexI [rotated]) simp
qed

end
