(* ===== verification/Spec2Isabelle.thy ===== *)
theory Spec2Isabelle
  imports Samples Mutation_Properties Graph_Properties Linked_Properties Message_Properties
begin

text \<open>
  Easycode is an editor and a runtime for visual automation programs. An author builds a program
  from typed statements in a structural editor; the validator checks it; the compiler and the
  linker turn the functions of a project into instructions; the interpreter runs them against
  targets (windows, devices) and exchanges messages with other instances. The files of a project
  change by journaled mutations, and page graphs answer how to get from one page of an
  application to another. This development models that core of the Python code under
  \<^verbatim>\<open>src/core\<close> and proves what makes it correct.

  \<^bold>\<open>Conventions.\<close> A class or a table row is a record, a tagged union a datatype, Python's integers are
  \<open>int\<close>, floats finite rationals, texts lists of characters, and a dictionary that keeps its order
  an association list. A raised exception is the left side of a sum, so every early return and
  every \<^verbatim>\<open>raise\<close> is a branch. Mutable state is passed explicitly. What the code does not define itself
  is a parameter, collected in an environment record of the component: registries of contracts,
  rendering of values, clocks, identifiers, digests, drivers, other processes.

  \<^bold>\<open>The theories\<close>, in the order of the pipeline.

  \<^item> \<open>Prelude\<close>: results of fallible operations, insertion-ordered dictionaries, lists edited by index,
    and the named collections of the component proofs.

  \<^item> \<open>Program_Values\<close>, \<open>Program_Types\<close>: the value nodes, statements, functions and documents of
    \<^verbatim>\<open>program_types.py\<close> with the checks of their constructors. \<open>Type_Compat\<close>: the relation
    \<^verbatim>\<open>types_compatible\<close> on type texts, shown to be reflexive and what its members are.

  \<^item> \<open>Program_Validation\<close>: \<^verbatim>\<open>validate_program_document\<close> of \<^verbatim>\<open>program_validation.py\<close>. A statement becomes
    a plan, a list of diagnostics and of inner blocks with the symbols they see, and one
    traversal runs the plans. \<open>Scope_Soundness\<close> states what no diagnostic means without the
    validator: definite assignment, jumps inside loops only, typed reads.

  \<^item> \<open>Statement_Edit\<close>, \<open>Program_Json\<close>, \<open>Program_Commands\<close>: the commands of \<^verbatim>\<open>program_commands.py\<close>. The
    code edits lists of a dumped document in place; here a cursor is a path into the forest of
    statements. \<open>Program_Decode\<close> reads dumps back, \<open>Program_Clipboard\<close> copies and pastes: the walk over a
    snapshot, the clone with fresh identifiers, and its reading. \<open>Draft_Validation\<close> and \<open>Command_Properties\<close> prove the invariant of drafts and that
    insertion, move and deletion neither lose nor duplicate a statement.

  \<^item> \<open>Mutation_Transaction\<close>: \<^verbatim>\<open>mutation.py\<close> as runs that keep all intermediate states of the disk, so a
    crash is any state of a run. \<open>Mutation_Recovery\<close>, \<open>Mutation_Properties\<close>: all or nothing, and what a
    recovery after a crash restores.

  \<^item> \<open>Graph_Model\<close>: \<^verbatim>\<open>graph/builder.py\<close> and \<^verbatim>\<open>graph/pathfinder.py\<close>. \<open>Graph_Search\<close>, \<open>Graph_Cycle\<close>,
    \<open>Graph_Properties\<close>: shortest paths, the exact reachable set, the verdict on cycles.

  \<^item> \<open>Runtime_Values\<close>, \<open>Pure_Operations\<close>: the values of \<^verbatim>\<open>runtime.py\<close>, its \<^verbatim>\<open>_value\<close> and \<^verbatim>\<open>_pure_operation\<close>.
    \<open>Runtime_Eval\<close>, \<open>Value_Semantics\<close>: a meaning of typed values, and that lowering followed by
    evaluation gives it. \<open>Runtime_Types\<close>: the runtime test of values against types and constraints of
    \<^verbatim>\<open>project_variables_v6.py\<close>, sound for the static relation.

  \<^item> \<open>Runtime_Session\<close>, \<open>Runtime_Exec\<close>: the state of a run and the interpreter \<^verbatim>\<open>_execute_block\<close> with calls,
    loops, retries, catches, target scopes, listeners and pauses. \<open>Runtime_Laws\<close> holds the locale of
    callers that keep the session in order, interpreted on the calls of the model at every depth.
    \<open>Error_Sources\<close> and \<open>Runtime_Safety\<close> follow two errors through a run, in the same way.

  \<^item> \<open>Program_Compile\<close>, \<open>Program_Link\<close>: \<^verbatim>\<open>compile_program_document\<close> and \<^verbatim>\<open>compile_program_bundle\<close> of
    \<^verbatim>\<open>program_compiler.py\<close>. \<open>Compile_Properties\<close>, \<open>Compile_Soundness\<close>, \<open>Link_Properties\<close>, \<open>Program_Safety\<close>
    and \<open>Linked_Properties\<close> carry the static guarantees through the pipeline to a run.

  \<^item> \<open>Message_Values\<close>, \<open>Message_References\<close>, \<open>Message_Store\<close>, \<open>Message_Queue\<close>, \<open>Message_Operations\<close>: the message
    runtime \<^verbatim>\<open>message_runtime_v6.py\<close>. The database is a record of tables; an operation is a sequence
    of transactions, and before each of them other processes may change the tables. \<open>Message_Content\<close>
    states the bounds of a content without the counter of the code. \<open>Message_Laws\<close> proves
    the invariant of the tables by rely and guarantee: every operation changes the database only
    in the way it lets the others change it. \<open>Message_Mailbox\<close> and \<open>Message_Delivery\<close> are the abstract
    view, a queue of letters for each recipient and name; the locale \<open>fifo\<close> states what a queue
    promises and is interpreted on the receive operation. \<open>Message_Properties\<close> collects the results.

  \<^item> \<open>Samples\<close>: one small program on which the theorems about documents are evaluated.

  \<^bold>\<open>How the parts meet.\<close> The editor ends every command with the validator; the compiler runs the
  validator again and refuses what it reports; the linker overlays the contracts of project
  functions and compiles the functions reachable from the entry; the interpreter calls compiled
  functions through their table, and messages through a parameter that stands for the message
  runtime. Properties C1 to C12 are about validator and editor, C13 to C16 about mutations, C17 to
  C21 about graphs, C22 to C29 about values and runs, C30 to C34 about the pipeline from document to
  run, C35 to C40 about messages.

  \<^bold>\<open>Bounds and fuel.\<close> Calls nest to a depth of 100 and a while loop runs at most 1,000,000 rounds, both
  limits of the code; the interpreter recurses over the remaining depth and is total. The
  depth-first search of the linker takes fuel, and as many levels as there are functions suffice
  (C32); so do as many stack frames as nodes for the detection of cycles (C20). Path search has the
  code's limit of 100 steps. The waiting loops of the message runtime take fuel for their
  rounds, and a result of \<open>None\<close> is a loop that has not ended; with a waiting letter one round is
  enough (C37). A clock is a sequence of readings; a cancel request and a
  database failure are given for each round and transaction.

  \<^bold>\<open>Not modelled\<close>, because it is input and output or foreign code: the drivers of targets, windows
  and devices, networking, files, extensions, capture and vision, the secure channel between
  devices, packaging, updates and the HTTP routes, and loading and saving of documents. Schedules are
  left out too: their calendars rest on time zone tables. Of modelled components left out: pure operations on dates, letter case, regular expressions, geometry and
  file references (a parameter); debug tables, capabilities and override slots of the compiler;
  the schema migration of the message database; the wording of messages. Not
  finite floats and characters above Latin-1 have no value in the model.

  \<^bold>\<open>Where code and intention part.\<close> Some lemmas state behaviour that surprises: a crash while a mutation
  is staged blocks recovery (C16), the literal of a path cannot be the default of a parameter of
  type path (\<open>Runtime_Properties\<close>), a recovery that is torn, a file replaced by a directory
  (\<open>Mutation_Properties\<close>), and three about messages at the end of \<open>Message_Properties\<close>.
\<close>

section \<open>Validated programs\<close>

text \<open>C1. A program the validator has no diagnostic for binds every local variable before any
  value reads it, on every path through its blocks.\<close>

theorem validated_program_assigns_before_use:
  assumes "validate_program_document E d = []"
  shows "definitely_assigned (parameter_symbols d) (doc_statements d)"
  using block_definitely_assigned [OF document_block_clean [OF assms]] by (simp add: dom_initial_symbols)

theorem validated_program_assigns_before_use_witness:
  "definitely_assigned (parameter_symbols sample_document) (doc_statements sample_document)"
  by (rule validated_program_assigns_before_use [OF sample_validated])

text \<open>C2. In a validated program every break and continue stands inside a loop of the same function.\<close>

theorem validated_program_jumps_in_loops:
  assumes "validate_program_document E d = []"
  shows "jumps_in_loops False (doc_statements d)"
  using block_jumps_in_loops [OF document_block_clean [OF assms]] by simp

theorem validated_program_jumps_in_loops_witness: "jumps_in_loops False (doc_statements sample_document)"
  by (rule validated_program_jumps_in_loops [OF sample_validated])

text \<open>C3. A value that validates reads a local only where it is in scope and at a type its
  declaration is compatible with; selector bindings shadow nothing outside the selector.\<close>

theorem validated_value_reads_typed:
  assumes "validate_value E sid selector_allowed expected syms v = []" and "(s, t) \<in> typed_reads v"
  shows "\<exists>declared. syms s = Some declared \<and> types_compatible declared t"
  by (rule validate_value_typed_reads [OF assms])

theorem validated_value_reads_typed_witness:
  "\<exists>declared. [''x'' \<mapsto> ''int64''] ''x'' = Some declared \<and> types_compatible declared ''int64''"
proof (rule validated_value_reads_typed [where syms = "[''x'' \<mapsto> ''int64'']" and s = "''x''"])
  show "validate_value sample_env ''s'' False None [''x'' \<mapsto> ''int64''] guard_condition = []"
    by code_simp
  have "(''x'', ''int64'') \<in> typed_reads (SymbolReferenceValue ''c2'' ''x'' ''int64'')"
    by (subst typed_reads.simps) simp
  then show "(''x'', ''int64'') \<in> typed_reads guard_condition"
    unfolding guard_condition_def by (subst typed_reads.simps) simp
qed

section \<open>The editor\<close>

text \<open>C4. Whatever sequence of successful commands runs on a draft, the document stays a draft:
  the model accepts it, identifiers are unique, and it has no diagnostic but missing reviews
  and missing configuration.\<close>

theorem editor_keeps_drafts:
  assumes "draft_ok E d" and "(edits E)\<^sup>*\<^sup>* d d'"
  shows "draft_ok E d' \<and> distinct (document_ids d')"
  using edits_reachable_draft [OF assms(2,1)]
  by (simp add: draft_ok_def model_validate_def stable_ids_unique_def)

lemma sample_edit: "edits sample_env sample_document (er_document (edited_of sample_guarded))"
  by (rule edit_insert_if [OF sample_guarded_step])

lemma sample_edits: "(edits sample_env)\<^sup>*\<^sup>* sample_document (er_document (edited_of sample_guarded))"
  using sample_edit by (rule r_into_rtranclp)

theorem editor_keeps_drafts_witness:
  "draft_ok sample_env (er_document (edited_of sample_guarded)) \<and>
   distinct (document_ids (er_document (edited_of sample_guarded)))"
  by (rule editor_keeps_drafts [OF sample_draft sample_edits])

text \<open>C5. No sequence of edits can leave a program that reads an unbound local or jumps outside
  a loop.\<close>

theorem edited_program_in_scope:
  assumes "draft_ok E d" and "(edits E)\<^sup>*\<^sup>* d d'"
  shows "definitely_assigned (parameter_symbols d') (doc_statements d') \<and> jumps_in_loops False (doc_statements d')"
  using edits_reachable_draft [OF assms(2,1)] by (simp add: draft_ok_definitely_assigned draft_ok_jumps)

theorem edited_program_in_scope_witness:
  "definitely_assigned (parameter_symbols (er_document (edited_of sample_guarded)))
     (doc_statements (er_document (edited_of sample_guarded))) \<and>
   jumps_in_loops False (doc_statements (er_document (edited_of sample_guarded)))"
  by (rule edited_program_in_scope [OF sample_draft sample_edits])

text \<open>C6. Deleting the statement an insertion selected gives back the document as it was.\<close>

theorem delete_undoes_insert:
  assumes "draft_ok E d" and "insert_structured_statement E d s loc = Inr r"
  shows "\<exists>r'. delete_statement E (er_document r) (er_selected r) = Inr r' \<and> er_document r' = d"
  by (rule insert_then_delete [OF assms])

lemma sample_insertion:
  "insert_structured_statement (unlinked sample_env) sample_document
     (IfStatement (new_stable_id sample_uuid ''stmt'' 0) guard_condition [] [] [] None) root_location =
   Inr (edited_of sample_guarded)"
  using sample_guarded_step by (simp only: insert_if_def)

theorem delete_undoes_insert_witness:
  "\<exists>r'. delete_statement (unlinked sample_env) (er_document (edited_of sample_guarded))
     (er_selected (edited_of sample_guarded)) = Inr r' \<and> er_document r' = sample_document"
  using sample_draft by (intro delete_undoes_insert [OF _ sample_insertion]) simp

text \<open>C7. Moving a statement keeps every statement of the program exactly once, with its values,
  bindings and clauses; only its place changes.\<close>

theorem move_loses_nothing:
  assumes "move_statement E d sid loc = Inr r"
  shows "shells (doc_statements (er_document r)) = shells (doc_statements d)"
  by (rule move_statement_shells [OF assms])

theorem move_loses_nothing_witness:
  "shells (doc_statements (er_document (edited_of sample_moved))) = shells (doc_statements sample_document)"
  by (rule move_loses_nothing [OF sample_moved_step])

text \<open>C8. Copying a statement adds a tree of the same outline, kinds, callees and nested blocks, whose
  identifiers are all new to the document; everything else stays as it was.\<close>

theorem copy_adds_subtree:
  assumes "copy_statement D uuid E d sid loc = Inr r"
  shows "\<exists>s c. s \<in> set (iter_statement_tree (doc_statements d)) \<and> statement_id s = sid \<and> outline c = outline s \<and>
    shells (doc_statements (er_document r)) = shells (doc_statements d) + shells [c] \<and>
    set (block_ids [c]) \<inter> set (document_ids d) = {} \<and> er_selected r = statement_id c"
  by (rule copy_statement_adds [OF assms])

theorem copy_adds_subtree_witness:
  "\<exists>s c. s \<in> set (iter_statement_tree (doc_statements sample_document)) \<and> statement_id s = ''s2'' \<and> outline c = outline s \<and>
    shells (doc_statements (er_document (edited_of sample_copied))) = shells (doc_statements sample_document) + shells [c] \<and>
    set (block_ids [c]) \<inter> set (document_ids sample_document) = {} \<and> er_selected (edited_of sample_copied) = statement_id c"
  by (rule copy_adds_subtree [OF sample_copied_step])

text \<open>C9. A deletion removes the named statement with everything inside it, once, and nothing else.\<close>

theorem delete_removes_subtree:
  assumes "delete_statement E d sid = Inr r"
  shows "\<exists>s. statement_id s = sid \<and> s \<in> set (iter_statement_tree (doc_statements d)) \<and>
    shells (doc_statements (er_document r)) + shells [s] = shells (doc_statements d)"
  using delete_statement_shells [OF assms] by blast

theorem delete_removes_subtree_witness:
  "\<exists>s. statement_id s = ''s2'' \<and> s \<in> set (iter_statement_tree (doc_statements sample_document)) \<and>
    shells (doc_statements (er_document (edited_of sample_deleted))) + shells [s] =
    shells (doc_statements sample_document)"
  by (rule delete_removes_subtree [OF sample_deleted_step])

text \<open>C10. Deleting a selection removes exactly the named statements and what is inside them.\<close>

theorem delete_row_removes_subtrees:
  assumes "delete_statements E d ids = Inr r"
  shows "\<exists>ss. set (map statement_id ss) = set ids \<and> set ss \<subseteq> set (iter_statement_tree (doc_statements d)) \<and>
    shells (doc_statements (er_document r)) + shells ss = shells (doc_statements d)"
  by (rule delete_statements_shells [OF assms])

theorem delete_row_removes_subtrees_witness:
  "\<exists>ss. set (map statement_id ss) = set [''s4'', ''s2''] \<and>
    set ss \<subseteq> set (iter_statement_tree (doc_statements sample_document)) \<and>
    shells (doc_statements (er_document (edited_of sample_deleted_row))) + shells ss =
    shells (doc_statements sample_document)"
  by (rule delete_row_removes_subtrees [OF sample_deleted_row_step])

text \<open>C11. Updating the value of an assignment changes that statement alone and keeps the
  identifier of the value slot, whatever the new value is.\<close>

theorem update_assignment_keeps_identity:
  assumes "update_assignment_value E d sid v = Inr r"
  shows "\<exists>t current l.
    AssignmentStatement sid t current l \<in> set (iter_statement_tree (doc_statements d)) \<and>
    add_mset (AssignmentStatement sid t current l) (shells (doc_statements (er_document r))) =
    add_mset (AssignmentStatement sid t (with_value_id (value_id current) v) l) (shells (doc_statements d))"
proof -
  obtain s s' cr where s: "s \<in> set (iter_statement_tree (doc_statements d))" "statement_id s = sid"
    and f: "(case s of AssignmentStatement i t current l \<Rightarrow>
         rbind (replace_value current v) (\<lambda>v'. Inr (AssignmentStatement i t v' l, []))
       | _ \<Rightarrow> Inl ProgramCommandError) = Inr (s', cr)"
    and frame: "add_mset (shell s) (shells (doc_statements (er_document r))) =
      add_mset (shell s') (shells (doc_statements d))"
    using assms unfolding update_assignment_value_def
    by (rule update_statement_frame) (auto simp: rbind_Inr_iff split: statement.splits)
  from f obtain i t current l where "s = AssignmentStatement i t current l"
    "s' = AssignmentStatement i t (with_value_id (value_id current) v) l"
    by (auto simp: rbind_Inr_iff replace_value_def split: statement.splits if_splits)
  with s frame show ?thesis by (auto simp: shell_def)
qed

theorem update_assignment_keeps_identity_witness:
  "\<exists>t current l.
    AssignmentStatement ''s1'' t current l \<in> set (iter_statement_tree (doc_statements sample_document)) \<and>
    add_mset (AssignmentStatement ''s1'' t current l) (shells (doc_statements (er_document (edited_of sample_updated)))) =
    add_mset (AssignmentStatement ''s1'' t (with_value_id (value_id current) (IntValue ''fresh'' 7)) l)
      (shells (doc_statements sample_document))"
  by (rule update_assignment_keeps_identity [OF sample_updated_step])

text \<open>C12. What a statement is dumped to reads back as the statement, when the validation library reads
  booleans, and the dates and times in it, as they were written.\<close>

theorem dumped_statement_reads_back:
  assumes "reads_dumps D [s]"
  shows "decode_statement D (encode_statement s) = Some s"
  by (rule decode_encode_statement [OF assms])

theorem dumped_statement_reads_back_witness:
  "decode_statement sample_decode (encode_statement sample_loop) = Some sample_loop"
  by (rule dumped_statement_reads_back [OF sample_reads])

end
